(* ===== verification/Prelude.thy ===== *)
theory Prelude
  imports Complex_Main "HOL-Library.Word" "HOL-Library.AList" "HOL-Library.Multiset"
    "HOL-Library.Monad_Syntax"
begin

section \<open>Prelude: the Go constructs the components share\<close>

text \<open>
  The vocabulary of the development: Go maps, slices that may be out of range, decimal
  rendering, fixed-width conversions and the finite part of \<open>float64\<close>, with the lemmas the
  component theories rely on.

  \<^item> A Go map (\<open>map[K]V\<close> or \<open>sync.Map\<close>) is an association list with distinct keys
    (\<open>gomap_wf\<close>). The order of the list is the order in which the next \<open>range\<close> loop visits
    the keys. Go leaves that order open; the theorems quantify over all lists, hence over all orders.
  \<^item> A run-time panic is the value \<open>None\<close> of an option; code that cannot panic has no option.
  \<^item> Go strings are byte strings, so \<open>string\<close> (a list of 8-bit characters) is the same data.
\<close>

named_theorems go_simps \<open>unfolding rules for the primitive Go operations\<close>
named_theorems wf_intros \<open>preservation of the well-formedness of maps and component states\<close>

type_synonym u8 = "8 word"
type_synonym u32 = "32 word"
type_synonym u64 = "64 word"

text \<open>Finite \<open>float64\<close> values are rationals; conversions round as the hardware does.\<close>

type_synonym f64 = rat

subsection \<open>Go maps\<close>

type_synonym ('k, 'v) gomap = "('k \<times> 'v) list"

definition gomap_wf :: "('k, 'v) gomap \<Rightarrow> bool" where
  "gomap_wf m \<longleftrightarrow> distinct (map fst m)"

abbreviation map_load :: "('k, 'v) gomap \<Rightarrow> 'k \<Rightarrow> 'v option" where
  "map_load m k \<equiv> map_of m k"

definition map_store :: "'k \<Rightarrow> 'v \<Rightarrow> ('k, 'v) gomap \<Rightarrow> ('k, 'v) gomap" where
  "map_store k v m = AList.update k v m"

definition map_delete :: "'k \<Rightarrow> ('k, 'v) gomap \<Rightarrow> ('k, 'v) gomap" where
  "map_delete k m = filter (\<lambda>kv. fst kv \<noteq> k) m"

text \<open>\<open>m.Range(func(k, v) \<dots> Delete(k))\<close>: the entries that satisfy \<open>P\<close> stay.\<close>

definition map_keep :: "('k \<Rightarrow> 'v \<Rightarrow> bool) \<Rightarrow> ('k, 'v) gomap \<Rightarrow> ('k, 'v) gomap" where
  "map_keep P m = filter (\<lambda>(k, v). P k v) m"

text \<open>\<open>m.Range\<close> that overwrites every value in place.\<close>

definition map_values :: "('v \<Rightarrow> 'w) \<Rightarrow> ('k, 'v) gomap \<Rightarrow> ('k, 'w) gomap" where
  "map_values f m = map (\<lambda>(k, v). (k, f v)) m"

lemma map_of_filter_distinct:
  "distinct (map fst m) \<Longrightarrow>
   map_of (filter P m) k =
     (case map_of m k of None \<Rightarrow> None | Some v \<Rightarrow> if P (k, v) then Some v else None)"
proof (induction m)
  case Nil
  then show ?case by simp
next
  case (Cons x m)
  show ?case
  proof (cases "fst x = k")
    case True
    with Cons.prems have "map_of m k = None"
      by (auto simp: map_of_eq_None_iff)
    with Cons True show ?thesis by (cases x) auto
  next
    case False
    with Cons show ?thesis by (cases x) auto
  qed
qed

lemma load_store [simp]: "map_load (map_store k v m) j = (if j = k then Some v else map_load m j)"
  by (simp add: map_store_def update_conv)

lemma load_delete [simp]: "map_load (map_delete k m) j = (if j = k then None else map_load m j)"
  by (induction m) (auto simp: map_delete_def)

lemma delete_absent: "map_load m k = None \<Longrightarrow> map_delete k m = m"
  by (auto simp: map_delete_def filter_id_conv map_of_eq_None_iff)

lemma load_keep:
  "gomap_wf m \<Longrightarrow> map_load (map_keep P m) k =
     (case map_load m k of None \<Rightarrow> None | Some v \<Rightarrow> if P k v then Some v else None)"
  by (cases "map_load m k") (simp_all add: map_keep_def gomap_wf_def map_of_filter_distinct)

lemma load_values [simp]: "map_load (map_values f m) k = map_option f (map_load m k)"
  by (induction m) (auto simp: map_values_def)

lemma keys_store: "fst ` set (map_store k v m) = insert k (fst ` set m)"
  by (induction m) (auto simp: map_store_def)

lemma dom_store [simp]: "dom (map_of (map_store k v m)) = insert k (dom (map_of m))"
  by (auto simp: dom_def split: if_splits)

lemma dom_keep: "dom (map_of (map_keep P m)) \<subseteq> dom (map_of m)"
  by (auto simp: map_keep_def dom_map_of_conv_image_fst)

lemma wf_Nil [simp, wf_intros]: "gomap_wf []"
  by (simp add: gomap_wf_def)

lemma wf_store [wf_intros]: "gomap_wf m \<Longrightarrow> gomap_wf (map_store k v m)"
  by (simp add: gomap_wf_def map_store_def distinct_update)

lemma wf_delete [wf_intros]: "gomap_wf m \<Longrightarrow> gomap_wf (map_delete k m)"
  by (simp add: gomap_wf_def map_delete_def distinct_map_filter)

lemma wf_keep [wf_intros]: "gomap_wf m \<Longrightarrow> gomap_wf (map_keep P m)"
  by (simp add: gomap_wf_def map_keep_def distinct_map_filter)

lemma wf_values [wf_intros]: "gomap_wf m \<Longrightarrow> gomap_wf (map_values f m)"
  by (simp add: gomap_wf_def map_values_def split_def comp_def)

lemma wf_load_iff: "gomap_wf m \<Longrightarrow> map_load m k = Some v \<longleftrightarrow> (k, v) \<in> set m"
  by (simp add: gomap_wf_def)

text \<open>\<open>len(m)\<close> grows by one exactly when the stored key is new.\<close>

lemma length_store:
  "length (map_store k v m) = (if map_load m k = None then Suc (length m) else length m)"
  by (induction m) (auto simp: map_store_def split: if_splits)

subsection \<open>Slices\<close>

text \<open>\<open>xs[n:]\<close>, \<open>xs[:n]\<close> and \<open>xs[i]\<close>; \<open>None\<close> is the out-of-range panic.\<close>

definition slice_from :: "'a list \<Rightarrow> int \<Rightarrow> 'a list option" where
  "slice_from xs n = (if 0 \<le> n \<and> n \<le> int (length xs) then Some (drop (nat n) xs) else None)"

definition slice_to :: "'a list \<Rightarrow> int \<Rightarrow> 'a list option" where
  "slice_to xs n = (if 0 \<le> n \<and> n \<le> int (length xs) then Some (take (nat n) xs) else None)"

definition index_at :: "'a list \<Rightarrow> int \<Rightarrow> 'a option" where
  "index_at xs i = (if 0 \<le> i \<and> i < int (length xs) then Some (xs ! nat i) else None)"

lemma slice_from_len [simp]: "slice_from (xs @ ys) (int (length xs)) = Some ys"
  by (simp add: slice_from_def)

lemma slice_to_len [simp]: "slice_to (xs @ ys) (int (length xs)) = Some xs"
  by (simp add: slice_to_def)

lemma slice_from_all [simp]: "slice_from xs (int (length xs)) = Some []"
  by (simp add: slice_from_def)

lemma slice_to_all [simp]: "slice_to xs (int (length xs)) = Some xs"
  by (simp add: slice_to_def)

lemma slice_from_Some_iff:
  "slice_from xs n = Some ys \<longleftrightarrow> 0 \<le> n \<and> n \<le> int (length xs) \<and> ys = drop (nat n) xs"
  by (auto simp: slice_from_def)

subsection \<open>Strings\<close>

text \<open>\<open>strings.HasPrefix\<close>, \<open>strings.HasSuffix\<close> and \<open>strings.Split(s, sep)\<close> for one separator byte.\<close>

definition has_prefix :: "string \<Rightarrow> string \<Rightarrow> bool" where
  "has_prefix s p \<longleftrightarrow> take (length p) s = p"

definition has_suffix :: "string \<Rightarrow> string \<Rightarrow> bool" where
  "has_suffix s p \<longleftrightarrow> length p \<le> length s \<and> drop (length s - length p) s = p"

fun split_on :: "char \<Rightarrow> string \<Rightarrow> string list" where
  "split_on c [] = [[]]"
| "split_on c (x # xs) =
     (let r = split_on c xs in if x = c then [] # r else (x # hd r) # tl r)"

lemma has_prefix_iff: "has_prefix s p \<longleftrightarrow> (\<exists>t. s = p @ t)"
  unfolding has_prefix_def by (metis append_eq_conv_conj append_take_drop_id)

lemma has_suffix_iff: "has_suffix s p \<longleftrightarrow> (\<exists>t. s = t @ p)"
  unfolding has_suffix_def
  by (metis append_eq_conv_conj append_take_drop_id diff_add_inverse2 le_add2 length_append)

lemma split_on_nonempty [simp]: "split_on c s \<noteq> []"
  by (induction s) (auto simp: Let_def)

lemma split_on_no_sep: "c \<notin> set s \<Longrightarrow> split_on c s = [s]"
  by (induction s) (auto simp: Let_def)

lemma split_on_append: "c \<notin> set s \<Longrightarrow> split_on c (s @ c # t) = s # split_on c t"
  by (induction s) (auto simp: Let_def)

text \<open>Decimal rendering of a natural number, as \<open>%d\<close>, \<open>strconv.Itoa\<close> and \<open>FormatInt\<close> print it.\<close>

definition digit_char :: "nat \<Rightarrow> char" where
  "digit_char d = char_of (48 + d)"

fun dec :: "nat \<Rightarrow> string" where
  "dec n = (if n < 10 then [digit_char n] else dec (n div 10) @ [digit_char (n mod 10)])"

declare dec.simps [simp del]

definition dec_int :: "int \<Rightarrow> string" where
  "dec_int i = (if i < 0 then ''-'' @ dec (nat (- i)) else dec (nat i))"

definition format_bool :: "bool \<Rightarrow> string" where
  "format_bool b = (if b then ''true'' else ''false'')"

lemma of_digit_char: "d < 10 \<Longrightarrow> of_char (digit_char d) = (48 + d :: nat)"
  by (simp add: digit_char_def take_bit_nat_eq_self)

lemma digit_char_inj: "d < 10 \<Longrightarrow> e < 10 \<Longrightarrow> digit_char d = digit_char e \<Longrightarrow> d = e"
  by (metis add_left_cancel of_digit_char)

lemma digit_char_not_dash: "d < 10 \<Longrightarrow> digit_char d \<noteq> CHR ''-''"
  using of_digit_char [of d] by auto

lemma dec_nonempty [simp]: "dec n \<noteq> []"
  by (subst dec.simps) simp

lemma dec_no_dash: "CHR ''-'' \<notin> set (dec n)"
proof (induction n rule: dec.induct)
  case (1 n)
  then show ?case
    by (subst dec.simps) (auto simp: digit_char_not_dash [symmetric] dest: digit_char_not_dash)
qed

lemma dec_inj: "dec m = dec n \<Longrightarrow> m = n"
proof (induction m arbitrary: n rule: dec.induct)
  case (1 m)
  show ?case
  proof (cases "m < 10 \<or> n < 10")
    case True
    with "1.prems" show ?thesis
      by (subst (asm) (1 2) dec.simps) (auto split: if_splits dest: digit_char_inj simp: dec_nonempty [symmetric])
  next
    case False
    with "1.prems" have e: "dec (m div 10) @ [digit_char (m mod 10)] = dec (n div 10) @ [digit_char (n mod 10)]"
      by (subst (asm) (1 2) dec.simps) auto
    then have "m div 10 = n div 10" and "m mod 10 = n mod 10"
      using "1.IH" [of "n div 10"] False by (auto intro: digit_char_inj [of "m mod 10" "n mod 10"])
    then show ?thesis by (metis div_mult_mod_eq)
  qed
qed

text \<open>A rendering that ends its number with a dash can be taken apart again.\<close>

lemma append_sep_inj:
  "c \<notin> set xs \<Longrightarrow> c \<notin> set ys \<Longrightarrow> xs @ c # us = ys @ c # vs \<Longrightarrow> xs = ys \<and> us = vs"
proof (induction xs arbitrary: ys)
  case Nil
  then show ?case by (cases ys) auto
next
  case (Cons x xs)
  then show ?case by (cases ys) auto
qed

subsection \<open>Fixed-width conversions\<close>

text \<open>\<open>int32\<close> arithmetic on integers: the value wraps into the range of the type.\<close>

definition i32 :: "int \<Rightarrow> int" where
  "i32 x = signed_take_bit 31 x"

lemma i32_id: "- (2 ^ 31) \<le> x \<Longrightarrow> x < 2 ^ 31 \<Longrightarrow> i32 x = x"
  unfolding i32_def by (rule signed_take_bit_int_eq_self) simp_all

lemma i32_bounds: "- (2 ^ 31) \<le> i32 x \<and> i32 x < 2 ^ 31"
  unfolding i32_def
  using signed_take_bit_int_greater_eq_minus_exp [of 31 x] signed_take_bit_int_less_exp [of 31 x]
  by simp

definition i64 :: "int \<Rightarrow> int" where
  "i64 x = signed_take_bit 63 x"

lemma i64_id: "- (2 ^ 63) \<le> x \<Longrightarrow> x < 2 ^ 63 \<Longrightarrow> i64 x = x"
  unfolding i64_def by (rule signed_take_bit_int_eq_self) simp_all

text \<open>\<open>int(d.Seconds())\<close> of a \<open>time.Duration\<close> in nanoseconds: whole seconds, towards zero.\<close>

definition dur_seconds :: "int \<Rightarrow> int" where
  "dur_seconds d = sgn d * (\<bar>d\<bar> div 1000000000)"

text \<open>
  \<open>float64(n)\<close> for an unsigned integer: 53 significant bits, round half to even. \<open>uint64(f)\<close> truncates
  towards zero; a value that does not fit is left to the implementation by the language, and here is that of amd64: the
  conversion instruction to a signed integer, whose answer for everything out of range is \<open>2 ^ 63\<close>, applied below
  \<open>2 ^ 63\<close> as it is and from there on to \<open>f - 2 ^ 63\<close>, with the top bit flipped.
\<close>

fun bit_len :: "nat \<Rightarrow> nat" where
  "bit_len n = (if n = 0 then 0 else Suc (bit_len (n div 2)))"

declare bit_len.simps [simp del]

definition round53 :: "nat \<Rightarrow> nat" where
  "round53 n =
     (if n < 2 ^ 53 then n
      else let e = bit_len n - 53; q = n div 2 ^ e; r = n mod 2 ^ e; h = 2 ^ (e - 1)
           in (if r < h \<or> (r = h \<and> even q) then q else q + 1) * 2 ^ e)"

definition f64_of_u64 :: "u64 \<Rightarrow> f64" where
  "f64_of_u64 w = of_nat (round53 (unat w))"

definition f64_trunc :: "f64 \<Rightarrow> int" where
  "f64_trunc f = (if 0 \<le> f then \<lfloor>f\<rfloor> else \<lceil>f\<rceil>)"

definition convert_signed :: "f64 \<Rightarrow> u64" where
  "convert_signed f = (let i = f64_trunc f in if - (2 ^ 63) \<le> i \<and> i < 2 ^ 63 then word_of_int i else 2 ^ 63)"

definition u64_of_f64 :: "f64 \<Rightarrow> u64" where
  "u64_of_f64 f = (if f < 2 ^ 63 then convert_signed f else convert_signed (f - 2 ^ 63) + 2 ^ 63)"

lemma u64_of_f64_nat:
  assumes "n < 2 ^ 53"
  shows "u64_of_f64 (of_nat n) = of_nat n"
proof -
  have "f64_trunc (of_nat n) = int n" by (simp add: f64_trunc_def)
  moreover have "int n < 2 ^ 63" using assms by simp
  moreover have "(of_nat n :: rat) < 2 ^ 63" using assms by (simp add: of_nat_less_iff [where ?'a = rat, of n "2 ^ 63", simplified])
  ultimately show ?thesis by (simp add: u64_of_f64_def convert_signed_def)
qed

lemma f64_u64_roundtrip: "unat w < 2 ^ 53 \<Longrightarrow> u64_of_f64 (f64_of_u64 w) = w"
proof -
  assume w: "unat w < 2 ^ 53"
  then have "f64_of_u64 w = of_nat (unat w)"
    by (simp only: f64_of_u64_def round53_def if_True)
  with u64_of_f64_nat [OF w] show ?thesis by simp
qed

subsection \<open>Sums over maps\<close>

lemma set_store_subset: "set (map_store k v m) \<subseteq> insert (k, v) (set m)"
  by (induction m) (auto simp: map_store_def)

lemma set_delete_subset: "set (map_delete k m) \<subseteq> set m"
  by (auto simp: map_delete_def)

lemma map_store_absent: "map_load m k = None \<Longrightarrow> map_store k v m = m @ [(k, v)]"
  by (induction m) (auto simp: map_store_def split: if_splits)

lemma sum_delete:
  fixes f :: "'k \<times> 'v \<Rightarrow> 'm multiset"
  shows "gomap_wf m \<Longrightarrow> map_load m k = Some v \<Longrightarrow> sum_list (map f m) = f (k, v) + sum_list (map f (map_delete k m))"
proof (induction m)
  case (Cons kv m)
  show ?case
  proof (cases "fst kv = k")
    case True
    then have "map_load m k = None" using Cons.prems(1) by (auto simp: gomap_wf_def map_of_eq_None_iff)
    then have "map_delete k (kv # m) = m" using True delete_absent[of m k] by (simp add: map_delete_def)
    then show ?thesis using True Cons.prems(2) by (cases kv) auto
  next
    case False
    then show ?thesis using Cons by (cases kv) (auto simp: gomap_wf_def map_delete_def add.left_commute)
  qed
qed simp

subsection \<open>Loops whose body may panic\<close>

fun fold_opt :: "('a \<Rightarrow> 's \<Rightarrow> 's option) \<Rightarrow> 'a list \<Rightarrow> 's \<Rightarrow> 's option" where
  "fold_opt f [] s = Some s"
| "fold_opt f (x # xs) s = f x s \<bind> fold_opt f xs"

lemma fold_opt_append: "fold_opt f (xs @ ys) s = fold_opt f xs s \<bind> fold_opt f ys"
  by (induction xs arbitrary: s) (auto split: bind_split)

lemma fold_opt_concat: "fold_opt (\<lambda>x. fold_opt f (g x)) xs s = fold_opt f (concat (map g xs)) s"
  by (induction xs arbitrary: s) (auto simp: fold_opt_append split: bind_split)

end
