(* ===== verification/Pdata.thy ===== *)
theory Pdata
  imports Prelude
begin

section \<open>Telemetry data: spans, resources, trace labels\<close>

text \<open>
  The data that flows through the collector. OTLP messages (\<open>ptrace.Traces\<close> and below) and the
  labels of \<open>apo-module\<close> are third-party message types: they appear here as plain data, a record
  per message with the fields the code reads or writes. The functions of those packages that the
  code calls on them (hex rendering of identifiers and the like) are not defined: they are the
  fields of \<open>pdata_api\<close>, which every definition that needs them takes as an argument.

  From \<open>pkg/fillproc/resource_attr.go\<close> this theory models \<open>GetPid\<close> and \<open>GetContainerId\<close>, and
  from \<open>backsamplingprocessor/processor.go\<close> the resource helpers and \<open>groupSpansByTraceId\<close>.
\<close>

subsection \<open>Attributes\<close>

datatype attr_value = ValueStr string | ValueInt int | ValueBool bool | ValueDouble f64

type_synonym attrs = "(string, attr_value) gomap"

text \<open>The typed getters of an attribute value: the zero value when the type differs.\<close>

fun value_Str :: "attr_value \<Rightarrow> string" where
  "value_Str (ValueStr s) = s"
| "value_Str _ = []"

fun value_Int :: "attr_value \<Rightarrow> int" where
  "value_Int (ValueInt i) = i"
| "value_Int _ = 0"

subsection \<open>Spans and traces\<close>

type_synonym trace_id = "u8 list"
type_synonym span_id = "u8 list"

datatype span_kind =
  SpanKindUnspecified | SpanKindInternal | SpanKindServer | SpanKindClient
| SpanKindProducer | SpanKindConsumer

datatype status_code = StatusCodeUnset | StatusCodeOk | StatusCodeError

record span_event =
  ev_Name :: string
  ev_Timestamp :: u64
  ev_Attributes :: attrs

record span_link =
  ln_TraceID :: trace_id
  ln_SpanID :: span_id
  ln_Attributes :: attrs

record span =
  sp_TraceID :: trace_id
  sp_SpanID :: span_id
  sp_ParentSpanID :: span_id
  sp_Name :: string
  sp_Kind :: span_kind
  sp_StartTimestamp :: u64
  sp_EndTimestamp :: u64
  sp_Attributes :: attrs
  sp_StatusCode :: status_code
  sp_StatusMessage :: string
  sp_Events :: "span_event list"
  sp_Links :: "span_link list"

type_synonym resource = attrs

record scope_spans =
  ss_Scope :: string
  ss_Spans :: "span list"

record resource_spans =
  rs_Resource :: resource
  rs_ScopeSpans :: "scope_spans list"

type_synonym traces = "resource_spans list"

definition rs_spans :: "resource_spans \<Rightarrow> span list" where
  "rs_spans rs = concat (map ss_Spans (rs_ScopeSpans rs))"

definition traces_spans :: "traces \<Rightarrow> span list" where
  "traces_spans td = concat (map rs_spans td)"

record pdata_api =
  TraceID_IsEmpty :: "trace_id \<Rightarrow> bool"
  TraceID_String :: "trace_id \<Rightarrow> string"
  SpanID_IsEmpty :: "span_id \<Rightarrow> bool"
  SpanID_String :: "span_id \<Rightarrow> string"
  Value_AsString :: "attr_value \<Rightarrow> string"

subsection \<open>Trace labels (\<open>apo-module/model/v1\<close>)\<close>

record trace_labels =
  tl_Pid :: u32
  tl_Tid :: u32
  tl_TopSpan :: bool
  tl_Protocol :: string
  tl_ServiceName :: string
  tl_Url :: string
  tl_HttpUrl :: string
  tl_IsSampled :: bool
  tl_IsSlow :: bool
  tl_IsServer :: bool
  tl_IsError :: bool
  tl_IsProfiled :: bool
  tl_ReportType :: u32
  tl_SampleValue :: int
  tl_ThresholdType :: string
  tl_ThresholdRange :: string
  tl_ThresholdValue :: f64
  tl_ThresholdMultiple :: f64
  tl_TraceId :: string
  tl_ApmType :: string
  tl_ApmSpanId :: string
  tl_ContainerId :: string
  tl_StartTime :: u64
  tl_Duration :: u64
  tl_EndTime :: u64
  tl_NodeName :: string
  tl_NodeIp :: string
  tl_ClusterID :: string

text \<open>The zero values of Go, for concrete instances.\<close>

definition zero_labels :: trace_labels where
  "zero_labels =
     \<lparr>tl_Pid = 0, tl_Tid = 0, tl_TopSpan = False, tl_Protocol = [], tl_ServiceName = [], tl_Url = [],
      tl_HttpUrl = [], tl_IsSampled = False, tl_IsSlow = False, tl_IsServer = False, tl_IsError = False,
      tl_IsProfiled = False, tl_ReportType = 0, tl_SampleValue = 0, tl_ThresholdType = [],
      tl_ThresholdRange = [], tl_ThresholdValue = 0, tl_ThresholdMultiple = 0, tl_TraceId = [],
      tl_ApmType = [], tl_ApmSpanId = [], tl_ContainerId = [], tl_StartTime = 0, tl_Duration = 0,
      tl_EndTime = 0, tl_NodeName = [], tl_NodeIp = [], tl_ClusterID = []\<rparr>"

definition zero_span :: span where
  "zero_span =
     \<lparr>sp_TraceID = replicate 16 0, sp_SpanID = replicate 8 0, sp_ParentSpanID = replicate 8 0, sp_Name = [],
      sp_Kind = SpanKindUnspecified, sp_StartTimestamp = 0, sp_EndTimestamp = 0, sp_Attributes = [],
      sp_StatusCode = StatusCodeUnset, sp_StatusMessage = [], sp_Events = [], sp_Links = []\<rparr>"

record trace_group =
  tg_Name :: string
  tg_Version :: string
  tg_Source :: string
  tg_Timestamp :: u64
  tg_Labels :: trace_labels

subsection \<open>Attribute names\<close>

abbreviation KEY_PID :: string where "KEY_PID \<equiv> ''apo.pid''"
abbreviation KEY_CONTAINERID :: string where "KEY_CONTAINERID \<equiv> ''apo.containerId''"
abbreviation AttributeProcessPID :: string where "AttributeProcessPID \<equiv> ''process.pid''"
abbreviation AttributeContainerID :: string where "AttributeContainerID \<equiv> ''container.id''"
abbreviation AttributeServiceName :: string where "AttributeServiceName \<equiv> ''service.name''"
abbreviation AttributeThreadID :: string where "AttributeThreadID \<equiv> ''thread.id''"
abbreviation AttributeSkywalkingComponmentId :: string where
  "AttributeSkywalkingComponmentId \<equiv> ''sw8.componment_id''"
abbreviation ComponentUndertow :: int where "ComponentUndertow \<equiv> 84"

subsection \<open>Resource helpers\<close>

definition GetPid :: "attrs \<Rightarrow> int" where
  "GetPid resourceAttr =
     (case map_load resourceAttr KEY_PID of
        Some v \<Rightarrow> value_Int v
      | None \<Rightarrow>
          (case map_load resourceAttr AttributeProcessPID of
             Some v \<Rightarrow> value_Int v
           | None \<Rightarrow> 0))"

definition GetContainerId :: "attrs \<Rightarrow> string" where
  "GetContainerId resourceAttr =
     (case map_load resourceAttr KEY_CONTAINERID of
        Some v \<Rightarrow> value_Str v
      | None \<Rightarrow>
          (case map_load resourceAttr AttributeContainerID of
             Some v \<Rightarrow> value_Str v
           | None \<Rightarrow> []))"

definition getAppInfo :: "resource \<Rightarrow> u32 \<times> string \<times> string" where
  "getAppInfo resource =
     (let pidIntValue = GetPid resource in
      if pidIntValue \<le> 0 then (0, [], [])
      else case map_load resource AttributeServiceName of
             None \<Rightarrow> (0, [], [])
           | Some serviceAttr \<Rightarrow>
               (let containerId = GetContainerId resource in
                (word_of_int pidIntValue, value_Str serviceAttr,
                 if length containerId > 12 then take 12 containerId else containerId)))"

definition getSkywalkingTraceId :: "resource \<Rightarrow> string" where
  "getSkywalkingTraceId resource =
     (case map_load resource ''sw8.trace_id'' of Some v \<Rightarrow> value_Str v | None \<Rightarrow> [])"

definition getClusterID :: "resource \<Rightarrow> string" where
  "getClusterID resource =
     (case map_load resource ''cluster_id'' of Some v \<Rightarrow> value_Str v | None \<Rightarrow> [])"

text \<open>An entry span is a server or consumer span that is not the Undertow dispatcher.\<close>

definition IsEntrySpan :: "span \<Rightarrow> bool" where
  "IsEntrySpan sp =
     (if sp_Kind sp \<noteq> SpanKindServer \<and> sp_Kind sp \<noteq> SpanKindConsumer then False
      else case map_load (sp_Attributes sp) AttributeSkywalkingComponmentId of
             Some v \<Rightarrow> value_Int v \<noteq> ComponentUndertow
           | None \<Rightarrow> True)"

subsection \<open>Grouping the spans of a resource by trace\<close>

definition group_add :: "(trace_id, span list) gomap \<Rightarrow> span \<Rightarrow> (trace_id, span list) gomap" where
  "group_add idToSpans sp =
     (let key = sp_TraceID sp;
          old = (case map_load idToSpans key of Some ss \<Rightarrow> ss | None \<Rightarrow> [])
      in map_store key (old @ [sp]) idToSpans)"

definition groupSpansByTraceId :: "resource_spans \<Rightarrow> (trace_id, span list) gomap" where
  "groupSpansByTraceId resourceSpans =
     foldl (\<lambda>m ils. foldl group_add m (ss_Spans ils)) [] (rs_ScopeSpans resourceSpans)"

lemma foldl_group_flat:
  "foldl (\<lambda>m ils. foldl group_add m (ss_Spans ils)) m sss =
     foldl group_add m (concat (map ss_Spans sss))"
  by (induction sss arbitrary: m) auto

lemma foldl_group_add_wf: "gomap_wf m \<Longrightarrow> gomap_wf (foldl group_add m spans)"
  by (induction spans arbitrary: m) (simp_all add: group_add_def Let_def wf_store)

lemma foldl_group_add_load:
  "map_load (foldl group_add m spans) t =
     (if filter (\<lambda>s. sp_TraceID s = t) spans = [] then map_load m t
      else Some ((case map_load m t of None \<Rightarrow> [] | Some ss \<Rightarrow> ss) @ filter (\<lambda>s. sp_TraceID s = t) spans))"
  by (induction spans arbitrary: m) (auto simp: group_add_def Let_def split: option.splits)

lemma group_wf: "gomap_wf (groupSpansByTraceId rs)"
  by (simp add: groupSpansByTraceId_def foldl_group_flat foldl_group_add_wf)

lemma group_load:
  "map_load (groupSpansByTraceId rs) t =
     (let g = filter (\<lambda>s. sp_TraceID s = t) (rs_spans rs) in if g = [] then None else Some g)"
  by (simp add: groupSpansByTraceId_def foldl_group_flat foldl_group_add_load rs_spans_def Let_def)

text \<open>Each group is the subsequence of one trace, never empty.\<close>

lemma group_entry:
  "(t, g) \<in> set (groupSpansByTraceId rs) \<longleftrightarrow>
     g = filter (\<lambda>s. sp_TraceID s = t) (rs_spans rs) \<and> g \<noteq> []"
  using wf_load_iff [OF group_wf, of rs t g] by (auto simp: group_load Let_def split: if_splits)

text \<open>Appending to one entry of a distinct association list changes one summand only.\<close>

lemma mset_concat_store:
  assumes "gomap_wf m"
  shows "mset (concat (map snd (map_store k ((case map_load m k of None \<Rightarrow> [] | Some ss \<Rightarrow> ss) @ [x]) m))) =
         mset (concat (map snd m)) + {#x#}"
  using assms
  by (induction m) (auto simp: map_store_def gomap_wf_def map_of_eq_None_iff split: option.splits)

lemma mset_foldl_group:
  "gomap_wf m \<Longrightarrow>
   mset (concat (map snd (foldl group_add m spans))) = mset (concat (map snd m)) + mset spans"
proof (induction spans arbitrary: m)
  case Nil
  then show ?case by simp
next
  case (Cons s spans)
  then show ?case
    using mset_concat_store [OF Cons.prems, of "sp_TraceID s" s]
    by (simp add: group_add_def Let_def wf_store)
qed

lemma group_mset: "mset (concat (map snd (groupSpansByTraceId rs))) = mset (rs_spans rs)"
  by (simp add: groupSpansByTraceId_def foldl_group_flat mset_foldl_group rs_spans_def)

end
