(* ===== verification/Silent.thy ===== *)
theory Silent
  imports Pdata
begin

section \<open>Silencing of repeated slow and error samples\<close>

text \<open>
  \<open>sampler/silent.go\<close>: per process and URL at most \<open>count\<close> slow or error samples pass, until the
  entry is cleared. In window mode all entries are cleared when a window of \<open>period\<close> seconds ends;
  in wait mode an entry is cleared \<open>period\<close> seconds after its last permitted sample. The clock is an
  argument of the operations.
\<close>

definition getPidUrl :: "trace_labels \<Rightarrow> string" where
  "getPidUrl trace = dec (unat (tl_Pid trace)) @ ''-'' @ tl_Url trace"

lemma getPidUrl_inj:
  "getPidUrl a = getPidUrl b \<longleftrightarrow> tl_Pid a = tl_Pid b \<and> tl_Url a = tl_Url b"
proof
  assume "getPidUrl a = getPidUrl b"
  then have "dec (unat (tl_Pid a)) @ CHR ''-'' # tl_Url a = dec (unat (tl_Pid b)) @ CHR ''-'' # tl_Url b"
    by (simp add: getPidUrl_def)
  then have "dec (unat (tl_Pid a)) = dec (unat (tl_Pid b)) \<and> tl_Url a = tl_Url b"
    by (rule append_sep_inj [OF dec_no_dash dec_no_dash])
  then show "tl_Pid a = tl_Pid b \<and> tl_Url a = tl_Url b"
    by (simp add: word_unat_eq_iff dec_inj)
next
  assume "tl_Pid a = tl_Pid b \<and> tl_Url a = tl_Url b"
  then show "getPidUrl a = getPidUrl b" by (simp add: getPidUrl_def)
qed

datatype silent_mode = SilentWindow | SilentWait

record silent_data =
  sd_leftCount :: int
  sd_silentTime :: int

record silent =
  si_pidUrlDatas :: "(string, silent_data) gomap"
  si_count :: int
  si_period :: int
  si_mode :: silent_mode
  si_nextWindowTime :: int

definition NewSilent :: "int \<Rightarrow> int \<Rightarrow> string \<Rightarrow> silent" where
  "NewSilent silentCount silentPeriod silentMode =
     \<lparr>si_pidUrlDatas = [], si_count = silentCount, si_period = silentPeriod,
      si_mode = (if silentMode = ''wait'' then SilentWait else SilentWindow),
      si_nextWindowTime = 0\<rparr>"

definition checkSilent :: "int \<Rightarrow> silent_data \<Rightarrow> silent_data \<times> bool" where
  "checkSilent now d =
     (if sd_leftCount d \<le> 0 then (d, True)
      else if sd_leftCount d = 1 then (d\<lparr>sd_leftCount := 0, sd_silentTime := now\<rparr>, False)
      else (d\<lparr>sd_leftCount := sd_leftCount d - 1, sd_silentTime := 0\<rparr>, False))"

definition IsSilent :: "int \<Rightarrow> string \<Rightarrow> silent \<Rightarrow> silent \<times> bool" where
  "IsSilent now pidUrl s =
     (if si_count s \<le> 0 then (s, True)
      else if si_period s \<le> 0 then (s, False)
      else case map_load (si_pidUrlDatas s) pidUrl of
             Some d \<Rightarrow>
               (let (d', r) = checkSilent now d
                in (s\<lparr>si_pidUrlDatas := map_store pidUrl d' (si_pidUrlDatas s)\<rparr>, r))
           | None \<Rightarrow>
               (s\<lparr>si_pidUrlDatas :=
                    map_store pidUrl \<lparr>sd_leftCount = si_count s - 1, sd_silentTime = 0\<rparr> (si_pidUrlDatas s)\<rparr>,
                False))"

definition isNewWindow :: "int \<Rightarrow> int \<Rightarrow> silent \<Rightarrow> silent \<times> bool" where
  "isNewWindow duration now s =
     (if duration = 0 then (s, True)
      else if si_mode s = SilentWait then (s, False)
      else if si_nextWindowTime s = 0 then (s\<lparr>si_nextWindowTime := now + duration\<rparr>, False)
      else if si_nextWindowTime s \<le> now then (s\<lparr>si_nextWindowTime := now + duration\<rparr>, True)
      else (s, False))"

definition isExpire :: "silent \<Rightarrow> int \<Rightarrow> int \<Rightarrow> bool \<Rightarrow> bool" where
  "isExpire s time now newWindow =
     (if si_period s = 0 then True
      else case si_mode s of
             SilentWait \<Rightarrow> time > 0 \<and> time + si_period s < now
           | SilentWindow \<Rightarrow> newWindow)"

definition CheckAndResetSilent :: "int \<Rightarrow> silent \<Rightarrow> silent" where
  "CheckAndResetSilent now s =
     (let (s1, newWindow) = isNewWindow (si_period s) now s
      in s1\<lparr>si_pidUrlDatas :=
              map_keep (\<lambda>k d. \<not> isExpire s1 (sd_silentTime d) now newWindow) (si_pidUrlDatas s1)\<rparr>)"

subsection \<open>Frame and well-formedness\<close>

lemma IsSilent_frame:
  "si_count (fst (IsSilent now k s)) = si_count s"
  "si_period (fst (IsSilent now k s)) = si_period s"
  "si_mode (fst (IsSilent now k s)) = si_mode s"
  "si_nextWindowTime (fst (IsSilent now k s)) = si_nextWindowTime s"
  by (auto simp: IsSilent_def Let_def split_def split: option.splits)

lemma CheckAndReset_frame:
  "si_count (CheckAndResetSilent now s) = si_count s"
  "si_period (CheckAndResetSilent now s) = si_period s"
  "si_mode (CheckAndResetSilent now s) = si_mode s"
  by (auto simp: CheckAndResetSilent_def isNewWindow_def)

lemma IsSilent_wf [wf_intros]:
  "gomap_wf (si_pidUrlDatas s) \<Longrightarrow> gomap_wf (si_pidUrlDatas (fst (IsSilent now k s)))"
  by (auto simp: IsSilent_def Let_def split_def intro: wf_store split: option.splits)

lemma CheckAndReset_wf [wf_intros]:
  "gomap_wf (si_pidUrlDatas s) \<Longrightarrow> gomap_wf (si_pidUrlDatas (CheckAndResetSilent now s))"
  by (auto simp: CheckAndResetSilent_def isNewWindow_def intro: wf_keep)

lemma IsSilent_other:
  "k' \<noteq> k \<Longrightarrow> map_load (si_pidUrlDatas (fst (IsSilent now k s))) k' = map_load (si_pidUrlDatas s) k'"
  by (auto simp: IsSilent_def Let_def split_def split: option.splits)

subsection \<open>Rate limit\<close>

text \<open>A sequence of questions \<open>(time, pidUrl)\<close> with their answers.\<close>

fun silent_asks :: "(int \<times> string) list \<Rightarrow> silent \<Rightarrow> (string \<times> bool) list" where
  "silent_asks [] s = []"
| "silent_asks ((now, k) # qs) s =
     (case IsSilent now k s of (s', b) \<Rightarrow> (k, b) # silent_asks qs s')"

text \<open>What an entry still permits; a missing entry permits the configured count.\<close>

definition si_left :: "silent \<Rightarrow> string \<Rightarrow> nat" where
  "si_left s k = (case map_load (si_pidUrlDatas s) k of
                    None \<Rightarrow> nat (si_count s) | Some d \<Rightarrow> nat (sd_leftCount d))"

lemma IsSilent_answer:
  assumes "0 < si_count s" "0 < si_period s"
  shows "snd (IsSilent now k s) \<longleftrightarrow> si_left s k = 0"
    and "si_left (fst (IsSilent now k s)) k = si_left s k - 1"
  using assms by (auto simp: IsSilent_def si_left_def checkSilent_def Let_def split: option.splits)

lemma IsSilent_left_other:
  "k' \<noteq> k \<Longrightarrow> si_left (fst (IsSilent now k s)) k' = si_left s k'"
  by (simp add: si_left_def IsSilent_other IsSilent_frame split: option.split)

lemma silent_asks_permits:
  assumes "0 < si_count s" "0 < si_period s"
  shows "length (filter (\<lambda>(k', b). k' = k \<and> \<not> b) (silent_asks qs s)) =
           min (si_left s k) (length (filter (\<lambda>(t, k'). k' = k) qs))"
  using assms
proof (induction qs arbitrary: s)
  case Nil
  then show ?case by simp
next
  case (Cons q qs)
  obtain now k1 where q: "q = (now, k1)" by (cases q)
  let ?s = "fst (IsSilent now k1 s)"
  have IH: "length (filter (\<lambda>(k', b). k' = k \<and> \<not> b) (silent_asks qs ?s)) =
      min (si_left ?s k) (length (filter (\<lambda>(t, k'). k' = k) qs))"
    using Cons.prems by (intro Cons.IH) (simp_all add: IsSilent_frame)
  show ?case
  proof (cases "k1 = k")
    case True
    with IH q IsSilent_answer [OF Cons.prems, of now k] show ?thesis by (auto simp: split_def)
  next
    case False
    with IH q show ?thesis by (simp add: split_def IsSilent_left_other)
  qed
qed

subsection \<open>Clearing\<close>

lemma window_reset:
  assumes "gomap_wf (si_pidUrlDatas s)" "si_mode s = SilentWindow" "si_period s \<noteq> 0"
  shows "si_pidUrlDatas (CheckAndResetSilent now s) =
           (if si_nextWindowTime s \<noteq> 0 \<and> si_nextWindowTime s \<le> now then [] else si_pidUrlDatas s)"
  using assms by (auto simp: CheckAndResetSilent_def isNewWindow_def isExpire_def map_keep_def)

lemma wait_reset:
  assumes "gomap_wf (si_pidUrlDatas s)" "si_mode s = SilentWait" "si_period s \<noteq> 0"
  shows "map_load (si_pidUrlDatas (CheckAndResetSilent now s)) k =
           (case map_load (si_pidUrlDatas s) k of
              None \<Rightarrow> None
            | Some d \<Rightarrow> if sd_silentTime d > 0 \<and> sd_silentTime d + si_period s < now then None else Some d)"
  using assms
  by (auto simp: CheckAndResetSilent_def isNewWindow_def isExpire_def load_keep split: option.splits)

text \<open>Questions and clock ticks in any order.\<close>

datatype silent_event = Ask int string | Tick int

fun silent_run :: "silent_event list \<Rightarrow> silent \<Rightarrow> silent \<times> (string \<times> bool) list" where
  "silent_run [] s = (s, [])"
| "silent_run (Ask now k # es) s =
     (case IsSilent now k s of (s1, b) \<Rightarrow>
      case silent_run es s1 of (s2, as) \<Rightarrow> (s2, (k, b) # as))"
| "silent_run (Tick now # es) s = silent_run es (CheckAndResetSilent now s)"

text \<open>
  In wait mode an exhausted entry whose silent time is still 0 is never cleared. With a count of
  one, every entry is created in that state.
\<close>

definition stuck :: "silent \<Rightarrow> string \<Rightarrow> bool" where
  "stuck s k \<longleftrightarrow> gomap_wf (si_pidUrlDatas s) \<and> si_mode s = SilentWait \<and> 0 < si_period s \<and> 0 < si_count s \<and>
     (\<exists>d. map_load (si_pidUrlDatas s) k = Some d \<and> sd_leftCount d \<le> 0 \<and> sd_silentTime d = 0)"

lemma stuck_ask: "stuck s k \<Longrightarrow> stuck (fst (IsSilent now k' s)) k \<and> (k' = k \<longrightarrow> snd (IsSilent now k' s))"
proof (cases "k' = k")
  case True
  assume "stuck s k"
  with True show ?thesis
    by (auto simp: stuck_def IsSilent_def checkSilent_def Let_def intro: wf_store)
next
  case False
  assume "stuck s k"
  with False show ?thesis
    by (simp add: stuck_def IsSilent_frame IsSilent_wf IsSilent_other)
qed

lemma stuck_tick: "stuck s k \<Longrightarrow> stuck (CheckAndResetSilent now s) k"
  by (auto simp: stuck_def CheckAndReset_frame CheckAndReset_wf wait_reset)

lemma stuck_run: "stuck s k \<Longrightarrow> (k, b) \<in> set (snd (silent_run es s)) \<Longrightarrow> b"
proof (induction es arbitrary: s)
  case Nil
  then show ?case by simp
next
  case (Cons e es)
  show ?case
  proof (cases e)
    case (Ask now k')
    with Cons stuck_ask [OF Cons.prems(1), of now k'] show ?thesis by (auto simp: split_def)
  next
    case (Tick now)
    with Cons stuck_tick [OF Cons.prems(1), of now] show ?thesis by auto
  qed
qed

text \<open>No entry ever permits more than the configured count.\<close>

definition si_bounded :: "silent \<Rightarrow> bool" where
  "si_bounded s \<longleftrightarrow> gomap_wf (si_pidUrlDatas s) \<and> 0 < si_count s \<and> 0 < si_period s \<and>
     (\<forall>k. si_left s k \<le> nat (si_count s))"

lemma bounded_ask: "si_bounded s \<Longrightarrow> si_bounded (fst (IsSilent now k s))"
proof -
  assume s: "si_bounded s"
  then have "si_left (fst (IsSilent now k s)) k' \<le> nat (si_count s)" for k'
    using IsSilent_answer(2) [of s now k] IsSilent_left_other [of k' k now s]
    by (cases "k' = k") (auto simp: si_bounded_def intro: le_trans [OF diff_le_self])
  with s show ?thesis by (simp add: si_bounded_def IsSilent_frame IsSilent_wf)
qed

lemma bounded_tick: "si_bounded s \<Longrightarrow> si_bounded (CheckAndResetSilent now s)"
  by (cases "si_mode s")
    (auto simp: si_bounded_def CheckAndReset_frame CheckAndReset_wf si_left_def window_reset wait_reset
      split: option.splits if_splits dest!: spec)

abbreviation permitted :: "string \<Rightarrow> (string \<times> bool) list \<Rightarrow> nat" where
  "permitted k answers \<equiv> length (filter (\<lambda>(k', b). k' = k \<and> \<not> b) answers)"

lemma bounded_run:
  "si_bounded s \<Longrightarrow> silent_run es s = (s', answers) \<Longrightarrow>
   si_bounded s' \<and> si_count s' = si_count s \<and>
   permitted k answers \<le> si_left s k + nat (si_count s) * length (filter (\<lambda>e. \<exists>now. e = Tick now) es)"
proof (induction es arbitrary: s answers)
  case (Cons e es)
  show ?case
  proof (cases e)
    case (Ask now k')
    let ?s = "fst (IsSilent now k' s)"
    obtain rest where rest: "silent_run es ?s = (s', rest)" "answers = (k', snd (IsSilent now k' s)) # rest"
      using Cons.prems(2) Ask by (auto simp: split_def prod_eq_iff)
    have "0 < si_count s" "0 < si_period s" using Cons.prems(1) by (auto simp: si_bounded_def)
    note ans = IsSilent_answer [OF this, of now k']
    show ?thesis
      using Cons.IH [OF bounded_ask [OF Cons.prems(1)] rest(1)] ans IsSilent_left_other [of k k' now s]
      by (cases "k' = k") (auto simp: Ask rest(2) IsSilent_frame)
  next
    case (Tick now)
    have le: "si_left (CheckAndResetSilent now s) k \<le> nat (si_count s)"
      using bounded_tick [OF Cons.prems(1), of now] by (simp add: si_bounded_def CheckAndReset_frame)
    show ?thesis
      using Cons.IH [OF bounded_tick [OF Cons.prems(1), of now], of answers] Cons.prems(2) le
      by (auto simp: Tick CheckAndReset_frame)
  qed
qed simp

lemma new_bounded: "0 < silentCount \<Longrightarrow> 0 < silentPeriod \<Longrightarrow> si_bounded (NewSilent silentCount silentPeriod mode)"
  by (simp add: si_bounded_def NewSilent_def si_left_def)

subsection \<open>Properties\<close>

text \<open>C12: Rate limit, for a positive count and a positive period, in both modes and in every state the silencer reaches. Of the
  slow and error samples of one process and URL that are asked for until the next clean-up, however they are interleaved with
  samples of other URLs, exactly as many pass as the entry of the URL still permits, or all of them if there are fewer. That is never
  more than the configured count, and it is the count itself for a URL without an entry: on a new silencer, or once a clean-up has cleared it.
  Over a whole run from a new silencer with \<open>n\<close> clean-ups at most \<open>n + 1\<close> times the count passes.\<close>

theorem silent_rate_limit:
  assumes "0 < silentCount" "0 < silentPeriod" "silent_run es (NewSilent silentCount silentPeriod mode) = (s, answers)"
  shows "permitted k (silent_asks qs s) = min (si_left s k) (length (filter (\<lambda>(t, k'). k' = k) qs)) \<and>
    si_left s k \<le> nat silentCount \<and> (map_load (si_pidUrlDatas s) k = None \<longrightarrow> si_left s k = nat silentCount) \<and>
    permitted k answers \<le> nat silentCount * (1 + length (filter (\<lambda>e. \<exists>now. e = Tick now) es))"
proof -
  let ?s = "NewSilent silentCount silentPeriod mode"
  have r: "si_bounded s" "si_count s = silentCount"
    "permitted k answers \<le> si_left ?s k + nat silentCount * length (filter (\<lambda>e. \<exists>now. e = Tick now) es)"
    using bounded_run [OF new_bounded [OF assms(1,2)] assms(3)] by (simp_all add: NewSilent_def)
  moreover have "si_left ?s k = nat silentCount" by (simp add: NewSilent_def si_left_def)
  ultimately show ?thesis
    using silent_asks_permits [of s k qs] by (auto simp: si_bounded_def si_left_def [of s])
qed

theorem silent_rate_limit_witness:
  "permitted ''1-/a'' (silent_asks [(7, ''1-/a''), (8, ''1-/b''), (9, ''1-/a'')]
     (fst (silent_run [Ask 5 ''1-/a'', Tick 6] (NewSilent 2 5 ''window'')))) = 1"
  using silent_rate_limit [of 2 5 "[Ask 5 ''1-/a'', Tick 6]" "''window''", OF _ _ prod.collapse [symmetric], of "''1-/a''"
      "[(7, ''1-/a''), (8, ''1-/b''), (9, ''1-/a'')]"]
  by (simp add: split_def si_left_def NewSilent_def IsSilent_def CheckAndResetSilent_def isNewWindow_def isExpire_def
      map_store_def map_keep_def)

text \<open>In wait mode with a count of one, the first sample of a URL silences it for ever: the entry is
  created with silent time 0, which the clean-up never treats as expired. After that first question,
  every later question about the same URL is answered silent, whatever the clock ticks in between.\<close>

theorem silent_wait_never_recovers:
  assumes "0 < silentPeriod"
  shows "snd (silent_run (Ask now k # es) (NewSilent 1 silentPeriod ''wait'')) =
           (k, False) # snd (silent_run es (fst (IsSilent now k (NewSilent 1 silentPeriod ''wait'')))) \<and>
         (\<forall>b. (k, b) \<in> set (snd (silent_run es (fst (IsSilent now k (NewSilent 1 silentPeriod ''wait''))))) \<longrightarrow> b)"
proof -
  let ?s = "fst (IsSilent now k (NewSilent 1 silentPeriod ''wait''))"
  have "stuck ?s k" and "\<not> snd (IsSilent now k (NewSilent 1 silentPeriod ''wait''))"
    using assms by (auto simp: stuck_def IsSilent_def NewSilent_def wf_store)
  then show ?thesis
    using stuck_run [of ?s k _ es] by (auto simp: split_def)
qed

theorem silent_wait_never_recovers_witness:
  "(0 :: int) < 5 \<and>
   snd (silent_run [Ask 100 ''1-/a'', Tick 1000, Tick 1000000, Ask 1000001 ''1-/a''] (NewSilent 1 5 ''wait'')) =
     [(''1-/a'', False), (''1-/a'', True)]"
  using silent_wait_never_recovers [of 5 100 "''1-/a''" "[Tick 1000, Tick 1000000, Ask 1000001 ''1-/a'']"]
  by (simp add: split_def)

end
