(* ===== verification/NormalSampler.thy ===== *)
theory NormalSampler
  imports Silent
begin

section \<open>Sampling of normal traces\<close>

text \<open>
  \<open>sampler/normal_sampler.go\<close>: the Go interface \<open>NoramlSampler\<close> with its two implementations. The
  top sampler takes the first trace of each process and URL per display window; the any sampler
  takes a trace when none of the same process and URL was stored within the wait time.

  The locale \<open>normal_sampler\<close> is the contract both keep towards \<open>SampleCache\<close>: a trace is admitted
  exactly when sampling is enabled and its key is not marked, and admission marks the key. Within it,
  the client's way to use a sampler (\<open>Sample\<close>, then \<open>UpdateTime\<close> when admitted) is shown to admit
  each key at most once between two checks.
\<close>

subsection \<open>The two implementations\<close>

record top_normal_trace_sampler =
  tn_displayWindow :: int
  tn_nextWindow :: int
  tn_collectedPidUrls :: "(string, bool) gomap"

definition NewTopNormalTraceSampler :: "int \<Rightarrow> top_normal_trace_sampler" where
  "NewTopNormalTraceSampler displayWindow =
     \<lparr>tn_displayWindow = displayWindow, tn_nextWindow = 0, tn_collectedPidUrls = []\<rparr>"

definition top_Sample ::
  "trace_labels \<Rightarrow> top_normal_trace_sampler \<Rightarrow> top_normal_trace_sampler \<times> bool" where
  "top_Sample trace s =
     (if tn_displayWindow s = 0 then (s, False)
      else let pidUrl = getPidUrl trace in
           case map_load (tn_collectedPidUrls s) pidUrl of
             Some _ \<Rightarrow> (s, False)
           | None \<Rightarrow>
               (s\<lparr>tn_collectedPidUrls := map_store pidUrl True (tn_collectedPidUrls s)\<rparr>, True))"

definition top_UpdateTime ::
  "int \<Rightarrow> trace_labels \<Rightarrow> top_normal_trace_sampler \<Rightarrow> top_normal_trace_sampler" where
  "top_UpdateTime now trace s = s"

definition top_Check :: "int \<Rightarrow> top_normal_trace_sampler \<Rightarrow> top_normal_trace_sampler" where
  "top_Check now s =
     (if tn_displayWindow s = 0 then s
      else if tn_nextWindow s = 0 then s\<lparr>tn_nextWindow := tn_displayWindow s + now\<rparr>
      else if tn_nextWindow s \<le> now
      then s\<lparr>tn_nextWindow := tn_displayWindow s + now, tn_collectedPidUrls := []\<rparr>
      else s)"

record any_normal_trace_sampler =
  an_waitTime :: int
  an_collectedPidUrls :: "(string, int) gomap"

definition newAnyNormalTraceSampler :: "int \<Rightarrow> any_normal_trace_sampler" where
  "newAnyNormalTraceSampler waitTime = \<lparr>an_waitTime = waitTime, an_collectedPidUrls = []\<rparr>"

definition any_Sample ::
  "trace_labels \<Rightarrow> any_normal_trace_sampler \<Rightarrow> any_normal_trace_sampler \<times> bool" where
  "any_Sample trace s =
     (if an_waitTime s = 0 then (s, False)
      else case map_load (an_collectedPidUrls s) (getPidUrl trace) of
             Some _ \<Rightarrow> (s, False)
           | None \<Rightarrow> (s, True))"

definition any_UpdateTime ::
  "int \<Rightarrow> trace_labels \<Rightarrow> any_normal_trace_sampler \<Rightarrow> any_normal_trace_sampler" where
  "any_UpdateTime now trace s =
     (if an_waitTime s = 0 then s
      else s\<lparr>an_collectedPidUrls :=
               map_store (getPidUrl trace) (now + an_waitTime s) (an_collectedPidUrls s)\<rparr>)"

definition any_Check :: "int \<Rightarrow> any_normal_trace_sampler \<Rightarrow> any_normal_trace_sampler" where
  "any_Check now s =
     (if an_waitTime s = 0 then s
      else s\<lparr>an_collectedPidUrls :=
               map_keep (\<lambda>k checkTime. \<not> checkTime < now) (an_collectedPidUrls s)\<rparr>)"

subsection \<open>The interface\<close>

datatype noraml_sampler =
  TopNormal top_normal_trace_sampler | AnyNormal any_normal_trace_sampler

definition newNormalSampler :: "bool \<Rightarrow> int \<Rightarrow> noraml_sampler" where
  "newNormalSampler topSampler nextTime =
     (if topSampler then TopNormal (NewTopNormalTraceSampler nextTime)
      else AnyNormal (newAnyNormalTraceSampler nextTime))"

fun ns_Sample :: "trace_labels \<Rightarrow> noraml_sampler \<Rightarrow> noraml_sampler \<times> bool" where
  "ns_Sample t (TopNormal s) = (case top_Sample t s of (s', b) \<Rightarrow> (TopNormal s', b))"
| "ns_Sample t (AnyNormal s) = (case any_Sample t s of (s', b) \<Rightarrow> (AnyNormal s', b))"

fun ns_UpdateTime :: "int \<Rightarrow> trace_labels \<Rightarrow> noraml_sampler \<Rightarrow> noraml_sampler" where
  "ns_UpdateTime now t (TopNormal s) = TopNormal (top_UpdateTime now t s)"
| "ns_UpdateTime now t (AnyNormal s) = AnyNormal (any_UpdateTime now t s)"

fun ns_Check :: "int \<Rightarrow> noraml_sampler \<Rightarrow> noraml_sampler" where
  "ns_Check now (TopNormal s) = TopNormal (top_Check now s)"
| "ns_Check now (AnyNormal s) = AnyNormal (any_Check now s)"

text \<open>The client's protocol in \<open>SampleCache.GetSampleResult\<close>.\<close>

fun offer ::
  "('t \<Rightarrow> 's \<Rightarrow> 's \<times> bool) \<Rightarrow> (int \<Rightarrow> 't \<Rightarrow> 's \<Rightarrow> 's) \<Rightarrow> (int \<times> 't) list \<Rightarrow> 's \<Rightarrow> 's \<times> 't list" where
  "offer sample upd [] s = (s, [])"
| "offer sample upd ((now, t) # ts) s =
     (case sample t s of (s1, b) \<Rightarrow>
      case offer sample upd ts (if b then upd now t s1 else s1) of (s2, admitted) \<Rightarrow>
        (s2, if b then t # admitted else admitted))"

locale normal_sampler =
  fixes key :: "'t \<Rightarrow> string"
    and enabled :: "'s \<Rightarrow> bool"
    and marked :: "'s \<Rightarrow> string set"
    and sample :: "'t \<Rightarrow> 's \<Rightarrow> 's \<times> bool"
    and upd :: "int \<Rightarrow> 't \<Rightarrow> 's \<Rightarrow> 's"
    and chk :: "int \<Rightarrow> 's \<Rightarrow> 's"
  assumes sample_iff: "snd (sample t s) \<longleftrightarrow> enabled s \<and> key t \<notin> marked s"
    and sample_refused: "\<not> snd (sample t s) \<Longrightarrow> fst (sample t s) = s"
    and admit_marks: "snd (sample t s) \<Longrightarrow> marked (upd now t (fst (sample t s))) = insert (key t) (marked s)"
    and sample_enabled: "enabled (fst (sample t s)) = enabled s"
    and upd_enabled: "enabled (upd now t s) = enabled s"
    and check_shrinks: "marked (chk now s) \<subseteq> marked s"
begin

lemma offer_admits:
  "distinct (map key (snd (offer sample upd ts s))) \<and>
   key ` set (snd (offer sample upd ts s)) =
     (if enabled s then key ` snd ` set ts - marked s else {}) \<and>
   marked (fst (offer sample upd ts s)) = marked s \<union> key ` set (snd (offer sample upd ts s))"
proof (induction ts arbitrary: s)
  case Nil
  then show ?case by simp
next
  case (Cons nt ts)
  obtain now t where nt: "nt = (now, t)" by (cases nt)
  show ?case
  proof (cases "snd (sample t s)")
    case True
    let ?s = "upd now t (fst (sample t s))"
    have e: "enabled s" "enabled ?s" "key t \<notin> marked s" "marked ?s = insert (key t) (marked s)"
      using True sample_iff [of t s] admit_marks [of t s now] sample_enabled [of t s] upd_enabled by auto
    have "offer sample upd (nt # ts) s = (fst (offer sample upd ts ?s), t # snd (offer sample upd ts ?s))"
      using True nt by (simp add: split_def)
    with e Cons.IH [of ?s] nt show ?thesis by auto
  next
    case False
    then have s: "fst (sample t s) = s" by (rule sample_refused)
    have "offer sample upd (nt # ts) s = offer sample upd ts s"
      using False s nt by (simp add: split_def)
    with Cons.IH [of s] False sample_iff [of t s] nt show ?thesis by (auto split: if_splits)
  qed
qed

end

interpretation top: normal_sampler getPidUrl
  "\<lambda>s. tn_displayWindow s \<noteq> 0" "\<lambda>s. dom (map_of (tn_collectedPidUrls s))"
  top_Sample top_UpdateTime top_Check
  by unfold_locales
    (auto simp: top_Sample_def top_UpdateTime_def top_Check_def Let_def split: option.splits if_splits)

interpretation any: normal_sampler getPidUrl
  "\<lambda>s. an_waitTime s \<noteq> 0" "\<lambda>s. dom (map_of (an_collectedPidUrls s))"
  any_Sample any_UpdateTime any_Check
proof unfold_locales
  show "dom (map_of (an_collectedPidUrls (any_Check now s))) \<subseteq> dom (map_of (an_collectedPidUrls s))"
    for now s by (simp add: any_Check_def dom_keep)
qed (auto simp: any_Sample_def any_UpdateTime_def split: option.splits if_splits)

fun ns_enabled :: "noraml_sampler \<Rightarrow> bool" where
  "ns_enabled (TopNormal s) = (tn_displayWindow s \<noteq> 0)"
| "ns_enabled (AnyNormal s) = (an_waitTime s \<noteq> 0)"

fun ns_marked :: "noraml_sampler \<Rightarrow> string set" where
  "ns_marked (TopNormal s) = dom (map_of (tn_collectedPidUrls s))"
| "ns_marked (AnyNormal s) = dom (map_of (an_collectedPidUrls s))"

text \<open>The dispatching interface inherits the contract from its two implementations.\<close>

interpretation ns: normal_sampler getPidUrl ns_enabled ns_marked ns_Sample ns_UpdateTime ns_Check
proof unfold_locales
  fix t :: trace_labels and s :: noraml_sampler and now :: int
  show "snd (ns_Sample t s) \<longleftrightarrow> ns_enabled s \<and> getPidUrl t \<notin> ns_marked s"
    by (cases s) (simp_all add: split_def top.sample_iff any.sample_iff)
  show "\<not> snd (ns_Sample t s) \<Longrightarrow> fst (ns_Sample t s) = s"
    by (cases s) (simp_all add: split_def top.sample_refused any.sample_refused)
  show "snd (ns_Sample t s) \<Longrightarrow>
      ns_marked (ns_UpdateTime now t (fst (ns_Sample t s))) = insert (getPidUrl t) (ns_marked s)"
    by (cases s) (simp_all add: split_def top.admit_marks any.admit_marks)
  show "ns_enabled (fst (ns_Sample t s)) = ns_enabled s"
    using top.sample_enabled any.sample_enabled by (cases s) (simp_all add: split_def)
  show "ns_enabled (ns_UpdateTime now t s) = ns_enabled s"
    using top.upd_enabled any.upd_enabled by (cases s) simp_all
  show "ns_marked (ns_Check now s) \<subseteq> ns_marked s"
    using top.check_shrinks any.check_shrinks by (cases s) simp_all
qed

subsection \<open>Well-formedness and expiry\<close>

fun ns_wf :: "noraml_sampler \<Rightarrow> bool" where
  "ns_wf (TopNormal s) = gomap_wf (tn_collectedPidUrls s)"
| "ns_wf (AnyNormal s) = gomap_wf (an_collectedPidUrls s)"

lemma ns_wf_Sample [wf_intros]: "ns_wf s \<Longrightarrow> ns_wf (fst (ns_Sample t s))"
  by (cases s)
    (auto simp: top_Sample_def any_Sample_def Let_def split_def intro: wf_store split: option.splits)

lemma ns_wf_UpdateTime [wf_intros]: "ns_wf s \<Longrightarrow> ns_wf (ns_UpdateTime now t s)"
  by (cases s) (auto simp: top_UpdateTime_def any_UpdateTime_def intro: wf_store)

lemma ns_wf_Check [wf_intros]: "ns_wf s \<Longrightarrow> ns_wf (ns_Check now s)"
  by (cases s) (auto simp: top_Check_def any_Check_def intro: wf_keep)

text \<open>A mark of the any sampler lives until the clock passes the update time plus the wait time.\<close>

lemma any_mark_lifetime:
  assumes "gomap_wf (an_collectedPidUrls s)" "an_waitTime s \<noteq> 0"
  shows "getPidUrl t \<in> ns_marked (ns_Check now (ns_UpdateTime t0 t (AnyNormal s))) \<longleftrightarrow>
           now \<le> t0 + an_waitTime s"
  using assms by (auto simp: any_Check_def any_UpdateTime_def load_keep wf_store dom_def)

subsection \<open>Properties\<close>

text \<open>Both normal samplers, behind their common interface: of any sequence of traces offered
  between two checks, each process and URL is admitted at most once; when sampling is enabled, the
  admitted keys are exactly the offered ones that were not marked, and they are marked afterwards.\<close>

theorem normal_sampler_admits_once:
  "distinct (map getPidUrl (snd (offer ns_Sample ns_UpdateTime ts s))) \<and>
   getPidUrl ` set (snd (offer ns_Sample ns_UpdateTime ts s)) =
     (if ns_enabled s then getPidUrl ` snd ` set ts - ns_marked s else {}) \<and>
   ns_marked (fst (offer ns_Sample ns_UpdateTime ts s)) =
     ns_marked s \<union> getPidUrl ` set (snd (offer ns_Sample ns_UpdateTime ts s))"
  by (rule ns.offer_admits)

end
