(* ===== verification/Outbox.thy ===== *)
theory Outbox
  imports Pdata
begin

section \<open>Outgoing queues: sampled traces, profile signals, log signals\<close>

text \<open>
  Three parts of the back-sampling processor collect data in a slice under a lock and hand it over
  on a ticker: \<open>SampleApi\<close> (\<open>sampler/sample_api.go\<close>), \<open>ebpfProfileApi\<close>
  (\<open>profile/profile_api.go\<close>) and \<open>UdsRegistryServer\<close> (\<open>notify/uds_notify.go\<close>, \<open>notify/signal.go\<close>).
  Each flush reads the length of the slice \<^emph>\<open>before\<close> it takes the lock, so producers can append in
  between. A flush is therefore two steps here: \<open>\<dots>_read\<close> (outside the lock) and \<open>\<dots>_cut\<close> (inside
  it). The locale \<open>outbox\<close> states what such a pair has to guarantee and proves that no schedule of
  producers and flusher loses, repeats or reorders an item; \<open>SampleApi\<close> and \<open>ebpfProfileApi\<close>
  satisfy it, \<open>UdsRegistryServer\<close> does not.
\<close>

subsection \<open>The contract\<close>

datatype 'i outbox_event = Push 'i | FlushRead | FlushCut

text \<open>
  Schedules of a queue with one flusher and any number of producers: the state is the queue, the
  flusher's register (what it read, if it has read) and everything handed over so far.
\<close>

fun outbox_step ::
  "('i \<Rightarrow> 's \<Rightarrow> 's) \<Rightarrow> ('s \<Rightarrow> 'r) \<Rightarrow> ('r \<Rightarrow> 's \<Rightarrow> ('s \<times> 'a list) option) \<Rightarrow>
   'i outbox_event \<Rightarrow> 's \<times> 'r option \<times> 'a list \<Rightarrow> ('s \<times> 'r option \<times> 'a list) option" where
  "outbox_step push rd ct (Push i) (s, r, sent) = Some (push i s, r, sent)"
| "outbox_step push rd ct FlushRead (s, None, sent) = Some (s, Some (rd s), sent)"
| "outbox_step push rd ct FlushRead (s, Some r, sent) = Some (s, Some r, sent)"
| "outbox_step push rd ct FlushCut (s, None, sent) = Some (s, None, sent)"
| "outbox_step push rd ct FlushCut (s, Some r, sent) =
     (case ct r s of None \<Rightarrow> None | Some (s', out) \<Rightarrow> Some (s', None, sent @ out))"

fun outbox_run ::
  "('i \<Rightarrow> 's \<Rightarrow> 's) \<Rightarrow> ('s \<Rightarrow> 'r) \<Rightarrow> ('r \<Rightarrow> 's \<Rightarrow> ('s \<times> 'a list) option) \<Rightarrow>
   'i outbox_event list \<Rightarrow> 's \<times> 'r option \<times> 'a list \<Rightarrow> ('s \<times> 'r option \<times> 'a list) option" where
  "outbox_run push rd ct [] c = Some c"
| "outbox_run push rd ct (e # es) c =
     (case outbox_step push rd ct e c of None \<Rightarrow> None | Some c' \<Rightarrow> outbox_run push rd ct es c')"

fun pushed :: "('i \<Rightarrow> 'a) \<Rightarrow> 'i outbox_event list \<Rightarrow> 'a list" where
  "pushed item [] = []"
| "pushed item (Push i # es) = item i # pushed item es"
| "pushed item (_ # es) = pushed item es"

lemma pushed_Cons: "pushed item (e # es) = pushed item [e] @ pushed item es"
  by (cases e) auto

locale outbox =
  fixes pending :: "'s \<Rightarrow> 'a list"
    and item :: "'i \<Rightarrow> 'a"
    and push :: "'i \<Rightarrow> 's \<Rightarrow> 's"
    and flush_read :: "'s \<Rightarrow> 'r"
    and flush_cut :: "'r \<Rightarrow> 's \<Rightarrow> ('s \<times> 'a list) option"
  assumes pending_push: "pending (push i s) = pending s @ [item i]"
    and flush_exact:
      "\<exists>s'. flush_cut (flush_read s) (fold push is s) = Some (s', pending s) \<and> pending s' = map item is"
begin

text \<open>The register is either empty or the reading of a state the current one grew from.\<close>

definition reg_ok :: "'s \<Rightarrow> 'r option \<Rightarrow> bool" where
  "reg_ok s r \<longleftrightarrow> (\<forall>r0. r = Some r0 \<longrightarrow> (\<exists>s0 is. r0 = flush_read s0 \<and> s = fold push is s0))"

lemma pending_fold: "pending (fold push is s) = pending s @ map item is"
  by (induction "is" arbitrary: s) (auto simp: pending_push)

lemma step_exact:
  assumes "reg_ok s r"
  shows "\<exists>s' r' sent'. outbox_step push flush_read flush_cut e (s, r, sent) = Some (s', r', sent') \<and> reg_ok s' r' \<and>
           sent' @ pending s' = sent @ pending s @ pushed item [e]"
proof (cases e)
  case (Push i)
  have "reg_ok (push i s) r"
    unfolding reg_ok_def
  proof (intro allI impI)
    fix r0
    assume "r = Some r0"
    with assms obtain s0 "is" where "r0 = flush_read s0" "s = fold push is s0"
      by (auto simp: reg_ok_def)
    then have "r0 = flush_read s0 \<and> push i s = fold push (is @ [i]) s0" by simp
    then show "\<exists>s0 is. r0 = flush_read s0 \<and> push i s = fold push is s0" by blast
  qed
  with Push show ?thesis by (auto simp: pending_push)
next
  case FlushRead
  have "reg_ok s (Some (flush_read s))"
    unfolding reg_ok_def by (metis fold_simps(1) option.inject)
  with FlushRead assms show ?thesis by (cases r) auto
next
  case FlushCut
  show ?thesis
  proof (cases r)
    case None
    with FlushCut show ?thesis by (auto simp: reg_ok_def)
  next
    case (Some r0)
    with assms obtain s0 "is" where s: "r0 = flush_read s0" "s = fold push is s0"
      by (auto simp: reg_ok_def)
    obtain s' where "flush_cut r0 s = Some (s', pending s0)" "pending s' = map item is"
      using flush_exact [of s0 "is"] s by auto
    with FlushCut Some s show ?thesis by (auto simp: reg_ok_def pending_fold)
  qed
qed

lemma run_exact:
  "reg_ok s r \<Longrightarrow> \<exists>s' r' sent'. outbox_run push flush_read flush_cut es (s, r, sent) = Some (s', r', sent') \<and>
     sent' @ pending s' = sent @ pending s @ pushed item es"
proof (induction es arbitrary: s r sent)
  case Nil
  then show ?case by simp
next
  case (Cons e es)
  obtain s1 r1 sent1 where 1: "outbox_step push flush_read flush_cut e (s, r, sent) = Some (s1, r1, sent1)" "reg_ok s1 r1"
      "sent1 @ pending s1 = sent @ pending s @ pushed item [e]"
    using step_exact [OF Cons.prems] by blast
  obtain s2 r2 sent2 where 2: "outbox_run push flush_read flush_cut es (s1, r1, sent1) = Some (s2, r2, sent2)"
      "sent2 @ pending s2 = sent1 @ pending s1 @ pushed item es"
    using Cons.IH [OF 1(2)] by blast
  have "sent2 @ pending s2 = sent @ pending s @ pushed item (e # es)"
    using 1(3) 2(2) by (simp add: pushed_Cons [of item e es] del: pushed.simps)
  with 1(1) 2(1) show ?case by auto
qed

text \<open>Every schedule from an empty queue completes; what was sent and what waits is what was pushed.\<close>

lemma no_loss_no_repeat:
  assumes "pending s = []"
  shows "\<exists>s' r' sent'. outbox_run push flush_read flush_cut es (s, None, []) = Some (s', r', sent') \<and> sent' @ pending s' = pushed item es"
  using run_exact [of s None es "[]"] assms by (auto simp: reg_ok_def)

end

subsection \<open>Sampled traces: \<open>SampleApi\<close>\<close>

abbreviation TableSpanTrace :: string where "TableSpanTrace \<equiv> ''span_trace_group''"

record sample_api =
  api_cachedTraces :: "trace_group list"
  api_getSampleRateClient :: bool

record data_groups =
  dg_Name :: string
  dg_Datas :: "string list"

text \<open>The client for sample values is nil unless the adaptive mode is enabled; the other clients always exist.\<close>

definition NewSampleApi :: "bool \<Rightarrow> sample_api" where
  "NewSampleApi adaptiveEnable = \<lparr>api_cachedTraces = [], api_getSampleRateClient = adaptiveEnable\<rparr>"

text \<open>\<open>answer\<close> is the value the controller answers, if it does; without a client the result is nil, without an error.\<close>

definition api_GetSampleValue :: "int option \<Rightarrow> sample_api \<Rightarrow> int option" where
  "api_GetSampleValue answer api = (if \<not> api_getSampleRateClient api then None else answer)"

definition mk_TraceGroup :: "trace_labels \<Rightarrow> trace_group" where
  "mk_TraceGroup trace =
     \<lparr>tg_Name = TableSpanTrace, tg_Version = ''v1.1'', tg_Source = ''otel'',
      tg_Timestamp = tl_StartTime trace, tg_Labels = trace\<rparr>"

definition StoreTrace :: "trace_labels \<Rightarrow> sample_api \<Rightarrow> sample_api" where
  "StoreTrace trace api = api\<lparr>api_cachedTraces := api_cachedTraces api @ [mk_TraceGroup trace]\<rparr>"

text \<open>
  \<open>SendTraces\<close> marshals the first \<open>size\<close> groups without the lock, then cuts them off under it.
  \<open>marshal\<close> stands for \<open>json.Marshal\<close>.
\<close>

definition SendTraces_read :: "(trace_group \<Rightarrow> string) \<Rightarrow> sample_api \<Rightarrow> nat \<times> string list" where
  "SendTraces_read marshal api =
     (let sz = length (api_cachedTraces api)
      in (sz, map (\<lambda>i. marshal (api_cachedTraces api ! i)) [0..<sz]))"

definition SendTraces_cut ::
  "nat \<times> string list \<Rightarrow> sample_api \<Rightarrow> (sample_api \<times> data_groups option) option" where
  "SendTraces_cut r api =
     (case r of (sz, datas) \<Rightarrow>
        if sz = 0 then Some (api, None)
        else do {
          rest \<leftarrow> slice_from (api_cachedTraces api) (int sz);
          Some (api\<lparr>api_cachedTraces := rest\<rparr>,
                Some \<lparr>dg_Name = TableSpanTrace, dg_Datas = datas\<rparr>)
        })"

definition SendTraces ::
  "(trace_group \<Rightarrow> string) \<Rightarrow> sample_api \<Rightarrow> (sample_api \<times> data_groups option) option" where
  "SendTraces marshal api = SendTraces_cut (SendTraces_read marshal api) api"

text \<open>The data of a request, if one is sent.\<close>

definition sent_datas :: "data_groups option \<Rightarrow> string list" where
  "sent_datas g = (case g of None \<Rightarrow> [] | Some g \<Rightarrow> dg_Datas g)"

definition SendTraces_out ::
  "nat \<times> string list \<Rightarrow> sample_api \<Rightarrow> (sample_api \<times> string list) option" where
  "SendTraces_out r api = map_option (\<lambda>(api', g). (api', sent_datas g)) (SendTraces_cut r api)"

lemma fold_StoreTrace:
  "fold StoreTrace ts api = api\<lparr>api_cachedTraces := api_cachedTraces api @ map mk_TraceGroup ts\<rparr>"
  by (induction ts arbitrary: api) (auto simp: StoreTrace_def)

lemma map_index_all: "map (\<lambda>i. f (xs ! i)) [0..<length xs] = map f xs"
  by (rule nth_equalityI) simp_all

interpretation traces_out: outbox
  "\<lambda>api. map marshal (api_cachedTraces api)"
  "\<lambda>t. marshal (mk_TraceGroup t)"
  StoreTrace
  "SendTraces_read marshal"
  SendTraces_out
  for marshal
proof unfold_locales
  show "map marshal (api_cachedTraces (StoreTrace i s)) =
      map marshal (api_cachedTraces s) @ [marshal (mk_TraceGroup i)]" for i s
    by (simp add: StoreTrace_def)
next
  show "\<exists>s'. SendTraces_out (SendTraces_read marshal s) (fold StoreTrace is s) =
           Some (s', map marshal (api_cachedTraces s)) \<and>
         map marshal (api_cachedTraces s') = map (\<lambda>t. marshal (mk_TraceGroup t)) is" for s "is"
    by (auto simp: SendTraces_out_def SendTraces_cut_def SendTraces_read_def Let_def fold_StoreTrace sent_datas_def
        map_index_all [of marshal])
qed

subsection \<open>Profile signals: \<open>ProfileApi\<close>\<close>

record profile_signal =
  ps_TraceId :: string
  ps_SpanId :: string
  ps_StartTime :: u64
  ps_EndTime :: u64
  ps_Flag :: int
  ps_Retry :: int

record ebpf_profile_api =
  ep_address :: string
  ep_signals :: "profile_signal list"

datatype profile_api = NoopProfileApi | EbpfProfileApi ebpf_profile_api

definition NewProfileApi :: "string \<Rightarrow> int \<Rightarrow> profile_api" where
  "NewProfileApi ip port =
     (if port \<le> 0 then NoopProfileApi
      else EbpfProfileApi
             \<lparr>ep_address = ''http://'' @ ip @ '':'' @ dec_int port @ ''/otelSignal'', ep_signals = []\<rparr>)"

definition mk_ProfileSignal :: "trace_labels \<Rightarrow> int \<Rightarrow> profile_signal" where
  "mk_ProfileSignal trace flag =
     \<lparr>ps_TraceId = tl_TraceId trace, ps_SpanId = tl_ApmSpanId trace, ps_StartTime = tl_StartTime trace,
      ps_EndTime = tl_EndTime trace, ps_Flag = flag, ps_Retry = 3\<rparr>"

definition ebpf_AddProfileSignal :: "trace_labels \<Rightarrow> int \<Rightarrow> ebpf_profile_api \<Rightarrow> ebpf_profile_api" where
  "ebpf_AddProfileSignal trace flag api =
     api\<lparr>ep_signals := ep_signals api @ [mk_ProfileSignal trace flag]\<rparr>"

fun AddProfileSignal :: "trace_labels \<Rightarrow> int \<Rightarrow> profile_api \<Rightarrow> profile_api" where
  "AddProfileSignal trace flag NoopProfileApi = NoopProfileApi"
| "AddProfileSignal trace flag (EbpfProfileApi api) = EbpfProfileApi (ebpf_AddProfileSignal trace flag api)"

text \<open>
  \<open>ConsumeProfileSignals\<close>: the size is read outside the lock, the cut happens inside. The result
  carries the request that is posted (address and body), if any; its outcome is only logged.
\<close>

definition ebpf_Consume_cut ::
  "nat \<Rightarrow> ebpf_profile_api \<Rightarrow> (ebpf_profile_api \<times> (string \<times> profile_signal list) option) option" where
  "ebpf_Consume_cut sz api =
     (if sz > 0 then do {
        toSendSignals \<leftarrow> slice_to (ep_signals api) (int sz);
        rest \<leftarrow> slice_from (ep_signals api) (int sz);
        Some (api\<lparr>ep_signals := rest\<rparr>, Some (ep_address api, toSendSignals))
      } else Some (api, None))"

fun ConsumeProfileSignals ::
  "profile_api \<Rightarrow> (profile_api \<times> (string \<times> profile_signal list) option) option" where
  "ConsumeProfileSignals NoopProfileApi = Some (NoopProfileApi, None)"
| "ConsumeProfileSignals (EbpfProfileApi api) =
     map_option (\<lambda>(api', out). (EbpfProfileApi api', out)) (ebpf_Consume_cut (length (ep_signals api)) api)"

definition posted_signals :: "(string \<times> profile_signal list) option \<Rightarrow> profile_signal list" where
  "posted_signals r = (case r of None \<Rightarrow> [] | Some (addr, ss) \<Rightarrow> ss)"

definition ebpf_Consume_out ::
  "nat \<Rightarrow> ebpf_profile_api \<Rightarrow> (ebpf_profile_api \<times> profile_signal list) option" where
  "ebpf_Consume_out n api = map_option (\<lambda>(api', out). (api', posted_signals out)) (ebpf_Consume_cut n api)"

lemma fold_AddProfileSignal:
  "fold (\<lambda>(t, f). ebpf_AddProfileSignal t f) is api =
     api\<lparr>ep_signals := ep_signals api @ map (\<lambda>(t, f). mk_ProfileSignal t f) is\<rparr>"
  by (induction "is" arbitrary: api) (auto simp: ebpf_AddProfileSignal_def)

interpretation profiles_out: outbox
  ep_signals
  "\<lambda>(t, f). mk_ProfileSignal t f"
  "\<lambda>(t, f). ebpf_AddProfileSignal t f"
  "\<lambda>api. length (ep_signals api)"
  ebpf_Consume_out
proof unfold_locales
  show "ep_signals ((case i of (t, f) \<Rightarrow> ebpf_AddProfileSignal t f) s) =
      ep_signals s @ [case i of (t, f) \<Rightarrow> mk_ProfileSignal t f]" for i s
    by (cases i) (simp add: ebpf_AddProfileSignal_def)
next
  show "\<exists>s'. ebpf_Consume_out (length (ep_signals s))
             (fold (\<lambda>(t, f). ebpf_AddProfileSignal t f) is s) =
           Some (s', ep_signals s) \<and>
         ep_signals s' = map (\<lambda>(t, f). mk_ProfileSignal t f) is" for s "is"
    by (auto simp: ebpf_Consume_out_def ebpf_Consume_cut_def fold_AddProfileSignal posted_signals_def)
qed

subsection \<open>Log signals: \<open>Notify\<close>\<close>

record signal =
  sg_PidStr :: string
  sg_StartTS :: u32
  sg_EndTS :: u32
  sg_ContainerId :: string
  sg_ApmSpanId :: string
  sg_ApmServiceName :: string
  sg_ApmTraceId :: string
  sg_EndPoint :: string
  sg_SignalType :: u32

definition buildSignal :: "trace_labels \<Rightarrow> signal" where
  "buildSignal trace =
     (let signalType0 = (0 :: u32);
          signalType1 = (if tl_IsSlow trace then or signalType0 1 else signalType0);
          signalType2 = (if tl_IsError trace then or signalType1 2 else signalType1)
      in \<lparr>sg_PidStr = dec (unat (tl_Pid trace)),
          sg_StartTS = ucast (tl_StartTime trace div 1000000000),
          sg_EndTS = ucast (tl_EndTime trace div 1000000000),
          sg_ContainerId = tl_ContainerId trace,
          sg_ApmSpanId = tl_ApmSpanId trace,
          sg_ApmServiceName = tl_ServiceName trace,
          sg_ApmTraceId = tl_TraceId trace,
          sg_EndPoint = tl_Url trace,
          sg_SignalType = signalType2\<rparr>)"

record uds_client =
  uc_sockAddr :: string
  uc_urlPath :: string
  uc_component :: string
  uc_isHealth :: bool

record uds_registry_server =
  us_signals :: "signal list"
  us_udsClients :: "uds_client list"

datatype notify_api = NoopNotify | UdsRegistryServer uds_registry_server

record register_arg =
  ra_Component :: string
  ra_SockAddr :: string
  ra_UrlPath :: string

definition buildUdsClient :: "string \<Rightarrow> string \<Rightarrow> string \<Rightarrow> uds_client" where
  "buildUdsClient sockAddr urlPath component =
     \<lparr>uc_sockAddr = sockAddr, uc_urlPath = urlPath, uc_component = component, uc_isHealth = True\<rparr>"

text \<open>
  \<open>NewUdsRegistryServer\<close>: what the operating system answers while the socket file is prepared (for \<open>os.Stat\<close> of the socket, whether
  it is a directory, or \<open>None\<close> for an error; for the others the error) is \<open>uds_os\<close>.
\<close>

record uds_os =
  uo_Stat :: "bool option"
  uo_Remove :: "string option"
  uo_dirMissing :: bool
  uo_MkdirAll :: "string option"
  uo_Resolve :: "string option"
  uo_Listen :: "string option"

abbreviation sockAddr :: string where "sockAddr \<equiv> ''/opt/signal/uds-register.sock''"
abbreviation sockDir :: string where "sockDir \<equiv> ''/opt/signal/''"

definition prepare_socket :: "uds_os \<Rightarrow> string option" where
  "prepare_socket os =
     (case uo_Stat os of
        Some isDir \<Rightarrow>
          (if \<not> isDir then
             (case uo_Remove os of
                Some err \<Rightarrow> Some (''file['' @ sockAddr @ ''] exist , remove failed, err: '' @ err)
              | None \<Rightarrow> None)
           else Some (''filePath file['' @ sockAddr @ ''] cannot create, exist dir''))
      | None \<Rightarrow>
          (if uo_dirMissing os then
             (case uo_MkdirAll os of
                Some err \<Rightarrow> Some (''parentPath dir['' @ sockDir @ ''] cannot create, err: '' @ err)
              | None \<Rightarrow> None)
           else None))"

definition NewUdsRegistryServer :: "uds_os \<Rightarrow> string + uds_registry_server" where
  "NewUdsRegistryServer os =
     (case prepare_socket os of Some err \<Rightarrow> Inl err | None \<Rightarrow>
      case uo_Resolve os of Some err \<Rightarrow> Inl err | None \<Rightarrow>
      case uo_Listen os of Some err \<Rightarrow> Inl err | None \<Rightarrow>
      Inr \<lparr>us_signals = [], us_udsClients = []\<rparr>)"

text \<open>A socket file that an earlier run left behind is no obstacle when it can be removed; a directory in its place always is.\<close>

lemma stale_socket_replaced:
  "uo_Stat os = Some False \<Longrightarrow> uo_Remove os = None \<Longrightarrow> uo_Resolve os = None \<Longrightarrow> uo_Listen os = None \<Longrightarrow>
   NewUdsRegistryServer os = Inr \<lparr>us_signals = [], us_udsClients = []\<rparr>"
  "uo_Stat os = Some True \<Longrightarrow> \<exists>err. NewUdsRegistryServer os = Inl err"
  by (simp_all add: NewUdsRegistryServer_def prepare_socket_def)

text \<open>
  The two HTTP handlers; the argument is the decoded body, \<open>None\<close> when it does not parse. Each
  answers with status 200 and the text returned here.
\<close>

fun mark_healthy :: "string \<Rightarrow> uds_client list \<Rightarrow> uds_client list option" where
  "mark_healthy c [] = None"
| "mark_healthy c (u # us) =
     (if uc_component u = c then Some (u\<lparr>uc_isHealth := True\<rparr> # us)
      else map_option ((#) u) (mark_healthy c us))"

definition registry ::
  "register_arg option \<Rightarrow> uds_registry_server \<Rightarrow> uds_registry_server \<times> string" where
  "registry body server =
     (case body of
        None \<Rightarrow> (server, ''register success'')
      | Some registryArg \<Rightarrow>
          (case mark_healthy (ra_Component registryArg) (us_udsClients server) of
             Some us \<Rightarrow> (server\<lparr>us_udsClients := us\<rparr>, ''register success'')
           | None \<Rightarrow>
               (server\<lparr>us_udsClients := us_udsClients server @
                  [buildUdsClient (ra_SockAddr registryArg) (ra_UrlPath registryArg) (ra_Component registryArg)]\<rparr>,
                ''register success'')))"

definition healthCheck :: "string option \<Rightarrow> uds_registry_server \<Rightarrow> string" where
  "healthCheck body server =
     (case body of
        None \<Rightarrow> ''error, cannot parse request argument''
      | Some component \<Rightarrow>
          (case find (\<lambda>u. uc_component u = component) (us_udsClients server) of
             Some u \<Rightarrow> if uc_isHealth u then ''ok'' else ''error, already register but not health''
           | None \<Rightarrow> ''error, not exist''))"

definition uds_SendSignal :: "trace_labels \<Rightarrow> uds_registry_server \<Rightarrow> uds_registry_server" where
  "uds_SendSignal trace server = server\<lparr>us_signals := us_signals server @ [buildSignal trace]\<rparr>"

fun SendSignal :: "trace_labels \<Rightarrow> notify_api \<Rightarrow> notify_api" where
  "SendSignal trace NoopNotify = NoopNotify"
| "SendSignal trace (UdsRegistryServer s) = UdsRegistryServer (uds_SendSignal trace s)"

text \<open>
  Delivery to one client: signals are posted in turn until one fails; the failure marks the client
  unhealthy and the rest of its batch is skipped. \<open>post\<close> is the outcome of the HTTP request.
\<close>

fun deliver ::
  "(uds_client \<Rightarrow> signal \<Rightarrow> bool) \<Rightarrow> uds_client \<Rightarrow> signal list \<Rightarrow> uds_client \<times> signal list" where
  "deliver post u [] = (u, [])"
| "deliver post u (sg # sgs) =
     (if \<not> uc_isHealth u then deliver post u sgs
      else let u' = (if post u sg then u else u\<lparr>uc_isHealth := False\<rparr>);
               (u'', attempts) = deliver post u' sgs
           in (u'', sg # attempts))"

text \<open>
  \<open>BatchSendSignals\<close> after it read \<open>signalCount\<close>: the batch is the \<^emph>\<open>whole\<close> slice, the rest keeps
  what lies beyond \<open>signalCount\<close>. The output lists, per client, the signals that were posted.
\<close>

definition uds_Batch_cut ::
  "(uds_client \<Rightarrow> signal \<Rightarrow> bool) \<Rightarrow> nat \<Rightarrow> uds_registry_server \<Rightarrow>
     (uds_registry_server \<times> signal list \<times> (uds_client \<times> signal list) list) option" where
  "uds_Batch_cut post signalCount server =
     (if signalCount = 0 then Some (server, [], [])
      else do {
        signals \<leftarrow> slice_from (us_signals server) 0;
        rest \<leftarrow> slice_from (us_signals server) (int signalCount);
        let sent = map (\<lambda>u. deliver post u signals) (us_udsClients server);
        Some (server\<lparr>us_signals := rest, us_udsClients := map fst sent\<rparr>, signals,
              zip (us_udsClients server) (map snd sent))
      })"

fun BatchSendSignals ::
  "(uds_client \<Rightarrow> signal \<Rightarrow> bool) \<Rightarrow> notify_api \<Rightarrow>
     (notify_api \<times> signal list \<times> (uds_client \<times> signal list) list) option" where
  "BatchSendSignals post NoopNotify = Some (NoopNotify, [], [])"
| "BatchSendSignals post (UdsRegistryServer s) =
     map_option (\<lambda>(s', out). (UdsRegistryServer s', out)) (uds_Batch_cut post (length (us_signals s)) s)"

subsection \<open>Facts about the notifier\<close>

lemma fold_uds_SendSignal:
  "fold uds_SendSignal ts s = s\<lparr>us_signals := us_signals s @ map buildSignal ts\<rparr>"
  by (induction ts arbitrary: s) (auto simp: uds_SendSignal_def)

lemma deliver_unhealthy: "\<not> uc_isHealth u \<Longrightarrow> deliver post u sgs = (u, [])"
  by (induction sgs) auto

lemma deliver_component: "uc_component (fst (deliver post u sgs)) = uc_component u"
  by (induction sgs arbitrary: u) (auto simp: Let_def split_def)

lemma mark_healthy_components:
  "mark_healthy c us = Some us' \<Longrightarrow> map uc_component us' = map uc_component us"
  by (induction us arbitrary: us') (auto split: if_splits)

lemma mark_healthy_None: "mark_healthy c us = None \<longleftrightarrow> c \<notin> uc_component ` set us"
  by (induction us) auto

lemma mark_healthy_find:
  "mark_healthy c us = Some us' \<Longrightarrow>
   \<exists>u. find (\<lambda>u. uc_component u = c) us' = Some u \<and> uc_isHealth u"
  by (induction us arbitrary: us') (auto split: if_splits)

lemma find_append_absent:
  "(\<forall>x \<in> set xs. \<not> P x) \<Longrightarrow> find P (xs @ [y]) = (if P y then Some y else None)"
  by (induction xs) auto

subsection \<open>Properties\<close>

text \<open>C10: Every schedule of \<open>StoreTrace\<close> calls and \<open>SendTraces\<close> flushes completes without a slice out
  of range, and the marshalled groups sent so far followed by those still cached are exactly the stored
  traces in order: none is lost, repeated or reordered, although the length is read outside the lock.\<close>

theorem traces_sent_exactly_once:
  "\<exists>s' r' sent'. outbox_run StoreTrace (SendTraces_read marshal) SendTraces_out es (NewSampleApi adaptiveEnable, None, []) =
       Some (s', r', sent') \<and>
     sent' @ map marshal (api_cachedTraces s') = pushed (\<lambda>t. marshal (mk_TraceGroup t)) es"
  by (rule traces_out.no_loss_no_repeat) (simp add: NewSampleApi_def)

text \<open>The same for the profile signals of \<open>ebpfProfileApi\<close>: for every schedule of
  \<open>AddProfileSignal\<close> and the two halves of \<open>ConsumeProfileSignals\<close>, posted signals and waiting
  signals together are the added ones in order.\<close>

theorem profiles_sent_exactly_once:
  "\<exists>s' r' sent'.
     outbox_run (\<lambda>(t, f). ebpf_AddProfileSignal t f) (\<lambda>api. length (ep_signals api)) ebpf_Consume_out es
       (\<lparr>ep_address = addr, ep_signals = []\<rparr>, None, []) = Some (s', r', sent') \<and>
     sent' @ ep_signals s' = pushed (\<lambda>(t, f). mk_ProfileSignal t f) es"
  by (rule profiles_out.no_loss_no_repeat) simp

text \<open>\<open>BatchSendSignals\<close> hands over the whole slice but keeps what lies beyond the length it read
  before: the signals of traces \<open>ts\<close> that arrive in between are in this batch and stay queued for the
  next one, so each of them is delivered twice.\<close>

theorem uds_batch_repeats:
  assumes "us_signals s \<noteq> []"
  shows "\<exists>s' out. uds_Batch_cut post (length (us_signals s)) (fold uds_SendSignal ts s) =
           Some (s', us_signals s @ map buildSignal ts, out) \<and> us_signals s' = map buildSignal ts"
  using assms by (auto simp: uds_Batch_cut_def fold_uds_SendSignal Let_def slice_from_def)

theorem uds_batch_repeats_witness:
  "us_signals \<lparr>us_signals = [buildSignal zero_labels], us_udsClients = []\<rparr> \<noteq> [] \<and>
   (\<exists>s' out. uds_Batch_cut (\<lambda>u sg. True) 1
       (fold uds_SendSignal [zero_labels\<lparr>tl_Pid := 7\<rparr>] \<lparr>us_signals = [buildSignal zero_labels], us_udsClients = []\<rparr>) =
         Some (s', [buildSignal zero_labels, buildSignal (zero_labels\<lparr>tl_Pid := 7\<rparr>)], out) \<and>
       us_signals s' = [buildSignal (zero_labels\<lparr>tl_Pid := 7\<rparr>)])"
  using uds_batch_repeats [of "\<lparr>us_signals = [buildSignal zero_labels], us_udsClients = []\<rparr>" "\<lambda>u sg. True"
      "[zero_labels\<lparr>tl_Pid := 7\<rparr>]"]
  by simp

text \<open>Whatever is already registered, a component that registers is answered \<open>ok\<close> by the health
  check, and registrations never put a component twice into the list of clients.\<close>

theorem registry_then_healthy:
  "distinct (map uc_component (us_udsClients s)) \<Longrightarrow>
   healthCheck (Some (ra_Component arg)) (fst (registry (Some arg) s)) = ''ok'' \<and>
   distinct (map uc_component (us_udsClients (fst (registry (Some arg) s))))"
proof (cases "mark_healthy (ra_Component arg) (us_udsClients s)")
  case None
  assume d: "distinct (map uc_component (us_udsClients s))"
  from None have absent: "ra_Component arg \<notin> uc_component ` set (us_udsClients s)"
    by (simp add: mark_healthy_None)
  then have "\<forall>u \<in> set (us_udsClients s). uc_component u \<noteq> ra_Component arg"
    by (metis image_eqI)
  with None d absent show ?thesis
    by (simp add: registry_def healthCheck_def find_append_absent buildUdsClient_def)
next
  case (Some us)
  assume d: "distinct (map uc_component (us_udsClients s))"
  with Some mark_healthy_find [OF Some] mark_healthy_components [OF Some] show ?thesis
    by (auto simp: registry_def healthCheck_def)
qed

theorem registry_then_healthy_witness:
  "healthCheck (Some ''agent'')
     (fst (registry (Some \<lparr>ra_Component = ''agent'', ra_SockAddr = ''/a.sock'', ra_UrlPath = ''/p''\<rparr>)
        \<lparr>us_signals = [], us_udsClients = []\<rparr>)) = ''ok''"
  using registry_then_healthy [of "\<lparr>us_signals = [], us_udsClients = []\<rparr>"
      "\<lparr>ra_Component = ''agent'', ra_SockAddr = ''/a.sock'', ra_UrlPath = ''/p''\<rparr>"]
  by simp

end
