(* ===== verification/TraceCache.thy ===== *)
theory TraceCache
  imports Pdata
begin

section \<open>The delayed trace caches\<close>

text \<open>
  \<open>cache/cache.go\<close> and \<open>cache/trace_cache.go\<close> of the back-sampling processor. Producers write into a
  \<open>WriteableCache\<close>; once per tick its content moves into a \<open>ReadableCache\<close>, a map whose entries
  carry the index of the ring bucket they were last written in. Data waits there for its trace to be
  sampled; when the read index comes round to an entry's bucket, the entry is dropped.

  The abstract view of a \<open>ReadableCache\<close> is a delay line: a map from keys to data and the number of
  clean-ups the data still survives. The lemmas show that the ring implements the delay line
  operation by operation, that no index is ever out of range, and that no datum is lost or repeated.
\<close>

subsection \<open>\<open>WriteableCache\<close>\<close>

type_synonym 'a writeable_cache = "(string, 'a list) gomap"

definition NewWriteableCache :: "'a writeable_cache" where
  "NewWriteableCache = []"

definition wc_Write :: "string \<Rightarrow> 'a \<Rightarrow> 'a writeable_cache \<Rightarrow> 'a writeable_cache" where
  "wc_Write key data c =
     (case map_load c key of
        Some datas \<Rightarrow> map_store key (datas @ [data]) c
      | None \<Rightarrow> map_store key [data] c)"

definition wc_GetAndReset :: "'a writeable_cache \<Rightarrow> 'a writeable_cache \<times> 'a writeable_cache" where
  "wc_GetAndReset c = (c, NewWriteableCache)"

subsection \<open>\<open>ReadableCache\<close>\<close>

record 'a cache_data =
  cd_datas :: "'a list"
  cd_index :: int

record 'a readable_cache =
  rc_name :: string
  rc_cache :: "(string, 'a cache_data) gomap"
  rc_buckets :: "string list list"
  rc_readIndex :: int
  rc_writeIndex :: int
  rc_size :: int
  rc_activeCount :: int

definition NewReadableCache :: "string \<Rightarrow> int \<Rightarrow> 'a readable_cache option" where
  "NewReadableCache name sz =
     (if sz + 1 < 0 then None
      else Some \<lparr>rc_name = name, rc_cache = [], rc_buckets = replicate (nat (sz + 1)) [],
                 rc_readIndex = 0, rc_writeIndex = sz, rc_size = sz + 1, rc_activeCount = 0\<rparr>)"

definition cd_merge :: "'a list \<Rightarrow> int \<Rightarrow> 'a cache_data \<Rightarrow> 'a cache_data" where
  "cd_merge datas index d = d\<lparr>cd_datas := cd_datas d @ datas, cd_index := index\<rparr>"

definition newCacheData :: "'a list \<Rightarrow> int \<Rightarrow> 'a cache_data" where
  "newCacheData datas index = \<lparr>cd_datas = datas, cd_index = index\<rparr>"

definition copy_entry ::
  "int \<Rightarrow> (string, 'a cache_data) gomap \<times> int \<Rightarrow> string \<times> 'a list \<Rightarrow> (string, 'a cache_data) gomap \<times> int" where
  "copy_entry w st kv =
     (case st of (m, active) \<Rightarrow> case kv of (key, value) \<Rightarrow>
        (case map_load m key of
           Some cacheData \<Rightarrow> (map_store key (cd_merge value w cacheData) m, active)
         | None \<Rightarrow> (map_store key (newCacheData value w) m, active + 1)))"

definition rc_next :: "int \<Rightarrow> int \<Rightarrow> int" where
  "rc_next sz i = (if i + 1 \<ge> sz then 0 else i + 1)"

definition rc_Copy :: "(string, 'a list) gomap \<Rightarrow> 'a readable_cache \<Rightarrow> 'a readable_cache option" where
  "rc_Copy datas c =
     (let (m, active) = foldl (copy_entry (rc_writeIndex c)) (rc_cache c, rc_activeCount c) datas;
          batch = map fst datas
      in if 0 \<le> rc_writeIndex c \<and> rc_writeIndex c < int (length (rc_buckets c))
         then Some (c\<lparr>rc_cache := m, rc_activeCount := active,
                      rc_buckets := (rc_buckets c)[nat (rc_writeIndex c) := batch],
                      rc_writeIndex := rc_next (rc_size c) (rc_writeIndex c)\<rparr>)
         else None)"

definition rc_PickMatchData :: "string \<Rightarrow> 'a readable_cache \<Rightarrow> 'a readable_cache \<times> 'a list option" where
  "rc_PickMatchData key c =
     (case map_load (rc_cache c) key of
        Some cacheData \<Rightarrow> (c\<lparr>rc_cache := map_delete key (rc_cache c)\<rparr>, Some (cd_datas cacheData))
      | None \<Rightarrow> (c, None))"

fun rc_PickMatchDatas :: "string list \<Rightarrow> 'a readable_cache \<Rightarrow> 'a readable_cache \<times> 'a list" where
  "rc_PickMatchDatas [] c = (c, [])"
| "rc_PickMatchDatas (key # keys) c =
     (case map_load (rc_cache c) key of
        Some cacheData \<Rightarrow>
          (let (c', results) = rc_PickMatchDatas keys (c\<lparr>rc_cache := map_delete key (rc_cache c)\<rparr>)
           in (c', cd_datas cacheData @ results))
      | None \<Rightarrow> rc_PickMatchDatas keys c)"

fun clean_bucket ::
  "int \<Rightarrow> string list \<Rightarrow> (string, 'a cache_data) gomap \<times> int \<Rightarrow> (string, 'a cache_data) gomap \<times> int" where
  "clean_bucket r [] st = st"
| "clean_bucket r (key # keys) (m, cleanCount) =
     (case map_load m key of
        Some cacheData \<Rightarrow>
          if cd_index cacheData = r then clean_bucket r keys (map_delete key m, cleanCount + 1)
          else clean_bucket r keys (m, cleanCount)
      | None \<Rightarrow> clean_bucket r keys (m, cleanCount))"

definition rc_CleanExpireDatas :: "bool \<Rightarrow> 'a readable_cache \<Rightarrow> 'a readable_cache option" where
  "rc_CleanExpireDatas logEnable c =
     (case index_at (rc_buckets c) (rc_readIndex c) of
        None \<Rightarrow> None
      | Some bucket \<Rightarrow>
          (let (m, cleanCount) = clean_bucket (rc_readIndex c) bucket (rc_cache c, 0)
           in Some (c\<lparr>rc_cache := m,
                      rc_readIndex := rc_next (rc_size c) (rc_readIndex c),
                      rc_activeCount :=
                        (if logEnable \<and> cleanCount > 0 then rc_activeCount c - cleanCount
                         else rc_activeCount c)\<rparr>)))"

subsection \<open>Invariant\<close>

text \<open>
  Before a copy the write index is the bucket just behind the read index and no live entry carries
  it; between copy and clean-up both indices coincide.
\<close>

datatype rc_phase = BeforeCopy | BeforeClean

definition rc_prev :: "int \<Rightarrow> int \<Rightarrow> int" where
  "rc_prev sz i = (if i = 0 then sz - 1 else i - 1)"

definition rc_inv :: "rc_phase \<Rightarrow> 'a readable_cache \<Rightarrow> bool" where
  "rc_inv ph c \<longleftrightarrow>
     rc_size c = int (length (rc_buckets c)) \<and>
     0 \<le> rc_readIndex c \<and> rc_readIndex c < rc_size c \<and>
     rc_writeIndex c = (if ph = BeforeCopy then rc_prev (rc_size c) (rc_readIndex c) else rc_readIndex c) \<and>
     gomap_wf (rc_cache c) \<and>
     (\<forall>k d. map_load (rc_cache c) k = Some d \<longrightarrow>
        0 \<le> cd_index d \<and> cd_index d < rc_size c \<and> k \<in> set (rc_buckets c ! nat (cd_index d)) \<and>
        (ph = BeforeCopy \<longrightarrow> cd_index d \<noteq> rc_writeIndex c))"

lemma NewReadableCache_inv:
  "0 \<le> sz \<Longrightarrow> \<exists>c. NewReadableCache name sz = Some c \<and> rc_inv BeforeCopy c \<and> rc_size c = sz + 1"
  by (auto simp: NewReadableCache_def rc_inv_def rc_prev_def)

lemma copy_fold_load:
  assumes "gomap_wf datas"
  shows "map_load (fst (foldl (copy_entry w) (m, a) datas)) k =
    (case map_load datas k of
       None \<Rightarrow> map_load m k
     | Some v \<Rightarrow> Some (case map_load m k of
                   Some d \<Rightarrow> cd_merge v w d | None \<Rightarrow> newCacheData v w))"
  using assms
proof (induction datas arbitrary: m a)
  case Nil
  then show ?case by simp
next
  case (Cons kv datas)
  obtain key val where kv: "kv = (key, val)" by (cases kv)
  from Cons.prems kv have "gomap_wf datas" and nk: "map_load datas key = None"
    by (auto simp: gomap_wf_def map_of_eq_None_iff)
  with Cons.IH kv show ?case
    by (auto simp: copy_entry_def split: option.splits)
qed

lemma copy_fold_wf: "gomap_wf m \<Longrightarrow> gomap_wf (fst (foldl (copy_entry w) (m, a) datas))"
  by (induction datas arbitrary: m a)
    (auto simp: copy_entry_def intro: wf_store split: option.splits prod.splits)

lemma clean_bucket_wf: "gomap_wf m \<Longrightarrow> gomap_wf (fst (clean_bucket r keys (m, n)))"
  by (induction keys arbitrary: m n) (auto intro: wf_delete split: option.splits)

lemma clean_bucket_load:
  "map_load (fst (clean_bucket r keys (m, n))) k =
     (case map_load m k of
        Some d \<Rightarrow> if k \<in> set keys \<and> cd_index d = r then None else Some d
      | None \<Rightarrow> None)"
  by (induction keys arbitrary: m n) (auto split: option.splits)

lemma pick_load:
  "map_load (rc_cache (fst (rc_PickMatchDatas keys c))) k =
     (if k \<in> set keys then None else map_load (rc_cache c) k)"
  by (induction keys arbitrary: c) (auto simp: Let_def split_def split: option.splits)

lemma pick_frame:
  "rc_buckets (fst (rc_PickMatchDatas keys c)) = rc_buckets c"
  "rc_readIndex (fst (rc_PickMatchDatas keys c)) = rc_readIndex c"
  "rc_writeIndex (fst (rc_PickMatchDatas keys c)) = rc_writeIndex c"
  "rc_size (fst (rc_PickMatchDatas keys c)) = rc_size c"
  by (induction keys arbitrary: c) (auto simp: Let_def split_def split: option.splits)

lemma pick_wf: "gomap_wf (rc_cache c) \<Longrightarrow> gomap_wf (rc_cache (fst (rc_PickMatchDatas keys c)))"
  by (induction keys arbitrary: c) (simp_all add: Let_def split_def wf_delete split: option.splits)

lemma rc_Copy_inv:
  assumes "rc_inv BeforeCopy c" "gomap_wf datas"
  shows "\<exists>c'. rc_Copy datas c = Some c' \<and> rc_inv BeforeClean c' \<and>
           rc_readIndex c' = rc_readIndex c \<and> rc_size c' = rc_size c"
proof -
  let ?w = "rc_writeIndex c"
  let ?m = "fst (foldl (copy_entry ?w) (rc_cache c, rc_activeCount c) datas)"
  let ?a = "snd (foldl (copy_entry ?w) (rc_cache c, rc_activeCount c) datas)"
  let ?c' = "c\<lparr>rc_cache := ?m, rc_activeCount := ?a, rc_buckets := (rc_buckets c)[nat ?w := map fst datas],
                rc_writeIndex := rc_next (rc_size c) ?w\<rparr>"
  have w: "0 \<le> ?w" "?w < rc_size c" "rc_next (rc_size c) ?w = rc_readIndex c"
    using assms(1) by (auto simp: rc_inv_def rc_prev_def rc_next_def split: if_splits)
  then have eq: "rc_Copy datas c = Some ?c'"
    using assms(1) by (auto simp: rc_Copy_def rc_inv_def split_def Let_def)
  have keys: "k \<in> set (map fst datas)" if "map_load datas k = Some v" for k v
    using that by (auto dest: map_of_SomeD simp: image_iff intro: bexI [of _ "(k, v)"])
  have "rc_inv BeforeClean ?c'"
    using assms w keys
    by (fastforce simp: rc_inv_def copy_fold_load copy_fold_wf cd_merge_def newCacheData_def nth_list_update
        split: option.splits)
  with eq show ?thesis by simp
qed

lemma rc_Pick_inv: "rc_inv ph c \<Longrightarrow> rc_inv ph (fst (rc_PickMatchDatas keys c))"
  by (auto simp: rc_inv_def pick_frame pick_load pick_wf split: if_splits)

lemma rc_Clean_inv:
  assumes "rc_inv BeforeClean c"
  shows "\<exists>c'. rc_CleanExpireDatas lg c = Some c' \<and> rc_inv BeforeCopy c' \<and> rc_size c' = rc_size c \<and>
           rc_readIndex c' = rc_next (rc_size c) (rc_readIndex c)"
proof -
  let ?r = "rc_readIndex c"
  have r: "0 \<le> ?r" "?r < rc_size c" "rc_writeIndex c = ?r" "rc_size c = int (length (rc_buckets c))"
    using assms by (auto simp: rc_inv_def)
  have prev: "rc_prev (rc_size c) (rc_next (rc_size c) ?r) = ?r"
    using r(1,2) by (auto simp: rc_prev_def rc_next_def)
  have "index_at (rc_buckets c) ?r = Some (rc_buckets c ! nat ?r)"
    using r by (simp add: index_at_def)
  then show ?thesis
    using assms r prev
    by (auto simp: rc_CleanExpireDatas_def Let_def split_def rc_inv_def clean_bucket_load clean_bucket_wf
        rc_next_def split: option.splits if_splits) metis+
qed

subsection \<open>Refinement: the delay line\<close>

text \<open>Clean-ups an entry of bucket \<open>i\<close> survives when the read index is \<open>r\<close>.\<close>

definition rc_ttl :: "int \<Rightarrow> int \<Rightarrow> int \<Rightarrow> nat" where
  "rc_ttl sz r i = nat (if r \<le> i then i - r else i + sz - r)"

type_synonym 'a delay_line = "string \<Rightarrow> ('a list \<times> nat) option"

definition rc_abs :: "'a readable_cache \<Rightarrow> 'a delay_line" where
  "rc_abs c k = map_option (\<lambda>d. (cd_datas d, rc_ttl (rc_size c) (rc_readIndex c) (cd_index d)))
                  (map_load (rc_cache c) k)"

definition dl_copy :: "nat \<Rightarrow> (string, 'a list) gomap \<Rightarrow> 'a delay_line \<Rightarrow> 'a delay_line" where
  "dl_copy n datas m k =
     (case map_load datas k of
        None \<Rightarrow> m k
      | Some v \<Rightarrow> Some ((case m k of None \<Rightarrow> [] | Some (d, t) \<Rightarrow> d) @ v, n))"

definition dl_pick :: "string set \<Rightarrow> 'a delay_line \<Rightarrow> 'a delay_line" where
  "dl_pick K m k = (if k \<in> K then None else m k)"

definition dl_clean :: "'a delay_line \<Rightarrow> 'a delay_line" where
  "dl_clean m k = (case m k of Some (d, Suc t) \<Rightarrow> Some (d, t) | _ \<Rightarrow> None)"

lemma rc_Copy_refines:
  assumes inv: "rc_inv BeforeCopy c" "gomap_wf datas" and copy: "rc_Copy datas c = Some c'"
  shows "rc_abs c' = dl_copy (nat (rc_size c) - 1) datas (rc_abs c)"
proof
  fix k
  have "rc_ttl (rc_size c) (rc_readIndex c) (rc_writeIndex c) = nat (rc_size c) - 1"
    using inv(1) by (auto simp: rc_inv_def rc_ttl_def rc_prev_def)
  moreover have "rc_readIndex c' = rc_readIndex c" "rc_size c' = rc_size c"
    "rc_cache c' = fst (foldl (copy_entry (rc_writeIndex c)) (rc_cache c, rc_activeCount c) datas)"
    using copy by (auto simp: rc_Copy_def Let_def split_def split: if_splits)
  ultimately show "rc_abs c' k = dl_copy (nat (rc_size c) - 1) datas (rc_abs c) k"
    using inv(2)
    by (auto simp: rc_abs_def dl_copy_def copy_fold_load cd_merge_def newCacheData_def split: option.splits)
qed

lemma rc_Pick_refines: "rc_abs (fst (rc_PickMatchDatas keys c)) = dl_pick (set keys) (rc_abs c)"
  by (auto simp: rc_abs_def dl_pick_def pick_load pick_frame fun_eq_iff)

lemma rc_Clean_refines:
  assumes inv: "rc_inv BeforeClean c" and clean: "rc_CleanExpireDatas lg c = Some c'"
  shows "rc_abs c' = dl_clean (rc_abs c)"
proof
  fix k
  let ?r = "rc_readIndex c"
  have r: "0 \<le> ?r" "?r < rc_size c" and sz: "rc_size c = int (length (rc_buckets c))"
    using inv by (auto simp: rc_inv_def)
  then have "index_at (rc_buckets c) ?r = Some (rc_buckets c ! nat ?r)"
    by (simp add: index_at_def)
  then have c': "rc_readIndex c' = rc_next (rc_size c) ?r" "rc_size c' = rc_size c"
    "rc_cache c' = fst (clean_bucket ?r (rc_buckets c ! nat ?r) (rc_cache c, 0))"
    using clean by (auto simp: rc_CleanExpireDatas_def Let_def split_def)
  show "rc_abs c' k = dl_clean (rc_abs c) k"
  proof (cases "map_load (rc_cache c) k")
    case None
    with c' show ?thesis by (simp add: rc_abs_def dl_clean_def clean_bucket_load)
  next
    case (Some d)
    with inv have d: "0 \<le> cd_index d" "cd_index d < rc_size c" "k \<in> set (rc_buckets c ! nat (cd_index d))"
      by (auto simp: rc_inv_def)
    have "rc_ttl (rc_size c) ?r (cd_index d) = Suc (rc_ttl (rc_size c) (rc_next (rc_size c) ?r) (cd_index d))"
      if "cd_index d \<noteq> ?r"
      using that r d(1,2) by (auto simp: rc_ttl_def rc_next_def)
    moreover have "rc_ttl (rc_size c) ?r ?r = 0" by (simp add: rc_ttl_def)
    ultimately show ?thesis
      using Some c' d(3)
      by (cases "cd_index d = ?r") (simp_all add: rc_abs_def dl_clean_def clean_bucket_load)
  qed
qed

subsection \<open>Ticks\<close>

text \<open>One tick: copy what was written, pick the data of the given keys, clean up.\<close>

definition rc_tick ::
  "bool \<Rightarrow> (string, 'a list) gomap \<times> string list \<Rightarrow> 'a readable_cache \<Rightarrow> ('a readable_cache \<times> 'a list) option" where
  "rc_tick lg io c = do {
     c1 \<leftarrow> rc_Copy (fst io) c;
     let (c2, picked) = rc_PickMatchDatas (snd io) c1;
     c3 \<leftarrow> rc_CleanExpireDatas lg c2;
     Some (c3, picked)
   }"

fun rc_ticks ::
  "bool \<Rightarrow> ((string, 'a list) gomap \<times> string list) list \<Rightarrow> 'a readable_cache \<Rightarrow> 'a readable_cache option" where
  "rc_ticks lg [] c = Some c"
| "rc_ticks lg (io # ios) c = (case rc_tick lg io c of None \<Rightarrow> None | Some (c', picked) \<Rightarrow> rc_ticks lg ios c')"

definition dl_tick :: "nat \<Rightarrow> (string, 'a list) gomap \<times> string list \<Rightarrow> 'a delay_line \<Rightarrow> 'a delay_line" where
  "dl_tick n io m = dl_clean (dl_pick (set (snd io)) (dl_copy n (fst io) m))"

lemma rc_tick_ok:
  assumes "rc_inv BeforeCopy c" "gomap_wf (fst io)"
  shows "\<exists>c' picked. rc_tick lg io c = Some (c', picked) \<and> rc_inv BeforeCopy c' \<and> rc_size c' = rc_size c \<and>
           rc_abs c' = dl_tick (nat (rc_size c) - 1) io (rc_abs c)"
proof -
  obtain c1 where c1: "rc_Copy (fst io) c = Some c1" "rc_inv BeforeClean c1" "rc_size c1 = rc_size c"
    using rc_Copy_inv [OF assms] by auto
  let ?c2 = "fst (rc_PickMatchDatas (snd io) c1)"
  have c2: "rc_inv BeforeClean ?c2" using c1(2) by (rule rc_Pick_inv)
  then obtain c3 where c3: "rc_CleanExpireDatas lg ?c2 = Some c3" "rc_inv BeforeCopy c3" "rc_size c3 = rc_size c"
    using rc_Clean_inv [OF c2, of lg] c1(3) pick_frame(4) [of "snd io" c1] by auto
  have "rc_abs c3 = dl_tick (nat (rc_size c) - 1) io (rc_abs c)"
    using rc_Clean_refines [OF c2 c3(1)] rc_Copy_refines [OF assms c1(1)]
    by (simp add: dl_tick_def rc_Pick_refines)
  with c1 c3 show ?thesis by (auto simp: rc_tick_def split_def Let_def)
qed

lemma rc_ticks_ok:
  "rc_inv BeforeCopy c \<Longrightarrow> list_all (gomap_wf \<circ> fst) ios \<Longrightarrow>
   \<exists>c'. rc_ticks lg ios c = Some c' \<and> rc_inv BeforeCopy c' \<and> rc_size c' = rc_size c \<and>
     rc_abs c' = fold (dl_tick (nat (rc_size c) - 1)) ios (rc_abs c)"
proof (induction ios arbitrary: c)
  case Nil
  then show ?case by simp
next
  case (Cons io ios)
  then obtain c1 p where "rc_tick lg io c = Some (c1, p)" "rc_inv BeforeCopy c1" "rc_size c1 = rc_size c"
      "rc_abs c1 = dl_tick (nat (rc_size c) - 1) io (rc_abs c)"
    using rc_tick_ok [of c io lg] by auto
  with Cons.IH [of c1] Cons.prems(2) show ?case by auto
qed

text \<open>A tick that neither writes nor picks a key ages it by one.\<close>

definition untouched :: "string \<Rightarrow> (string, 'a list) gomap \<times> string list \<Rightarrow> bool" where
  "untouched k io \<longleftrightarrow> map_load (fst io) k = None \<and> k \<notin> set (snd io)"

lemma dl_tick_untouched:
  "untouched k io \<Longrightarrow> dl_tick n io m k = (case m k of Some (d, Suc t) \<Rightarrow> Some (d, t) | _ \<Rightarrow> None)"
  by (simp add: dl_tick_def dl_clean_def dl_pick_def dl_copy_def untouched_def)

lemma dl_fold_None:
  "list_all (untouched k) ios \<Longrightarrow> m k = None \<Longrightarrow> fold (dl_tick n) ios m k = None"
  by (induction ios arbitrary: m) (auto simp: dl_tick_untouched)

lemma dl_fold_age:
  "list_all (untouched k) ios \<Longrightarrow> m k = Some (d, t) \<Longrightarrow>
   fold (dl_tick n) ios m k = (if length ios \<le> t then Some (d, t - length ios) else None)"
proof (induction ios arbitrary: m t)
  case Nil
  then show ?case by simp
next
  case (Cons io ios)
  show ?case
  proof (cases t)
    case 0
    with Cons.prems have "dl_tick n io m k = None" by (simp add: dl_tick_untouched)
    with Cons.prems 0 show ?thesis by (simp add: dl_fold_None)
  next
    case (Suc t')
    with Cons.prems have "dl_tick n io m k = Some (d, t')" by (simp add: dl_tick_untouched)
    with Cons.IH [of "dl_tick n io m" t'] Cons.prems Suc show ?thesis by simp
  qed
qed

text \<open>
  Retention: data written in one tick stays for exactly \<open>size - 1\<close> further ticks unless it is
  picked or written again, and is gone one tick later.
\<close>

lemma rc_retention:
  assumes inv: "rc_inv BeforeCopy c" and wf: "gomap_wf (fst io)" "list_all (gomap_wf \<circ> fst) ios"
    and wr: "map_load (fst io) k = Some v" "rc_abs c k = None" "k \<notin> set (snd io)"
    and un: "list_all (untouched k) ios"
  shows "\<exists>c'. rc_ticks lg (io # ios) c = Some c' \<and>
           rc_abs c' k = (if int (length ios) + 1 < rc_size c
                          then Some (v, nat (rc_size c) - 2 - length ios) else None)"
proof -
  let ?n = "nat (rc_size c) - 1"
  obtain c' where c': "rc_ticks lg (io # ios) c = Some c'"
      "rc_abs c' = fold (dl_tick ?n) ios (dl_tick ?n io (rc_abs c))"
    using rc_ticks_ok [OF inv, of "io # ios" lg] wf by auto
  have sz: "0 < rc_size c" using inv by (auto simp: rc_inv_def)
  have first: "dl_tick ?n io (rc_abs c) k = (if ?n = 0 then None else Some (v, ?n - 1))"
    using wr by (auto simp: dl_tick_def dl_clean_def dl_pick_def dl_copy_def split: nat.splits)
  show ?thesis
  proof (cases "?n = 0")
    case True
    with first sz have "rc_abs c' k = None" using un c'(2) by (simp add: dl_fold_None)
    with c' True sz show ?thesis by auto
  next
    case False
    with first c'(2) un have "rc_abs c' k =
        (if length ios \<le> ?n - 1 then Some (v, ?n - 1 - length ios) else None)"
      by (simp add: dl_fold_age)
    with c' False sz show ?thesis by auto
  qed
qed

subsection \<open>Conservation of data\<close>

definition rc_content :: "'a readable_cache \<Rightarrow> 'a multiset" where
  "rc_content c = mset (concat (map (cd_datas \<circ> snd) (rc_cache c)))"

definition wc_content :: "'a writeable_cache \<Rightarrow> 'a multiset" where
  "wc_content m = mset (concat (map snd m))"

lemma content_delete:
  assumes "gomap_wf m" "map_load m k = Some v"
  shows "mset (concat (map (f \<circ> snd) m)) = mset (f v) + mset (concat (map (f \<circ> snd) (map_delete k m)))"
  using assms
proof (induction m)
  case Nil
  then show ?case by simp
next
  case (Cons x m)
  show ?case
  proof (cases "fst x = k")
    case True
    with Cons.prems have "map_delete k m = m"
      by (intro delete_absent) (simp add: gomap_wf_def map_of_eq_None_iff)
    with Cons.prems True show ?thesis by (auto simp: map_delete_def)
  next
    case False
    with Cons show ?thesis by (auto simp: map_delete_def gomap_wf_def split: if_splits)
  qed
qed

lemma content_store:
  "gomap_wf m \<Longrightarrow>
   mset (concat (map (f \<circ> snd) (map_store k v m))) =
     mset (f v) + mset (concat (map (f \<circ> snd) (map_delete k m)))"
proof (induction m)
  case Nil
  then show ?case by (simp add: map_store_def map_delete_def)
next
  case (Cons x m)
  show ?case
  proof (cases "fst x = k")
    case True
    with Cons.prems have "map_delete k m = m"
      by (intro delete_absent) (simp add: gomap_wf_def map_of_eq_None_iff)
    with True show ?thesis by (cases x) (auto simp: map_delete_def map_store_def)
  next
    case False
    with Cons show ?thesis by (cases x) (auto simp: map_delete_def map_store_def gomap_wf_def)
  qed
qed

lemma wc_Write_content: "gomap_wf m \<Longrightarrow> wc_content (wc_Write k x m) = add_mset x (wc_content m)"
  using content_store [of m "\<lambda>v. v" k] content_delete [of m k _ "\<lambda>v. v"]
  by (auto simp: wc_content_def wc_Write_def comp_def delete_absent split: option.splits)

lemma wc_Write_wf [wf_intros]: "gomap_wf m \<Longrightarrow> gomap_wf (wc_Write k x m)"
  by (simp add: wc_Write_def wf_store split: option.splits)

lemma copy_entry_content:
  "gomap_wf m \<Longrightarrow>
   mset (concat (map (cd_datas \<circ> snd) (fst (copy_entry w (m, a) (k, v))))) =
     mset (concat (map (cd_datas \<circ> snd) m)) + mset v"
  using content_store [of m cd_datas k] content_delete [of m k _ cd_datas]
  by (auto simp: copy_entry_def cd_merge_def newCacheData_def delete_absent split: option.splits)

lemma copy_fold_content:
  "gomap_wf m \<Longrightarrow>
   mset (concat (map (cd_datas \<circ> snd) (fst (foldl (copy_entry w) (m, a) datas)))) =
     mset (concat (map (cd_datas \<circ> snd) m)) + mset (concat (map snd datas))"
proof (induction datas arbitrary: m a)
  case Nil
  then show ?case by simp
next
  case (Cons kv datas)
  obtain m1 a1 where 1: "copy_entry w (m, a) kv = (m1, a1)" by fastforce
  have "gomap_wf m1"
    using Cons.prems copy_fold_wf [of m w a "[kv]"] 1 by simp
  with Cons.IH [of m1 a1] copy_entry_content [OF Cons.prems, of w a "fst kv" "snd kv"] 1
  show ?case by (simp add: comp_def)
qed

lemma rc_Copy_content:
  "rc_inv ph c \<Longrightarrow> rc_Copy datas c = Some c' \<Longrightarrow> rc_content c' = rc_content c + wc_content datas"
  by (auto simp: rc_Copy_def Let_def split_def rc_content_def wc_content_def rc_inv_def
      copy_fold_content split: if_splits)

lemma rc_Pick_content:
  "gomap_wf (rc_cache c) \<Longrightarrow>
   rc_content c = mset (snd (rc_PickMatchDatas keys c)) + rc_content (fst (rc_PickMatchDatas keys c))"
proof (induction keys arbitrary: c)
  case Nil
  then show ?case by simp
next
  case (Cons k keys)
  show ?case
  proof (cases "map_load (rc_cache c) k")
    case None
    with Cons show ?thesis by simp
  next
    case (Some d)
    let ?c = "c\<lparr>rc_cache := map_delete k (rc_cache c)\<rparr>"
    have "rc_content c = mset (cd_datas d) + rc_content ?c"
      using content_delete [OF Cons.prems Some, of cd_datas] by (simp add: rc_content_def)
    with Cons.IH [of ?c] Cons.prems Some show ?thesis
      by (simp add: wf_delete split_def Let_def)
  qed
qed

subsection \<open>\<open>OtelTraceSampler\<close>\<close>

record otel_trace =
  ot_Resource :: resource
  ot_Spans :: "span list"

record otel_trace_sampler =
  os_sampledIds :: "(string, int) gomap"
  os_traceWriteCache :: "otel_trace writeable_cache"
  os_traceReadCache :: "otel_trace readable_cache"
  os_traceIdExpireTime :: int

definition NewOtelTraceSampler :: "int \<Rightarrow> int \<Rightarrow> otel_trace_sampler option" where
  "NewOtelTraceSampler traceIdExpireTime delayTime =
     map_option (\<lambda>rc. \<lparr>os_sampledIds = [], os_traceWriteCache = NewWriteableCache, os_traceReadCache = rc,
                       os_traceIdExpireTime = i32 (dur_seconds traceIdExpireTime)\<rparr>)
       (NewReadableCache ''OtelTrace'' delayTime)"

definition NewOtelTrace :: "resource \<Rightarrow> span list \<Rightarrow> otel_trace" where
  "NewOtelTrace resource spans = \<lparr>ot_Resource = resource, ot_Spans = spans\<rparr>"

definition BuildTraces :: "resource \<Rightarrow> span list \<Rightarrow> traces" where
  "BuildTraces resource spans =
     [\<lparr>rs_Resource = resource, rs_ScopeSpans = [\<lparr>ss_Scope = [], ss_Spans = spans\<rparr>]\<rparr>]"

definition ConvertToTraces :: "otel_trace \<Rightarrow> traces" where
  "ConvertToTraces trace =
     [\<lparr>rs_Resource = ot_Resource trace, rs_ScopeSpans = [\<lparr>ss_Scope = [], ss_Spans = ot_Spans trace\<rparr>]\<rparr>]"

definition SetSampledTraceId :: "string \<Rightarrow> otel_trace_sampler \<Rightarrow> otel_trace_sampler" where
  "SetSampledTraceId traceId s = s\<lparr>os_sampledIds := map_store traceId 0 (os_sampledIds s)\<rparr>"

definition os_Cache :: "pdata_api \<Rightarrow> trace_id \<Rightarrow> otel_trace \<Rightarrow> otel_trace_sampler \<Rightarrow> otel_trace_sampler" where
  "os_Cache api tid trace s =
     s\<lparr>os_traceWriteCache := wc_Write (TraceID_String api tid) trace (os_traceWriteCache s)\<rparr>"

text \<open>The \<open>Range\<close> over the sampled identifiers: pick, count the tick, forget when it is due.\<close>

fun pick_sampled ::
  "int \<Rightarrow> (string, int) gomap \<Rightarrow> otel_trace readable_cache \<Rightarrow>
     (string, int) gomap \<times> otel_trace readable_cache \<times> otel_trace list" where
  "pick_sampled expire [] rc = ([], rc, [])"
| "pick_sampled expire ((k, hold) # ids) rc =
     (let (rc1, picked) = rc_PickMatchData k rc;
          sampled = (case picked of Some ts \<Rightarrow> ts | None \<Rightarrow> []);
          hold' = i32 (hold + 1);
          (ids', rc2, traces) = pick_sampled expire ids rc1
      in (if hold' \<ge> expire then ids' else (k, hold') # ids', rc2, sampled @ traces))"

definition PickSampledTraces ::
  "bool \<Rightarrow> otel_trace_sampler \<Rightarrow> (otel_trace_sampler \<times> otel_trace list) option" where
  "PickSampledTraces logEnable s = do {
     let (toWriteTraces, writeCache) = wc_GetAndReset (os_traceWriteCache s);
     rc1 \<leftarrow> rc_Copy toWriteTraces (os_traceReadCache s);
     let (ids, rc2, traces) = pick_sampled (os_traceIdExpireTime s) (os_sampledIds s) rc1;
     rc3 \<leftarrow> rc_CleanExpireDatas logEnable rc2;
     Some (s\<lparr>os_sampledIds := ids, os_traceWriteCache := writeCache, os_traceReadCache := rc3\<rparr>, traces)
   }"

definition os_inv :: "otel_trace_sampler \<Rightarrow> bool" where
  "os_inv s \<longleftrightarrow> gomap_wf (os_sampledIds s) \<and> gomap_wf (os_traceWriteCache s) \<and>
     rc_inv BeforeCopy (os_traceReadCache s)"

text \<open>The loop over the sampled identifiers is one pick of all of them.\<close>

lemma pick_sampled_eq:
  "pick_sampled expire ids rc =
     (map (\<lambda>(k, h). (k, i32 (h + 1))) (filter (\<lambda>(k, h). \<not> i32 (h + 1) \<ge> expire) ids),
      fst (rc_PickMatchDatas (map fst ids) rc), snd (rc_PickMatchDatas (map fst ids) rc))"
  by (induction ids arbitrary: rc)
    (auto simp: rc_PickMatchData_def Let_def split_def split: option.splits)

lemma PickSampledTraces_tick:
  "PickSampledTraces lg s =
     map_option (\<lambda>(rc, ts).
        (s\<lparr>os_sampledIds := map (\<lambda>(k, h). (k, i32 (h + 1)))
             (filter (\<lambda>(k, h). \<not> i32 (h + 1) \<ge> os_traceIdExpireTime s) (os_sampledIds s)),
           os_traceWriteCache := [], os_traceReadCache := rc\<rparr>, ts))
       (rc_tick lg (os_traceWriteCache s, map fst (os_sampledIds s)) (os_traceReadCache s))"
  by (auto simp: PickSampledTraces_def rc_tick_def wc_GetAndReset_def NewWriteableCache_def
      pick_sampled_eq Let_def split_def split: option.splits bind_splits)

lemma hold_filter_wf:
  "gomap_wf ids \<Longrightarrow> gomap_wf (map (\<lambda>(k, h). (k, i32 (h + 1))) (filter P ids))"
  by (simp add: gomap_wf_def split_def comp_def distinct_map_filter)

lemma PickSampledTraces_inv:
  assumes "os_inv s"
  shows "\<exists>s' ts. PickSampledTraces lg s = Some (s', ts) \<and> os_inv s' \<and>
           rc_size (os_traceReadCache s') = rc_size (os_traceReadCache s)"
proof -
  from assms obtain rc ts where
    "rc_tick lg (os_traceWriteCache s, map fst (os_sampledIds s)) (os_traceReadCache s) = Some (rc, ts)"
    "rc_inv BeforeCopy rc" "rc_size rc = rc_size (os_traceReadCache s)"
    using rc_tick_ok [of "os_traceReadCache s" "(os_traceWriteCache s, map fst (os_sampledIds s))" lg]
    by (auto simp: os_inv_def)
  with assms show ?thesis
    by (simp add: PickSampledTraces_tick os_inv_def hold_filter_wf)
qed

subsection \<open>Properties\<close>

text \<open>C9: Refinement of the delayed cache. A \<open>ReadableCache\<close> of any size, driven by any sequence of
  ticks (copy what was written, pick the given keys, clean up), never indexes a bucket out of range, and
  behaves as the delay line: a key holds its data and a number of ticks to live, a write appends and sets
  that number to the configured size, picking removes, and each clean-up counts down.\<close>

theorem readable_cache_refines_delay_line:
  assumes "0 \<le> sz" "list_all (gomap_wf \<circ> fst) ios"
  shows "\<exists>c c'. NewReadableCache name sz = Some c \<and> rc_ticks lg ios c = Some c' \<and>
           rc_abs c' = fold (dl_tick (nat sz)) ios (\<lambda>k. None)"
proof -
  obtain c :: "'a readable_cache" where c: "NewReadableCache name sz = Some c" "rc_inv BeforeCopy c" "rc_size c = sz + 1"
    using NewReadableCache_inv [OF assms(1)] by blast
  have "rc_abs c = (\<lambda>k. None)"
    using c(1) by (auto simp: NewReadableCache_def rc_abs_def split: if_splits)
  moreover have "nat (rc_size c) - 1 = nat sz" using c(3) assms(1) by linarith
  ultimately show ?thesis
    using rc_ticks_ok [OF c(2) assms(2), of lg] c by auto
qed

theorem readable_cache_refines_delay_line_witness:
  "\<exists>c c'. NewReadableCache ''x'' 1 = Some c \<and>
     rc_ticks False [([(''k'', [7 :: int])], []), ([], [''k''])] c = Some c' \<and>
     rc_abs c' = fold (dl_tick 1) [([(''k'', [7])], []), ([], [''k''])] (\<lambda>k. None)"
  using readable_cache_refines_delay_line [of 1 "[([(''k'', [7 :: int])], []), ([], [''k''])]" "''x''" False]
  by (simp add: gomap_wf_def)

text \<open>Retention. Data written in one tick is still there after \<open>n\<close> further ticks that neither
  write nor pick its key exactly while \<open>n + 1 < size\<close>: it lives for the configured delay, no shorter and
  no longer.\<close>

theorem cached_data_retention:
  assumes "rc_inv BeforeCopy c" "gomap_wf (fst io)" "list_all (gomap_wf \<circ> fst) ios"
    and "map_load (fst io) k = Some v" "rc_abs c k = None" "k \<notin> set (snd io)"
    and "list_all (untouched k) ios"
  shows "\<exists>c'. rc_ticks lg (io # ios) c = Some c' \<and>
           (rc_abs c' k \<noteq> None \<longleftrightarrow> int (length ios) + 1 < rc_size c) \<and>
           (\<forall>d t. rc_abs c' k = Some (d, t) \<longrightarrow> d = v)"
  using rc_retention [OF assms, of lg] by auto

theorem cached_data_retention_witness:
  "\<exists>c c'. NewReadableCache ''x'' 2 = Some c \<and>
     rc_ticks False [([(''k'', [7 :: int])], []), ([], [])] c = Some c' \<and> rc_abs c' ''k'' \<noteq> None"
proof -
  obtain c :: "int readable_cache" where c: "NewReadableCache ''x'' 2 = Some c" "rc_inv BeforeCopy c" "rc_size c = 3"
    using NewReadableCache_inv [of 2 "''x''"] by auto
  have "rc_abs c ''k'' = None"
    using c(1) by (auto simp: NewReadableCache_def rc_abs_def split: if_splits)
  with c cached_data_retention [of c "([(''k'', [7 :: int])], [])" "[([], [])]" "''k''" "[7]" False]
  show ?thesis by (auto simp: gomap_wf_def untouched_def)
qed

end
