(* ===== verification/Tailbase.thy ===== *)
theory Tailbase
  imports Outbox TraceCache
begin

section \<open>Tail-based samplers\<close>

text \<open>
  \<open>sampler/tailbase_sampler.go\<close> and \<open>sampler/sampler.go\<close>. A tail-based sampler remembers the
  identifiers of the sampled traces for a number of ticks, so that the other spans of such a trace
  follow it, and queues the identifiers that still have to be announced to the controller.

  The queue (\<open>unSendIds\<close>) is an outbox as long as the controller answers. When it does not, the
  \<open>RetryList\<close> decides how many identifiers to give up; its slices may be out of range, so its
  operations return options. The invariant \<open>retry_ok\<close> shows that they stay in range for up to three
  retries.
\<close>

subsection \<open>\<open>RetryList\<close>\<close>

record retry_list =
  rl_counts :: "int list"
  rl_fromIndex :: int
  rl_lastNum :: int
  rl_size :: int

definition newRetryList :: "int \<Rightarrow> retry_list option" where
  "newRetryList retryNum =
     (if retryNum > 0
      then Some \<lparr>rl_counts = replicate (nat retryNum) 0, rl_fromIndex = 0, rl_lastNum = 0, rl_size = 0\<rparr>
      else None)"

definition getToRemoveSize :: "int \<Rightarrow> retry_list \<Rightarrow> (retry_list \<times> int) option" where
  "getToRemoveSize num retry =
     (let n = int (length (rl_counts retry)); d = num - rl_lastNum retry in
      if rl_size retry < n then
        (let index0 = rl_fromIndex retry + rl_size retry;
             index = (if index0 \<ge> n then index0 - n else index0)
         in if 0 \<le> index \<and> index < n
            then Some (retry\<lparr>rl_counts := (rl_counts retry)[nat index := d],
                             rl_size := rl_size retry + 1, rl_lastNum := num\<rparr>, 0)
            else None)
      else do {
        toRemoveSize \<leftarrow> index_at (rl_counts retry) (rl_fromIndex retry);
        rest \<leftarrow> slice_from ((rl_counts retry)[nat (rl_fromIndex retry) := d]) 1;
        let counts = rest @ [d];
        Some (retry\<lparr>rl_counts := counts, rl_lastNum := num - toRemoveSize,
                    rl_fromIndex := (if rl_fromIndex retry = int (length counts) - 1 then 0
                                     else rl_fromIndex retry + 1)\<rparr>, toRemoveSize)
      })"

definition rl_reset :: "retry_list \<Rightarrow> retry_list" where
  "rl_reset retry = retry\<lparr>rl_size := 0, rl_lastNum := 0\<rparr>"

subsection \<open>\<open>unSendIds\<close>\<close>

record un_send_ids =
  us_toSendIds :: "string list"
  us_retry :: "retry_list option"

definition newUnSendIds :: "int \<Rightarrow> un_send_ids" where
  "newUnSendIds retryNum = \<lparr>us_toSendIds = [], us_retry = newRetryList retryNum\<rparr>"

definition cacheIds :: "string \<Rightarrow> un_send_ids \<Rightarrow> un_send_ids" where
  "cacheIds tid us = us\<lparr>us_toSendIds := us_toSendIds us @ [tid]\<rparr>"

definition markUnSent :: "int \<Rightarrow> un_send_ids \<Rightarrow> un_send_ids option" where
  "markUnSent num us =
     (if num \<le> 0 then Some us
      else do {
        (us1, toRemoveSize) \<leftarrow>
          (case us_retry us of
             None \<Rightarrow> Some (us, num)
           | Some retry \<Rightarrow>
               map_option (\<lambda>(retry', r). (us\<lparr>us_retry := Some retry'\<rparr>, r)) (getToRemoveSize num retry));
        if toRemoveSize > 0 then do {
          rest \<leftarrow> slice_from (us_toSendIds us1) toRemoveSize;
          Some (us1\<lparr>us_toSendIds := rest\<rparr>)
        } else Some us1
      })"

definition markSent :: "int \<Rightarrow> un_send_ids \<Rightarrow> un_send_ids option" where
  "markSent num us = do {
     rest \<leftarrow> slice_from (us_toSendIds us) num;
     Some (us\<lparr>us_toSendIds := rest, us_retry := map_option rl_reset (us_retry us)\<rparr>)
   }"

definition GetToSendIds :: "un_send_ids \<Rightarrow> string list" where
  "GetToSendIds us = take (length (us_toSendIds us)) (us_toSendIds us)"

subsection \<open>\<open>TailbaseSampler\<close>\<close>

text \<open>The sampled identifiers with the ticks they have been held (\<open>traceIdHoldTime.count\<close>).\<close>

record tailbase_sampler =
  ts_name :: string
  ts_unSendIds :: un_send_ids
  ts_sampledTraceIds :: "(string, int) gomap"
  ts_traceHoldTime :: int

definition newTailbaseSampler :: "string \<Rightarrow> int \<Rightarrow> int \<Rightarrow> tailbase_sampler" where
  "newTailbaseSampler name traceHoldTime retryNum =
     \<lparr>ts_name = name, ts_unSendIds = newUnSendIds retryNum, ts_sampledTraceIds = [],
      ts_traceHoldTime = traceHoldTime\<rparr>"

definition isTailBaseSampled :: "trace_labels \<Rightarrow> tailbase_sampler \<Rightarrow> bool" where
  "isTailBaseSampled trace s =
     (case map_load (ts_sampledTraceIds s) (tl_TraceId trace) of Some _ \<Rightarrow> True | None \<Rightarrow> False)"

definition notifyTailbase ::
  "trace_labels \<Rightarrow> tailbase_sampler \<Rightarrow> tailbase_sampler \<times> trace_labels" where
  "notifyTailbase trace s =
     ((case map_load (ts_sampledTraceIds s) (tl_TraceId trace) of
         None \<Rightarrow> s\<lparr>ts_sampledTraceIds := map_store (tl_TraceId trace) 0 (ts_sampledTraceIds s),
                    ts_unSendIds := cacheIds (tl_TraceId trace) (ts_unSendIds s)\<rparr>
       | Some _ \<Rightarrow> s),
      trace\<lparr>tl_IsProfiled := True\<rparr>)"

definition hold_isExpired :: "int \<Rightarrow> int \<Rightarrow> bool" where
  "hold_isExpired holdTime cnt = (cnt \<ge> holdTime)"

definition checkSampled :: "int \<Rightarrow> int \<times> bool" where
  "checkSampled cnt = (cnt + 1, cnt + 1 \<le> 2)"

text \<open>The \<open>Range\<close> of \<open>cleanSampledIds\<close>: what stays in the map, and the identifiers returned.\<close>

fun clean_ids :: "int \<Rightarrow> (string, int) gomap \<Rightarrow> (string, int) gomap \<times> string list" where
  "clean_ids holdTime [] = ([], [])"
| "clean_ids holdTime ((k, cnt) # m) =
     (let (m', result) = clean_ids holdTime m in
      if hold_isExpired holdTime cnt then (m', result)
      else let (cnt', sampled) = checkSampled cnt
           in ((k, cnt') # m', if sampled then k # result else result))"

definition cleanSampledIds :: "tailbase_sampler \<Rightarrow> tailbase_sampler \<times> string list" where
  "cleanSampledIds s =
     (let (m, result) = clean_ids (ts_traceHoldTime s) (ts_sampledTraceIds s)
      in (s\<lparr>ts_sampledTraceIds := m\<rparr>, result))"

definition updateSampledTraceIds ::
  "string list \<Rightarrow> int \<Rightarrow> tailbase_sampler \<Rightarrow> tailbase_sampler option" where
  "updateSampledTraceIds traceIds cnt s = do {
     us \<leftarrow> (if cnt > 0 then markSent cnt (ts_unSendIds s) else Some (ts_unSendIds s));
     Some (s\<lparr>ts_unSendIds := us,
             ts_sampledTraceIds := fold (\<lambda>tid. map_store tid 0) traceIds (ts_sampledTraceIds s)\<rparr>)
   }"

definition updateUnSentCount :: "int \<Rightarrow> tailbase_sampler \<Rightarrow> tailbase_sampler option" where
  "updateUnSentCount cnt s = do {
     us \<leftarrow> (if cnt > 0 then markUnSent cnt (ts_unSendIds s) else Some (ts_unSendIds s));
     Some (s\<lparr>ts_unSendIds := us\<rparr>)
   }"

subsection \<open>\<open>TailbaseSamplers\<close>\<close>

datatype sample_result =
  SampleResultNoOp | SampleResultCache | SampleResultTrace | SampleResultTraceProfile
| SampleResultTraceLog | SampleResultNormal

record tailbase_samplers =
  tb_traceCache :: "trace_labels writeable_cache"
  tb_slowSampler :: tailbase_sampler
  tb_errorSampler :: tailbase_sampler
  tb_normalSampler :: tailbase_sampler

definition newTailbaseSamplers :: "int \<Rightarrow> int \<Rightarrow> tailbase_samplers" where
  "newTailbaseSamplers holdTime retryNum =
     \<lparr>tb_traceCache = NewWriteableCache,
      tb_slowSampler = newTailbaseSampler ''slow'' holdTime retryNum,
      tb_errorSampler = newTailbaseSampler ''error'' holdTime retryNum,
      tb_normalSampler = newTailbaseSampler ''normal'' holdTime retryNum\<rparr>"

definition tb_Sample ::
  "trace_labels \<Rightarrow> bool \<Rightarrow> bool \<Rightarrow> bool \<Rightarrow> tailbase_samplers \<Rightarrow>
     tailbase_samplers \<times> trace_labels \<times> sample_result" where
  "tb_Sample trace hasSlow hasError isSampled s =
     (if isSampled then
        if hasSlow \<and> hasError then
          (let (slow, t1) = notifyTailbase trace (tb_slowSampler s);
               (err, t2) = notifyTailbase t1 (tb_errorSampler s)
           in (s\<lparr>tb_slowSampler := slow, tb_errorSampler := err\<rparr>, t2\<lparr>tl_ReportType := 4\<rparr>,
               SampleResultTraceProfile))
        else if hasSlow then
          (let (slow, t1) = notifyTailbase trace (tb_slowSampler s)
           in (s\<lparr>tb_slowSampler := slow\<rparr>, t1\<lparr>tl_ReportType := 1\<rparr>, SampleResultTraceProfile))
        else if hasError then
          (let (err, t1) = notifyTailbase trace (tb_errorSampler s)
           in (s\<lparr>tb_errorSampler := err\<rparr>, t1\<lparr>tl_ReportType := 3\<rparr>, SampleResultTraceLog))
        else
          (let (nor, t1) = notifyTailbase trace (tb_normalSampler s)
           in (s\<lparr>tb_normalSampler := nor\<rparr>, t1\<lparr>tl_ReportType := 2\<rparr>, SampleResultNormal))
      else if isTailBaseSampled trace (tb_errorSampler s) then
        (s, trace, if hasError then SampleResultTraceLog else SampleResultTrace)
      else if isTailBaseSampled trace (tb_slowSampler s) \<or> isTailBaseSampled trace (tb_normalSampler s)
      then (s, trace, SampleResultTrace)
      else (s, trace, SampleResultCache))"

definition tb_GetSampledTraceIds :: "tailbase_samplers \<Rightarrow> string list \<times> string list \<times> string list" where
  "tb_GetSampledTraceIds s =
     (GetToSendIds (ts_unSendIds (tb_slowSampler s)), GetToSendIds (ts_unSendIds (tb_errorSampler s)),
      GetToSendIds (ts_unSendIds (tb_normalSampler s)))"


subsection \<open>The queue while the controller answers\<close>

definition markSent_out :: "string list \<Rightarrow> un_send_ids \<Rightarrow> (un_send_ids \<times> string list) option" where
  "markSent_out ids us =
     map_option (\<lambda>us'. (us', ids))
       (if int (length ids) > 0 then markSent (int (length ids)) us else Some us)"

lemma fold_cacheIds: "fold cacheIds ids us = us\<lparr>us_toSendIds := us_toSendIds us @ ids\<rparr>"
  by (induction ids arbitrary: us) (auto simp: cacheIds_def)

interpretation ids_out: outbox us_toSendIds "\<lambda>tid. tid" cacheIds GetToSendIds markSent_out
proof unfold_locales
  show "us_toSendIds (cacheIds i s) = us_toSendIds s @ [i]" for i s
    by (simp add: cacheIds_def)
next
  show "\<exists>s'. markSent_out (GetToSendIds s) (fold cacheIds is s) = Some (s', us_toSendIds s) \<and>
         us_toSendIds s' = map (\<lambda>tid. tid) is" for s "is"
    by (auto simp: markSent_out_def markSent_def GetToSendIds_def fold_cacheIds)
qed

subsection \<open>The queue when the controller does not answer\<close>

text \<open>
  What a full list can still give up before the shifted counters meet fresh ones. For one to three
  slots this weight never exceeds the number of identifiers that failed last time.
\<close>

definition retry_weight :: "int list \<Rightarrow> nat \<Rightarrow> int" where
  "retry_weight c f = (if length c = 3 then c ! f + (if f = 2 then c ! 1 else c ! 2) else c ! f)"

definition filled_sum :: "int list \<Rightarrow> nat \<Rightarrow> nat \<Rightarrow> int" where
  "filled_sum c f n = (\<Sum>i<n. c ! ((f + i) mod length c))"

definition retry_ok :: "int \<Rightarrow> retry_list \<Rightarrow> bool" where
  "retry_ok len r \<longleftrightarrow>
     length (rl_counts r) \<in> {1, 2, 3} \<and> (\<forall>x \<in> set (rl_counts r). 0 \<le> x) \<and>
     0 \<le> rl_fromIndex r \<and> rl_fromIndex r < int (length (rl_counts r)) \<and>
     0 \<le> rl_size r \<and> rl_size r \<le> int (length (rl_counts r)) \<and>
     0 \<le> rl_lastNum r \<and> rl_lastNum r \<le> len \<and>
     (rl_size r < int (length (rl_counts r)) \<longrightarrow>
        filled_sum (rl_counts r) (nat (rl_fromIndex r)) (nat (rl_size r)) = rl_lastNum r) \<and>
     (rl_size r = int (length (rl_counts r)) \<longrightarrow>
        retry_weight (rl_counts r) (nat (rl_fromIndex r)) \<le> rl_lastNum r)"

lemma filled_sum_simps [simp]:
  "filled_sum c f 0 = 0"
  "filled_sum c f (Suc 0) = c ! (f mod length c)"
  "filled_sum c f 2 = c ! (f mod length c) + c ! ((f + 1) mod length c)"
  "filled_sum c f 3 = c ! (f mod length c) + c ! ((f + 1) mod length c) + c ! ((f + 2) mod length c)"
  by (simp_all add: filled_sum_def eval_nat_numeral)

lemma list_upto3: "length c \<in> {1, 2, 3} \<longleftrightarrow> (\<exists>x. c = [x]) \<or> (\<exists>x y. c = [x, y]) \<or> (\<exists>x y z. c = [x, y, z])"
  by (auto simp: length_Suc_conv numeral_2_eq_2 numeral_3_eq_3)

text \<open>Filling a slot: nothing is given up, and the filled slots account for all identifiers.\<close>

lemma retry_fill:
  assumes ok: "retry_ok len r" and num: "rl_lastNum r \<le> num" "num \<le> len"
    and room: "rl_size r < int (length (rl_counts r))"
  shows "\<exists>r'. getToRemoveSize num r = Some (r', 0) \<and> retry_ok len r'"
proof -
  obtain f n where fn: "rl_fromIndex r = int f" "rl_size r = int n"
    using ok by (metis nonneg_int_cases retry_ok_def)
  consider x where "rl_counts r = [x]" | x y where "rl_counts r = [x, y]"
    | x y z where "rl_counts r = [x, y, z]"
    using ok unfolding retry_ok_def list_upto3 by blast
  then show ?thesis
  proof cases
    case 1
    then have "f = 0" "n = 0" using ok room fn by (auto simp: retry_ok_def)
    then show ?thesis
      using 1 ok num fn by (auto simp: retry_ok_def getToRemoveSize_def retry_weight_def Let_def)
  next
    case 2
    then have "f = 0 \<or> f = 1" "n = 0 \<or> n = 1" using ok room fn by (auto simp: retry_ok_def)
    then show ?thesis
      using 2 ok num fn
      by (elim disjE) (simp_all add: retry_ok_def getToRemoveSize_def retry_weight_def Let_def)
  next
    case 3
    then have "f = 0 \<or> f = 1 \<or> f = 2" "n = 0 \<or> n = 1 \<or> n = 2" using ok room fn by (auto simp: retry_ok_def)
    then show ?thesis
      using 3 ok num fn
      by (elim disjE)
        (simp_all add: retry_ok_def getToRemoveSize_def retry_weight_def Let_def)
  qed
qed

text \<open>A full list gives up no more than what failed last time.\<close>

lemma retry_full:
  assumes ok: "retry_ok len r" and num: "rl_lastNum r \<le> num" "num \<le> len"
    and full: "\<not> rl_size r < int (length (rl_counts r))"
  shows "\<exists>r' k. getToRemoveSize num r = Some (r', k) \<and> 0 \<le> k \<and> k \<le> rl_lastNum r \<and>
           retry_ok (len - k) r'"
proof -
  obtain f where fn: "rl_fromIndex r = int f"
    using ok by (metis nonneg_int_cases retry_ok_def)
  have n: "rl_size r = int (length (rl_counts r))"
    using ok full by (simp add: retry_ok_def)
  consider x where "rl_counts r = [x]" | x y where "rl_counts r = [x, y]"
    | x y z where "rl_counts r = [x, y, z]"
    using ok unfolding retry_ok_def list_upto3 by blast
  then show ?thesis
  proof cases
    case 1
    then have "f = 0" using ok fn by (auto simp: retry_ok_def)
    then show ?thesis
      using 1 ok num fn n
      by (auto simp: retry_ok_def getToRemoveSize_def retry_weight_def Let_def index_at_def slice_from_def)
  next
    case 2
    then have "f = 0 \<or> f = 1" using ok fn by (auto simp: retry_ok_def)
    then show ?thesis
      using 2 ok num fn n
      by (elim disjE) (simp_all add: retry_ok_def getToRemoveSize_def retry_weight_def Let_def
          index_at_def slice_from_def)
  next
    case 3
    then have "f = 0 \<or> f = 1 \<or> f = 2" using ok fn by (auto simp: retry_ok_def)
    then show ?thesis
      using 3 ok num fn n
      by (elim disjE) (simp_all add: retry_ok_def getToRemoveSize_def retry_weight_def Let_def
          index_at_def slice_from_def)
  qed
qed

subsection \<open>Schedules of one sampler\<close>

text \<open>
  Spans and ticks that reach one sampler: a span is sampled, the sampling tick reads the identifiers,
  the controller answers with identifiers of other nodes or fails, the clean-up tick runs. The
  register holds what the sampling tick read while its query is under way.
\<close>

datatype tail_event = TailNotify trace_labels | TailRead | TailAnswer "string list option" | TailClean

fun tail_step ::
  "tail_event \<Rightarrow> tailbase_sampler \<times> string list option \<Rightarrow> (tailbase_sampler \<times> string list option) option" where
  "tail_step (TailNotify t) (s, r) = Some (fst (notifyTailbase t s), r)"
| "tail_step TailRead (s, r) =
     Some (s, Some (case r of None \<Rightarrow> GetToSendIds (ts_unSendIds s) | Some ids \<Rightarrow> ids))"
| "tail_step (TailAnswer a) (s, None) = Some (s, None)"
| "tail_step (TailAnswer (Some tids)) (s, Some ids) =
     map_option (\<lambda>s'. (s', None)) (updateSampledTraceIds tids (int (length ids)) s)"
| "tail_step (TailAnswer None) (s, Some ids) =
     map_option (\<lambda>s'. (s', None)) (updateUnSentCount (int (length ids)) s)"
| "tail_step TailClean (s, r) = Some (fst (cleanSampledIds s), r)"

fun tail_run ::
  "tail_event list \<Rightarrow> tailbase_sampler \<times> string list option \<Rightarrow> (tailbase_sampler \<times> string list option) option" where
  "tail_run [] c = Some c"
| "tail_run (e # es) c = (case tail_step e c of None \<Rightarrow> None | Some c' \<Rightarrow> tail_run es c')"

definition unsend_ok :: "un_send_ids \<Rightarrow> string list option \<Rightarrow> bool" where
  "unsend_ok us reg \<longleftrightarrow>
     (case reg of None \<Rightarrow> True | Some ids \<Rightarrow> \<exists>more. us_toSendIds us = ids @ more) \<and>
     (case us_retry us of
        None \<Rightarrow> True
      | Some r \<Rightarrow> retry_ok (int (length (us_toSendIds us))) r \<and>
                  (case reg of None \<Rightarrow> True | Some ids \<Rightarrow> rl_lastNum r \<le> int (length ids)))"

lemma retry_ok_mono: "retry_ok len r \<Longrightarrow> len \<le> len' \<Longrightarrow> retry_ok len' r"
  by (auto simp: retry_ok_def)

lemma retry_ok_reset: "retry_ok len r \<Longrightarrow> 0 \<le> len' \<Longrightarrow> retry_ok len' (rl_reset r)"
  by (auto simp: retry_ok_def rl_reset_def)

lemma retry_step:
  assumes "retry_ok len r" "rl_lastNum r \<le> num" "num \<le> len"
  shows "\<exists>r' k. getToRemoveSize num r = Some (r', k) \<and> 0 \<le> k \<and> k \<le> num \<and> retry_ok (len - k) r'"
proof (cases "rl_size r < int (length (rl_counts r))")
  case True
  have "0 \<le> num" using assms(1,2) by (simp add: retry_ok_def)
  with retry_fill [OF assms True] show ?thesis by fastforce
next
  case False
  from retry_full [OF assms this] assms(2) show ?thesis by fastforce
qed

lemma unsend_new: "retryNum \<le> 3 \<Longrightarrow> unsend_ok (newUnSendIds retryNum) None"
proof -
  assume r: "retryNum \<le> 3"
  have "nat retryNum = 1 \<or> nat retryNum = 2 \<or> nat retryNum = 3" if "retryNum > 0"
    using r that by linarith
  then show ?thesis
    by (auto simp: unsend_ok_def newUnSendIds_def newRetryList_def retry_ok_def)
qed

lemma unsend_cache: "unsend_ok us reg \<Longrightarrow> unsend_ok (cacheIds tid us) reg"
  by (auto simp: unsend_ok_def cacheIds_def split: option.splits intro: retry_ok_mono)

lemma unsend_read: "unsend_ok us None \<Longrightarrow> unsend_ok us (Some (GetToSendIds us))"
  by (auto simp: unsend_ok_def GetToSendIds_def retry_ok_def split: option.splits)

lemma unsend_sent:
  assumes "unsend_ok us (Some ids)"
  shows "\<exists>us'. markSent (int (length ids)) us = Some us' \<and> unsend_ok us' None"
  using assms
  by (cases "us_retry us") (auto simp: unsend_ok_def markSent_def intro!: retry_ok_reset)

lemma unsend_unsent:
  assumes ok: "unsend_ok us (Some ids)"
  shows "\<exists>us'. markUnSent (int (length ids)) us = Some us' \<and> unsend_ok us' None"
proof (cases "us_retry us")
  case None
  with ok show ?thesis by (auto simp: unsend_ok_def markUnSent_def)
next
  case (Some r)
  obtain more where more: "us_toSendIds us = ids @ more" and
    r: "retry_ok (int (length (us_toSendIds us))) r" "rl_lastNum r \<le> int (length ids)"
    using ok Some by (auto simp: unsend_ok_def)
  obtain r' k where k: "getToRemoveSize (int (length ids)) r = Some (r', k)" "0 \<le> k" "k \<le> int (length ids)"
      "retry_ok (int (length (us_toSendIds us)) - k) r'"
    using retry_step [OF r] more by auto
  show ?thesis
  proof (cases "ids = []")
    case True
    with ok show ?thesis by (auto simp: markUnSent_def unsend_ok_def split: option.splits)
  next
    case False
    with Some k more show ?thesis
      by (auto simp: markUnSent_def unsend_ok_def slice_from_def of_nat_diff algebra_simps)
  qed
qed

lemma tail_step_ok:
  assumes "unsend_ok (ts_unSendIds s) r"
  shows "\<exists>s' r'. tail_step e (s, r) = Some (s', r') \<and> unsend_ok (ts_unSendIds s') r'"
proof (cases e)
  case (TailNotify t)
  with assms show ?thesis
    by (auto simp: notifyTailbase_def unsend_cache split: option.splits)
next
  case TailRead
  with assms show ?thesis by (cases r) (auto simp: unsend_read)
next
  case TailClean
  with assms show ?thesis by (simp add: cleanSampledIds_def split_def Let_def)
next
  case (TailAnswer a)
  show ?thesis
  proof (cases r)
    case None
    with TailAnswer assms show ?thesis by auto
  next
    case (Some ids)
    have "unsend_ok (ts_unSendIds s) None" if "ids = []"
      using assms Some that by (auto simp: unsend_ok_def split: option.splits)
    moreover note unsend_sent [OF assms [unfolded Some]] unsend_unsent [OF assms [unfolded Some]]
    ultimately show ?thesis
      using TailAnswer Some
      by (cases a) (auto simp: updateSampledTraceIds_def updateUnSentCount_def)
  qed
qed

lemma tail_run_ok:
  "unsend_ok (ts_unSendIds s) r \<Longrightarrow>
   \<exists>s' r'. tail_run es (s, r) = Some (s', r') \<and> unsend_ok (ts_unSendIds s') r'"
proof (induction es arbitrary: s r)
  case Nil
  then show ?case by simp
next
  case (Cons e es)
  from tail_step_ok [OF Cons.prems, of e] Cons.IH show ?case by fastforce
qed

subsection \<open>How long an identifier is held\<close>

lemma clean_ids_eq:
  "clean_ids h m =
     (map_values (\<lambda>c. c + 1) (map_keep (\<lambda>k c. \<not> h \<le> c) m),
      map fst (map_keep (\<lambda>k c. \<not> h \<le> c \<and> c + 1 \<le> 2) m))"
  by (induction m) (auto simp: map_values_def map_keep_def hold_isExpired_def checkSampled_def split: if_splits)

lemma clean_ids_load:
  "gomap_wf m \<Longrightarrow> map_load (fst (clean_ids h m)) k =
     (case map_load m k of None \<Rightarrow> None | Some c \<Rightarrow> if h \<le> c then None else Some (c + 1))"
  by (simp add: clean_ids_eq load_keep split: option.split)

lemma clean_ids_wf [wf_intros]: "gomap_wf m \<Longrightarrow> gomap_wf (fst (clean_ids h m))"
  by (simp add: clean_ids_eq wf_values wf_keep)

lemma clean_ids_result:
  "gomap_wf m \<Longrightarrow> k \<in> set (snd (clean_ids h m)) \<longleftrightarrow>
     (\<exists>c. map_load m k = Some c \<and> \<not> h \<le> c \<and> c + 1 \<le> 2)"
  by (force simp: clean_ids_eq map_keep_def wf_load_iff)

text \<open>The clean-up ticks from now on: is the identifier held before each, is it returned by it?\<close>

fun clean_times :: "nat \<Rightarrow> tailbase_sampler \<Rightarrow> tailbase_sampler" where
  "clean_times 0 s = s"
| "clean_times (Suc n) s = clean_times n (fst (cleanSampledIds s))"

lemma clean_times_hold:
  "ts_traceHoldTime (clean_times n s) = ts_traceHoldTime s"
  by (induction n arbitrary: s) (simp_all add: cleanSampledIds_def split_def Let_def)

lemma clean_times_wf:
  "gomap_wf (ts_sampledTraceIds s) \<Longrightarrow> gomap_wf (ts_sampledTraceIds (clean_times n s))"
  by (induction n arbitrary: s) (simp_all add: cleanSampledIds_def split_def Let_def clean_ids_wf)

lemma clean_times_None:
  "gomap_wf (ts_sampledTraceIds s) \<Longrightarrow> map_load (ts_sampledTraceIds s) k = None \<Longrightarrow>
   map_load (ts_sampledTraceIds (clean_times n s)) k = None"
  by (induction n arbitrary: s)
    (simp_all add: cleanSampledIds_def split_def Let_def clean_ids_wf clean_ids_load)

lemma clean_times_load:
  "gomap_wf (ts_sampledTraceIds s) \<Longrightarrow> map_load (ts_sampledTraceIds s) k = Some c \<Longrightarrow> c \<le> ts_traceHoldTime s \<Longrightarrow>
   map_load (ts_sampledTraceIds (clean_times n s)) k =
     (if c + int n \<le> ts_traceHoldTime s then Some (c + int n) else None)"
proof (induction n arbitrary: s c)
  case 0
  then show ?case by simp
next
  case (Suc n)
  let ?s = "fst (cleanSampledIds s)"
  have s: "ts_sampledTraceIds ?s = fst (clean_ids (ts_traceHoldTime s) (ts_sampledTraceIds s))"
    "ts_traceHoldTime ?s = ts_traceHoldTime s"
    by (simp_all add: cleanSampledIds_def split_def Let_def)
  show ?case
  proof (cases "ts_traceHoldTime s \<le> c")
    case True
    with Suc.prems s have "map_load (ts_sampledTraceIds ?s) k = None" by (simp add: clean_ids_load)
    with Suc.prems s True show ?thesis by (simp add: clean_times_None clean_ids_wf)
  next
    case False
    with Suc.prems s have "map_load (ts_sampledTraceIds ?s) k = Some (c + 1)" by (simp add: clean_ids_load)
    with Suc.IH [of ?s "c + 1"] Suc.prems s False show ?thesis by (simp add: clean_ids_wf algebra_simps)
  qed
qed

subsection \<open>Properties\<close>

text \<open>With at most three retries (the default is three), no schedule of sampled spans, sampling ticks,
  answers or failures of the controller and clean-up ticks makes a tail-based sampler slice its queue out
  of range.\<close>

theorem tailbase_never_panics:
  assumes "retryNum \<le> 3"
  shows "\<exists>s' r'. tail_run es (newTailbaseSampler name holdTime retryNum, None) = Some (s', r')"
  using tail_run_ok [of "newTailbaseSampler name holdTime retryNum" None es] unsend_new [OF assms]
  by (auto simp: newTailbaseSampler_def)

definition fail_tick :: "string list \<Rightarrow> tail_event list" where
  "fail_tick ids = map (\<lambda>i. TailNotify (zero_labels\<lparr>tl_TraceId := i\<rparr>)) ids @ [TailRead, TailAnswer None]"

theorem tailbase_never_panics_witness:
  "(3 :: int) \<le> 3 \<and>
   (\<exists>s' r'. tail_run (fail_tick [''a''] @ fail_tick [] @ fail_tick [''b''] @ fail_tick [])
      (newTailbaseSampler ''slow'' 60 3, None) = Some (s', r'))"
  using tailbase_never_panics [of 3 "fail_tick [''a''] @ fail_tick [] @ fail_tick [''b''] @ fail_tick []" "''slow''" 60]
  by simp

text \<open>With four retries a controller that stays away brings the process down: \<open>getToRemoveSize\<close> on a
  full list both shifts the counters and advances \<open>fromIndex\<close>, so it gives up counts that were given up
  before. Nine failing ticks with four sampled traces in all end in a slice out of range.\<close>

theorem tailbase_panics_with_four_retries:
  "tail_run (concat (map fail_tick [[''a''], [], [], [], [], [''b''], [''c'', ''d''], [], []]))
     (newTailbaseSampler ''slow'' 60 4, None) = None"
  by code_simp

text \<open>A sampled identifier that was not held before is held for exactly the configured number of
  clean-up ticks (later spans of the trace follow it that long), and is returned for picking by the first
  two of them only.\<close>

theorem sampled_id_lifetime:
  assumes "gomap_wf (ts_sampledTraceIds s)" "\<not> isTailBaseSampled t s" "0 \<le> ts_traceHoldTime s"
  shows "(isTailBaseSampled t (clean_times n (fst (notifyTailbase t s))) \<longleftrightarrow> int n \<le> ts_traceHoldTime s) \<and>
         (tl_TraceId t \<in> set (snd (cleanSampledIds (clean_times n (fst (notifyTailbase t s))))) \<longleftrightarrow>
            n < 2 \<and> int n < ts_traceHoldTime s)"
proof -
  let ?s = "fst (notifyTailbase t s)"
  let ?c = "clean_times n ?s"
  have s: "map_load (ts_sampledTraceIds ?s) (tl_TraceId t) = Some 0" "gomap_wf (ts_sampledTraceIds ?s)"
    "ts_traceHoldTime ?s = ts_traceHoldTime s"
    using assms by (auto simp: notifyTailbase_def isTailBaseSampled_def intro: wf_store split: option.splits)
  have c: "map_load (ts_sampledTraceIds ?c) (tl_TraceId t) =
      (if int n \<le> ts_traceHoldTime s then Some (int n) else None)"
    using clean_times_load [of ?s "tl_TraceId t" 0 n] s assms(3) by simp
  have "gomap_wf (ts_sampledTraceIds ?c)" "ts_traceHoldTime ?c = ts_traceHoldTime s"
    using clean_times_wf [OF s(2), of n] clean_times_hold [of n ?s] s(3) by simp_all
  then show ?thesis
    using c by (auto simp: isTailBaseSampled_def cleanSampledIds_def split_def Let_def clean_ids_result)
qed

theorem sampled_id_lifetime_witness:
  "isTailBaseSampled (zero_labels\<lparr>tl_TraceId := ''a''\<rparr>)
     (clean_times 60 (fst (notifyTailbase (zero_labels\<lparr>tl_TraceId := ''a''\<rparr>) (newTailbaseSampler ''slow'' 60 3)))) \<and>
   \<not> isTailBaseSampled (zero_labels\<lparr>tl_TraceId := ''a''\<rparr>)
     (clean_times 61 (fst (notifyTailbase (zero_labels\<lparr>tl_TraceId := ''a''\<rparr>) (newTailbaseSampler ''slow'' 60 3))))"
  using sampled_id_lifetime [of "newTailbaseSampler ''slow'' 60 3" "zero_labels\<lparr>tl_TraceId := ''a''\<rparr>" 60]
    sampled_id_lifetime [of "newTailbaseSampler ''slow'' 60 3" "zero_labels\<lparr>tl_TraceId := ''a''\<rparr>" 61]
  by (simp add: newTailbaseSampler_def isTailBaseSampled_def)

end
