(* ===== verification/SampleCache.thy ===== *)
theory SampleCache
  imports NormalSampler Tailbase
begin

section \<open>The sampling decision\<close>

text \<open>
  \<open>sampler/sample_cache.go\<close> and \<open>sampler/single_sampler.go\<close>: the decision for one entry span. It marks
  the span slow by the threshold of its URL, asks the silencer (slow and error spans) or the normal
  sampler (the others), and lets the tail-based samplers decide whether the span starts a sampled
  trace, follows one, or waits in the cache.

  The handlers read the clock once (\<open>now\<close>). \<open>p90\<close> is the constant \<open>model.P90ThresholdType\<close> of
  \<open>apo-module\<close>. The builder chain \<open>NewSampleCache(\<dots>).WithNormalSampler(\<dots>).WithTailBaseSampler(\<dots>)
  .WithSilent(\<dots>)\<close> is one function: the processor never uses a partly built cache.
\<close>

subsection \<open>Slow thresholds\<close>

record slow_threshold =
  st_thresholdType :: string
  st_thresholdRange :: string
  st_thresholdValue :: f64
  st_thresholdMultiple :: f64

record slow_threshold_data =
  sl_Url :: string
  sl_Type :: string
  sl_Range :: string
  sl_Value :: f64
  sl_Multiple :: f64

record container_slow_threshold =
  cs_updateTime :: int
  cs_thresholdValues :: "(string, slow_threshold) gomap"

definition newContainerSlowThreshold :: "int \<Rightarrow> container_slow_threshold" where
  "newContainerSlowThreshold now = \<lparr>cs_updateTime = now, cs_thresholdValues = []\<rparr>"

definition updateSlowThreshold ::
  "slow_threshold_data \<Rightarrow> int \<Rightarrow> container_slow_threshold \<Rightarrow> container_slow_threshold" where
  "updateSlowThreshold data time c =
     (if sl_Value data > 0
      then c\<lparr>cs_thresholdValues :=
               map_store (sl_Url data)
                 \<lparr>st_thresholdType = sl_Type data, st_thresholdRange = sl_Range data,
                  st_thresholdValue = sl_Value data, st_thresholdMultiple = sl_Multiple data\<rparr>
                 (cs_thresholdValues c),
             cs_updateTime := time\<rparr>
      else c)"

definition getSlowThreshold :: "string \<Rightarrow> string \<Rightarrow> u64 \<Rightarrow> container_slow_threshold \<Rightarrow> slow_threshold" where
  "getSlowThreshold p90 url slowThreshold c =
     (case map_load (cs_thresholdValues c) url of
        Some data \<Rightarrow> data
      | None \<Rightarrow> \<lparr>st_thresholdType = p90, st_thresholdRange = ''default'',
                 st_thresholdValue = f64_of_u64 slowThreshold, st_thresholdMultiple = 1\<rparr>)"

subsection \<open>\<open>SampleCache\<close>\<close>

record sample_cache =
  sc_normalTopSampling :: bool
  sc_normalSampler :: noraml_sampler
  sc_tailbaseSamplers :: tailbase_samplers
  sc_openNormalSampling :: bool
  sc_openSlowSampling :: bool
  sc_openErrorSampling :: bool
  sc_ignoreThreshold :: u64
  sc_defaultSlowThreshold :: u64
  sc_slowThresholdCache :: container_slow_threshold
  sc_silent :: silent

definition NewSampleCache ::
  "int \<Rightarrow> bool \<Rightarrow> bool \<Rightarrow> u64 \<Rightarrow> u64 \<Rightarrow> bool \<Rightarrow> int \<Rightarrow> int \<Rightarrow> int \<Rightarrow> int \<Rightarrow> int \<Rightarrow> string \<Rightarrow> sample_cache" where
  "NewSampleCache now slowSampling errorSampling ignoreThreshold slowThreshold
     normalTopSample normalSampleWaitTime retryNum sampleWaitTime silentCount silentPeriod silentMode =
     \<lparr>sc_normalTopSampling = normalTopSample,
      sc_normalSampler = newNormalSampler normalTopSample normalSampleWaitTime,
      sc_tailbaseSamplers = newTailbaseSamplers sampleWaitTime retryNum,
      sc_openNormalSampling = (normalSampleWaitTime > 0),
      sc_openSlowSampling = slowSampling, sc_openErrorSampling = errorSampling,
      sc_ignoreThreshold = ignoreThreshold, sc_defaultSlowThreshold = slowThreshold,
      sc_slowThresholdCache = newContainerSlowThreshold now,
      sc_silent = NewSilent silentCount silentPeriod silentMode\<rparr>"

definition CheckSlow :: "string \<Rightarrow> trace_labels \<Rightarrow> u64 \<Rightarrow> sample_cache \<Rightarrow> trace_labels" where
  "CheckSlow p90 trace slowThreshold c =
     (let threshold = getSlowThreshold p90 (tl_Url trace) slowThreshold (sc_slowThresholdCache c) in
      trace\<lparr>tl_ThresholdRange := st_thresholdRange threshold,
            tl_ThresholdType := st_thresholdType threshold,
            tl_ThresholdValue := st_thresholdValue threshold,
            tl_ThresholdMultiple := st_thresholdMultiple threshold,
            tl_IsSlow := (if tl_Duration trace < sc_ignoreThreshold c then False
                          else tl_Duration trace \<ge> u64_of_f64 (st_thresholdValue threshold))\<rparr>)"

text \<open>
  The middle of \<open>GetSampleResult\<close>: does the span start a sampled trace? The results are \<open>hasSlow\<close>,
  \<open>hasError\<close> and \<open>isSampled\<close>.
\<close>

definition decide_sampled ::
  "int \<Rightarrow> trace_labels \<Rightarrow> sample_cache \<Rightarrow> sample_cache \<times> bool \<times> bool \<times> bool" where
  "decide_sampled now trace c =
     (if tl_IsSlow trace \<or> tl_IsError trace then
        (let hasSlow = (sc_openSlowSampling c \<and> tl_IsSlow trace);
             hasError = (sc_openErrorSampling c \<and> tl_IsError trace)
         in if (hasSlow \<or> hasError) \<and> tl_IsSampled trace then
              (let (si, silenced) = IsSilent now (getPidUrl trace) (sc_silent c)
               in (c\<lparr>sc_silent := si\<rparr>, hasSlow, hasError, \<not> silenced))
            else (c, hasSlow, hasError, False))
      else if sc_openNormalSampling c \<and> tl_IsSampled trace \<and> (\<not> sc_normalTopSampling c \<or> tl_TopSpan trace) then
        (let (ns, isSampled) = ns_Sample trace (sc_normalSampler c);
             ns' = (if isSampled then ns_UpdateTime now trace ns else ns)
         in (c\<lparr>sc_normalSampler := ns'\<rparr>, False, False, isSampled))
      else (c, False, False, False))"

definition GetSampleResult ::
  "string \<Rightarrow> int \<Rightarrow> trace_labels \<Rightarrow> sample_cache \<Rightarrow> sample_cache \<times> trace_labels \<times> sample_result" where
  "GetSampleResult p90 now trace0 c =
     (let trace = CheckSlow p90 trace0 (sc_defaultSlowThreshold c) c in
      if \<not> sc_openNormalSampling c \<and> \<not> sc_openSlowSampling c \<and> \<not> sc_openErrorSampling c
      then (c, trace, SampleResultNoOp)
      else if \<not> tl_IsError trace \<and> \<not> tl_TopSpan trace \<and> tl_Duration trace < sc_ignoreThreshold c
      then (c, trace, SampleResultNoOp)
      else
        (let (c1, hasSlow, hasError, isSampled) = decide_sampled now trace c;
             (tb, trace1, result) = tb_Sample trace hasSlow hasError isSampled (sc_tailbaseSamplers c1);
             c2 = c1\<lparr>sc_tailbaseSamplers := tb\<rparr>;
             c3 = (if sc_openNormalSampling c2 \<and> \<not> sc_normalTopSampling c2 \<and>
                      (result = SampleResultTrace \<or> result = SampleResultTraceProfile \<or>
                       result = SampleResultTraceLog)
                   then c2\<lparr>sc_normalSampler := ns_UpdateTime now trace1 (sc_normalSampler c2)\<rparr>
                   else c2)
         in (c3, trace1, result)))"

definition CacheTrace :: "trace_labels \<Rightarrow> sample_cache \<Rightarrow> sample_cache" where
  "CacheTrace trace c =
     c\<lparr>sc_tailbaseSamplers := (sc_tailbaseSamplers c)
         \<lparr>tb_traceCache := wc_Write (tl_TraceId trace) trace (tb_traceCache (sc_tailbaseSamplers c))\<rparr>\<rparr>"

text \<open>The controller's answer to a profile query (\<open>ProfileResult\<close>).\<close>

record profile_result =
  pr_QueryTime :: int
  pr_SlowTraceIds :: "string list"
  pr_ErrorTraceIds :: "string list"
  pr_NormalTraceIds :: "string list"

definition UpdateSampledTraceIds ::
  "profile_result \<Rightarrow> int \<Rightarrow> int \<Rightarrow> int \<Rightarrow> sample_cache \<Rightarrow> sample_cache option" where
  "UpdateSampledTraceIds result slowCount errorCount normalCount c = do {
     let tb = sc_tailbaseSamplers c;
     slow \<leftarrow> updateSampledTraceIds (pr_SlowTraceIds result) slowCount (tb_slowSampler tb);
     err \<leftarrow> updateSampledTraceIds (pr_ErrorTraceIds result) errorCount (tb_errorSampler tb);
     nor \<leftarrow> updateSampledTraceIds (pr_NormalTraceIds result) normalCount (tb_normalSampler tb);
     Some (c\<lparr>sc_tailbaseSamplers := tb\<lparr>tb_slowSampler := slow, tb_errorSampler := err, tb_normalSampler := nor\<rparr>\<rparr>)
   }"

definition UpdateUnSentCount :: "int \<Rightarrow> int \<Rightarrow> int \<Rightarrow> sample_cache \<Rightarrow> sample_cache option" where
  "UpdateUnSentCount slowCount errorCount normalCount c = do {
     let tb = sc_tailbaseSamplers c;
     slow \<leftarrow> updateUnSentCount slowCount (tb_slowSampler tb);
     err \<leftarrow> updateUnSentCount errorCount (tb_errorSampler tb);
     nor \<leftarrow> updateUnSentCount normalCount (tb_normalSampler tb);
     Some (c\<lparr>sc_tailbaseSamplers := tb\<lparr>tb_slowSampler := slow, tb_errorSampler := err, tb_normalSampler := nor\<rparr>\<rparr>)
   }"

definition UpdateSlowThreshold :: "int \<Rightarrow> slow_threshold_data list \<Rightarrow> sample_cache \<Rightarrow> sample_cache" where
  "UpdateSlowThreshold now datas c =
     (if length datas = 0 then c
      else c\<lparr>sc_slowThresholdCache :=
               fold (\<lambda>data. updateSlowThreshold data now) datas (sc_slowThresholdCache c)\<rparr>)"

definition UpdateNoramlTime :: "int \<Rightarrow> trace_labels \<Rightarrow> sample_cache \<Rightarrow> sample_cache" where
  "UpdateNoramlTime now trace c = c\<lparr>sc_normalSampler := ns_UpdateTime now trace (sc_normalSampler c)\<rparr>"

definition CheckWindow :: "int \<Rightarrow> sample_cache \<Rightarrow> sample_cache" where
  "CheckWindow now c =
     c\<lparr>sc_silent := CheckAndResetSilent now (sc_silent c),
       sc_normalSampler := ns_Check now (sc_normalSampler c)\<rparr>"

definition GetSampledTraceIds :: "sample_cache \<Rightarrow> string list \<times> string list \<times> string list" where
  "GetSampledTraceIds c = tb_GetSampledTraceIds (sc_tailbaseSamplers c)"

record sampled_trace_ids =
  si_TraceCache :: "(string, trace_labels list) gomap"
  si_ErrorIds :: "string list"
  si_SlowIds :: "string list"
  si_NormalIds :: "string list"

definition GetAndCleanTailbaseTraces :: "sample_cache \<Rightarrow> sample_cache \<times> sampled_trace_ids" where
  "GetAndCleanTailbaseTraces c =
     (let tb = sc_tailbaseSamplers c;
          (traceCache, empty) = wc_GetAndReset (tb_traceCache tb);
          (err, errorIds) = cleanSampledIds (tb_errorSampler tb);
          (slow, slowIds) = cleanSampledIds (tb_slowSampler tb);
          (nor, normalIds) = cleanSampledIds (tb_normalSampler tb)
      in (c\<lparr>sc_tailbaseSamplers := tb\<lparr>tb_traceCache := empty, tb_errorSampler := err,
              tb_slowSampler := slow, tb_normalSampler := nor\<rparr>\<rparr>,
          \<lparr>si_TraceCache = traceCache, si_ErrorIds = errorIds, si_SlowIds = slowIds,
           si_NormalIds = normalIds\<rparr>))"

subsection \<open>\<open>SingleSampler\<close>\<close>

record single_sampler =
  ss_normalSampler :: noraml_sampler
  ss_openNormalSampling :: bool
  ss_openSlowSampling :: bool
  ss_openErrorSampling :: bool
  ss_ignoreThreshold :: u64
  ss_silent :: silent

definition NewSingleSampler ::
  "bool \<Rightarrow> bool \<Rightarrow> u64 \<Rightarrow> int \<Rightarrow> int \<Rightarrow> int \<Rightarrow> string \<Rightarrow> single_sampler" where
  "NewSingleSampler slowSampling errorSampling ignoreThreshold normalSampleWaitTime
     silentCount silentPeriod silentMode =
     \<lparr>ss_normalSampler = TopNormal (NewTopNormalTraceSampler normalSampleWaitTime),
      ss_openNormalSampling = (normalSampleWaitTime > 0),
      ss_openSlowSampling = slowSampling, ss_openErrorSampling = errorSampling,
      ss_ignoreThreshold = ignoreThreshold,
      ss_silent = NewSilent silentCount silentPeriod silentMode\<rparr>"

definition single_Sample ::
  "int \<Rightarrow> trace_labels \<Rightarrow> single_sampler \<Rightarrow> single_sampler \<times> trace_labels \<times> bool" where
  "single_Sample now trace c =
     (if \<not> ss_openNormalSampling c \<and> \<not> ss_openSlowSampling c \<and> \<not> ss_openErrorSampling c
      then (c, trace, False)
      else if \<not> tl_IsError trace \<and> \<not> tl_TopSpan trace \<and> tl_Duration trace < ss_ignoreThreshold c
      then (c, trace, False)
      else
        (let (c1, isSampled) =
           (if tl_IsSlow trace \<or> tl_IsError trace then
              (let hasSlow = (ss_openSlowSampling c \<and> tl_IsSlow trace);
                   hasError = (ss_openErrorSampling c \<and> tl_IsError trace)
               in if (hasSlow \<or> hasError) \<and> tl_IsSampled trace then
                    (let (si, silenced) = IsSilent now (getPidUrl trace) (ss_silent c)
                     in (c\<lparr>ss_silent := si\<rparr>, \<not> silenced))
                  else (c, False))
            else if ss_openNormalSampling c \<and> tl_IsSampled trace then
              (let (ns, isSampled) = ns_Sample trace (ss_normalSampler c)
               in (c\<lparr>ss_normalSampler := ns\<rparr>, isSampled))
            else (c, False))
         in if isSampled then (c1, trace\<lparr>tl_IsProfiled := True\<rparr>, True) else (c1, trace, False)))"

definition single_CheckWindow :: "int \<Rightarrow> single_sampler \<Rightarrow> single_sampler" where
  "single_CheckWindow now c =
     c\<lparr>ss_silent := CheckAndResetSilent now (ss_silent c),
       ss_normalSampler := ns_Check now (ss_normalSampler c)\<rparr>"

subsection \<open>Well-formedness\<close>

definition tb_wf :: "tailbase_samplers \<Rightarrow> bool" where
  "tb_wf tb \<longleftrightarrow> gomap_wf (tb_traceCache tb) \<and> gomap_wf (ts_sampledTraceIds (tb_slowSampler tb)) \<and>
     gomap_wf (ts_sampledTraceIds (tb_errorSampler tb)) \<and> gomap_wf (ts_sampledTraceIds (tb_normalSampler tb))"

definition sc_wf :: "sample_cache \<Rightarrow> bool" where
  "sc_wf c \<longleftrightarrow> tb_wf (sc_tailbaseSamplers c) \<and> ns_wf (sc_normalSampler c) \<and>
     gomap_wf (si_pidUrlDatas (sc_silent c)) \<and> gomap_wf (cs_thresholdValues (sc_slowThresholdCache c))"

lemma notify_wf [wf_intros]:
  "gomap_wf (ts_sampledTraceIds s) \<Longrightarrow> gomap_wf (ts_sampledTraceIds (fst (notifyTailbase t s)))"
  by (auto simp: notifyTailbase_def intro: wf_store split: option.splits)

lemma tb_Sample_wf [wf_intros]: "tb_wf tb \<Longrightarrow> tb_wf (fst (tb_Sample t hs he b tb))"
  by (auto simp: tb_Sample_def tb_wf_def Let_def split_def intro: notify_wf)

lemma decide_wf [wf_intros]: "sc_wf c \<Longrightarrow> sc_wf (fst (decide_sampled now t c))"
  by (auto simp: decide_sampled_def sc_wf_def Let_def split_def intro: IsSilent_wf ns_wf_Sample ns_wf_UpdateTime)

lemma GetSampleResult_wf [wf_intros]: "sc_wf c \<Longrightarrow> sc_wf (fst (GetSampleResult p90 now t c))"
proof -
  assume wf: "sc_wf c"
  let ?t = "CheckSlow p90 t (sc_defaultSlowThreshold c) c"
  have "sc_wf (fst (decide_sampled now ?t c))"
    using wf by (rule decide_wf)
  then show ?thesis
    using wf tb_Sample_wf [of "sc_tailbaseSamplers (fst (decide_sampled now ?t c))"]
    by (auto simp: GetSampleResult_def Let_def split_def sc_wf_def intro: ns_wf_UpdateTime)
qed

lemma CacheTrace_wf [wf_intros]: "sc_wf c \<Longrightarrow> sc_wf (CacheTrace t c)"
  by (auto simp: CacheTrace_def sc_wf_def tb_wf_def intro: wc_Write_wf)

lemma fold_store_wf: "gomap_wf m \<Longrightarrow> gomap_wf (fold (\<lambda>tid. map_store tid v) ids m)"
  by (induction ids arbitrary: m) (auto intro: wf_store)

lemma updateSampled_wf:
  "updateSampledTraceIds ids n s = Some s' \<Longrightarrow> gomap_wf (ts_sampledTraceIds s) \<Longrightarrow>
   gomap_wf (ts_sampledTraceIds s')"
  by (auto simp: updateSampledTraceIds_def intro: fold_store_wf split: bind_splits)

lemma updateUnSent_wf:
  "updateUnSentCount n s = Some s' \<Longrightarrow> gomap_wf (ts_sampledTraceIds s) \<Longrightarrow> gomap_wf (ts_sampledTraceIds s')"
  by (auto simp: updateUnSentCount_def split: bind_splits)

lemma UpdateSampledTraceIds_wf: "UpdateSampledTraceIds r a b d c = Some c' \<Longrightarrow> sc_wf c \<Longrightarrow> sc_wf c'"
  by (auto simp: UpdateSampledTraceIds_def sc_wf_def tb_wf_def Let_def intro: updateSampled_wf split: bind_splits)

lemma UpdateUnSentCount_wf: "UpdateUnSentCount a b d c = Some c' \<Longrightarrow> sc_wf c \<Longrightarrow> sc_wf c'"
  by (auto simp: UpdateUnSentCount_def sc_wf_def tb_wf_def Let_def intro: updateUnSent_wf split: bind_splits)

lemma UpdateSlowThreshold_wf [wf_intros]: "sc_wf c \<Longrightarrow> sc_wf (UpdateSlowThreshold now ds c)"
proof -
  have "gomap_wf (cs_thresholdValues m) \<Longrightarrow>
      gomap_wf (cs_thresholdValues (fold (\<lambda>data. updateSlowThreshold data now) ds m))" for m
    by (induction ds arbitrary: m) (simp_all add: updateSlowThreshold_def wf_store)
  then show "sc_wf c \<Longrightarrow> sc_wf (UpdateSlowThreshold now ds c)"
    by (auto simp: UpdateSlowThreshold_def sc_wf_def)
qed

lemma UpdateNoramlTime_wf [wf_intros]: "sc_wf c \<Longrightarrow> sc_wf (UpdateNoramlTime now t c)"
  by (auto simp: UpdateNoramlTime_def sc_wf_def intro: ns_wf_UpdateTime)

lemma CheckWindow_wf [wf_intros]: "sc_wf c \<Longrightarrow> sc_wf (CheckWindow now c)"
  by (auto simp: CheckWindow_def sc_wf_def intro: ns_wf_Check CheckAndReset_wf)

lemma GetAndClean_wf [wf_intros]: "sc_wf c \<Longrightarrow> sc_wf (fst (GetAndCleanTailbaseTraces c))"
  by (auto simp: GetAndCleanTailbaseTraces_def sc_wf_def tb_wf_def wc_GetAndReset_def NewWriteableCache_def
      cleanSampledIds_def Let_def split_def intro: clean_ids_wf)

lemma NewSampleCache_wf: "sc_wf (NewSampleCache now a b i d nt nw rn sw c p m)"
  by (simp add: sc_wf_def tb_wf_def NewSampleCache_def newTailbaseSamplers_def newTailbaseSampler_def
      NewWriteableCache_def newNormalSampler_def NewTopNormalTraceSampler_def newAnyNormalTraceSampler_def
      NewSilent_def newContainerSlowThreshold_def)

subsection \<open>Which traces are held\<close>

text \<open>A trace is held while one of the three samplers remembers its identifier.\<close>

definition ts_held :: "tailbase_sampler \<Rightarrow> string set" where
  "ts_held s = dom (map_of (ts_sampledTraceIds s))"

definition tb_held :: "tailbase_samplers \<Rightarrow> string set" where
  "tb_held tb = ts_held (tb_slowSampler tb) \<union> ts_held (tb_errorSampler tb) \<union> ts_held (tb_normalSampler tb)"

lemma isTailBaseSampled_iff: "isTailBaseSampled t s \<longleftrightarrow> tl_TraceId t \<in> ts_held s"
  by (auto simp: isTailBaseSampled_def ts_held_def split: option.splits)

lemma notify_held: "ts_held (fst (notifyTailbase t s)) = insert (tl_TraceId t) (ts_held s)"
  by (auto simp: notifyTailbase_def ts_held_def split: option.splits)

lemma notify_trace: "snd (notifyTailbase t s) = t\<lparr>tl_IsProfiled := True\<rparr>"
  by (simp add: notifyTailbase_def)

lemmas tail_simps = isTailBaseSampled_iff notify_held notify_trace Let_def split_def

lemma tb_Sample_held:
  "tb_held (fst (tb_Sample t hs he b tb)) = (if b then insert (tl_TraceId t) (tb_held tb) else tb_held tb)"
  by (auto simp: tb_Sample_def tb_held_def tail_simps)

lemma tb_Sample_result:
  "snd (snd (tb_Sample t hs he b tb)) = SampleResultCache \<longleftrightarrow> \<not> b \<and> tl_TraceId t \<notin> tb_held tb"
  "snd (snd (tb_Sample t hs he b tb)) \<noteq> SampleResultNoOp"
  by (auto simp: tb_Sample_def tb_held_def tail_simps)

lemma tb_Sample_trace:
  "tl_IsProfiled (fst (snd (tb_Sample t hs he b tb))) \<longleftrightarrow> tl_IsProfiled t \<or> b"
  "tl_TraceId (fst (snd (tb_Sample t hs he b tb))) = tl_TraceId t"
  "tl_Pid (fst (snd (tb_Sample t hs he b tb))) = tl_Pid t"
  "tl_Url (fst (snd (tb_Sample t hs he b tb))) = tl_Url t"
  "tl_IsSlow (fst (snd (tb_Sample t hs he b tb))) = tl_IsSlow t"
  "tl_IsError (fst (snd (tb_Sample t hs he b tb))) = tl_IsError t"
  by (auto simp: tb_Sample_def tail_simps)

lemma tb_Sample_cache: "tb_traceCache (fst (tb_Sample t hs he b tb)) = tb_traceCache tb"
  by (auto simp: tb_Sample_def tail_simps)

lemma decide_tail: "sc_tailbaseSamplers (fst (decide_sampled now t c)) = sc_tailbaseSamplers c"
  by (auto simp: decide_sampled_def Let_def split_def)

abbreviation sc_held :: "sample_cache \<Rightarrow> string set" where
  "sc_held c \<equiv> tb_held (sc_tailbaseSamplers c)"

lemma CacheTrace_held: "tb_held (sc_tailbaseSamplers (CacheTrace t c)) = sc_held c"
  by (simp add: CacheTrace_def tb_held_def)

lemma CheckSlow_frame:
  "tl_TraceId (CheckSlow p90 t d c) = tl_TraceId t" "tl_IsProfiled (CheckSlow p90 t d c) = tl_IsProfiled t"
  "tl_IsError (CheckSlow p90 t d c) = tl_IsError t" "tl_TopSpan (CheckSlow p90 t d c) = tl_TopSpan t"
  "tl_Duration (CheckSlow p90 t d c) = tl_Duration t" "tl_Pid (CheckSlow p90 t d c) = tl_Pid t"
  "tl_Url (CheckSlow p90 t d c) = tl_Url t" "tl_IsSampled (CheckSlow p90 t d c) = tl_IsSampled t"
  by (simp_all add: CheckSlow_def Let_def)

text \<open>The two ways through \<open>GetSampleResult\<close>: ignored, or decided by the tail-based samplers.\<close>

lemma GetSampleResult_cases:
  assumes "GetSampleResult p90 now t c = (c', t', r)"
  obtains (ignored) "c' = c" "t' = CheckSlow p90 t (sc_defaultSlowThreshold c) c" "r = SampleResultNoOp"
  | (decided) hs he b where
      "tb_Sample (CheckSlow p90 t (sc_defaultSlowThreshold c) c) hs he b (sc_tailbaseSamplers c) =
         (sc_tailbaseSamplers c', t', r)"
      "snd (decide_sampled now (CheckSlow p90 t (sc_defaultSlowThreshold c) c) c) = (hs, he, b)"
proof -
  let ?t = "CheckSlow p90 t (sc_defaultSlowThreshold c) c"
  obtain c1 hs he b where d: "decide_sampled now ?t c = (c1, hs, he, b)" by (cases "decide_sampled now ?t c")
  obtain tb t1 r1 where s: "tb_Sample ?t hs he b (sc_tailbaseSamplers c) = (tb, t1, r1)"
    by (cases "tb_Sample ?t hs he b (sc_tailbaseSamplers c)")
  have "sc_tailbaseSamplers c1 = sc_tailbaseSamplers c"
    using decide_tail [of now ?t c] d by simp
  then have "c' = c \<and> t' = ?t \<and> r = SampleResultNoOp \<or> sc_tailbaseSamplers c' = tb \<and> t' = t1 \<and> r = r1"
    using assms d s by (auto simp: GetSampleResult_def Let_def split: if_splits)
  then show thesis
    using d s ignored decided [of hs he b] by auto
qed

lemma GetSampleResult_held:
  assumes "\<not> tl_IsProfiled t" "GetSampleResult p90 now t c = (c', t', r)"
  shows "tl_TraceId t' = tl_TraceId t \<and> tl_Url t' = tl_Url t \<and> tl_Pid t' = tl_Pid t \<and>
    sc_held c' = (if tl_IsProfiled t' then insert (tl_TraceId t) (sc_held c) else sc_held c) \<and>
    (r \<noteq> SampleResultNoOp \<longrightarrow> (r = SampleResultCache \<longleftrightarrow> tl_TraceId t \<notin> sc_held c')) \<and>
    (r = SampleResultNoOp \<longrightarrow> c' = c) \<and> tb_traceCache (sc_tailbaseSamplers c') = tb_traceCache (sc_tailbaseSamplers c)"
  using assms(2)
proof (cases rule: GetSampleResult_cases)
  case ignored
  with assms(1) show ?thesis by (simp add: CheckSlow_frame)
next
  case (decided hs he b)
  let ?t = "CheckSlow p90 t (sc_defaultSlowThreshold c) c"
  from assms(1) decided(1) show ?thesis
    using tb_Sample_held [of ?t hs he b "sc_tailbaseSamplers c"] tb_Sample_result [of ?t hs he b "sc_tailbaseSamplers c"]
      tb_Sample_trace [of ?t hs he b "sc_tailbaseSamplers c"] tb_Sample_cache [of ?t hs he b "sc_tailbaseSamplers c"]
    by (simp add: CheckSlow_frame)
qed

lemma decide_config:
  "sc_openErrorSampling (fst (decide_sampled now t c)) = sc_openErrorSampling c"
  "sc_openSlowSampling (fst (decide_sampled now t c)) = sc_openSlowSampling c"
  "sc_openNormalSampling (fst (decide_sampled now t c)) = sc_openNormalSampling c"
  "sc_ignoreThreshold (fst (decide_sampled now t c)) = sc_ignoreThreshold c"
  by (auto simp: decide_sampled_def Let_def split_def)

lemma GetSampleResult_config:
  "sc_openErrorSampling (fst (GetSampleResult p90 now t c)) = sc_openErrorSampling c"
  "sc_openSlowSampling (fst (GetSampleResult p90 now t c)) = sc_openSlowSampling c"
  "sc_openNormalSampling (fst (GetSampleResult p90 now t c)) = sc_openNormalSampling c"
  "sc_ignoreThreshold (fst (GetSampleResult p90 now t c)) = sc_ignoreThreshold c"
  by (simp_all add: GetSampleResult_def decide_config Let_def split_def)

text \<open>The spans the sampler ignores.\<close>

definition sc_ignores :: "sample_cache \<Rightarrow> trace_labels \<Rightarrow> bool" where
  "sc_ignores c t \<longleftrightarrow>
     \<not> sc_openNormalSampling c \<and> \<not> sc_openSlowSampling c \<and> \<not> sc_openErrorSampling c \<or>
     \<not> tl_IsError t \<and> \<not> tl_TopSpan t \<and> tl_Duration t < sc_ignoreThreshold c"

lemma GetSampleResult_ignores:
  "snd (snd (GetSampleResult p90 now t c)) = SampleResultNoOp \<longleftrightarrow> sc_ignores c t"
  by (simp add: GetSampleResult_def sc_ignores_def CheckSlow_frame tb_Sample_result Let_def split_def)

subsection \<open>Properties\<close>

text \<open>C11: Consistency of the decision. Unless the span is ignored, it goes to the waiting cache exactly when
  its trace is not held by any tail-based sampler afterwards; a span that is newly sampled makes its trace
  held; no other trace becomes held or forgotten; an ignored span changes nothing.\<close>

theorem sample_decision_consistent:
  assumes "\<not> tl_IsProfiled t" "GetSampleResult p90 now t c = (c', t', r)"
  shows "sc_held c' = (if tl_IsProfiled t' then insert (tl_TraceId t) (sc_held c) else sc_held c) \<and>
    (r \<noteq> SampleResultNoOp \<longrightarrow> (r = SampleResultCache \<longleftrightarrow> tl_TraceId t \<notin> sc_held c')) \<and>
    (r = SampleResultNoOp \<longrightarrow> c' = c)"
  using GetSampleResult_held [OF assms] by auto

definition demo_cache :: sample_cache where
  "demo_cache = NewSampleCache 0 True True 0 100000000 False 60 3 60 1 5 ''window''"

definition demo_labels :: trace_labels where
  "demo_labels = zero_labels\<lparr>tl_Url := ''/a'', tl_TraceId := ''t'', tl_IsError := True, tl_IsSampled := True\<rparr>"

theorem sample_decision_consistent_witness:
  "\<not> tl_IsProfiled demo_labels \<and>
   sc_held (fst (GetSampleResult ''p90'' 7 demo_labels demo_cache)) =
     (if tl_IsProfiled (fst (snd (GetSampleResult ''p90'' 7 demo_labels demo_cache)))
      then insert ''t'' (sc_held demo_cache) else sc_held demo_cache)"
proof -
  have n: "\<not> tl_IsProfiled demo_labels" by (simp add: demo_labels_def zero_labels_def)
  obtain c' t' r where g: "GetSampleResult ''p90'' 7 demo_labels demo_cache = (c', t', r)"
    by (cases "GetSampleResult ''p90'' 7 demo_labels demo_cache")
  from sample_decision_consistent [OF n g] n g show ?thesis
    by (simp add: demo_labels_def)
qed

text \<open>A span is slow exactly when it is not below the ignore threshold and lasts at least the
  threshold of its URL: the one the controller last reported with a positive value, else the configured
  default. Defaults below \<open>2 ^ 53\<close> nanoseconds survive the detour over \<open>float64\<close> unchanged.\<close>

theorem slow_iff_over_threshold:
  assumes "unat slowThreshold < 2 ^ 53"
  shows "tl_IsSlow (CheckSlow p90 t slowThreshold c) \<longleftrightarrow>
           sc_ignoreThreshold c \<le> tl_Duration t \<and>
           (case map_load (cs_thresholdValues (sc_slowThresholdCache c)) (tl_Url t) of
              Some th \<Rightarrow> u64_of_f64 (st_thresholdValue th) \<le> tl_Duration t
            | None \<Rightarrow> slowThreshold \<le> tl_Duration t)"
  using assms
  by (auto simp: CheckSlow_def getSlowThreshold_def Let_def f64_u64_roundtrip split: option.split)

theorem slow_iff_over_threshold_witness:
  "tl_IsSlow (CheckSlow ''p90'' (zero_labels\<lparr>tl_Duration := 100000000\<rparr>) 100000000 demo_cache) \<and>
   \<not> tl_IsSlow (CheckSlow ''p90'' (zero_labels\<lparr>tl_Duration := 99999999\<rparr>) 100000000 demo_cache)"
  using slow_iff_over_threshold [of 100000000 "''p90''" "zero_labels\<lparr>tl_Duration := 100000000\<rparr>" demo_cache]
    slow_iff_over_threshold [of 100000000 "''p90''" "zero_labels\<lparr>tl_Duration := 99999999\<rparr>" demo_cache]
  by (simp add: demo_cache_def NewSampleCache_def newContainerSlowThreshold_def zero_labels_def)

end
