(* ===== verification/Adaptive.thy ===== *)
theory Adaptive
  imports Pdata
begin

unbundle bit_operations_syntax

section \<open>Adaptive pre-sampling\<close>

text \<open>
  \<open>adaptive/adaptive.go\<close> and \<open>adaptive/memory_check.go\<close>: under memory pressure the controller raises
  the sample value \<open>v\<close>, and only traces whose identifier has \<open>v\<close> zero bits at a fixed place are kept.
  Of the others, a trace is stored alone when it is slow or when its URL is rare in the current
  window. A shift by a negative count panics, hence the options.
\<close>

datatype adaptive_result = Sampled | SampleDrop | SampleSlow | SampleLow

text \<open>The constants of the Go type \<open>SampleResult\<close>.\<close>

fun result_code :: "adaptive_result \<Rightarrow> int" where
  "result_code Sampled = 0"
| "result_code SampleDrop = 1"
| "result_code SampleSlow = 2"
| "result_code SampleLow = 3"

definition IsDrop :: "adaptive_result \<Rightarrow> bool" where
  "IsDrop result = (result = SampleDrop)"

definition IsSingleStore :: "adaptive_result \<Rightarrow> bool" where
  "IsSingleStore result = (result = SampleSlow \<or> result = SampleLow)"

text \<open>The switch has one case, the bitwise or of two constants.\<close>

definition GetReportType :: "adaptive_result \<Rightarrow> u32" where
  "GetReportType result =
     (if result_code result = result_code SampleSlow OR result_code SampleLow then 5 else 0)"

record adaptive_sampler =
  as_sampleValue :: int
  as_slowThreshold :: u64
  as_serviceUrlCount :: int
  as_serviceTps :: "(string, int) gomap"
  as_singleIds :: "(string, int) gomap"
  as_traceIdExpireTime :: int
  as_serviceWindow :: int
  as_serviceWindowCount :: int
  as_currentWindow :: int

definition NewAdaptiveSampler :: "int \<Rightarrow> int \<Rightarrow> int \<Rightarrow> int \<Rightarrow> adaptive_sampler" where
  "NewAdaptiveSampler slowThreshold serviceWindow serviceCount traceIdExpireTime =
     \<lparr>as_sampleValue = 0, as_slowThreshold = word_of_int slowThreshold, as_serviceUrlCount = 0,
      as_serviceTps = [], as_singleIds = [],
      as_traceIdExpireTime = i32 (dur_seconds traceIdExpireTime),
      as_serviceWindow = dur_seconds serviceWindow, as_serviceWindowCount = i32 serviceCount,
      as_currentWindow = 0\<rparr>"

definition GetSampleValue :: "adaptive_sampler \<Rightarrow> int" where
  "GetSampleValue s = as_sampleValue s"

definition SetSampleValue :: "int \<Rightarrow> adaptive_sampler \<Rightarrow> adaptive_sampler" where
  "SetSampleValue newValue s = s\<lparr>as_sampleValue := newValue\<rparr>"

definition shl_one :: "int \<Rightarrow> u32 option" where
  "shl_one n = (if n < 0 then None else Some (push_bit (nat n) 1))"

definition CheckAdaptiveSampleValue :: "trace_id \<Rightarrow> string \<Rightarrow> adaptive_sampler \<Rightarrow> bool option" where
  "CheckAdaptiveSampleValue traceId swTraceId s =
     (let sampleValue = as_sampleValue s in
      if sampleValue = 0 then Some True
      else do {
        let index = (if length swTraceId > 32 then 10 else 15 :: nat);
        let val = (push_bit 8 (ucast (traceId ! (index - 1))) OR ucast (traceId ! index) :: u32);
        one \<leftarrow> shl_one sampleValue;
        Some (val AND (one - 1) = 0)
      })"

definition CheckLowUrl :: "string \<Rightarrow> span \<Rightarrow> adaptive_sampler \<Rightarrow> adaptive_sampler \<times> bool" where
  "CheckLowUrl serviceName sp s =
     (if as_serviceWindowCount s > 0 \<and> IsEntrySpan sp then
        (let key = serviceName @ ''-'' @ sp_Name sp;
             (tps0, s1) =
               (case map_load (as_serviceTps s) key of
                  Some tps \<Rightarrow> (tps, s)
                | None \<Rightarrow> (0, s\<lparr>as_serviceUrlCount := i32 (as_serviceUrlCount s + 1)\<rparr>));
             tps1 = i32 (tps0 + 1);
             s2 = s1\<lparr>as_serviceTps := map_store key tps1 (as_serviceTps s1)\<rparr>
         in if tps1 \<le> as_serviceWindowCount s2
            then (s2\<lparr>as_singleIds := map_store key 0 (as_singleIds s2)\<rparr>, True)
            else (s2, False))
      else (s, False))"

text \<open>The loop over the spans of a trace; \<open>key\<close> names the service and the trace.\<close>

fun adaptive_loop ::
  "string \<Rightarrow> string \<Rightarrow> span list \<Rightarrow> adaptive_sampler \<Rightarrow> adaptive_sampler \<times> adaptive_result" where
  "adaptive_loop key serviceName [] s = (s, SampleDrop)"
| "adaptive_loop key serviceName (sp # spans) s =
     (if sp_EndTimestamp sp > sp_StartTimestamp sp + as_slowThreshold s
      then (s\<lparr>as_singleIds := map_store key 0 (as_singleIds s)\<rparr>, SampleSlow)
      else let (s1, low) = CheckLowUrl serviceName sp s
           in if low then (s1, SampleLow) else adaptive_loop key serviceName spans s1)"

definition adaptive_Sample ::
  "pdata_api \<Rightarrow> trace_id \<Rightarrow> string \<Rightarrow> string \<Rightarrow> span list \<Rightarrow> adaptive_sampler \<Rightarrow>
     (adaptive_sampler \<times> adaptive_result) option" where
  "adaptive_Sample api traceId swTraceId serviceName spans s = do {
     b \<leftarrow> CheckAdaptiveSampleValue traceId swTraceId s;
     if b then Some (s, Sampled)
     else do {
       let key = serviceName @ ''-'' @ TraceID_String api traceId;
       case map_load (as_singleIds s) key of
         Some _ \<Rightarrow> Some (s, SampleLow)
       | None \<Rightarrow> Some (adaptive_loop key serviceName spans s)
     }
   }"

definition adaptive_Reset :: "adaptive_sampler \<Rightarrow> adaptive_sampler" where
  "adaptive_Reset s =
     (let s1 = s\<lparr>as_currentWindow := as_currentWindow s + 1\<rparr>;
          s2 = (if as_currentWindow s1 \<ge> as_serviceWindow s1
                then s1\<lparr>as_currentWindow := 0,
                        as_serviceTps :=
                          (if as_serviceUrlCount s1 \<ge> 10000 then []
                           else map_values (\<lambda>v. 0) (as_serviceTps s1))\<rparr>
                else s1)
      in s2\<lparr>as_singleIds :=
              map_values (\<lambda>h. i32 (h + 1))
                (map_keep (\<lambda>k h. \<not> i32 (h + 1) \<ge> as_traceIdExpireTime s2) (as_singleIds s2))\<rparr>)"

text \<open>\<open>MemoryCheck\<close>: \<open>alloc\<close> is what the Go runtime reports as allocated bytes.\<close>

record memory_check =
  mc_memoryLimit :: u64

definition NewMemoryCheck :: "u64 \<Rightarrow> memory_check" where
  "NewMemoryCheck memoryLimit = \<lparr>mc_memoryLimit = memoryLimit\<rparr>"

definition GetCurrentMemory :: "u64 \<Rightarrow> u64" where
  "GetCurrentMemory alloc = alloc div (1024 * 1024)"

definition GetMemoryLimit :: "memory_check \<Rightarrow> u64" where
  "GetMemoryLimit check = mc_memoryLimit check"

subsection \<open>Nested samples\<close>

lemma shl_one_minus: "0 \<le> n \<Longrightarrow> map_option (\<lambda>w. w - 1) (shl_one n) = Some (mask (nat n))"
  by (simp add: shl_one_def mask_eq_exp_minus_1 push_bit_of_1)

definition id_bits :: "trace_id \<Rightarrow> string \<Rightarrow> u32" where
  "id_bits tid sw =
     (let index = (if length sw > 32 then 10 else 15 :: nat)
      in push_bit 8 (ucast (tid ! (index - 1))) OR ucast (tid ! index))"

text \<open>The check asks for \<open>v\<close> low zero bits.\<close>

lemma CheckAdaptive_eq:
  "0 \<le> as_sampleValue s \<Longrightarrow>
   CheckAdaptiveSampleValue tid sw s = Some (take_bit (nat (as_sampleValue s)) (id_bits tid sw) = 0)"
  using shl_one_minus [of "as_sampleValue s"]
  by (auto simp: CheckAdaptiveSampleValue_def id_bits_def Let_def shl_one_def take_bit_eq_mask)

lemma take_bit_zero_mono: "m \<le> n \<Longrightarrow> take_bit n (w :: u32) = 0 \<Longrightarrow> take_bit m w = 0"
  by (metis min.absorb1 take_bit_of_0 take_bit_take_bit)

text \<open>Of the 65536 values of the two bytes that are read, \<open>2 ^ (16 - v)\<close> pass.\<close>

definition byte_pair :: "u8 \<Rightarrow> u8 \<Rightarrow> u32" where
  "byte_pair a b = push_bit 8 (ucast a) OR ucast b"

lemma uint_byte_pair: "uint (byte_pair a b) = 256 * uint a + uint b"
proof -
  have a: "uint a < 256" "uint b < 256"
    using uint_lt2p [of a] uint_lt2p [of b] by simp_all
  then have "take_bit 32 (push_bit 8 (uint a)) = push_bit 8 (uint a)" "take_bit 8 (uint b) = uint b"
      "take_bit 32 (uint a) = uint a" "take_bit 32 (uint b) = uint b"
    by (simp_all add: take_bit_int_eq_self push_bit_eq_mult)
  then have "uint (byte_pair a b) = concat_bit 8 (uint b) (uint a)"
    by (simp add: byte_pair_def unsigned_or_eq unsigned_push_bit_eq unsigned_ucast_eq concat_bit_def or.commute)
  also have "\<dots> = 256 * uint a + uint b"
    using \<open>take_bit 8 (uint b) = uint b\<close> by (simp add: concat_bit_eq push_bit_eq_mult)
  finally show ?thesis .
qed

lemma byte_pair_passes:
  "v \<le> 16 \<Longrightarrow> take_bit v (byte_pair a b) = 0 \<longleftrightarrow> 2 ^ v dvd 256 * unat a + unat b"
proof -
  assume v: "v \<le> 16"
  have "take_bit v (byte_pair a b) = 0 \<longleftrightarrow> uint (take_bit v (byte_pair a b)) = 0"
    by (simp add: uint_0_iff)
  also have "\<dots> \<longleftrightarrow> take_bit v (256 * uint a + uint b) = 0"
    using v by (simp add: unsigned_take_bit_eq uint_byte_pair)
  also have "\<dots> \<longleftrightarrow> (2 :: int) ^ v dvd 256 * uint a + uint b"
    by (simp add: take_bit_eq_mod dvd_eq_mod_eq_0)
  also have "256 * uint a + uint b = int (256 * unat a + unat b)"
    by simp
  also have "(2 :: int) ^ v dvd int (256 * unat a + unat b) \<longleftrightarrow> 2 ^ v dvd 256 * unat a + unat b"
    by (metis int_dvd_int_iff of_nat_numeral of_nat_power)
  finally show ?thesis .
qed

lemma card_multiples: "v \<le> 16 \<Longrightarrow> card {n :: nat. n < 65536 \<and> 2 ^ v dvd n} = 2 ^ (16 - v)"
proof -
  assume v: "v \<le> 16"
  then have p: "(65536 :: nat) = 2 ^ (16 - v) * 2 ^ v" by (simp flip: power_add)
  have "{n :: nat. n < 65536 \<and> 2 ^ v dvd n} = (\<lambda>k. k * 2 ^ v) ` {..<2 ^ (16 - v)}"
    unfolding p by (auto simp: dvd_def image_iff mult.commute)
  moreover have "inj_on (\<lambda>k :: nat. k * 2 ^ v) {..<2 ^ (16 - v)}" by (rule inj_onI) simp
  ultimately show ?thesis by (simp add: card_image)
qed

lemma bij_byte_pairs:
  "bij_betw (\<lambda>(a :: u8, b :: u8). 256 * unat a + unat b) UNIV {n :: nat. n < 65536}"
proof (rule bij_betw_byWitness [where f' = "\<lambda>n. (of_nat (n div 256), of_nat (n mod 256))"])
  have b: "unat w < 256" for w :: u8 using unsigned_less [of w, where ?'a = nat] by simp
  show "\<forall>p \<in> UNIV. (\<lambda>n. (of_nat (n div 256), of_nat (n mod 256)))
      (case p of (a :: u8, b :: u8) \<Rightarrow> 256 * unat a + unat b) = p"
    using b by (auto simp: split_def)
  show "\<forall>n \<in> {n. n < 65536}. (case (of_nat (n div 256) :: u8, of_nat (n mod 256) :: u8) of
      (a, b) \<Rightarrow> 256 * unat a + unat b) = n"
    by (auto simp: unat_of_nat less_mult_imp_div_less)
  show "(\<lambda>(a :: u8, b :: u8). 256 * unat a + unat b) ` UNIV \<subseteq> {n. n < 65536}"
  proof clarsimp
    fix a c :: u8
    show "256 * unat a + unat c < 65536" using b [of a] b [of c] by linarith
  qed
qed auto

lemma card_byte_pairs:
  assumes "v \<le> 16"
  shows "card {(a :: u8, b :: u8). take_bit v (byte_pair a b) = 0} = 2 ^ (16 - v)"
proof -
  let ?f = "\<lambda>(a :: u8, b :: u8). 256 * unat a + unat b"
  let ?S = "{(a :: u8, b :: u8). take_bit v (byte_pair a b) = 0}"
  have "inj_on ?f ?S" using bij_byte_pairs by (auto simp: bij_betw_def intro: inj_on_subset)
  moreover have "?f ` ?S = {n. n < 65536 \<and> 2 ^ v dvd n}"
  proof -
    have "?f ` ?S = {n \<in> ?f ` UNIV. 2 ^ v dvd n}"
      using assms by (auto simp: byte_pair_passes image_iff)
    then show ?thesis using bij_byte_pairs by (simp add: bij_betw_def)
  qed
  ultimately show ?thesis using card_image [of ?f ?S] card_multiples [OF assms] by simp
qed

lemma byte_pair_take: "take_bit v (byte_pair a b) = take_bit (min v 16) (byte_pair a b)"
proof -
  have "uint a < 256" "uint b < 256" using uint_lt2p [of a] uint_lt2p [of b] by simp_all
  then have "take_bit 16 (uint (byte_pair a b)) = uint (byte_pair a b)"
    by (simp add: take_bit_int_eq_self uint_byte_pair)
  then have "take_bit 16 (byte_pair a b) = byte_pair a b"
    by (simp add: word_uint_eq_iff unsigned_take_bit_eq)
  then show ?thesis by (metis take_bit_take_bit)
qed

subsection \<open>Rare URLs\<close>

definition low_key :: "string \<times> span \<Rightarrow> string" where
  "low_key q = fst q @ ''-'' @ sp_Name (snd q)"

text \<open>A sequence of checks \<open>(service, span)\<close> with the key and the answer of each.\<close>

fun low_asks :: "(string \<times> span) list \<Rightarrow> adaptive_sampler \<Rightarrow> (string \<times> bool) list" where
  "low_asks [] s = []"
| "low_asks ((svc, sp) # qs) s =
     (case CheckLowUrl svc sp s of (s', b) \<Rightarrow> (low_key (svc, sp), b) # low_asks qs s')"

definition tps_of :: "adaptive_sampler \<Rightarrow> string \<Rightarrow> int" where
  "tps_of s k = (case map_load (as_serviceTps s) k of None \<Rightarrow> 0 | Some t \<Rightarrow> t)"

lemma CheckLowUrl_frame:
  "as_serviceWindowCount (fst (CheckLowUrl svc sp s)) = as_serviceWindowCount s"
  "as_sampleValue (fst (CheckLowUrl svc sp s)) = as_sampleValue s"
  "as_traceIdExpireTime (fst (CheckLowUrl svc sp s)) = as_traceIdExpireTime s"
  "as_slowThreshold (fst (CheckLowUrl svc sp s)) = as_slowThreshold s"
  by (auto simp: CheckLowUrl_def Let_def split: option.splits)

lemma CheckLowUrl_tps:
  "tps_of (fst (CheckLowUrl svc sp s)) k =
     (if 0 < as_serviceWindowCount s \<and> IsEntrySpan sp \<and> k = low_key (svc, sp)
      then i32 (tps_of s k + 1) else tps_of s k)"
  by (auto simp: CheckLowUrl_def tps_of_def low_key_def Let_def split: option.splits)

lemma CheckLowUrl_answer:
  "snd (CheckLowUrl svc sp s) \<longleftrightarrow>
     0 < as_serviceWindowCount s \<and> IsEntrySpan sp \<and>
     i32 (tps_of s (low_key (svc, sp)) + 1) \<le> as_serviceWindowCount s"
  by (auto simp: CheckLowUrl_def tps_of_def low_key_def Let_def split: option.splits)

lemma low_asks_permits:
  assumes "0 < as_serviceWindowCount s" "0 \<le> tps_of s k" "tps_of s k + int (length qs) < 2 ^ 31"
  shows "length (filter (\<lambda>(k', b). k' = k \<and> b) (low_asks qs s)) =
           min (nat (as_serviceWindowCount s - tps_of s k))
             (length (filter (\<lambda>q. low_key q = k \<and> IsEntrySpan (snd q)) qs))"
  using assms
proof (induction qs arbitrary: s)
  case Nil
  then show ?case by simp
next
  case (Cons q qs)
  obtain svc sp where q: "q = (svc, sp)" by (cases q)
  let ?s = "fst (CheckLowUrl svc sp s)"
  have i: "i32 (tps_of s k + 1) = tps_of s k + 1"
    using Cons.prems by (intro i32_id) auto
  have "tps_of ?s k = tps_of s k \<or> tps_of ?s k = tps_of s k + 1"
    using i by (auto simp: CheckLowUrl_tps)
  then have IH: "length (filter (\<lambda>(k', b). k' = k \<and> b) (low_asks qs ?s)) =
      min (nat (as_serviceWindowCount s - tps_of ?s k))
        (length (filter (\<lambda>q. low_key q = k \<and> IsEntrySpan (snd q)) qs))"
    using Cons.prems Cons.IH [of ?s] by (auto simp: CheckLowUrl_frame)
  show ?case
  proof (cases "low_key q = k \<and> IsEntrySpan sp")
    case True
    then have "tps_of ?s k = tps_of s k + 1"
        "snd (CheckLowUrl svc sp s) \<longleftrightarrow> tps_of s k + 1 \<le> as_serviceWindowCount s"
      using Cons.prems q i by (auto simp: CheckLowUrl_tps CheckLowUrl_answer)
    with True IH q show ?thesis by (auto simp: split_def)
  next
    case False
    then have "tps_of ?s k = tps_of s k" "low_key (svc, sp) = k \<Longrightarrow> \<not> snd (CheckLowUrl svc sp s)"
      using q by (auto simp: CheckLowUrl_tps CheckLowUrl_answer)
    with False IH q show ?thesis by (auto simp: split_def)
  qed
qed

subsection \<open>Traces stored alone\<close>

text \<open>Decisions and ticks in any order.\<close>

datatype adaptive_event = AdSample trace_id string string "span list" | AdReset

fun adaptive_run :: "pdata_api \<Rightarrow> adaptive_event list \<Rightarrow> adaptive_sampler \<Rightarrow> adaptive_sampler option" where
  "adaptive_run api [] s = Some s"
| "adaptive_run api (AdSample tid sw svc spans # es) s =
     do { (s', r) \<leftarrow> adaptive_Sample api tid sw svc spans s; adaptive_run api es s' }"
| "adaptive_run api (AdReset # es) s = adaptive_run api es (adaptive_Reset s)"

definition resets :: "adaptive_event list \<Rightarrow> int" where
  "resets es = int (length (filter (\<lambda>e. e = AdReset) es))"

lemma resets_simps [simp]:
  "resets [] = 0" "resets (AdReset # es) = resets es + 1" "resets (AdSample a b c d # es) = resets es"
  by (simp_all add: resets_def)

lemma resets_nonneg [simp]: "0 \<le> resets es"
  by (simp add: resets_def)

definition single_held :: "string \<Rightarrow> int \<Rightarrow> adaptive_sampler \<Rightarrow> bool" where
  "single_held key n s \<longleftrightarrow> gomap_wf (as_singleIds s) \<and> 0 \<le> as_sampleValue s \<and>
     as_traceIdExpireTime s < 2 ^ 31 \<and>
     (\<exists>h. map_load (as_singleIds s) key = Some h \<and> 0 \<le> h \<and> h + n < as_traceIdExpireTime s)"

lemma single_held_store:
  "single_held key n s \<Longrightarrow> 0 \<le> n \<Longrightarrow>
   single_held key n (s\<lparr>as_singleIds := map_store k 0 (as_singleIds s)\<rparr>)"
  by (auto simp: single_held_def intro: wf_store)

lemma single_held_low:
  "single_held key n s \<Longrightarrow> 0 \<le> n \<Longrightarrow> single_held key n (fst (CheckLowUrl svc sp s))"
  by (auto simp: single_held_def CheckLowUrl_def Let_def intro: wf_store split: option.splits)

lemma single_held_loop:
  "single_held key n s \<Longrightarrow> 0 \<le> n \<Longrightarrow> single_held key n (fst (adaptive_loop k svc spans s))"
proof (induction spans arbitrary: s)
  case Nil
  then show ?case by simp
next
  case (Cons sp spans)
  then show ?case
    using single_held_store [OF Cons.prems, of k] single_held_low [OF Cons.prems, of svc sp]
    by (simp add: Let_def split_def)
qed

lemma adaptive_Sample_total:
  "0 \<le> as_sampleValue s \<Longrightarrow> \<exists>s' r. adaptive_Sample api tid sw svc spans s = Some (s', r)"
  by (cases "map_load (as_singleIds s) (svc @ ''-'' @ TraceID_String api tid)")
    (auto simp: adaptive_Sample_def CheckAdaptive_eq Let_def)

lemma single_held_sample:
  assumes "single_held key n s" "0 \<le> n"
  shows "\<exists>s' r. adaptive_Sample api tid sw svc spans s = Some (s', r) \<and> single_held key n s'"
proof -
  have v: "0 \<le> as_sampleValue s" using assms(1) by (simp add: single_held_def)
  show ?thesis
    using assms single_held_loop [OF assms, of "svc @ ''-'' @ TraceID_String api tid" svc spans] v
    by (cases "adaptive_loop (svc @ ''-'' @ TraceID_String api tid) svc spans s")
      (auto simp: adaptive_Sample_def CheckAdaptive_eq Let_def split: option.splits)
qed

lemma single_held_reset: "single_held key (n + 1) s \<Longrightarrow> 0 \<le> n \<Longrightarrow> single_held key n (adaptive_Reset s)"
proof -
  assume h: "single_held key (n + 1) s" and n: "0 \<le> n"
  then obtain c where c: "map_load (as_singleIds s) key = Some c" "0 \<le> c" "c + (n + 1) < as_traceIdExpireTime s"
      "as_traceIdExpireTime s < 2 ^ 31"
    by (auto simp: single_held_def)
  then have "i32 (c + 1) = c + 1" using n by (intro i32_id) auto
  with h n c show ?thesis
    by (auto simp: single_held_def adaptive_Reset_def Let_def load_keep intro: wf_values wf_keep)
qed

lemma single_held_run:
  "single_held key (resets es) s \<Longrightarrow> \<exists>s'. adaptive_run api es s = Some s' \<and> single_held key 0 s'"
proof (induction es arbitrary: s)
  case Nil
  then show ?case by simp
next
  case (Cons e es)
  show ?case
  proof (cases e)
    case (AdSample tid sw svc spans)
    with Cons.prems have "single_held key (resets es) s" by simp
    from single_held_sample [OF this resets_nonneg, of api tid sw svc spans] AdSample Cons.IH
    show ?thesis by auto
  next
    case AdReset
    with Cons.prems have "single_held key (resets es) (adaptive_Reset s)"
      by (intro single_held_reset) auto
    with AdReset Cons.IH show ?thesis by auto
  qed
qed

lemma single_held_kept:
  "single_held (svc @ ''-'' @ TraceID_String api tid) n s \<Longrightarrow>
   \<exists>r. adaptive_Sample api tid sw svc spans s = Some (s, r) \<and> r \<in> {Sampled, SampleLow}"
  by (auto simp: single_held_def adaptive_Sample_def CheckAdaptive_eq Let_def)

lemma slow_then_held:
  assumes "adaptive_Sample api tid sw svc spans s = Some (s', SampleSlow)"
    "gomap_wf (as_singleIds s)" "0 \<le> as_sampleValue s" "as_traceIdExpireTime s < 2 ^ 31"
    "n < as_traceIdExpireTime s"
  shows "single_held (svc @ ''-'' @ TraceID_String api tid) n s'"
proof -
  let ?k = "svc @ ''-'' @ TraceID_String api tid"
  have loop: "single_held ?k n (fst (adaptive_loop ?k svc spans s))"
    if "snd (adaptive_loop ?k svc spans s) = SampleSlow" "gomap_wf (as_singleIds s)" "0 \<le> as_sampleValue s"
      "as_traceIdExpireTime s < 2 ^ 31" "n < as_traceIdExpireTime s" for s
    using that
  proof (induction spans arbitrary: s)
    case Nil
    then show ?case by simp
  next
    case (Cons sp spans)
    have "gomap_wf (as_singleIds (fst (CheckLowUrl svc sp s)))"
      using Cons.prems by (auto simp: CheckLowUrl_def Let_def intro: wf_store split: option.splits)
    with Cons show ?case
      by (auto simp: Let_def split_def CheckLowUrl_frame single_held_def wf_store split: if_splits)
  qed
  have "adaptive_loop ?k svc spans s = (s', SampleSlow)"
    using assms(1,3)
    by (auto simp: adaptive_Sample_def CheckAdaptive_eq Let_def split: if_splits option.splits)
  with loop [of s] assms show ?thesis by simp
qed

subsection \<open>Properties\<close>

text \<open>Nested samples. Raising the sample value never adds a trace: a trace kept at a higher value is
  kept at every lower one, so nodes with different values agree on the traces of the more selective one.\<close>

theorem adaptive_samples_nested:
  assumes "0 \<le> v" "v \<le> v'" "CheckAdaptiveSampleValue tid sw (SetSampleValue v' s) = Some True"
  shows "CheckAdaptiveSampleValue tid sw (SetSampleValue v s) = Some True"
proof -
  have "take_bit (nat v') (id_bits tid sw) = 0"
    using assms by (simp add: CheckAdaptive_eq SetSampleValue_def)
  then have "take_bit (nat v) (id_bits tid sw) = 0"
    by (rule take_bit_zero_mono [rotated]) (use assms(2) in simp)
  with assms(1) show ?thesis by (simp add: CheckAdaptive_eq SetSampleValue_def)
qed

theorem adaptive_samples_nested_witness:
  "CheckAdaptiveSampleValue (replicate 14 1 @ [1, 0]) [] (SetSampleValue 8 (NewAdaptiveSampler 0 0 0 0)) = Some True \<and>
   CheckAdaptiveSampleValue (replicate 14 1 @ [1, 0]) [] (SetSampleValue 3 (NewAdaptiveSampler 0 0 0 0)) = Some True"
proof -
  have "CheckAdaptiveSampleValue (replicate 14 1 @ [1, 0]) [] (SetSampleValue 8 (NewAdaptiveSampler 0 0 0 0)) = Some True"
    by (simp add: CheckAdaptiveSampleValue_def SetSampleValue_def NewAdaptiveSampler_def shl_one_def nth_append)
  with adaptive_samples_nested [of 3 8 "replicate 14 1 @ [1, 0]" "[]" "NewAdaptiveSampler 0 0 0 0"]
  show ?thesis by simp
qed

text \<open>C13: Sampling rate, for every non-negative sample value \<open>v\<close>. Of the 65536 possible values of the two identifier bytes that are
  looked at, exactly \<open>2 ^ (16 - v)\<close> pass, a fraction of \<open>1 / 2 ^ v\<close>, for \<open>v\<close> up to 16; for all larger values exactly one passes,
  1 in 65536. The bytes are 14 and 15 of the identifier, counted from 0, and 9 and 10 when the Skywalking identifier of the trace is longer than 32
  characters; the other bytes do not matter.\<close>

theorem adaptive_sampling_rate:
  assumes "0 \<le> v" "length pre = (if length sw > 32 then 9 else 14)"
  shows "card {(a, b). CheckAdaptiveSampleValue (pre @ [a, b] @ post) sw (SetSampleValue v s) = Some True} =
    (if v \<le> 16 then 2 ^ (16 - nat v) else 1)"
proof -
  have "id_bits (pre @ [a, b] @ post) sw = byte_pair a b" for a b
    using assms(2) by (simp add: id_bits_def byte_pair_def nth_append Let_def split: if_splits)
  then have "{(a, b). CheckAdaptiveSampleValue (pre @ [a, b] @ post) sw (SetSampleValue v s) = Some True} =
      {(a, b). take_bit (nat v) (byte_pair a b) = 0}"
    using assms(1) by (auto simp: CheckAdaptive_eq SetSampleValue_def)
  then show ?thesis
    using card_byte_pairs [of "min (nat v) 16"] byte_pair_take [of "nat v"] by (auto simp: min_def)
qed

theorem adaptive_sampling_rate_witness:
  "card {(a, b). CheckAdaptiveSampleValue (replicate 9 0 @ [a, b] @ replicate 5 7) (replicate 40 CHR ''a'')
       (SetSampleValue 3 (NewAdaptiveSampler 0 0 0 0)) = Some True} = 8192 \<and>
   card {(a, b). CheckAdaptiveSampleValue (replicate 14 0 @ [a, b] @ []) []
       (SetSampleValue 19 (NewAdaptiveSampler 0 0 0 0)) = Some True} = 1"
  using adaptive_sampling_rate [of 3 "replicate 9 0" "replicate 40 CHR ''a''" "replicate 5 7" "NewAdaptiveSampler 0 0 0 0"]
    adaptive_sampling_rate [of 19 "replicate 14 0" "[]" "[]" "NewAdaptiveSampler 0 0 0 0"] by simp

text \<open>Rare URLs. Within one window, of all entry spans of one service and name, exactly the configured
  count is kept as rare, or all of them if there are fewer.\<close>

theorem rare_url_quota:
  assumes "0 < serviceCount" "serviceCount < 2 ^ 31" "length qs < 2 ^ 31"
  shows "length (filter (\<lambda>(k', b). k' = k \<and> b) (low_asks qs (NewAdaptiveSampler slow window serviceCount expire))) =
           min (nat serviceCount) (length (filter (\<lambda>q. low_key q = k \<and> IsEntrySpan (snd q)) qs))"
  using low_asks_permits [of "NewAdaptiveSampler slow window serviceCount expire" k qs] assms
  by (simp add: NewAdaptiveSampler_def tps_of_def i32_id)

definition demo_entry :: span where
  "demo_entry = zero_span\<lparr>sp_Name := ''/a'', sp_Kind := SpanKindServer\<rparr>"

theorem rare_url_quota_witness:
  "length (filter (\<lambda>(k', b). k' = ''s-/a'' \<and> b)
     (low_asks [(''s'', demo_entry), (''s'', demo_entry), (''s'', demo_entry)] (NewAdaptiveSampler 0 0 2 0))) = 2"
  using rare_url_quota [of 2 "[(''s'', demo_entry), (''s'', demo_entry), (''s'', demo_entry)]" "''s-/a''" 0 0 0]
  by (simp add: low_key_def IsEntrySpan_def zero_span_def demo_entry_def)

text \<open>A trace that was kept because it is slow stays kept: after any further decisions and fewer
  clean-up ticks than the hold time, the next spans of the same service and trace are not dropped, also
  when the sample value would drop them.\<close>

theorem slow_trace_stays_kept:
  assumes "adaptive_Sample api tid sw svc spans s = Some (s1, SampleSlow)"
    and "gomap_wf (as_singleIds s)" "0 \<le> as_sampleValue s" "as_traceIdExpireTime s < 2 ^ 31"
    and "resets es < as_traceIdExpireTime s"
  shows "\<exists>s2 r. adaptive_run api es s1 = Some s2 \<and>
           adaptive_Sample api tid sw svc spans' s2 = Some (s2, r) \<and> \<not> IsDrop r"
proof -
  obtain s2 where s2: "adaptive_run api es s1 = Some s2" "single_held (svc @ ''-'' @ TraceID_String api tid) 0 s2"
    using single_held_run [OF slow_then_held [OF assms]] by blast
  from single_held_kept [OF s2(2), of sw spans'] obtain r where
    "adaptive_Sample api tid sw svc spans' s2 = Some (s2, r)" "r \<in> {Sampled, SampleLow}"
    by blast
  with s2(1) show ?thesis by (auto simp: IsDrop_def)
qed

definition demo_api :: pdata_api where
  "demo_api = \<lparr>TraceID_IsEmpty = (\<lambda>t. t = replicate 16 0), TraceID_String = map (\<lambda>w. char_of (unat w)),
     SpanID_IsEmpty = (\<lambda>t. t = replicate 8 0), SpanID_String = map (\<lambda>w. char_of (unat w)), Value_AsString = value_Str\<rparr>"

definition demo_id :: trace_id where
  "demo_id = replicate 16 1"

theorem slow_trace_stays_kept_witness:
  "\<exists>s1 s2 r. adaptive_Sample demo_api demo_id [] ''s'' [zero_span\<lparr>sp_EndTimestamp := 11\<rparr>]
        (SetSampleValue 4 (NewAdaptiveSampler 10 0 0 5000000000)) = Some (s1, SampleSlow) \<and>
     adaptive_run demo_api [AdReset, AdReset] s1 = Some s2 \<and>
     adaptive_Sample demo_api demo_id [] ''s'' [zero_span] s2 = Some (s2, r) \<and> \<not> IsDrop r"
proof -
  let ?s = "SetSampleValue 4 (NewAdaptiveSampler 10 0 0 5000000000)"
  have e: "as_traceIdExpireTime ?s = 5"
    by (simp add: SetSampleValue_def NewAdaptiveSampler_def dur_seconds_def i32_id)
  have "CheckAdaptiveSampleValue demo_id [] ?s = Some False"
    by (simp add: CheckAdaptiveSampleValue_def demo_id_def SetSampleValue_def NewAdaptiveSampler_def shl_one_def)
  then have "\<exists>s1. adaptive_Sample demo_api demo_id [] ''s'' [zero_span\<lparr>sp_EndTimestamp := 11\<rparr>] ?s = Some (s1, SampleSlow)"
    by (simp add: adaptive_Sample_def SetSampleValue_def NewAdaptiveSampler_def zero_span_def)
  then obtain s1 where s1: "adaptive_Sample demo_api demo_id [] ''s'' [zero_span\<lparr>sp_EndTimestamp := 11\<rparr>] ?s = Some (s1, SampleSlow)"
    by blast
  have "gomap_wf (as_singleIds ?s)" "0 \<le> as_sampleValue ?s" "as_traceIdExpireTime ?s < 2 ^ 31"
      "resets [AdReset, AdReset] < as_traceIdExpireTime ?s"
    using e by (simp_all add: SetSampleValue_def NewAdaptiveSampler_def)
  from slow_trace_stays_kept [OF s1 this, of "[zero_span]"] s1 show ?thesis by auto
qed

text \<open>A trace kept because its URL is rare is not remembered. \<open>CheckLowUrl\<close> stores the key of the
  service and span name instead of the key of the service and trace it was given, so the next spans of
  the same trace are dropped, unlike those of a slow trace.\<close>

theorem rare_trace_is_forgotten:
  "\<exists>s1 s2. adaptive_Sample demo_api demo_id [] ''s'' [demo_entry]
        (SetSampleValue 4 (NewAdaptiveSampler 10 1 1 5000000000)) = Some (s1, SampleLow) \<and>
     adaptive_Sample demo_api demo_id [] ''s'' [zero_span] s1 = Some (s2, SampleDrop)"
proof -
  let ?s = "SetSampleValue 4 (NewAdaptiveSampler 10 1 1 5000000000)"
  have v: "CheckAdaptiveSampleValue demo_id [] t = Some False" if "as_sampleValue t = 4" for t
    using that by (simp add: CheckAdaptiveSampleValue_def demo_id_def shl_one_def)
  have n: "map (\<lambda>w. char_of (unat w)) demo_id = replicate 16 (char_of (1 :: nat))"
    by (simp add: demo_id_def)
  have d: "replicate 16 (char_of (Suc 0)) \<noteq> ''/a''"
    by (rule notI, drule arg_cong [where f = length]) simp
  show ?thesis
    by (simp add: adaptive_Sample_def v n d SetSampleValue_def NewAdaptiveSampler_def CheckLowUrl_def IsEntrySpan_def
        demo_entry_def zero_span_def demo_api_def i32_id map_store_def Let_def)
qed

text \<open>The report type of a trace that is stored alone is 5 for rare URLs but 0 for slow traces: the
  single case of the switch is \<open>SampleSlow | SampleLow\<close>, which is the value of \<open>SampleLow\<close>.\<close>

theorem slow_report_type_is_zero:
  "GetReportType r = (if r = SampleLow then 5 else 0) \<and> IsSingleStore SampleSlow \<and> IsSingleStore SampleLow"
  by (cases r) (simp_all add: GetReportType_def IsSingleStore_def)

end
