(* ===== verification/Ticker.thy ===== *)
theory Ticker
  imports Prelude
begin

section \<open>Tickers\<close>

text \<open>
  \<open>timeutils/ticker_helper.go\<close>, which the repository has twice with the same text: under
  \<open>backsamplingprocessor/internal\<close> for the processor and under \<open>pkg/common\<close> for the connector. What a tick does is
  modelled where the handler is; here is the life of the ticker.
\<close>

text \<open>
  \<open>PolicyTicker\<close>: the interval once started, and the state of its stop channel (\<open>None\<close> is the nil
  channel, \<open>Some False\<close> a closed one). \<open>time.NewTicker\<close> panics unless the interval is positive;
  closing a closed channel panics.
\<close>

record policy_ticker =
  pt_Ticker :: "int option"
  pt_StopCh :: "bool option"

definition NewPolicyTicker :: policy_ticker where
  "NewPolicyTicker = \<lparr>pt_Ticker = None, pt_StopCh = None\<rparr>"

definition pt_Start :: "int \<Rightarrow> policy_ticker \<Rightarrow> policy_ticker option" where
  "pt_Start d pt = (if d \<le> 0 then None else Some (pt\<lparr>pt_Ticker := Some d, pt_StopCh := Some True\<rparr>))"

definition pt_Stop :: "policy_ticker \<Rightarrow> policy_ticker option" where
  "pt_Stop pt =
     (case pt_StopCh pt of
        None \<Rightarrow> Some pt
      | Some True \<Rightarrow> Some (pt\<lparr>pt_StopCh := Some False, pt_Ticker := None\<rparr>)
      | Some False \<Rightarrow> None)"

text \<open>A ticker can be stopped once per start; before the first start, stopping is a no-op.\<close>

lemma pt_Start_Stop:
  "0 < d \<Longrightarrow> \<exists>p1 p2. pt_Start d pt = Some p1 \<and> pt_Stop p1 = Some p2 \<and> pt_Ticker p2 = None \<and> pt_Stop p2 = None"
  by (simp add: pt_Start_def pt_Stop_def)

lemma pt_Stop_new: "pt_Stop NewPolicyTicker = Some NewPolicyTicker"
  by (simp add: pt_Stop_def NewPolicyTicker_def)

end
