(* ===== verification/BackSampling.thy ===== *)
theory BackSampling
  imports SampleCache Adaptive Ticker
begin

section \<open>The back-sampling processor\<close>

text \<open>
  \<open>backsamplingprocessor/{config,factory,processor}.go\<close> and \<open>timeutils/ticker_helper.go\<close>: the state of
  the processor, \<open>ConsumeTraces\<close> with both branches, and every ticker handler. The handlers call
  the components of the imported theories in the order of the source.

  Calls that leave the process are arguments or outputs. The controller's answers are arguments of the
  handlers (\<open>None\<close> is an error); what is handed to the next consumer is logged in \<open>bp_out\<close>; the
  telemetry counter \<open>ProcessorBackSamplingSpanCount\<close> is \<open>bp_counts\<close>, one number per attribute set.
  Each handler reads the clock once (\<open>now\<close>). \<open>None\<close> is a panic.
\<close>

subsection \<open>Configuration\<close>

record adaptive_config =
  ac_Enable :: bool
  ac_SlowThreshold :: int
  ac_ServiceSampleWindow :: int
  ac_ServiceSampleCount :: int
  ac_MemoryCheckInterval :: int
  ac_MemoryLimitMib :: u64
  ac_TraceIdHoldTime :: int

record sampler_config =
  sm_LogEnable :: bool
  sm_NormalTopSample :: bool
  sm_NormalSampleWaitTime :: int
  sm_OpenSlowSampling :: bool
  sm_OpenErrorSampling :: bool
  sm_EnableTailbaseProfiling :: bool
  sm_SampleRetryNum :: int
  sm_SampleWaitTime :: int
  sm_SampleIgnoreThreshold :: u64
  sm_SampleSlowThreshold :: u64
  sm_SilentPeriod :: int
  sm_SilentCount :: int
  sm_SilentMode :: string

record controller_cfg =
  cc_Host :: string
  cc_Port :: int
  cc_IntervalQuerySlow :: int
  cc_IntervalQuerySample :: int
  cc_IntervalSendTrace :: int

record bs_config =
  cf_EbpfPort :: int
  cf_Adaptive :: adaptive_config
  cf_Sampler :: sampler_config
  cf_Controller :: controller_cfg
  cf_NotifyEnabled :: bool

definition createDefaultConfig :: bs_config where
  "createDefaultConfig =
     \<lparr>cf_EbpfPort = 0,
      cf_Adaptive = \<lparr>ac_Enable = False, ac_SlowThreshold = 0, ac_ServiceSampleWindow = 0, ac_ServiceSampleCount = 0,
        ac_MemoryCheckInterval = 0, ac_MemoryLimitMib = 0, ac_TraceIdHoldTime = 0\<rparr>,
      cf_Sampler = \<lparr>sm_LogEnable = False, sm_NormalTopSample = False, sm_NormalSampleWaitTime = 60,
        sm_OpenSlowSampling = True, sm_OpenErrorSampling = True, sm_EnableTailbaseProfiling = False,
        sm_SampleRetryNum = 3, sm_SampleWaitTime = 60, sm_SampleIgnoreThreshold = 0,
        sm_SampleSlowThreshold = 100, sm_SilentPeriod = 5, sm_SilentCount = 1, sm_SilentMode = ''window''\<rparr>,
      cf_Controller = \<lparr>cc_Host = [], cc_Port = 0, cc_IntervalQuerySlow = 0, cc_IntervalQuerySample = 0,
        cc_IntervalSendTrace = 0\<rparr>,
      cf_NotifyEnabled = False\<rparr>"

subsection \<open>Tickers\<close>

datatype ticker_id =
  SlowThresholdTicker | SampleTicker | SendTraceTicker | CleanCacheTicker | NotifyProfileTicker
| NotifyTicker | CleanOtelTraceTicker | QuerySampleValueTicker

subsection \<open>State\<close>

text \<open>The statistics of \<open>ConsumeTraces\<close>, \<open>int64\<close> in the source, are unbounded here: they say what is counted, and wrap in the code after \<open>2 ^ 63\<close> spans.\<close>

record span_counts =
  ct_received :: int
  ct_drop :: int
  ct_single :: int
  ct_adaptive :: int
  ct_sampled :: int

record back_sampling_processor =
  bp_cfg :: bs_config
  bp_logEnable :: bool
  bp_nodeIp :: string
  bp_nodeName :: string
  bp_profileQueryTime :: int
  bp_tickers :: "(ticker_id, policy_ticker) gomap"
  bp_tailbaseCache :: "trace_labels readable_cache"
  bp_sampleApi :: sample_api
  bp_sampleCache :: sample_cache
  bp_notifyApi :: notify_api
  bp_profileApi :: profile_api
  bp_memoryCheck :: "memory_check option"
  bp_adaptiveSampler :: "adaptive_sampler option"
  bp_singleSampler :: "single_sampler option"
  bp_otelTraceSampler :: "otel_trace_sampler option"
  bp_counts :: span_counts
  bp_out :: "traces list"

subsection \<open>Construction\<close>

text \<open>The process environment: variables and host name.\<close>

record process_env =
  pe_LookupEnv :: "string \<Rightarrow> string option"
  pe_Hostname :: "string option"

definition getNodeName :: "process_env \<Rightarrow> string" where
  "getNodeName env =
     (case pe_LookupEnv env ''MY_NODE_NAME'' of
        Some n \<Rightarrow> n
      | None \<Rightarrow> (case pe_Hostname env of Some h \<Rightarrow> h | None \<Rightarrow> ''Unknown''))"

definition getNodeIp :: "process_env \<Rightarrow> string" where
  "getNodeIp env = (case pe_LookupEnv env ''MY_NODE_IP'' of Some ip \<Rightarrow> ip | None \<Rightarrow> [])"

text \<open>Errors of the telemetry builder and the gRPC client, and what the operating system says to the registry socket.\<close>

record start_errors =
  se_telemetry :: "string option"
  se_sampleApi :: "string option"
  se_notify :: uds_os

definition bs_tickers :: "bs_config \<Rightarrow> (ticker_id, policy_ticker) gomap" where
  "bs_tickers cfg =
     map (\<lambda>i. (i, NewPolicyTicker))
       ((if ac_Enable (cf_Adaptive cfg) then [CleanOtelTraceTicker, QuerySampleValueTicker] else []) @
        [SlowThresholdTicker, SampleTicker, SendTraceTicker, CleanCacheTicker] @
        (if cf_EbpfPort cfg > 0 then [NotifyProfileTicker] else []) @
        (if cf_NotifyEnabled cfg then [NotifyTicker] else []))"

definition newTracesProcessor ::
  "process_env \<Rightarrow> start_errors \<Rightarrow> int \<Rightarrow> bs_config \<Rightarrow> (string + back_sampling_processor) option" where
  "newTracesProcessor env errs now cfg =
     (let sm = cf_Sampler cfg; ad = cf_Adaptive cfg in
      case se_telemetry errs of Some e \<Rightarrow> Some (Inl e) | None \<Rightarrow>
      case se_sampleApi errs of Some e \<Rightarrow> Some (Inl e) | None \<Rightarrow>
      case (if cf_NotifyEnabled cfg then map_sum id UdsRegistryServer (NewUdsRegistryServer (se_notify errs)) else Inr NoopNotify) of
        Inl e \<Rightarrow> Some (Inl e) | Inr notifyApi \<Rightarrow>
      do {
        tailbaseCache \<leftarrow> NewReadableCache ''SpanTrace'' (sm_SampleWaitTime sm);
        otel \<leftarrow> (if ac_Enable ad
                then map_option Some (NewOtelTraceSampler (ac_TraceIdHoldTime ad) (sm_SampleWaitTime sm))
                else Some None);
        Some (Inr
          \<lparr>bp_cfg = cfg, bp_logEnable = sm_LogEnable sm, bp_nodeIp = getNodeIp env,
           bp_nodeName = getNodeName env, bp_profileQueryTime = 0, bp_tickers = bs_tickers cfg,
           bp_tailbaseCache = tailbaseCache, bp_sampleApi = NewSampleApi (ac_Enable ad),
           bp_sampleCache =
             NewSampleCache now (sm_OpenSlowSampling sm) (sm_OpenErrorSampling sm)
               (sm_SampleIgnoreThreshold sm * 1000000) (sm_SampleSlowThreshold sm * 1000000)
               (sm_NormalTopSample sm) (sm_NormalSampleWaitTime sm) (sm_SampleRetryNum sm)
               (sm_SampleWaitTime sm) (sm_SilentCount sm) (sm_SilentPeriod sm) (sm_SilentMode sm),
           bp_notifyApi = notifyApi,
           bp_profileApi = NewProfileApi (getNodeIp env) (cf_EbpfPort cfg),
           bp_memoryCheck = (if ac_Enable ad then Some (NewMemoryCheck (ac_MemoryLimitMib ad)) else None),
           bp_adaptiveSampler =
             (if ac_Enable ad
              then Some (NewAdaptiveSampler (ac_SlowThreshold ad) (ac_ServiceSampleWindow ad)
                           (ac_ServiceSampleCount ad) (ac_TraceIdHoldTime ad))
              else None),
           bp_singleSampler =
             (if ac_Enable ad
              then Some (NewSingleSampler (sm_OpenSlowSampling sm) (sm_OpenErrorSampling sm)
                           (sm_SampleIgnoreThreshold sm * 1000000) (sm_NormalSampleWaitTime sm)
                           (sm_SilentCount sm) (sm_SilentPeriod sm) (sm_SilentMode sm))
              else None),
           bp_otelTraceSampler = otel,
           bp_counts = \<lparr>ct_received = 0, ct_drop = 0, ct_single = 0, ct_adaptive = 0, ct_sampled = 0\<rparr>,
           bp_out = []\<rparr>)
      })"

subsection \<open>Start and shutdown\<close>

definition on_ticker ::
  "(policy_ticker \<Rightarrow> policy_ticker option) \<Rightarrow> ticker_id \<Rightarrow> back_sampling_processor \<Rightarrow> back_sampling_processor option" where
  "on_ticker f i bsp = do {
     pt \<leftarrow> map_load (bp_tickers bsp) i;
     pt' \<leftarrow> f pt;
     Some (bsp\<lparr>bp_tickers := map_store i pt' (bp_tickers bsp)\<rparr>)
   }"

abbreviation second :: int where "second \<equiv> 1000000000"

definition Start :: "back_sampling_processor \<Rightarrow> back_sampling_processor option" where
  "Start bsp = do {
     let cfg = bp_cfg bsp;
     bsp \<leftarrow> on_ticker (pt_Start (i64 (cc_IntervalQuerySlow (cf_Controller cfg) * second))) SlowThresholdTicker bsp;
     bsp \<leftarrow> on_ticker (pt_Start (i64 (cc_IntervalQuerySample (cf_Controller cfg) * second))) SampleTicker bsp;
     bsp \<leftarrow> on_ticker (pt_Start (i64 (cc_IntervalSendTrace (cf_Controller cfg) * second))) SendTraceTicker bsp;
     bsp \<leftarrow> on_ticker (pt_Start second) CleanCacheTicker bsp;
     bsp \<leftarrow> (if cf_EbpfPort cfg > 0 then on_ticker (pt_Start second) NotifyProfileTicker bsp else Some bsp);
     bsp \<leftarrow> (if cf_NotifyEnabled cfg then on_ticker (pt_Start second) NotifyTicker bsp else Some bsp);
     (if ac_Enable (cf_Adaptive cfg)
      then do {
        bsp \<leftarrow> on_ticker (pt_Start second) CleanOtelTraceTicker bsp;
        on_ticker (pt_Start (ac_MemoryCheckInterval (cf_Adaptive cfg))) QuerySampleValueTicker bsp
      }
      else Some bsp)
   }"

definition Shutdown :: "back_sampling_processor \<Rightarrow> back_sampling_processor option" where
  "Shutdown bsp = do {
     let cfg = bp_cfg bsp;
     bsp \<leftarrow> (if ac_Enable (cf_Adaptive cfg)
             then do {
               bsp \<leftarrow> on_ticker pt_Stop CleanOtelTraceTicker bsp;
               on_ticker pt_Stop QuerySampleValueTicker bsp
             }
             else Some bsp);
     bsp \<leftarrow> on_ticker pt_Stop SlowThresholdTicker bsp;
     bsp \<leftarrow> on_ticker pt_Stop SampleTicker bsp;
     bsp \<leftarrow> on_ticker pt_Stop SendTraceTicker bsp;
     bsp \<leftarrow> on_ticker pt_Stop CleanCacheTicker bsp;
     bsp \<leftarrow> (if cf_EbpfPort cfg > 0 then on_ticker pt_Stop NotifyProfileTicker bsp else Some bsp);
     (if cf_NotifyEnabled cfg then on_ticker pt_Stop NotifyTicker bsp else Some bsp)
   }"

subsection \<open>One span\<close>

definition storeTrace :: "trace_labels \<Rightarrow> back_sampling_processor \<Rightarrow> back_sampling_processor" where
  "storeTrace trace bsp =
     (let bsp1 = bsp\<lparr>bp_sampleApi := StoreTrace trace (bp_sampleApi bsp)\<rparr> in
      if tl_IsError trace \<or> tl_IsSlow trace \<or> tl_IsProfiled trace
      then bsp1\<lparr>bp_notifyApi := SendSignal trace (bp_notifyApi bsp1)\<rparr>
      else bsp1)"

definition storeSlowProfile :: "trace_labels \<Rightarrow> back_sampling_processor \<Rightarrow> back_sampling_processor" where
  "storeSlowProfile trace bsp = bsp\<lparr>bp_profileApi := AddProfileSignal trace 3 (bp_profileApi bsp)\<rparr>"

definition storeNormalProfile :: "trace_labels \<Rightarrow> back_sampling_processor \<Rightarrow> back_sampling_processor" where
  "storeNormalProfile trace bsp = bsp\<lparr>bp_profileApi := AddProfileSignal trace 1 (bp_profileApi bsp)\<rparr>"

text \<open>The labels built from a span.\<close>

definition mk_TraceLabels ::
  "pdata_api \<Rightarrow> back_sampling_processor \<Rightarrow> u32 \<Rightarrow> string \<Rightarrow> string \<Rightarrow> span \<Rightarrow> u32 \<Rightarrow> int \<Rightarrow> string \<Rightarrow> trace_labels" where
  "mk_TraceLabels api bsp pid containerId serviceName sp reportType sampleValue clusterID =
     \<lparr>tl_Pid = pid,
      tl_Tid = (case map_load (sp_Attributes sp) AttributeThreadID of
                  Some v \<Rightarrow> word_of_int (value_Int v) | None \<Rightarrow> 0),
      tl_TopSpan = SpanID_IsEmpty api (sp_ParentSpanID sp),
      tl_Protocol = ''http'', tl_ServiceName = serviceName,
      tl_Url = sp_Name sp, tl_HttpUrl = sp_Name sp,
      tl_IsSampled = True, tl_IsSlow = False, tl_IsServer = True,
      tl_IsError = (sp_StatusCode sp = StatusCodeError), tl_IsProfiled = False,
      tl_ReportType = reportType, tl_SampleValue = sampleValue,
      tl_ThresholdType = [], tl_ThresholdRange = [], tl_ThresholdValue = 0, tl_ThresholdMultiple = 0,
      tl_TraceId = TraceID_String api (sp_TraceID sp), tl_ApmType = ''otel'',
      tl_ApmSpanId = SpanID_String api (sp_SpanID sp), tl_ContainerId = containerId,
      tl_StartTime = sp_StartTimestamp sp, tl_Duration = sp_EndTimestamp sp - sp_StartTimestamp sp,
      tl_EndTime = sp_EndTimestamp sp, tl_NodeName = bp_nodeName bsp, tl_NodeIp = bp_nodeIp bsp,
      tl_ClusterID = clusterID\<rparr>"

text \<open>The switch over the sample result.\<close>

definition store_result :: "sample_result \<Rightarrow> trace_labels \<Rightarrow> back_sampling_processor \<Rightarrow> back_sampling_processor" where
  "store_result r trace bsp =
     (case r of
        SampleResultTrace \<Rightarrow> storeTrace trace bsp
      | SampleResultTraceLog \<Rightarrow> storeTrace trace bsp
      | SampleResultTraceProfile \<Rightarrow> storeSlowProfile trace (storeTrace trace bsp)
      | SampleResultNormal \<Rightarrow> storeNormalProfile trace (storeTrace trace bsp)
      | SampleResultCache \<Rightarrow> bsp\<lparr>bp_sampleCache := CacheTrace trace (bp_sampleCache bsp)\<rparr>
      | SampleResultNoOp \<Rightarrow> bsp)"

text \<open>The decision for the labels, with everything that is stored, and the labels after it.\<close>

definition sample_span ::
  "string \<Rightarrow> int \<Rightarrow> u32 \<Rightarrow> trace_labels \<Rightarrow> back_sampling_processor \<Rightarrow> back_sampling_processor \<times> trace_labels" where
  "sample_span p90 now reportType trace bsp =
     (if reportType = 0 then
        (let (sc, t, r) = GetSampleResult p90 now trace (bp_sampleCache bsp)
         in (store_result r t (bsp\<lparr>bp_sampleCache := sc\<rparr>), t))
      else case bp_singleSampler bsp of
             None \<Rightarrow> (bsp, trace)
           | Some ss \<Rightarrow>
               (let (ss', t, sampled) = single_Sample now trace ss;
                    b = bsp\<lparr>bp_singleSampler := Some ss'\<rparr>
                in if sampled
                   then (if tl_IsSlow t then storeSlowProfile t (storeTrace t b)
                         else storeNormalProfile t (storeTrace t b), t)
                   else (b, t)))"

definition mark_profiled :: "trace_labels \<Rightarrow> back_sampling_processor \<Rightarrow> back_sampling_processor" where
  "mark_profiled trace bsp =
     (case bp_otelTraceSampler bsp of
        None \<Rightarrow> bsp
      | Some os \<Rightarrow>
          if tl_IsProfiled trace
          then bsp\<lparr>bp_otelTraceSampler := Some (SetSampledTraceId (tl_TraceId trace) os)\<rparr>
          else bsp)"

text \<open>The kind test and the Undertow test of the source together are \<open>IsEntrySpan\<close>.\<close>

definition buildSpanTrace ::
  "pdata_api \<Rightarrow> string \<Rightarrow> int \<Rightarrow> u32 \<Rightarrow> string \<Rightarrow> string \<Rightarrow> span \<Rightarrow> u32 \<Rightarrow> int \<Rightarrow> string \<Rightarrow>
     back_sampling_processor \<Rightarrow> back_sampling_processor" where
  "buildSpanTrace api p90 now pid containerId serviceName sp reportType sampleValue clusterID bsp =
     (if sp_EndTimestamp sp \<le> sp_StartTimestamp sp then bsp
      else if \<not> IsEntrySpan sp then bsp
      else
        (let trace = mk_TraceLabels api bsp pid containerId serviceName sp reportType sampleValue clusterID;
             (bsp1, trace1) = sample_span p90 now reportType trace bsp
         in mark_profiled trace1 bsp1))"

subsection \<open>\<open>ConsumeTraces\<close>\<close>

definition add_count :: "(span_counts \<Rightarrow> span_counts) \<Rightarrow> back_sampling_processor \<Rightarrow> back_sampling_processor" where
  "add_count f bsp = bsp\<lparr>bp_counts := f (bp_counts bsp)\<rparr>"

definition forward :: "traces \<Rightarrow> back_sampling_processor \<Rightarrow> back_sampling_processor" where
  "forward td bsp = bsp\<lparr>bp_out := bp_out bsp @ [td]\<rparr>"

text \<open>One trace of a resource in the adaptive branch.\<close>

definition consume_group ::
  "pdata_api \<Rightarrow> string \<Rightarrow> int \<Rightarrow> resource \<Rightarrow> trace_id \<times> span list \<Rightarrow>
     back_sampling_processor \<Rightarrow> back_sampling_processor option" where
  "consume_group api p90 now resource g bsp =
     (case bp_adaptiveSampler bsp of None \<Rightarrow> None | Some ad \<Rightarrow>
      (case g of (traceId, spans) \<Rightarrow>
       (case getAppInfo resource of (pid, serviceName, containerId) \<Rightarrow> do {
        let n = int (length spans);
        let bsp0 = add_count (\<lambda>c. c\<lparr>ct_received := ct_received c + n\<rparr>) bsp;
        (ad', adaptiveResult) \<leftarrow> adaptive_Sample api traceId (getSkywalkingTraceId resource) serviceName spans ad;
        let bsp1 = bsp0\<lparr>bp_adaptiveSampler := Some ad'\<rparr>;
        if IsDrop adaptiveResult
        then Some (add_count (\<lambda>c. c\<lparr>ct_drop := ct_drop c + n\<rparr>) bsp1)
        else do {
          let reportType = GetReportType adaptiveResult;
          let bsp2 = fold (\<lambda>sp. buildSpanTrace api p90 now pid containerId serviceName sp reportType
                                  (GetSampleValue ad') (getClusterID resource)) spans bsp1;
          if IsSingleStore adaptiveResult
          then Some (add_count (\<lambda>c. c\<lparr>ct_single := ct_single c + n\<rparr>)
                       (forward (BuildTraces resource spans) bsp2))
          else do {
            os \<leftarrow> bp_otelTraceSampler bsp2;
            Some (add_count (\<lambda>c. c\<lparr>ct_adaptive := ct_adaptive c + n\<rparr>)
                    (bsp2\<lparr>bp_otelTraceSampler := Some (os_Cache api traceId (NewOtelTrace resource spans) os)\<rparr>))
          }
        }
      })))"

fun consume_groups ::
  "pdata_api \<Rightarrow> string \<Rightarrow> int \<Rightarrow> resource \<Rightarrow> (trace_id, span list) gomap \<Rightarrow>
     back_sampling_processor \<Rightarrow> back_sampling_processor option" where
  "consume_groups api p90 now resource [] bsp = Some bsp"
| "consume_groups api p90 now resource (g # gs) bsp =
     do { bsp' \<leftarrow> consume_group api p90 now resource g bsp; consume_groups api p90 now resource gs bsp' }"

fun consume_adaptive ::
  "pdata_api \<Rightarrow> string \<Rightarrow> int \<Rightarrow> traces \<Rightarrow> back_sampling_processor \<Rightarrow> back_sampling_processor option" where
  "consume_adaptive api p90 now [] bsp = Some bsp"
| "consume_adaptive api p90 now (rss # td) bsp =
     (case getAppInfo (rs_Resource rss) of (pid, serviceName, containerId) \<Rightarrow>
        if serviceName = [] then consume_adaptive api p90 now td bsp
        else do {
          bsp' \<leftarrow> consume_groups api p90 now (rs_Resource rss) (groupSpansByTraceId rss) bsp;
          consume_adaptive api p90 now td bsp'
        })"

definition consume_resource ::
  "pdata_api \<Rightarrow> string \<Rightarrow> int \<Rightarrow> resource_spans \<Rightarrow> back_sampling_processor \<Rightarrow> back_sampling_processor" where
  "consume_resource api p90 now rspans bsp =
     (case getAppInfo (rs_Resource rspans) of (pid, serviceName, containerId) \<Rightarrow>
        if serviceName = [] then bsp
        else fold (\<lambda>ils bsp.
               fold (\<lambda>sp. buildSpanTrace api p90 now pid containerId serviceName sp 0 0
                            (getClusterID (rs_Resource rspans))) (ss_Spans ils)
                 (add_count (\<lambda>c. c\<lparr>ct_received := ct_received c + int (length (ss_Spans ils))\<rparr>) bsp))
             (rs_ScopeSpans rspans) bsp)"

text \<open>The second result is the error of the next consumer, \<open>next_err\<close> in the branch that returns it.\<close>

definition ConsumeTraces ::
  "pdata_api \<Rightarrow> string \<Rightarrow> (traces \<Rightarrow> string option) \<Rightarrow> int \<Rightarrow> traces \<Rightarrow> back_sampling_processor \<Rightarrow>
     (back_sampling_processor \<times> string option) option" where
  "ConsumeTraces api p90 next_err now td bsp =
     (if bp_adaptiveSampler bsp \<noteq> None
      then map_option (\<lambda>b. (b, None)) (consume_adaptive api p90 now td bsp)
      else Some (forward td (fold (consume_resource api p90 now) td bsp), next_err td))"

subsection \<open>Ticker handlers\<close>

definition slowThresholdOnTick ::
  "int \<Rightarrow> slow_threshold_data list option \<Rightarrow> back_sampling_processor \<Rightarrow> back_sampling_processor" where
  "slowThresholdOnTick now resp bsp =
     (case resp of
        Some datas \<Rightarrow> bsp\<lparr>bp_sampleCache := UpdateSlowThreshold now datas (bp_sampleCache bsp)\<rparr>
      | None \<Rightarrow> bsp)"

text \<open>
  \<open>samplingOnTick\<close> in two parts, since spans arrive while the query is under way: the query, and what
  happens with the answer. The first part returns the identifiers that are sent.
\<close>

record profile_query =
  pq_QueryTime :: int
  pq_NodeIp :: string
  pq_SlowTraceIds :: "string list"
  pq_ErrorTraceIds :: "string list"
  pq_NormalTraceIds :: "string list"

definition samplingOnTick_query :: "back_sampling_processor \<Rightarrow> profile_query" where
  "samplingOnTick_query bsp =
     (case GetSampledTraceIds (bp_sampleCache bsp) of (slowIds, errorIds, normalIds) \<Rightarrow>
        \<lparr>pq_QueryTime = bp_profileQueryTime bsp, pq_NodeIp = bp_nodeIp bsp, pq_SlowTraceIds = slowIds,
         pq_ErrorTraceIds = errorIds, pq_NormalTraceIds = normalIds\<rparr>)"

definition samplingOnTick_answer ::
  "profile_query \<Rightarrow> profile_result option \<Rightarrow> back_sampling_processor \<Rightarrow> back_sampling_processor option" where
  "samplingOnTick_answer query resp bsp =
     (let slowN = int (length (pq_SlowTraceIds query)); errorN = int (length (pq_ErrorTraceIds query));
          normalN = int (length (pq_NormalTraceIds query)) in
      case resp of
        Some r \<Rightarrow> do {
          sc \<leftarrow> UpdateSampledTraceIds r slowN errorN normalN (bp_sampleCache bsp);
          let mark = (\<lambda>ids os. fold SetSampledTraceId ids os);
          Some (bsp\<lparr>bp_profileQueryTime := pr_QueryTime r, bp_sampleCache := sc,
                    bp_otelTraceSampler :=
                      map_option (\<lambda>os. mark (pr_NormalTraceIds r) (mark (pr_ErrorTraceIds r)
                                         (mark (pr_SlowTraceIds r) os)))
                        (bp_otelTraceSampler bsp)\<rparr>)
        }
      | None \<Rightarrow> do {
          sc \<leftarrow> UpdateUnSentCount slowN errorN normalN (bp_sampleCache bsp);
          Some (bsp\<lparr>bp_sampleCache := sc\<rparr>)
        })"

definition samplingOnTick ::
  "profile_result option \<Rightarrow> back_sampling_processor \<Rightarrow> back_sampling_processor option" where
  "samplingOnTick resp bsp = samplingOnTick_answer (samplingOnTick_query bsp) resp bsp"

definition sendTraceOnTick ::
  "(trace_group \<Rightarrow> string) \<Rightarrow> back_sampling_processor \<Rightarrow> (back_sampling_processor \<times> data_groups option) option" where
  "sendTraceOnTick marshal bsp =
     map_option (\<lambda>(sa, out). (bsp\<lparr>bp_sampleApi := sa\<rparr>, out)) (SendTraces marshal (bp_sampleApi bsp))"

definition store_tailbase ::
  "bool \<Rightarrow> int \<Rightarrow> trace_labels \<Rightarrow> back_sampling_processor \<Rightarrow> back_sampling_processor" where
  "store_tailbase slow now trace bsp =
     (let bsp1 = storeTrace trace bsp;
          bsp2 = (if slow \<and> sm_EnableTailbaseProfiling (cf_Sampler (bp_cfg bsp)) then storeSlowProfile trace bsp1
                  else bsp1)
      in bsp2\<lparr>bp_sampleCache := UpdateNoramlTime now trace (bp_sampleCache bsp2)\<rparr>)"

definition cleanCacheOnTick :: "int \<Rightarrow> back_sampling_processor \<Rightarrow> back_sampling_processor option" where
  "cleanCacheOnTick now bsp = do {
     let (sc, sampledIds) = GetAndCleanTailbaseTraces (bp_sampleCache bsp);
     rc1 \<leftarrow> rc_Copy (si_TraceCache sampledIds) (bp_tailbaseCache bsp);
     let (rc2, errorTraces) = rc_PickMatchDatas (si_ErrorIds sampledIds) rc1;
     let (rc3, slowTraces) = rc_PickMatchDatas (si_SlowIds sampledIds) rc2;
     let (rc4, normalTraces) = rc_PickMatchDatas (si_NormalIds sampledIds) rc3;
     rc5 \<leftarrow> rc_CleanExpireDatas (bp_logEnable bsp) rc4;
     let bsp1 = bsp\<lparr>bp_sampleCache := sc, bp_tailbaseCache := rc5\<rparr>;
     let bsp2 = fold (store_tailbase False now) errorTraces bsp1;
     let bsp3 = fold (store_tailbase True now) slowTraces bsp2;
     let bsp4 = fold (store_tailbase False now) normalTraces bsp3;
     Some (bsp4\<lparr>bp_sampleCache := CheckWindow now (bp_sampleCache bsp4)\<rparr>)
   }"

definition send_sampled :: "otel_trace \<Rightarrow> back_sampling_processor \<Rightarrow> back_sampling_processor" where
  "send_sampled trace bsp =
     forward (ConvertToTraces trace)
       (add_count (\<lambda>c. c\<lparr>ct_sampled := ct_sampled c + int (length (ot_Spans trace))\<rparr>) bsp)"

definition cleanOtelTraceOnTick :: "int \<Rightarrow> back_sampling_processor \<Rightarrow> back_sampling_processor option" where
  "cleanOtelTraceOnTick now bsp = do {
     bsp1 \<leftarrow> (case bp_otelTraceSampler bsp of
               None \<Rightarrow> Some bsp
             | Some os \<Rightarrow> do {
                 (os', traces) \<leftarrow> PickSampledTraces (bp_logEnable bsp) os;
                 Some (fold send_sampled traces (bsp\<lparr>bp_otelTraceSampler := Some os'\<rparr>))
               });
     let bsp2 = bsp1\<lparr>bp_singleSampler := map_option (single_CheckWindow now) (bp_singleSampler bsp1)\<rparr>;
     Some (bsp2\<lparr>bp_adaptiveSampler := map_option adaptive_Reset (bp_adaptiveSampler bsp2)\<rparr>)
   }"

record sample_metric =
  mt_QueryTime :: int
  mt_NodeIp :: string
  mt_CacheSecond :: int
  mt_Memory :: u64
  mt_MemoryLimit :: u64

text \<open>The request is the second result; \<open>result\<close> is the value the controller answers.\<close>

definition querySampleValueOnTick ::
  "int \<Rightarrow> u64 \<Rightarrow> int option \<Rightarrow> back_sampling_processor \<Rightarrow> (back_sampling_processor \<times> sample_metric option) option" where
  "querySampleValueOnTick now alloc result bsp =
     (case bp_memoryCheck bsp of
        None \<Rightarrow> Some (bsp, None)
      | Some check \<Rightarrow>
          (let m = \<lparr>mt_QueryTime = now, mt_NodeIp = bp_nodeIp bsp,
                    mt_CacheSecond = sm_SampleWaitTime (cf_Sampler (bp_cfg bsp)),
                    mt_Memory = GetCurrentMemory alloc, mt_MemoryLimit = GetMemoryLimit check\<rparr>
           in case api_GetSampleValue result (bp_sampleApi bsp) of
                None \<Rightarrow> Some (bsp, Some m)
              | Some v \<Rightarrow> do {
                  ad \<leftarrow> bp_adaptiveSampler bsp;
                  let oldSampleValue = GetSampleValue ad;
                  Some (if v \<ge> 0 \<and> v < 20 \<and> oldSampleValue \<noteq> v
                        then bsp\<lparr>bp_adaptiveSampler := Some (SetSampleValue v ad)\<rparr> else bsp, Some m)
                }))"

definition notifyProfileOnTicker ::
  "back_sampling_processor \<Rightarrow> (back_sampling_processor \<times> (string \<times> profile_signal list) option) option" where
  "notifyProfileOnTicker bsp =
     map_option (\<lambda>(pa, out). (bsp\<lparr>bp_profileApi := pa\<rparr>, out)) (ConsumeProfileSignals (bp_profileApi bsp))"

definition notifyOnTick ::
  "(uds_client \<Rightarrow> signal \<Rightarrow> bool) \<Rightarrow> back_sampling_processor \<Rightarrow> back_sampling_processor option" where
  "notifyOnTick post bsp =
     map_option (\<lambda>(na, out). bsp\<lparr>bp_notifyApi := na\<rparr>) (BatchSendSignals post (bp_notifyApi bsp))"

subsection \<open>Invariant\<close>

text \<open>
  The identifiers queued for the controller, relative to the query under way; the sampling state; and
  the whole processor. The adaptive parts exist together or not at all.
\<close>

definition sc_sends :: "profile_query option \<Rightarrow> sample_cache \<Rightarrow> bool" where
  "sc_sends q c \<longleftrightarrow>
     unsend_ok (ts_unSendIds (tb_slowSampler (sc_tailbaseSamplers c))) (map_option pq_SlowTraceIds q) \<and>
     unsend_ok (ts_unSendIds (tb_errorSampler (sc_tailbaseSamplers c))) (map_option pq_ErrorTraceIds q) \<and>
     unsend_ok (ts_unSendIds (tb_normalSampler (sc_tailbaseSamplers c))) (map_option pq_NormalTraceIds q)"

definition ad_inv :: "adaptive_sampler \<Rightarrow> bool" where
  "ad_inv ad \<longleftrightarrow> gomap_wf (as_serviceTps ad) \<and> gomap_wf (as_singleIds ad) \<and>
     0 \<le> as_sampleValue ad \<and> as_sampleValue ad < 20"

definition bsp_inv :: "profile_query option \<Rightarrow> back_sampling_processor \<Rightarrow> bool" where
  "bsp_inv q bsp \<longleftrightarrow>
     sc_wf (bp_sampleCache bsp) \<and> sc_sends q (bp_sampleCache bsp) \<and>
     rc_inv BeforeCopy (bp_tailbaseCache bsp) \<and>
     pred_option os_inv (bp_otelTraceSampler bsp) \<and> pred_option ad_inv (bp_adaptiveSampler bsp) \<and>
     (bp_adaptiveSampler bsp \<noteq> None \<longrightarrow> bp_otelTraceSampler bsp \<noteq> None) \<and>
     (bp_memoryCheck bsp \<noteq> None \<longrightarrow> bp_adaptiveSampler bsp \<noteq> None)"

lemma notify_sends: "unsend_ok (ts_unSendIds s) r \<Longrightarrow> unsend_ok (ts_unSendIds (fst (notifyTailbase t s))) r"
  by (auto simp: notifyTailbase_def unsend_cache split: option.splits)

lemma GetSampleResult_sends: "sc_sends q c \<Longrightarrow> sc_sends q (fst (GetSampleResult p90 now t c))"
proof -
  assume s: "sc_sends q c"
  obtain c' t' r where g: "GetSampleResult p90 now t c = (c', t', r)" by (cases "GetSampleResult p90 now t c")
  then show ?thesis
  proof (cases rule: GetSampleResult_cases)
    case ignored
    with s g show ?thesis by simp
  next
    case (decided hs he b)
    let ?t = "CheckSlow p90 t (sc_defaultSlowThreshold c) c"
    have "sc_tailbaseSamplers c' = fst (tb_Sample ?t hs he b (sc_tailbaseSamplers c))"
      using decided(1) by simp
    with s g show ?thesis
      by (auto simp: sc_sends_def tb_Sample_def Let_def split_def notify_sends)
  qed
qed

lemma CacheTrace_sends: "sc_sends q c \<Longrightarrow> sc_sends q (CacheTrace t c)"
  by (simp add: sc_sends_def CacheTrace_def)

lemma UpdateNoramlTime_sends: "sc_sends q c \<Longrightarrow> sc_sends q (UpdateNoramlTime now t c)"
  by (simp add: sc_sends_def UpdateNoramlTime_def)

lemma CheckWindow_sends: "sc_sends q c \<Longrightarrow> sc_sends q (CheckWindow now c)"
  by (simp add: sc_sends_def CheckWindow_def)

lemma UpdateSlowThreshold_sends: "sc_sends q c \<Longrightarrow> sc_sends q (UpdateSlowThreshold now ds c)"
  by (simp add: sc_sends_def UpdateSlowThreshold_def)

lemma GetAndClean_sends: "sc_sends q c \<Longrightarrow> sc_sends q (fst (GetAndCleanTailbaseTraces c))"
  by (simp add: sc_sends_def GetAndCleanTailbaseTraces_def cleanSampledIds_def Let_def split_def)

lemmas sends_intros = GetSampleResult_sends CacheTrace_sends UpdateNoramlTime_sends CheckWindow_sends
  UpdateSlowThreshold_sends GetAndClean_sends

lemma update_sampled_total:
  assumes "unsend_ok (ts_unSendIds s) (Some ids)"
  shows "\<exists>s'. updateSampledTraceIds tids (int (length ids)) s = Some s' \<and> unsend_ok (ts_unSendIds s') None"
  using tail_step_ok [OF assms, of "TailAnswer (Some tids)"] by auto

lemma update_unsent_total:
  assumes "unsend_ok (ts_unSendIds s) (Some ids)"
  shows "\<exists>s'. updateUnSentCount (int (length ids)) s = Some s' \<and> unsend_ok (ts_unSendIds s') None"
  using tail_step_ok [OF assms, of "TailAnswer None"] by auto

lemma SetSampledTraceId_inv [wf_intros]: "os_inv s \<Longrightarrow> os_inv (SetSampledTraceId t s)"
  by (auto simp: os_inv_def SetSampledTraceId_def intro: wf_store)

lemma fold_SetSampledTraceId_inv: "os_inv s \<Longrightarrow> os_inv (fold SetSampledTraceId ids s)"
  by (induction ids arbitrary: s) (auto intro: SetSampledTraceId_inv)

lemma os_Cache_inv [wf_intros]: "os_inv s \<Longrightarrow> os_inv (os_Cache api tid tr s)"
  by (auto simp: os_inv_def os_Cache_def intro: wc_Write_wf)

lemma CheckLowUrl_inv: "ad_inv s \<Longrightarrow> ad_inv (fst (CheckLowUrl svc sp s))"
  by (auto simp: ad_inv_def CheckLowUrl_def Let_def intro: wf_store split: option.splits)

lemma adaptive_loop_inv: "ad_inv s \<Longrightarrow> ad_inv (fst (adaptive_loop k svc spans s))"
proof (induction spans arbitrary: s)
  case Nil
  then show ?case by simp
next
  case (Cons sp spans)
  have "ad_inv (s\<lparr>as_singleIds := map_store k 0 (as_singleIds s)\<rparr>)"
    using Cons.prems by (auto simp: ad_inv_def intro: wf_store)
  with Cons CheckLowUrl_inv [OF Cons.prems, of svc sp] show ?case
    by (simp add: Let_def split_def)
qed

lemma adaptive_Sample_inv:
  assumes "ad_inv s"
  shows "\<exists>s' r. adaptive_Sample api tid sw svc spans s = Some (s', r) \<and> ad_inv s'"
proof -
  have v: "0 \<le> as_sampleValue s" using assms by (simp add: ad_inv_def)
  show ?thesis
    using assms adaptive_loop_inv [OF assms, of "svc @ ''-'' @ TraceID_String api tid" svc spans] v
    by (cases "adaptive_loop (svc @ ''-'' @ TraceID_String api tid) svc spans s")
      (auto simp: adaptive_Sample_def CheckAdaptive_eq Let_def split: option.splits)
qed

lemma adaptive_Reset_inv: "ad_inv s \<Longrightarrow> ad_inv (adaptive_Reset s)"
  by (auto simp: ad_inv_def adaptive_Reset_def Let_def intro: wf_values wf_keep)

subsection \<open>Every handler keeps the invariant and completes\<close>

text \<open>What the span handler leaves alone.\<close>

definition bsp_rest ::
  "back_sampling_processor \<Rightarrow>
     bs_config \<times> trace_labels readable_cache \<times> adaptive_sampler option \<times> memory_check option \<times> span_counts \<times> traces list" where
  "bsp_rest b = (bp_cfg b, bp_tailbaseCache b, bp_adaptiveSampler b, bp_memoryCheck b, bp_counts b, bp_out b)"

lemma storeTrace_frame [simp]:
  "bp_sampleCache (storeTrace t b) = bp_sampleCache b"
  "bp_otelTraceSampler (storeTrace t b) = bp_otelTraceSampler b"
  "bp_singleSampler (storeTrace t b) = bp_singleSampler b"
  "bsp_rest (storeTrace t b) = bsp_rest b"
  by (simp_all add: storeTrace_def bsp_rest_def Let_def)

lemma storeProfile_frame [simp]:
  "bp_sampleCache (storeSlowProfile t b) = bp_sampleCache b"
  "bp_otelTraceSampler (storeSlowProfile t b) = bp_otelTraceSampler b"
  "bp_singleSampler (storeSlowProfile t b) = bp_singleSampler b"
  "bsp_rest (storeSlowProfile t b) = bsp_rest b"
  "bp_sampleCache (storeNormalProfile t b) = bp_sampleCache b"
  "bp_otelTraceSampler (storeNormalProfile t b) = bp_otelTraceSampler b"
  "bp_singleSampler (storeNormalProfile t b) = bp_singleSampler b"
  "bsp_rest (storeNormalProfile t b) = bsp_rest b"
  by (simp_all add: storeSlowProfile_def storeNormalProfile_def bsp_rest_def)

lemma store_result_frame:
  "bp_otelTraceSampler (store_result r t b) = bp_otelTraceSampler b"
  "bp_singleSampler (store_result r t b) = bp_singleSampler b"
  "bsp_rest (store_result r t b) = bsp_rest b"
  "bp_sampleCache (store_result r t b) =
     (if r = SampleResultCache then CacheTrace t (bp_sampleCache b) else bp_sampleCache b)"
  by (simp_all add: store_result_def bsp_rest_def [of "b\<lparr>bp_sampleCache := c\<rparr>" for c]
      bsp_rest_def [of b] split: sample_result.split)

lemma bsp_rest_upd [simp]:
  "bsp_rest (b\<lparr>bp_sampleCache := c\<rparr>) = bsp_rest b" "bsp_rest (b\<lparr>bp_singleSampler := s\<rparr>) = bsp_rest b"
  "bsp_rest (b\<lparr>bp_otelTraceSampler := os\<rparr>) = bsp_rest b"
  by (simp_all add: bsp_rest_def)

lemma sample_span_frame:
  "bsp_rest (fst (sample_span p90 now rt t b)) = bsp_rest b"
  "bp_otelTraceSampler (fst (sample_span p90 now rt t b)) = bp_otelTraceSampler b"
  by (simp_all add: sample_span_def Let_def split_def store_result_frame split: option.split)

lemma mark_profiled_frame:
  "bsp_rest (mark_profiled t b) = bsp_rest b" "bp_sampleCache (mark_profiled t b) = bp_sampleCache b"
  "bp_otelTraceSampler (mark_profiled t b) = None \<longleftrightarrow> bp_otelTraceSampler b = None"
  by (simp_all add: mark_profiled_def split: option.split)

lemma buildSpanTrace_rest:
  "bsp_rest (buildSpanTrace api p90 now pid cid svc sp rt sv cl b) = bsp_rest b"
  by (simp add: buildSpanTrace_def Let_def split_def sample_span_frame mark_profiled_frame)

text \<open>The span handler changes the sampling state by one decision, and the sampled identifiers.\<close>

definition span_state :: "profile_query option \<Rightarrow> back_sampling_processor \<Rightarrow> bool" where
  "span_state q b \<longleftrightarrow> sc_wf (bp_sampleCache b) \<and> sc_sends q (bp_sampleCache b) \<and>
     pred_option os_inv (bp_otelTraceSampler b)"

lemma bsp_inv_split:
  "bsp_inv q b \<longleftrightarrow> span_state q b \<and>
     (case bsp_rest b of (cfg, rc, ad, mc, n, out) \<Rightarrow>
        rc_inv BeforeCopy rc \<and> pred_option ad_inv ad \<and> (ad \<noteq> None \<longrightarrow> bp_otelTraceSampler b \<noteq> None) \<and>
        (mc \<noteq> None \<longrightarrow> ad \<noteq> None))"
  by (auto simp: bsp_inv_def span_state_def bsp_rest_def)

lemma store_result_state:
  "span_state q b \<Longrightarrow> span_state q (store_result r t b)"
  by (simp add: span_state_def store_result_frame CacheTrace_wf CacheTrace_sends)

lemma mark_profiled_state: "span_state q b \<Longrightarrow> span_state q (mark_profiled t b)"
  by (auto simp: span_state_def mark_profiled_def SetSampledTraceId_inv split: option.splits)

lemma sample_span_state: "span_state q b \<Longrightarrow> span_state q (fst (sample_span p90 now rt t b))"
  by (simp add: sample_span_def span_state_def Let_def split_def store_result_frame GetSampleResult_wf
      GetSampleResult_sends CacheTrace_wf CacheTrace_sends split: option.split)

lemma buildSpanTrace_state:
  "span_state q b \<Longrightarrow> span_state q (buildSpanTrace api p90 now pid cid svc sp rt sv cl b)"
  by (simp add: buildSpanTrace_def Let_def split_def sample_span_state mark_profiled_state)

lemma buildSpanTrace_otel:
  "bp_otelTraceSampler (buildSpanTrace api p90 now pid cid svc sp rt sv cl b) = None \<longleftrightarrow>
   bp_otelTraceSampler b = None"
  by (simp add: buildSpanTrace_def Let_def split_def sample_span_frame mark_profiled_frame)

lemma buildSpanTrace_inv [wf_intros]:
  "bsp_inv q b \<Longrightarrow> bsp_inv q (buildSpanTrace api p90 now pid cid svc sp rt sv cl b)"
  using buildSpanTrace_state [of q b]
  by (auto simp: bsp_inv_split buildSpanTrace_rest buildSpanTrace_otel)

lemma fold_inv: "P b \<Longrightarrow> (\<And>x b. P b \<Longrightarrow> P (f x b)) \<Longrightarrow> P (fold f xs b)"
  by (induction xs arbitrary: b) auto

lemma fold_eq: "(\<And>x b. g (f x b) = g b) \<Longrightarrow> g (fold f xs b) = g b"
  by (induction xs arbitrary: b) auto

lemma add_count_inv [simp]: "bsp_inv q (add_count f b) = bsp_inv q b"
  by (simp add: bsp_inv_def add_count_def)

lemma forward_inv [simp]: "bsp_inv q (forward td b) = bsp_inv q b"
  by (simp add: bsp_inv_def forward_def)

lemma bsp_inv_adaptive: "bsp_inv q b \<Longrightarrow> ad_inv ad \<Longrightarrow> bp_adaptiveSampler b \<noteq> None \<Longrightarrow>
    bsp_inv q (b\<lparr>bp_adaptiveSampler := Some ad\<rparr>)"
  by (simp add: bsp_inv_def)

lemma bsp_inv_otel: "bsp_inv q b \<Longrightarrow> os_inv os \<Longrightarrow> bsp_inv q (b\<lparr>bp_otelTraceSampler := Some os\<rparr>)"
  by (simp add: bsp_inv_def)

lemma spans_rest:
  "bsp_rest (fold (\<lambda>sp. buildSpanTrace api p90 now pid cid svc sp rt sv cl) spans b) = bsp_rest b"
  by (rule fold_eq) (rule buildSpanTrace_rest)

lemma adaptive_frame:
  "bp_adaptiveSampler (add_count f b) = bp_adaptiveSampler b"
  "bp_adaptiveSampler (forward td b) = bp_adaptiveSampler b"
  "bp_adaptiveSampler (fold (\<lambda>sp. buildSpanTrace api p90 now pid cid svc sp rt sv cl) spans b) = bp_adaptiveSampler b"
  using spans_rest [of api p90 now pid cid svc rt sv cl spans b]
  by (simp_all add: add_count_def forward_def bsp_rest_def)

lemma spans_inv:
  "bsp_inv q b \<Longrightarrow> bsp_inv q (fold (\<lambda>sp. buildSpanTrace api p90 now pid cid svc sp rt sv cl) spans b)"
  by (rule fold_inv) (auto intro: buildSpanTrace_inv)

lemma consume_group_ok:
  assumes inv: "bsp_inv q b" and ad: "bp_adaptiveSampler b = Some ad"
  shows "\<exists>b'. consume_group api p90 now res g b = Some b' \<and> bsp_inv q b' \<and> bp_adaptiveSampler b' \<noteq> None"
proof -
  obtain tid spans where g: "g = (tid, spans)" by (cases g)
  obtain pid svc cid where app: "getAppInfo res = (pid, svc, cid)" by (cases "getAppInfo res")
  have "ad_inv ad" using inv ad by (simp add: bsp_inv_def)
  then obtain ad' r where s: "adaptive_Sample api tid (getSkywalkingTraceId res) svc spans ad = Some (ad', r)"
      "ad_inv ad'"
    using adaptive_Sample_inv by blast
  let ?b0 = "add_count (\<lambda>c. c\<lparr>ct_received := ct_received c + int (length spans)\<rparr>) b"
  let ?b1 = "?b0\<lparr>bp_adaptiveSampler := Some ad'\<rparr>"
  let ?b2 = "fold (\<lambda>sp. buildSpanTrace api p90 now pid cid svc sp (GetReportType r) (GetSampleValue ad')
               (getClusterID res)) spans ?b1"
  have b1: "bsp_inv q ?b1" using inv ad s(2) by (intro bsp_inv_adaptive) (simp_all add: adaptive_frame)
  then have b2: "bsp_inv q ?b2" by (rule spans_inv)
  have a2: "bp_adaptiveSampler ?b2 = Some ad'" by (simp add: adaptive_frame)
  with b2 obtain os where os: "bp_otelTraceSampler ?b2 = Some os" "os_inv os"
    by (auto simp: bsp_inv_def)
  have "bsp_inv q (?b2\<lparr>bp_otelTraceSampler := Some (os_Cache api tid (NewOtelTrace res spans) os)\<rparr>)"
    using b2 os(2) by (intro bsp_inv_otel os_Cache_inv)
  then show ?thesis
    using g app ad s(1) b1 b2 a2 os(1)
    by (simp add: consume_group_def Let_def adaptive_frame)
qed

lemma consume_groups_ok:
  "bsp_inv q b \<Longrightarrow> bp_adaptiveSampler b \<noteq> None \<Longrightarrow>
   \<exists>b'. consume_groups api p90 now res gs b = Some b' \<and> bsp_inv q b' \<and> bp_adaptiveSampler b' \<noteq> None"
proof (induction gs arbitrary: b)
  case Nil
  then show ?case by simp
next
  case (Cons g gs)
  then obtain ad where "bp_adaptiveSampler b = Some ad" by auto
  from consume_group_ok [OF Cons.prems(1) this, of api p90 now res g] Cons.IH show ?case by fastforce
qed

lemma consume_adaptive_ok:
  "bsp_inv q b \<Longrightarrow> bp_adaptiveSampler b \<noteq> None \<Longrightarrow>
   \<exists>b'. consume_adaptive api p90 now td b = Some b' \<and> bsp_inv q b' \<and> bp_adaptiveSampler b' \<noteq> None"
proof (induction td arbitrary: b)
  case Nil
  then show ?case by simp
next
  case (Cons rss td)
  from consume_groups_ok [OF Cons.prems, of api p90 now "rs_Resource rss" "groupSpansByTraceId rss"] Cons
  show ?case by (fastforce split: prod.split)
qed

lemma consume_resource_inv: "bsp_inv q b \<Longrightarrow> bsp_inv q (consume_resource api p90 now rs b)"
  by (auto simp: consume_resource_def intro!: fold_inv [of "bsp_inv q"] spans_inv split: prod.split)

lemma ConsumeTraces_ok:
  assumes "bsp_inv q b"
  shows "\<exists>b' e. ConsumeTraces api p90 next_err now td b = Some (b', e) \<and> bsp_inv q b'"
proof (cases "bp_adaptiveSampler b = None")
  case True
  have "bsp_inv q (fold (consume_resource api p90 now) td b)"
    using assms by (rule fold_inv) (rule consume_resource_inv)
  with True show ?thesis by (simp add: ConsumeTraces_def)
next
  case False
  with consume_adaptive_ok [OF assms False, of api p90 now td] show ?thesis
    by (auto simp: ConsumeTraces_def)
qed

lemma slowThresholdOnTick_inv: "bsp_inv q b \<Longrightarrow> bsp_inv q (slowThresholdOnTick now resp b)"
  by (simp add: bsp_inv_def slowThresholdOnTick_def UpdateSlowThreshold_wf UpdateSlowThreshold_sends
      split: option.split)

lemma query_sends: "sc_sends None (bp_sampleCache b) \<Longrightarrow> sc_sends (Some (samplingOnTick_query b)) (bp_sampleCache b)"
  by (simp add: sc_sends_def samplingOnTick_query_def GetSampledTraceIds_def tb_GetSampledTraceIds_def unsend_read)

lemma samplingOnTick_query_inv: "bsp_inv None b \<Longrightarrow> bsp_inv (Some (samplingOnTick_query b)) b"
  by (simp add: bsp_inv_def query_sends)

lemma UpdateUnSentCount_total:
  assumes "sc_sends (Some q) c"
  shows "\<exists>c'. UpdateUnSentCount (int (length (pq_SlowTraceIds q))) (int (length (pq_ErrorTraceIds q)))
          (int (length (pq_NormalTraceIds q))) c = Some c' \<and> sc_sends None c'"
proof -
  from assms obtain s e n where
    "updateUnSentCount (int (length (pq_SlowTraceIds q))) (tb_slowSampler (sc_tailbaseSamplers c)) = Some s"
    "unsend_ok (ts_unSendIds s) None"
    "updateUnSentCount (int (length (pq_ErrorTraceIds q))) (tb_errorSampler (sc_tailbaseSamplers c)) = Some e"
    "unsend_ok (ts_unSendIds e) None"
    "updateUnSentCount (int (length (pq_NormalTraceIds q))) (tb_normalSampler (sc_tailbaseSamplers c)) = Some n"
    "unsend_ok (ts_unSendIds n) None"
    unfolding sc_sends_def option.map using update_unsent_total by metis
  then show ?thesis by (simp add: UpdateUnSentCount_def sc_sends_def Let_def)
qed

lemma UpdateSampledTraceIds_total:
  assumes "sc_sends (Some q) c"
  shows "\<exists>c'. UpdateSampledTraceIds r (int (length (pq_SlowTraceIds q))) (int (length (pq_ErrorTraceIds q)))
          (int (length (pq_NormalTraceIds q))) c = Some c' \<and> sc_sends None c'"
proof -
  from assms obtain s e n where
    "updateSampledTraceIds (pr_SlowTraceIds r) (int (length (pq_SlowTraceIds q)))
       (tb_slowSampler (sc_tailbaseSamplers c)) = Some s" "unsend_ok (ts_unSendIds s) None"
    "updateSampledTraceIds (pr_ErrorTraceIds r) (int (length (pq_ErrorTraceIds q)))
       (tb_errorSampler (sc_tailbaseSamplers c)) = Some e" "unsend_ok (ts_unSendIds e) None"
    "updateSampledTraceIds (pr_NormalTraceIds r) (int (length (pq_NormalTraceIds q)))
       (tb_normalSampler (sc_tailbaseSamplers c)) = Some n" "unsend_ok (ts_unSendIds n) None"
    unfolding sc_sends_def option.map using update_sampled_total by metis
  then show ?thesis by (simp add: UpdateSampledTraceIds_def sc_sends_def Let_def)
qed

lemma samplingOnTick_answer_ok:
  assumes inv: "bsp_inv (Some q) b"
  shows "\<exists>b'. samplingOnTick_answer q resp b = Some b' \<and> bsp_inv None b'"
proof -
  have s: "sc_sends (Some q) (bp_sampleCache b)" using inv by (simp add: bsp_inv_def)
  show ?thesis
  proof (cases resp)
    case None
    with inv UpdateUnSentCount_total [OF s] show ?thesis
      by (auto simp: samplingOnTick_answer_def bsp_inv_def Let_def UpdateUnSentCount_wf)
  next
    case (Some r)
    with inv UpdateSampledTraceIds_total [OF s, of r] show ?thesis
      by (cases "bp_otelTraceSampler b")
        (auto simp: samplingOnTick_answer_def bsp_inv_def Let_def UpdateSampledTraceIds_wf fold_SetSampledTraceId_inv)
  qed
qed

lemma store_tailbase_inv: "bsp_inv q b \<Longrightarrow> bsp_inv q (store_tailbase slow now t b)"
  by (simp add: bsp_inv_split store_tailbase_def span_state_def Let_def UpdateNoramlTime_wf UpdateNoramlTime_sends)

lemma fold_tailbase_inv: "bsp_inv q b \<Longrightarrow> bsp_inv q (fold (store_tailbase slow now) ts b)"
  by (erule fold_inv) (rule store_tailbase_inv)

lemma CheckWindow_bsp_inv: "bsp_inv q b \<Longrightarrow> bsp_inv q (b\<lparr>bp_sampleCache := CheckWindow now (bp_sampleCache b)\<rparr>)"
  by (simp add: bsp_inv_def CheckWindow_wf CheckWindow_sends)

text \<open>The clean-up tick picks the sampled identifiers in one pass over the three lists.\<close>

lemma pick_append:
  "rc_PickMatchDatas (xs @ ys) c =
     (fst (rc_PickMatchDatas ys (fst (rc_PickMatchDatas xs c))),
      snd (rc_PickMatchDatas xs c) @ snd (rc_PickMatchDatas ys (fst (rc_PickMatchDatas xs c))))"
  by (induction xs arbitrary: c) (auto simp: Let_def split_def split: option.split)

definition tick_ids :: "back_sampling_processor \<Rightarrow> string list" where
  "tick_ids b = (let i = snd (GetAndCleanTailbaseTraces (bp_sampleCache b))
                 in si_ErrorIds i @ si_SlowIds i @ si_NormalIds i)"

lemma GetAndClean_cache:
  "si_TraceCache (snd (GetAndCleanTailbaseTraces c)) = tb_traceCache (sc_tailbaseSamplers c)"
  "tb_traceCache (sc_tailbaseSamplers (fst (GetAndCleanTailbaseTraces c))) = []"
  by (simp_all add: GetAndCleanTailbaseTraces_def wc_GetAndReset_def NewWriteableCache_def Let_def split_def)

lemma cleanCache_tick:
  assumes inv: "bsp_inv q b"
  obtains rc errs slows nors where
    "rc_tick (bp_logEnable b) (tb_traceCache (sc_tailbaseSamplers (bp_sampleCache b)), tick_ids b)
       (bp_tailbaseCache b) = Some (rc, errs @ slows @ nors)"
    "rc_inv BeforeCopy rc"
    "cleanCacheOnTick now b =
       (let b1 = b\<lparr>bp_sampleCache := fst (GetAndCleanTailbaseTraces (bp_sampleCache b)), bp_tailbaseCache := rc\<rparr>;
            b4 = fold (store_tailbase False now) nors
                   (fold (store_tailbase True now) slows (fold (store_tailbase False now) errs b1))
        in Some (b4\<lparr>bp_sampleCache := CheckWindow now (bp_sampleCache b4)\<rparr>))"
proof -
  let ?i = "snd (GetAndCleanTailbaseTraces (bp_sampleCache b))"
  let ?w = "tb_traceCache (sc_tailbaseSamplers (bp_sampleCache b))"
  have pre: "rc_inv BeforeCopy (bp_tailbaseCache b)" "gomap_wf ?w"
    using inv by (simp_all add: bsp_inv_def sc_wf_def tb_wf_def)
  obtain rc picked where t: "rc_tick (bp_logEnable b) (?w, tick_ids b) (bp_tailbaseCache b) = Some (rc, picked)"
      "rc_inv BeforeCopy rc"
    using rc_tick_ok [of "bp_tailbaseCache b" "(?w, tick_ids b)" "bp_logEnable b"] pre by auto
  obtain rc1 where c1: "rc_Copy ?w (bp_tailbaseCache b) = Some rc1"
    using rc_Copy_inv [OF pre] by blast
  let ?e = "rc_PickMatchDatas (si_ErrorIds ?i) rc1"
  let ?s = "rc_PickMatchDatas (si_SlowIds ?i) (fst ?e)"
  let ?n = "rc_PickMatchDatas (si_NormalIds ?i) (fst ?s)"
  have picked: "rc_PickMatchDatas (tick_ids b) rc1 = (fst ?n, snd ?e @ snd ?s @ snd ?n)"
    by (simp add: tick_ids_def Let_def pick_append)
  then have cl: "rc_CleanExpireDatas (bp_logEnable b) (fst ?n) = Some rc" "picked = snd ?e @ snd ?s @ snd ?n"
    using t(1) c1 by (auto simp: rc_tick_def Let_def split: bind_splits)
  show thesis
  proof (rule that)
    show "rc_tick (bp_logEnable b) (?w, tick_ids b) (bp_tailbaseCache b) = Some (rc, snd ?e @ snd ?s @ snd ?n)"
      using t(1) cl(2) by simp
  qed (use t(2) c1 cl(1) in \<open>simp_all add: cleanCacheOnTick_def Let_def split_def GetAndClean_cache\<close>)
qed

lemma cleanCacheOnTick_ok:
  assumes inv: "bsp_inv q b"
  shows "\<exists>b'. cleanCacheOnTick now b = Some b' \<and> bsp_inv q b'"
  using inv
proof (rule cleanCache_tick [where now = now])
  fix rc errs slows nors
  assume rc: "rc_inv BeforeCopy rc" and eq: "cleanCacheOnTick now b =
       (let b1 = b\<lparr>bp_sampleCache := fst (GetAndCleanTailbaseTraces (bp_sampleCache b)), bp_tailbaseCache := rc\<rparr>;
            b4 = fold (store_tailbase False now) nors
                   (fold (store_tailbase True now) slows (fold (store_tailbase False now) errs b1))
        in Some (b4\<lparr>bp_sampleCache := CheckWindow now (bp_sampleCache b4)\<rparr>))"
  have "bsp_inv q (b\<lparr>bp_sampleCache := fst (GetAndCleanTailbaseTraces (bp_sampleCache b)), bp_tailbaseCache := rc\<rparr>)"
    using inv rc by (simp add: bsp_inv_def GetAndClean_wf GetAndClean_sends)
  with eq show ?thesis by (simp add: Let_def CheckWindow_bsp_inv fold_tailbase_inv)
qed

lemma send_sampled_inv: "bsp_inv q b \<Longrightarrow> bsp_inv q (send_sampled t b)"
  by (simp add: send_sampled_def)

lemma cleanOtel_end_inv:
  "bsp_inv q b \<Longrightarrow>
   bsp_inv q (b\<lparr>bp_singleSampler := s, bp_adaptiveSampler := map_option adaptive_Reset (bp_adaptiveSampler b)\<rparr>)"
  by (cases "bp_adaptiveSampler b") (simp_all add: bsp_inv_def adaptive_Reset_inv)

lemma cleanOtelTraceOnTick_ok:
  assumes inv: "bsp_inv q b"
  shows "\<exists>b'. cleanOtelTraceOnTick now b = Some b' \<and> bsp_inv q b'"
proof (cases "bp_otelTraceSampler b")
  case None
  with inv show ?thesis by (simp add: cleanOtelTraceOnTick_def Let_def cleanOtel_end_inv)
next
  case (Some os)
  then obtain os' ts where "PickSampledTraces (bp_logEnable b) os = Some (os', ts)" "os_inv os'"
    using inv PickSampledTraces_inv [of os "bp_logEnable b"] by (auto simp: bsp_inv_def)
  moreover have "bsp_inv q (fold send_sampled ts (b\<lparr>bp_otelTraceSampler := Some os'\<rparr>))"
    using bsp_inv_otel [OF inv \<open>os_inv os'\<close>] by (rule fold_inv) (rule send_sampled_inv)
  ultimately show ?thesis
    using Some by (simp add: cleanOtelTraceOnTick_def Let_def cleanOtel_end_inv)
qed

lemma querySampleValueOnTick_ok:
  assumes "bsp_inv q b"
  shows "\<exists>b' m. querySampleValueOnTick now alloc res b = Some (b', m) \<and> bsp_inv q b'"
  using assms
  by (auto simp: querySampleValueOnTick_def bsp_inv_def ad_inv_def Let_def SetSampleValue_def GetSampleValue_def
      split: option.splits)

lemma SendTraces_total: "\<exists>api' g. SendTraces marshal api = Some (api', g)"
  by (simp add: SendTraces_def SendTraces_read_def SendTraces_cut_def Let_def)

lemma ConsumeProfileSignals_total: "\<exists>p out. ConsumeProfileSignals p0 = Some (p, out)"
  by (cases p0) (simp_all add: ebpf_Consume_cut_def)

lemma BatchSendSignals_total: "\<exists>n out. BatchSendSignals post n0 = Some (n, out)"
  by (cases n0) (simp_all add: uds_Batch_cut_def Let_def slice_from_def [of _ 0])

lemma sendTraceOnTick_ok: "bsp_inv q b \<Longrightarrow> \<exists>b' g. sendTraceOnTick marshal b = Some (b', g) \<and> bsp_inv q b'"
  using SendTraces_total [of marshal "bp_sampleApi b"] by (auto simp: sendTraceOnTick_def bsp_inv_def)

lemma notifyProfileOnTicker_ok: "bsp_inv q b \<Longrightarrow> \<exists>b' o'. notifyProfileOnTicker b = Some (b', o') \<and> bsp_inv q b'"
  using ConsumeProfileSignals_total [of "bp_profileApi b"] by (auto simp: notifyProfileOnTicker_def bsp_inv_def)

lemma notifyOnTick_ok: "bsp_inv q b \<Longrightarrow> \<exists>b'. notifyOnTick post b = Some b' \<and> bsp_inv q b'"
  using BatchSendSignals_total [of post "bp_notifyApi b"] by (auto simp: notifyOnTick_def bsp_inv_def)

subsection \<open>Schedules of the whole processor\<close>

text \<open>
  Everything that can happen to a running processor, one handler at a time; only the query to the
  controller is split, and its register holds the query under way.
\<close>

datatype bs_event =
  EvConsume traces
| EvSlowThreshold "slow_threshold_data list option"
| EvQuery
| EvAnswer "profile_result option"
| EvSendTrace
| EvCleanCache
| EvCleanOtel
| EvSampleValue u64 "int option"
| EvProfile
| EvNotify

record bs_world =
  wd_api :: pdata_api
  wd_p90 :: string
  wd_next :: "traces \<Rightarrow> string option"
  wd_marshal :: "trace_group \<Rightarrow> string"
  wd_post :: "uds_client \<Rightarrow> signal \<Rightarrow> bool"

fun bs_step ::
  "bs_world \<Rightarrow> int \<times> bs_event \<Rightarrow> back_sampling_processor \<times> profile_query option \<Rightarrow>
     (back_sampling_processor \<times> profile_query option) option" where
  "bs_step w (now, EvConsume td) (b, q) =
     map_option (\<lambda>(b', e). (b', q)) (ConsumeTraces (wd_api w) (wd_p90 w) (wd_next w) now td b)"
| "bs_step w (now, EvSlowThreshold resp) (b, q) = Some (slowThresholdOnTick now resp b, q)"
| "bs_step w (now, EvQuery) (b, q) =
     Some (b, Some (case q of None \<Rightarrow> samplingOnTick_query b | Some q' \<Rightarrow> q'))"
| "bs_step w (now, EvAnswer resp) (b, q) =
     (case q of None \<Rightarrow> Some (b, None)
      | Some q' \<Rightarrow> map_option (\<lambda>b'. (b', None)) (samplingOnTick_answer q' resp b))"
| "bs_step w (now, EvSendTrace) (b, q) = map_option (\<lambda>(b', g). (b', q)) (sendTraceOnTick (wd_marshal w) b)"
| "bs_step w (now, EvCleanCache) (b, q) = map_option (\<lambda>b'. (b', q)) (cleanCacheOnTick now b)"
| "bs_step w (now, EvCleanOtel) (b, q) = map_option (\<lambda>b'. (b', q)) (cleanOtelTraceOnTick now b)"
| "bs_step w (now, EvSampleValue alloc res) (b, q) =
     map_option (\<lambda>(b', m). (b', q)) (querySampleValueOnTick now alloc res b)"
| "bs_step w (now, EvProfile) (b, q) = map_option (\<lambda>(b', s). (b', q)) (notifyProfileOnTicker b)"
| "bs_step w (now, EvNotify) (b, q) = map_option (\<lambda>b'. (b', q)) (notifyOnTick (wd_post w) b)"

fun bs_run ::
  "bs_world \<Rightarrow> (int \<times> bs_event) list \<Rightarrow> back_sampling_processor \<times> profile_query option \<Rightarrow>
     (back_sampling_processor \<times> profile_query option) option" where
  "bs_run w [] c = Some c"
| "bs_run w (e # es) c = (case bs_step w e c of None \<Rightarrow> None | Some c' \<Rightarrow> bs_run w es c')"

lemma bs_step_ok:
  assumes inv: "bsp_inv q b"
  shows "\<exists>b' q'. bs_step w (now, e) (b, q) = Some (b', q') \<and> bsp_inv q' b'"
proof (cases e)
  case (EvConsume td)
  with ConsumeTraces_ok [OF inv, of "wd_api w" "wd_p90 w" "wd_next w" now td] show ?thesis by auto
next
  case (EvSlowThreshold resp)
  with slowThresholdOnTick_inv [OF inv] show ?thesis by simp
next
  case EvQuery
  with inv samplingOnTick_query_inv [of b] show ?thesis by (cases q) auto
next
  case (EvAnswer resp)
  show ?thesis
  proof (cases q)
    case None
    with EvAnswer inv show ?thesis by simp
  next
    case (Some q0)
    with EvAnswer samplingOnTick_answer_ok [OF inv [unfolded Some], of resp] show ?thesis by auto
  qed
next
  case EvSendTrace
  with sendTraceOnTick_ok [OF inv, of "wd_marshal w"] show ?thesis by auto
next
  case EvCleanCache
  with cleanCacheOnTick_ok [OF inv, of now] show ?thesis by auto
next
  case EvCleanOtel
  with cleanOtelTraceOnTick_ok [OF inv, of now] show ?thesis by auto
next
  case (EvSampleValue alloc res)
  with querySampleValueOnTick_ok [OF inv, of now alloc res] show ?thesis by auto
next
  case EvProfile
  with notifyProfileOnTicker_ok [OF inv] show ?thesis by auto
next
  case EvNotify
  with notifyOnTick_ok [OF inv, of "wd_post w"] show ?thesis by auto
qed

lemma bs_run_ok: "bsp_inv q b \<Longrightarrow> \<exists>b' q'. bs_run w es (b, q) = Some (b', q') \<and> bsp_inv q' b'"
proof (induction es arbitrary: b q)
  case Nil
  then show ?case by simp
next
  case (Cons e es)
  from bs_step_ok [OF Cons.prems, of w "fst e" "snd e"] Cons.IH show ?case by fastforce
qed

lemma new_sends:
  "sm_SampleRetryNum sm \<le> 3 \<Longrightarrow>
   sc_sends None (NewSampleCache now a b i d nt nw (sm_SampleRetryNum sm) sw c p m)"
  by (simp add: sc_sends_def NewSampleCache_def newTailbaseSamplers_def newTailbaseSampler_def unsend_new)

lemma new_os_inv: "0 \<le> d \<Longrightarrow> \<exists>os. NewOtelTraceSampler e d = Some os \<and> os_inv os"
  using NewReadableCache_inv [of d "''OtelTrace''"]
  by (auto simp: NewOtelTraceSampler_def os_inv_def NewWriteableCache_def)

definition no_errors :: start_errors where
  "no_errors = \<lparr>se_telemetry = None, se_sampleApi = None, se_notify =
     \<lparr>uo_Stat = None, uo_Remove = None, uo_dirMissing = True, uo_MkdirAll = None, uo_Resolve = None, uo_Listen = None\<rparr>\<rparr>"

lemma no_errors_notify: "NewUdsRegistryServer (se_notify no_errors) = Inr \<lparr>us_signals = [], us_udsClients = []\<rparr>"
  by (simp add: no_errors_def NewUdsRegistryServer_def prepare_socket_def)

lemma no_errors_create: "se_telemetry no_errors = None" "se_sampleApi no_errors = None"
  by (simp_all add: no_errors_def)

lemmas started = newTracesProcessor_def no_errors_notify no_errors_create

lemma newTracesProcessor_inv:
  assumes "sm_SampleRetryNum (cf_Sampler cfg) \<le> 3" "0 \<le> sm_SampleWaitTime (cf_Sampler cfg)"
  shows "\<exists>b. newTracesProcessor env no_errors now cfg = Some (Inr b) \<and> bsp_inv None b \<and>
           bp_cfg b = cfg \<and> bp_tickers b = bs_tickers cfg"
proof -
  obtain rc :: "trace_labels readable_cache"
    where rc: "NewReadableCache ''SpanTrace'' (sm_SampleWaitTime (cf_Sampler cfg)) = Some rc" "rc_inv BeforeCopy rc"
    using NewReadableCache_inv [OF assms(2)] by blast
  obtain os where os: "NewOtelTraceSampler (ac_TraceIdHoldTime (cf_Adaptive cfg)) (sm_SampleWaitTime (cf_Sampler cfg)) = Some os"
      "os_inv os"
    using new_os_inv [OF assms(2)] by blast
  have "ad_inv (NewAdaptiveSampler a b c d)" for a b c d
    by (simp add: ad_inv_def NewAdaptiveSampler_def)
  with rc os new_sends [OF assms(1)] show ?thesis
    by (simp add: started bsp_inv_def Let_def NewSampleCache_wf)
qed

subsection \<open>What the clean-up tick stores\<close>

text \<open>The labels that wait for their trace, in the read cache and in the write cache.\<close>

definition bs_waiting :: "back_sampling_processor \<Rightarrow> string \<Rightarrow> trace_labels list" where
  "bs_waiting b k =
     (case rc_abs (bp_tailbaseCache b) k of None \<Rightarrow> [] | Some (d, n) \<Rightarrow> d) @
     (case map_load (tb_traceCache (sc_tailbaseSamplers (bp_sampleCache b))) k of None \<Rightarrow> [] | Some v \<Rightarrow> v)"

definition rc_data :: "'a readable_cache \<Rightarrow> string \<Rightarrow> 'a list" where
  "rc_data c k = (case map_load (rc_cache c) k of None \<Rightarrow> [] | Some d \<Rightarrow> cd_datas d)"

lemma pick_mset: "mset (snd (rc_PickMatchDatas keys c)) = (\<Sum>k \<in> set keys. mset (rc_data c k))"
proof (induction keys arbitrary: c)
  case Nil
  then show ?case by simp
next
  case (Cons k keys)
  show ?case
  proof (cases "map_load (rc_cache c) k")
    case None
    then have "mset (rc_data c k) = {#}" by (simp add: rc_data_def)
    with Cons None show ?thesis by (cases "k \<in> set keys") (simp_all add: insert_absorb)
  next
    case (Some d)
    let ?c = "c\<lparr>rc_cache := map_delete k (rc_cache c)\<rparr>"
    have "(\<Sum>j \<in> set keys. mset (rc_data ?c j)) = (\<Sum>j \<in> set keys - {k}. mset (rc_data c j))"
      by (rule sum.mono_neutral_cong_right) (auto simp: rc_data_def split: if_splits)
    with Cons.IH [of ?c] Some show ?thesis
      by (simp add: Let_def split_def sum.insert_remove rc_data_def [of c k])
  qed
qed

lemma copy_data:
  assumes "rc_inv BeforeCopy c" "gomap_wf datas" "rc_Copy datas c = Some c'"
  shows "rc_data c' k = rc_data c k @ (case map_load datas k of None \<Rightarrow> [] | Some v \<Rightarrow> v)"
  using assms
  by (auto simp: rc_Copy_def rc_data_def Let_def split_def copy_fold_load cd_merge_def newCacheData_def
      split: if_splits option.splits)

lemma waiting_data: "bs_waiting b k = rc_data (bp_tailbaseCache b) k @
     (case map_load (tb_traceCache (sc_tailbaseSamplers (bp_sampleCache b))) k of None \<Rightarrow> [] | Some v \<Rightarrow> v)"
  by (simp add: bs_waiting_def rc_data_def rc_abs_def split: option.split)

lemma tick_picks:
  assumes "bsp_inv q b"
    "rc_tick lg (tb_traceCache (sc_tailbaseSamplers (bp_sampleCache b)), ids) (bp_tailbaseCache b) = Some (rc, picked)"
  shows "mset picked = (\<Sum>k \<in> set ids. mset (bs_waiting b k))" "k \<in> set ids \<Longrightarrow> rc_abs rc k = None"
proof -
  let ?w = "tb_traceCache (sc_tailbaseSamplers (bp_sampleCache b))"
  have pre: "rc_inv BeforeCopy (bp_tailbaseCache b)" "gomap_wf ?w"
    using assms(1) by (simp_all add: bsp_inv_def sc_wf_def tb_wf_def)
  from assms(2) obtain rc1 where c: "rc_Copy ?w (bp_tailbaseCache b) = Some rc1"
      "picked = snd (rc_PickMatchDatas ids rc1)"
    by (auto simp: rc_tick_def split_def Let_def split: bind_splits)
  have "mset (rc_data rc1 k) = mset (bs_waiting b k)" for k
    by (simp add: copy_data [OF pre c(1)] waiting_data)
  then show "mset picked = (\<Sum>k \<in> set ids. mset (bs_waiting b k))"
    by (simp add: c(2) pick_mset)
  show "rc_abs rc k = None" if "k \<in> set ids"
    using rc_tick_ok [of "bp_tailbaseCache b" "(?w, ids)" lg] pre assms(2) that
    by (auto simp: dl_tick_def dl_clean_def dl_pick_def)
qed

lemma store_tailbase_frame:
  "api_cachedTraces (bp_sampleApi (store_tailbase slow now t b)) =
     api_cachedTraces (bp_sampleApi b) @ [mk_TraceGroup t]"
  "bp_tailbaseCache (store_tailbase slow now t b) = bp_tailbaseCache b"
  "sc_tailbaseSamplers (bp_sampleCache (store_tailbase slow now t b)) = sc_tailbaseSamplers (bp_sampleCache b)"
  by (simp_all add: store_tailbase_def storeTrace_def storeSlowProfile_def UpdateNoramlTime_def StoreTrace_def Let_def)

lemma fold_tailbase_frame:
  "api_cachedTraces (bp_sampleApi (fold (store_tailbase slow now) ts b)) =
     api_cachedTraces (bp_sampleApi b) @ map mk_TraceGroup ts"
  "bp_tailbaseCache (fold (store_tailbase slow now) ts b) = bp_tailbaseCache b"
  "sc_tailbaseSamplers (bp_sampleCache (fold (store_tailbase slow now) ts b)) =
     sc_tailbaseSamplers (bp_sampleCache b)"
  by (induction ts arbitrary: b) (simp_all add: store_tailbase_frame)

lemma cleanCache_stores:
  assumes inv: "bsp_inv q b"
  shows "\<exists>b' new. cleanCacheOnTick now b = Some b' \<and>
           api_cachedTraces (bp_sampleApi b') = api_cachedTraces (bp_sampleApi b) @ map mk_TraceGroup new \<and>
           mset new = (\<Sum>k \<in> set (tick_ids b). mset (bs_waiting b k)) \<and>
           (\<forall>k \<in> set (tick_ids b). bs_waiting b' k = [])"
  using inv
proof (rule cleanCache_tick [where now = now])
  fix rc errs slows nors
  assume t: "rc_tick (bp_logEnable b) (tb_traceCache (sc_tailbaseSamplers (bp_sampleCache b)), tick_ids b)
       (bp_tailbaseCache b) = Some (rc, errs @ slows @ nors)"
    and eq: "cleanCacheOnTick now b =
       (let b1 = b\<lparr>bp_sampleCache := fst (GetAndCleanTailbaseTraces (bp_sampleCache b)), bp_tailbaseCache := rc\<rparr>;
            b4 = fold (store_tailbase False now) nors
                   (fold (store_tailbase True now) slows (fold (store_tailbase False now) errs b1))
        in Some (b4\<lparr>bp_sampleCache := CheckWindow now (bp_sampleCache b4)\<rparr>))"
  from eq tick_picks [OF inv t] show ?thesis
    by (intro exI [of _ "the (cleanCacheOnTick now b)"] exI [of _ "errs @ slows @ nors"])
      (simp add: Let_def fold_tailbase_frame bs_waiting_def CheckWindow_def GetAndClean_cache)
qed

text \<open>Which identifiers a tick returns.\<close>

lemma cleanSampledIds_result:
  "gomap_wf (ts_sampledTraceIds s) \<Longrightarrow>
   k \<in> set (snd (cleanSampledIds s)) \<longleftrightarrow>
     (\<exists>n. map_load (ts_sampledTraceIds s) k = Some n \<and> n < ts_traceHoldTime s \<and> n < 2)"
  by (auto simp: cleanSampledIds_def split_def Let_def clean_ids_result)

lemma tick_ids_set:
  "set (tick_ids b) = (let tb = sc_tailbaseSamplers (bp_sampleCache b) in
     set (snd (cleanSampledIds (tb_errorSampler tb))) \<union> set (snd (cleanSampledIds (tb_slowSampler tb))) \<union>
     set (snd (cleanSampledIds (tb_normalSampler tb))))"
  by (auto simp: tick_ids_def GetAndCleanTailbaseTraces_def Let_def split_def)

subsection \<open>What a span causes\<close>

lemma store_result_api:
  "bp_sampleApi (store_result r t b) =
     (if r = SampleResultNoOp \<or> r = SampleResultCache then bp_sampleApi b else StoreTrace t (bp_sampleApi b))"
  by (simp add: store_result_def storeTrace_def storeSlowProfile_def storeNormalProfile_def Let_def
      split: sample_result.split)

subsection \<open>Accounting\<close>

definition unaccounted :: "span_counts \<Rightarrow> int" where
  "unaccounted c = ct_received c - ct_drop c - ct_single c - ct_adaptive c"

lemma counts_frame:
  "bp_counts (fold (\<lambda>sp. buildSpanTrace api p90 now pid cid svc sp rt sv cl) spans b) = bp_counts b"
  "bp_out (fold (\<lambda>sp. buildSpanTrace api p90 now pid cid svc sp rt sv cl) spans b) = bp_out b"
  using spans_rest [of api p90 now pid cid svc rt sv cl spans b] by (simp_all add: bsp_rest_def)

lemma consume_group_counts:
  assumes "consume_group api p90 now res g b = Some b'"
  shows "unaccounted (bp_counts b') = unaccounted (bp_counts b) \<and>
    ct_received (bp_counts b') = ct_received (bp_counts b) + int (length (snd g))"
  using assms
  by (auto simp: consume_group_def Let_def split_def add_count_def forward_def counts_frame unaccounted_def
      split: option.splits if_splits bind_splits)

text \<open>A newly held identifier has been held for no tick yet.\<close>

definition fresh_in :: "tailbase_samplers \<Rightarrow> string \<Rightarrow> bool" where
  "fresh_in tb k \<longleftrightarrow>
     map_load (ts_sampledTraceIds (tb_slowSampler tb)) k = Some 0 \<or>
     map_load (ts_sampledTraceIds (tb_errorSampler tb)) k = Some 0 \<or>
     map_load (ts_sampledTraceIds (tb_normalSampler tb)) k = Some 0"

lemma notify_fresh:
  "tl_TraceId t \<notin> ts_held s \<Longrightarrow> map_load (ts_sampledTraceIds (fst (notifyTailbase t s))) (tl_TraceId t) = Some 0"
  by (auto simp: notifyTailbase_def ts_held_def split: option.split)

lemma tb_Sample_fresh:
  assumes "k \<notin> tb_held tb" "k \<in> tb_held (fst (tb_Sample t hs he b tb))"
  shows "fresh_in (fst (tb_Sample t hs he b tb)) k"
proof -
  from assms have "b" "k = tl_TraceId t" by (auto simp: tb_Sample_held split: if_splits)
  with assms(1) show ?thesis
    by (auto simp: tb_Sample_def fresh_in_def tb_held_def notify_fresh notify_trace Let_def split_def)
qed

definition hold_times :: "tailbase_samplers \<Rightarrow> int set" where
  "hold_times tb = {ts_traceHoldTime (tb_slowSampler tb), ts_traceHoldTime (tb_errorSampler tb),
     ts_traceHoldTime (tb_normalSampler tb)}"

lemma notify_hold: "ts_traceHoldTime (fst (notifyTailbase t s)) = ts_traceHoldTime s"
  by (simp add: notifyTailbase_def split: option.split)

lemma tb_Sample_hold: "hold_times (fst (tb_Sample t hs he b tb)) = hold_times tb"
  by (simp add: tb_Sample_def hold_times_def notify_hold Let_def split_def)

lemma fresh_tick_ids:
  assumes "bsp_inv q b" "fresh_in (sc_tailbaseSamplers (bp_sampleCache b)) k"
    "\<forall>h \<in> hold_times (sc_tailbaseSamplers (bp_sampleCache b)). 0 < h"
  shows "k \<in> set (tick_ids b)"
  using assms
  by (auto simp: tick_ids_set Let_def fresh_in_def hold_times_def bsp_inv_def sc_wf_def tb_wf_def cleanSampledIds_result)

lemma GetSampleResult_fresh:
  assumes g: "GetSampleResult p90 now t c = (c', t', r)" and k: "k \<notin> sc_held c" "k \<in> sc_held c'"
  shows "fresh_in (sc_tailbaseSamplers c') k \<and> hold_times (sc_tailbaseSamplers c') = hold_times (sc_tailbaseSamplers c)"
  using g
proof (cases rule: GetSampleResult_cases)
  case ignored
  with k show ?thesis by simp
next
  case (decided hs he b)
  let ?t = "CheckSlow p90 t (sc_defaultSlowThreshold c) c"
  have tb: "sc_tailbaseSamplers c' = fst (tb_Sample ?t hs he b (sc_tailbaseSamplers c))"
    using decided(1) by simp
  show ?thesis
    unfolding tb using tb_Sample_fresh [of k _ ?t hs he b] k tb_Sample_hold [of ?t hs he b "sc_tailbaseSamplers c"]
    by (simp add: tb)
qed

text \<open>The sampling state after a span, in the tail-based mode.\<close>

lemma buildSpanTrace_cache:
  assumes "\<not> sp_EndTimestamp sp \<le> sp_StartTimestamp sp" "IsEntrySpan sp"
    and g: "GetSampleResult p90 now (mk_TraceLabels api b pid cid svc sp 0 sv cl) (bp_sampleCache b) = (c', t', r)"
  shows "bp_sampleCache (buildSpanTrace api p90 now pid cid svc sp 0 sv cl b) =
           (if r = SampleResultCache then CacheTrace t' c' else c')"
    and "bp_sampleApi (buildSpanTrace api p90 now pid cid svc sp 0 sv cl b) =
           (if r = SampleResultNoOp \<or> r = SampleResultCache then bp_sampleApi b else StoreTrace t' (bp_sampleApi b))"
    and "bp_tailbaseCache (buildSpanTrace api p90 now pid cid svc sp 0 sv cl b) = bp_tailbaseCache b"
proof -
  have f: "buildSpanTrace api p90 now pid cid svc sp 0 sv cl b =
      mark_profiled t' (store_result r t' (b\<lparr>bp_sampleCache := c'\<rparr>))"
    using assms(1,2) by (simp add: buildSpanTrace_def sample_span_def g)
  then show "bp_sampleCache (buildSpanTrace api p90 now pid cid svc sp 0 sv cl b) =
           (if r = SampleResultCache then CacheTrace t' c' else c')"
    by (simp add: mark_profiled_frame store_result_frame)
  from f show "bp_sampleApi (buildSpanTrace api p90 now pid cid svc sp 0 sv cl b) =
           (if r = SampleResultNoOp \<or> r = SampleResultCache then bp_sampleApi b else StoreTrace t' (bp_sampleApi b))"
    by (simp add: mark_profiled_def store_result_api split: option.split)
  show "bp_tailbaseCache (buildSpanTrace api p90 now pid cid svc sp 0 sv cl b) = bp_tailbaseCache b"
    using buildSpanTrace_rest [of api p90 now pid cid svc sp 0 sv cl b] by (simp add: bsp_rest_def)
qed

lemma span_reunites:
  assumes inv: "bsp_inv q b" and sp: "\<not> sp_EndTimestamp sp \<le> sp_StartTimestamp sp" "IsEntrySpan sp"
    and hold: "\<forall>h \<in> hold_times (sc_tailbaseSamplers (bp_sampleCache b)). 0 < h"
    and b1: "b1 = buildSpanTrace api p90 now pid cid svc sp 0 sv cl b"
    and k: "k \<notin> sc_held (bp_sampleCache b)" "k \<in> sc_held (bp_sampleCache b1)"
  shows "k \<in> set (tick_ids b1) \<and> bs_waiting b1 k = bs_waiting b k \<and> bsp_inv q b1"
proof -
  let ?t = "mk_TraceLabels api b pid cid svc sp 0 sv cl"
  obtain c' t' r where g: "GetSampleResult p90 now ?t (bp_sampleCache b) = (c', t', r)"
    by (cases "GetSampleResult p90 now ?t (bp_sampleCache b)")
  have n: "\<not> tl_IsProfiled ?t" by (simp add: mk_TraceLabels_def)
  note f = buildSpanTrace_cache [OF sp g, folded b1] and h = GetSampleResult_held [OF n g]
  have held: "sc_held (bp_sampleCache b1) = sc_held c'" using f(1) by (simp add: CacheTrace_def tb_held_def)
  then have kt: "k = tl_TraceId ?t" using k h by (auto split: if_splits)
  with k(2) h held have r: "r \<noteq> SampleResultCache" by auto
  have inv1: "bsp_inv q b1" unfolding b1 using inv by (rule buildSpanTrace_inv)
  have "fresh_in (sc_tailbaseSamplers (bp_sampleCache b1)) k \<and>
      (\<forall>h \<in> hold_times (sc_tailbaseSamplers (bp_sampleCache b1)). 0 < h)"
    using GetSampleResult_fresh [OF g k(1)] k(2) held hold f(1) r by simp
  then have "k \<in> set (tick_ids b1)" using fresh_tick_ids [OF inv1] by blast
  moreover have "bs_waiting b1 k = bs_waiting b k"
    using f r h by (simp add: bs_waiting_def)
  ultimately show ?thesis using inv1 by simp
qed

subsection \<open>Properties\<close>

text \<open>C1: The processor never panics. Built from any configuration with at most three retries and a
  non-negative wait time, it survives every sequence of batches, ticks and answers of the controller, in
  both modes and with spans arriving while a query is under way; and the invariant holds afterwards: maps
  keep distinct keys, ring indices stay in range, the sample value stays between 0 and 19.\<close>

theorem processor_never_panics:
  assumes "sm_SampleRetryNum (cf_Sampler cfg) \<le> 3" "0 \<le> sm_SampleWaitTime (cf_Sampler cfg)"
  shows "\<exists>b b' q. newTracesProcessor env no_errors now cfg = Some (Inr b) \<and>
           bs_run w es (b, None) = Some (b', q) \<and> bsp_inv q b'"
proof -
  obtain b where b: "newTracesProcessor env no_errors now cfg = Some (Inr b)" "bsp_inv None b"
    using newTracesProcessor_inv [OF assms, of env now] by blast
  with bs_run_ok [OF b(2), of w es] show ?thesis by auto
qed

definition demo_env :: process_env where
  "demo_env = \<lparr>pe_LookupEnv = (\<lambda>x. None), pe_Hostname = Some ''node''\<rparr>"

definition demo_world :: bs_world where
  "demo_world = \<lparr>wd_api = demo_api, wd_p90 = ''p90'', wd_next = (\<lambda>td. None), wd_marshal = tg_Name, wd_post = (\<lambda>u s. True)\<rparr>"

theorem processor_never_panics_witness:
  "\<exists>b b' q. newTracesProcessor demo_env no_errors 0 createDefaultConfig = Some (Inr b) \<and>
     bs_run demo_world [(1, EvConsume []), (2, EvQuery), (3, EvCleanCache), (4, EvAnswer None)] (b, None) = Some (b', q) \<and>
     bsp_inv q b'"
  using processor_never_panics [of createDefaultConfig demo_env 0 demo_world
      "[(1, EvConsume []), (2, EvQuery), (3, EvCleanCache), (4, EvAnswer None)]"]
  by (simp add: createDefaultConfig_def)

text \<open>C2: A sampled trace is reunited. In the tail-based mode, in any state that satisfies the invariant of C1 and
  whether or not a query is under way, and provided that all three hold times (the configured wait time of a sampled
  trace) are positive: when an entry span that ends after it starts makes its trace sampled (the trace was not held before
  the span and is held after it), a clean-up tick right after it stores every span of that trace that was
  waiting in the caches, and leaves none of them behind. With a hold time of 0 the identifier would
  already be expired at that tick.\<close>

theorem sampled_trace_is_reunited:
  assumes "bsp_inv q b" and "\<not> sp_EndTimestamp sp \<le> sp_StartTimestamp sp" "IsEntrySpan sp"
    and "\<forall>h \<in> hold_times (sc_tailbaseSamplers (bp_sampleCache b)). 0 < h"
    and "k \<notin> sc_held (bp_sampleCache b)"
    and "k \<in> sc_held (bp_sampleCache (buildSpanTrace api p90 now pid cid svc sp 0 sv cl b))"
  shows "\<exists>b2. cleanCacheOnTick now' (buildSpanTrace api p90 now pid cid svc sp 0 sv cl b) = Some b2 \<and>
           mk_TraceGroup ` set (bs_waiting b k) \<subseteq> set (api_cachedTraces (bp_sampleApi b2)) \<and>
           bs_waiting b2 k = []"
proof -
  let ?b = "buildSpanTrace api p90 now pid cid svc sp 0 sv cl b"
  have k: "k \<in> set (tick_ids ?b)" "bs_waiting ?b k = bs_waiting b k" and inv: "bsp_inv q ?b"
    using span_reunites [OF assms(1-4) refl assms(5,6)] by blast+
  obtain b2 new where b2: "cleanCacheOnTick now' ?b = Some b2"
      "api_cachedTraces (bp_sampleApi b2) = api_cachedTraces (bp_sampleApi ?b) @ map mk_TraceGroup new"
      "mset new = (\<Sum>k \<in> set (tick_ids ?b). mset (bs_waiting ?b k))"
      "\<forall>k \<in> set (tick_ids ?b). bs_waiting b2 k = []"
    using cleanCache_stores [OF inv, of now'] by blast
  have "mset (bs_waiting ?b k) \<subseteq># mset new"
    using k(1) b2(3) by (simp add: sum.remove [of "set (tick_ids ?b)" k])
  then have "set (bs_waiting b k) \<subseteq> set new" using k(2) by (metis set_mset_mono set_mset_mset)
  with b2 k(1) show ?thesis by auto
qed

definition demo_error_span :: span where
  "demo_error_span = demo_entry\<lparr>sp_TraceID := demo_id, sp_EndTimestamp := 5, sp_StatusCode := StatusCodeError\<rparr>"

lemma demo_error_sampled:
  assumes "newTracesProcessor demo_env no_errors 0 createDefaultConfig = Some (Inr b)"
  shows "sc_held (bp_sampleCache b) = {}"
    and "hold_times (sc_tailbaseSamplers (bp_sampleCache b)) = {60}"
    and "TraceID_String demo_api demo_id \<in> sc_held (bp_sampleCache (buildSpanTrace demo_api ''p90'' 7 1 [] ''s''
           demo_error_span 0 0 [] (b\<lparr>bp_sampleCache := CacheTrace l (bp_sampleCache b)\<rparr>)))"
proof -
  have c: "bp_sampleCache b = NewSampleCache 0 True True 0 100000000 False 60 3 60 1 5 ''window''"
    using assms by (auto simp: started createDefaultConfig_def Let_def split: bind_splits)
  then show "sc_held (bp_sampleCache b) = {}" "hold_times (sc_tailbaseSamplers (bp_sampleCache b)) = {60}"
    by (simp_all add: NewSampleCache_def newTailbaseSamplers_def newTailbaseSampler_def tb_held_def ts_held_def hold_times_def)
  let ?b = "b\<lparr>bp_sampleCache := CacheTrace l (bp_sampleCache b)\<rparr>"
  let ?c = "bp_sampleCache ?b"
  let ?t = "mk_TraceLabels demo_api ?b 1 [] ''s'' demo_error_span 0 0 []"
  have e: "tl_IsError ?t" "tl_IsSampled ?t" "tl_TraceId ?t = TraceID_String demo_api demo_id"
    by (simp_all add: mk_TraceLabels_def demo_error_span_def)
  have s: "sc_silent ?c = NewSilent 1 5 ''window''" "sc_openErrorSampling ?c"
    by (simp_all add: c CacheTrace_def NewSampleCache_def)
  obtain c' t' r where g: "GetSampleResult ''p90'' 7 ?t ?c = (c', t', r)" by (cases "GetSampleResult ''p90'' 7 ?t ?c")
  have d: "snd (snd (snd (decide_sampled 7 (CheckSlow ''p90'' ?t dt ?c) ?c)))" for dt
    using e s by (simp add: decide_sampled_def CheckSlow_frame IsSilent_def NewSilent_def Let_def)
  from g have "tl_TraceId ?t \<in> sc_held c'"
  proof (cases rule: GetSampleResult_cases)
    case ignored
    with g e(1) s(2) GetSampleResult_ignores [of "''p90''" 7 ?t ?c] show ?thesis
      by (simp add: sc_ignores_def)
  next
    case (decided hs he b1)
    have "b1" using d [of "sc_defaultSlowThreshold ?c"] decided(2) by simp
    with decided(1) tb_Sample_held [of "CheckSlow ''p90'' ?t (sc_defaultSlowThreshold ?c) ?c" hs he b1 "sc_tailbaseSamplers ?c"]
    show ?thesis by (simp add: CheckSlow_frame)
  qed
  moreover have "\<not> sp_EndTimestamp demo_error_span \<le> sp_StartTimestamp demo_error_span" "IsEntrySpan demo_error_span"
    by (simp_all add: demo_error_span_def demo_entry_def zero_span_def IsEntrySpan_def)
  ultimately show "TraceID_String demo_api demo_id \<in> sc_held (bp_sampleCache (buildSpanTrace demo_api ''p90'' 7 1 [] ''s''
           demo_error_span 0 0 [] ?b))"
    using buildSpanTrace_cache(1) [OF _ _ g] e(3) by (simp add: CacheTrace_held)
qed

lemma wc_Write_load:
  "map_load (wc_Write k x m) k = Some ((case map_load m k of None \<Rightarrow> [] | Some v \<Rightarrow> v) @ [x])"
  by (simp add: wc_Write_def split: option.split)

theorem sampled_trace_is_reunited_witness:
  "\<exists>b b2. newTracesProcessor demo_env no_errors 0 createDefaultConfig = Some (Inr b) \<and>
     cleanCacheOnTick 8 (buildSpanTrace demo_api ''p90'' 7 1 [] ''s'' demo_error_span 0 0 []
       (b\<lparr>bp_sampleCache := CacheTrace (zero_labels\<lparr>tl_TraceId := TraceID_String demo_api demo_id\<rparr>) (bp_sampleCache b)\<rparr>)) = Some b2 \<and>
     mk_TraceGroup (zero_labels\<lparr>tl_TraceId := TraceID_String demo_api demo_id\<rparr>) \<in> set (api_cachedTraces (bp_sampleApi b2))"
proof -
  obtain b where b: "newTracesProcessor demo_env no_errors 0 createDefaultConfig = Some (Inr b)" "bsp_inv None b"
    using newTracesProcessor_inv [of createDefaultConfig demo_env 0] by (auto simp: createDefaultConfig_def)
  let ?l = "zero_labels\<lparr>tl_TraceId := TraceID_String demo_api demo_id\<rparr>"
  let ?b = "b\<lparr>bp_sampleCache := CacheTrace ?l (bp_sampleCache b)\<rparr>"
  have inv: "bsp_inv None ?b" using b(2) by (simp add: bsp_inv_def CacheTrace_wf CacheTrace_sends)
  have sp: "\<not> sp_EndTimestamp demo_error_span \<le> sp_StartTimestamp demo_error_span" "IsEntrySpan demo_error_span"
    by (simp_all add: demo_error_span_def demo_entry_def zero_span_def IsEntrySpan_def)
  note d = demo_error_sampled [OF b(1)]
  have h: "\<forall>h \<in> hold_times (sc_tailbaseSamplers (bp_sampleCache ?b)). 0 < h"
    using d(2) by (simp add: CacheTrace_def hold_times_def)
  have n: "TraceID_String demo_api demo_id \<notin> sc_held (bp_sampleCache ?b)" using d(1) by (simp add: CacheTrace_held)
  have "?l \<in> set (bs_waiting ?b (TraceID_String demo_api demo_id))"
    by (simp add: bs_waiting_def CacheTrace_def wc_Write_load)
  with sampled_trace_is_reunited [OF inv sp h n d(3), of 8] b(1) show ?thesis by blast
qed

text \<open>Spans of a held trace are stored at once. An entry span that is not ignored and whose trace is
  held goes straight to the controller's queue with its own identifiers, and nothing new waits.\<close>

theorem held_span_is_stored:
  assumes "\<not> sp_EndTimestamp sp \<le> sp_StartTimestamp sp" "IsEntrySpan sp"
    and "\<not> sc_ignores (bp_sampleCache b) (mk_TraceLabels api b pid cid svc sp 0 sv cl)"
    and "TraceID_String api (sp_TraceID sp) \<in> sc_held (bp_sampleCache b)"
  shows "\<exists>t. bp_sampleApi (buildSpanTrace api p90 now pid cid svc sp 0 sv cl b) = StoreTrace t (bp_sampleApi b) \<and>
           tl_TraceId t = TraceID_String api (sp_TraceID sp) \<and> tl_Url t = sp_Name sp \<and>
           (\<forall>k. bs_waiting (buildSpanTrace api p90 now pid cid svc sp 0 sv cl b) k = bs_waiting b k)"
proof -
  let ?t = "mk_TraceLabels api b pid cid svc sp 0 sv cl"
  obtain c' t' r where g: "GetSampleResult p90 now ?t (bp_sampleCache b) = (c', t', r)"
    by (cases "GetSampleResult p90 now ?t (bp_sampleCache b)")
  have n: "\<not> tl_IsProfiled ?t" "tl_TraceId ?t = TraceID_String api (sp_TraceID sp)" "tl_Url ?t = sp_Name sp"
    by (simp_all add: mk_TraceLabels_def)
  note h = GetSampleResult_held [OF n(1) g]
  have "r \<noteq> SampleResultNoOp" using assms(3) g GetSampleResult_ignores [of p90 now ?t "bp_sampleCache b"] by simp
  moreover from this have "r \<noteq> SampleResultCache" using h n(2) assms(4) by (auto split: if_splits)
  ultimately show ?thesis
    using buildSpanTrace_cache [OF assms(1,2) g] h n by (auto simp: bs_waiting_def)
qed

theorem held_span_is_stored_witness:
  "\<exists>b b1 t. newTracesProcessor demo_env no_errors 0 createDefaultConfig = Some (Inr b) \<and>
     b1 = buildSpanTrace demo_api ''p90'' 7 1 [] ''s'' demo_error_span 0 0 []
       (b\<lparr>bp_sampleCache := CacheTrace zero_labels (bp_sampleCache b)\<rparr>) \<and>
     bp_sampleApi (buildSpanTrace demo_api ''p90'' 9 1 [] ''s'' demo_error_span 0 0 [] b1) = StoreTrace t (bp_sampleApi b1)"
proof -
  obtain b where b: "newTracesProcessor demo_env no_errors 0 createDefaultConfig = Some (Inr b)" "bsp_inv None b"
    using newTracesProcessor_inv [of createDefaultConfig demo_env 0] by (auto simp: createDefaultConfig_def)
  let ?b1 = "buildSpanTrace demo_api ''p90'' 7 1 [] ''s'' demo_error_span 0 0 []
       (b\<lparr>bp_sampleCache := CacheTrace zero_labels (bp_sampleCache b)\<rparr>)"
  have sp: "\<not> sp_EndTimestamp demo_error_span \<le> sp_StartTimestamp demo_error_span" "IsEntrySpan demo_error_span"
    "sp_TraceID demo_error_span = demo_id"
    by (simp_all add: demo_error_span_def demo_entry_def zero_span_def IsEntrySpan_def)
  let ?b0 = "b\<lparr>bp_sampleCache := CacheTrace zero_labels (bp_sampleCache b)\<rparr>"
  have "sc_openErrorSampling (bp_sampleCache b)"
    using b(1)
    by (auto simp: started createDefaultConfig_def Let_def NewSampleCache_def
        split: bind_splits)
  moreover obtain c' t' r where g: "GetSampleResult ''p90'' 7
      (mk_TraceLabels demo_api ?b0 1 [] ''s'' demo_error_span 0 0 []) (bp_sampleCache ?b0) = (c', t', r)"
    by (metis prod_cases3)
  moreover have "sc_openErrorSampling c' = sc_openErrorSampling (bp_sampleCache ?b0)"
    using GetSampleResult_config(1) [of "''p90''" 7 "mk_TraceLabels demo_api ?b0 1 [] ''s'' demo_error_span 0 0 []"
        "bp_sampleCache ?b0"] unfolding g by simp
  ultimately have "sc_openErrorSampling (bp_sampleCache ?b1)"
    using buildSpanTrace_cache(1) [OF sp(1,2) g] by (simp add: CacheTrace_def)
  then have "\<not> sc_ignores (bp_sampleCache ?b1) (mk_TraceLabels demo_api ?b1 1 [] ''s'' demo_error_span 0 0 [])"
    by (simp add: sc_ignores_def mk_TraceLabels_def demo_error_span_def)
  from held_span_is_stored [OF sp(1,2) this, of "''p90''" 9] demo_error_sampled(3) [OF b(1), of zero_labels] sp(3) b(1)
  show ?thesis by auto
qed

lemma consume_groups_counts:
  "consume_groups api p90 now res gs b = Some b' \<Longrightarrow>
   unaccounted (bp_counts b') = unaccounted (bp_counts b) \<and>
   ct_received (bp_counts b') = ct_received (bp_counts b) + int (length (concat (map snd gs)))"
proof (induction gs arbitrary: b)
  case Nil
  then show ?case by simp
next
  case (Cons g gs)
  then obtain b1 where "consume_group api p90 now res g b = Some b1" "consume_groups api p90 now res gs b1 = Some b'"
    by (auto split: bind_splits)
  with consume_group_counts [of api p90 now res g b b1] Cons.IH [of b1] show ?case by simp
qed

lemma length_groups: "length (concat (map snd (groupSpansByTraceId rs))) = length (rs_spans rs)"
  using group_mset [of rs] by (metis size_mset)

definition has_service :: "resource_spans \<Rightarrow> bool" where
  "has_service rss \<longleftrightarrow> fst (snd (getAppInfo (rs_Resource rss))) \<noteq> []"

lemma consume_adaptive_counts:
  "consume_adaptive api p90 now td b = Some b' \<Longrightarrow>
   unaccounted (bp_counts b') = unaccounted (bp_counts b) \<and>
   ct_received (bp_counts b') = ct_received (bp_counts b) + int (length (traces_spans (filter has_service td)))"
proof (induction td arbitrary: b)
  case Nil
  then show ?case by (simp add: traces_spans_def)
next
  case (Cons rss td)
  show ?case
  proof (cases "has_service rss")
    case False
    with Cons show ?thesis by (simp add: has_service_def split_def)
  next
    case True
    with Cons.prems obtain b1 where
      "consume_groups api p90 now (rs_Resource rss) (groupSpansByTraceId rss) b = Some b1"
      "consume_adaptive api p90 now td b1 = Some b'"
      by (auto simp: has_service_def split_def split: bind_splits)
    with consume_groups_counts Cons.IH [of b1] True show ?thesis
      by (fastforce simp: traces_spans_def length_groups)
  qed
qed

text \<open>C3: Accounting in the adaptive mode. \<open>ConsumeTraces\<close> returns no error, and every span it counts as
  received (the spans of the resources that name a service) it counts exactly once as dropped, stored
  alone or cached.\<close>

theorem adaptive_spans_accounted:
  assumes "bsp_inv q b" "bp_adaptiveSampler b \<noteq> None"
  shows "\<exists>b'. ConsumeTraces api p90 next_err now td b = Some (b', None) \<and>
           unaccounted (bp_counts b') = unaccounted (bp_counts b) \<and>
           ct_received (bp_counts b') = ct_received (bp_counts b) + int (length (traces_spans (filter has_service td)))"
  using consume_adaptive_ok [OF assms, of api p90 now td] consume_adaptive_counts [of api p90 now td b] assms(2)
  by (auto simp: ConsumeTraces_def)

definition demo_adaptive_config :: bs_config where
  "demo_adaptive_config = createDefaultConfig\<lparr>cf_Adaptive := (cf_Adaptive createDefaultConfig)\<lparr>ac_Enable := True\<rparr>\<rparr>"

definition demo_traces :: traces where
  "demo_traces = [\<lparr>rs_Resource = [(AttributeProcessPID, ValueInt 42), (AttributeServiceName, ValueStr ''s'')],
     rs_ScopeSpans = [\<lparr>ss_Scope = [], ss_Spans = [demo_entry, demo_error_span]\<rparr>]\<rparr>]"

theorem adaptive_spans_accounted_witness:
  "\<exists>b b'. newTracesProcessor demo_env no_errors 0 demo_adaptive_config = Some (Inr b) \<and>
     ConsumeTraces demo_api ''p90'' (\<lambda>td. None) 7 demo_traces b = Some (b', None) \<and>
     unaccounted (bp_counts b') = unaccounted (bp_counts b) \<and> ct_received (bp_counts b') = ct_received (bp_counts b) + 2"
proof -
  obtain b where b: "newTracesProcessor demo_env no_errors 0 demo_adaptive_config = Some (Inr b)" "bsp_inv None b"
    using newTracesProcessor_inv [of demo_adaptive_config demo_env 0]
    by (auto simp: createDefaultConfig_def demo_adaptive_config_def)
  have "bp_adaptiveSampler b \<noteq> None"
    using b(1) by (auto simp: started createDefaultConfig_def demo_adaptive_config_def
        Let_def split: bind_splits)
  from adaptive_spans_accounted [OF b(2) this, of demo_api "''p90''" "\<lambda>td. None" 7 demo_traces] b(1)
  show ?thesis
    by (simp add: demo_traces_def traces_spans_def rs_spans_def has_service_def getAppInfo_def GetPid_def Let_def)
qed

definition start_ok :: "bs_config \<Rightarrow> bool" where
  "start_ok cfg \<longleftrightarrow>
     0 < i64 (cc_IntervalQuerySlow (cf_Controller cfg) * second) \<and>
     0 < i64 (cc_IntervalQuerySample (cf_Controller cfg) * second) \<and>
     0 < i64 (cc_IntervalSendTrace (cf_Controller cfg) * second) \<and>
     (ac_Enable (cf_Adaptive cfg) \<longrightarrow> 0 < ac_MemoryCheckInterval (cf_Adaptive cfg))"

lemma on_ticker_Some:
  "map_load (bp_tickers b) i = Some pt \<Longrightarrow>
   on_ticker (pt_Start d) i b =
     (if d \<le> 0 then None
      else Some (b\<lparr>bp_tickers := map_store i (pt\<lparr>pt_Ticker := Some d, pt_StopCh := Some True\<rparr>) (bp_tickers b)\<rparr>))"
  by (simp add: on_ticker_def pt_Start_def)

lemma bs_tickers_load:
  "map_load (bs_tickers cfg) i =
     (if i \<in> {CleanOtelTraceTicker, QuerySampleValueTicker} \<and> \<not> ac_Enable (cf_Adaptive cfg) \<or>
         i = NotifyProfileTicker \<and> \<not> 0 < cf_EbpfPort cfg \<or> i = NotifyTicker \<and> \<not> cf_NotifyEnabled cfg
      then None else Some NewPolicyTicker)"
  by (cases i) (simp_all add: bs_tickers_def)

text \<open>\<open>Start\<close> succeeds exactly when the three controller intervals (and, in the adaptive mode, the memory
  check interval) are positive after the multiplication wraps; otherwise \<open>time.NewTicker\<close> panics. The
  default configuration leaves the controller intervals at 0.\<close>

theorem start_needs_intervals:
  assumes "newTracesProcessor env no_errors now cfg = Some (Inr b)"
  shows "(Start b \<noteq> None \<longleftrightarrow> start_ok cfg) \<and> \<not> start_ok createDefaultConfig"
proof -
  have t: "bp_tickers b = bs_tickers cfg" "bp_cfg b = cfg"
    using assms by (auto simp: started Let_def split: bind_splits if_splits)
  have "Start b \<noteq> None \<longleftrightarrow> start_ok cfg"
    by (simp add: Start_def t start_ok_def Let_def on_ticker_Some bs_tickers_load)
  then show ?thesis by (simp add: start_ok_def createDefaultConfig_def i64_def)
qed

theorem start_needs_intervals_witness:
  "\<exists>b. newTracesProcessor demo_env no_errors 0 createDefaultConfig = Some (Inr b) \<and> Start b = None"
proof -
  obtain b where b: "newTracesProcessor demo_env no_errors 0 createDefaultConfig = Some (Inr b)"
    using newTracesProcessor_inv [of createDefaultConfig demo_env 0] by (auto simp: createDefaultConfig_def)
  from start_needs_intervals [OF this] b show ?thesis by auto
qed

end
