(* ===== verification/GoStrings.thy ===== *)
theory GoStrings
  imports Prelude
begin

section \<open>Strings and numbers of Go's standard library\<close>

text \<open>
  What the receivers and the \<open>fillproc\<close> extension use of \<open>encoding/hex\<close>, \<open>strconv\<close>, \<open>bytes\<close>, \<open>strings\<close>, \<open>bufio\<close> and \<open>net\<close>. Strings
  are bytes; white space is that of ASCII.
\<close>

text \<open>\<open>hex.Decode\<close> on an even number of bytes: the bytes before the first wrong pair, and whether all were right.\<close>

definition hex_digit :: "char \<Rightarrow> nat option" where
  "hex_digit c =
     (let n = of_char c :: nat in
      if 48 \<le> n \<and> n \<le> 57 then Some (n - 48)
      else if 97 \<le> n \<and> n \<le> 102 then Some (n - 87)
      else if 65 \<le> n \<and> n \<le> 70 then Some (n - 55)
      else None)"

fun hex_Decode :: "string \<Rightarrow> u8 list \<times> bool" where
  "hex_Decode (a # b # s) =
     (case (hex_digit a, hex_digit b) of
        (Some x, Some y) \<Rightarrow> (let (bs, ok) = hex_Decode s in (of_nat (16 * x + y) # bs, ok))
      | _ \<Rightarrow> ([], False))"
| "hex_Decode _ = ([], True)"

text \<open>\<open>strconv.Atoi\<close> with its range check.\<close>

fun digits_val :: "nat \<Rightarrow> string \<Rightarrow> nat option" where
  "digits_val acc [] = Some acc"
| "digits_val acc (c # s) =
     (let n = of_char c :: nat in if 48 \<le> n \<and> n \<le> 57 then digits_val (10 * acc + (n - 48)) s else None)"

definition Atoi :: "string \<Rightarrow> int option" where
  "Atoi s =
     (let (neg, ds) = (case s of CHR ''-'' # t \<Rightarrow> (True, t) | CHR ''+'' # t \<Rightarrow> (False, t) | _ \<Rightarrow> (False, s)) in
      if ds = [] then None
      else case digits_val 0 ds of
             None \<Rightarrow> None
           | Some n \<Rightarrow> (let v = (if neg then - int n else int n) in if - (2 ^ 63) \<le> v \<and> v < 2 ^ 63 then Some v else None))"

text \<open>\<open>bytes.IndexByte\<close> and \<open>bytes.LastIndexByte\<close>; -1 when the byte does not occur.\<close>

definition IndexByte :: "string \<Rightarrow> char \<Rightarrow> int" where
  "IndexByte s c = (if c \<in> set s then int (length (takeWhile (\<lambda>x. x \<noteq> c) s)) else - 1)"

definition LastIndexByte :: "string \<Rightarrow> char \<Rightarrow> int" where
  "LastIndexByte s c = (if c \<in> set s then int (length s) - 1 - int (length (takeWhile (\<lambda>x. x \<noteq> c) (rev s))) else - 1)"

text \<open>\<open>s[lo:hi]\<close> of a string; out of order or out of range panics.\<close>

definition substring :: "string \<Rightarrow> int \<Rightarrow> int \<Rightarrow> string option" where
  "substring s lo hi =
     (if 0 \<le> lo \<and> lo \<le> hi \<and> hi \<le> int (length s) then Some (take (nat (hi - lo)) (drop (nat lo) s)) else None)"

text \<open>\<open>strings.Join\<close>, \<open>strings.Fields\<close>, \<open>strings.TrimSuffix\<close>, \<open>bytes.TrimSpace\<close>.\<close>

fun strings_Join :: "string list \<Rightarrow> string \<Rightarrow> string" where
  "strings_Join [] sep = []"
| "strings_Join [s] sep = s"
| "strings_Join (s # ss) sep = s @ sep @ strings_Join ss sep"

definition is_space :: "char \<Rightarrow> bool" where
  "is_space c \<longleftrightarrow> (let n = of_char c :: nat in 9 \<le> n \<and> n \<le> 13 \<or> n = 32)"

function Fields :: "string \<Rightarrow> string list" where
  "Fields s =
     (case dropWhile is_space s of
        [] \<Rightarrow> []
      | c # t \<Rightarrow> (c # takeWhile (\<lambda>x. \<not> is_space x) t) # Fields (dropWhile (\<lambda>x. \<not> is_space x) t))"
  by auto
termination
proof (relation "measure length", simp)
  fix s c t assume "dropWhile is_space s = c # t"
  then have "length (c # t) \<le> length s" by (metis length_dropWhile_le)
  then show "(dropWhile (\<lambda>x. \<not> is_space x) t, s) \<in> measure length"
    using length_dropWhile_le[of "\<lambda>x. \<not> is_space x" t] by simp
qed

declare Fields.simps [simp del]

definition TrimSuffix :: "string \<Rightarrow> string \<Rightarrow> string" where
  "TrimSuffix s p = (if has_suffix s p then take (length s - length p) s else s)"

definition TrimSpace :: "string \<Rightarrow> string" where
  "TrimSpace s = rev (dropWhile is_space (rev (dropWhile is_space s)))"

text \<open>The lines a \<open>bufio.Scanner\<close> yields: a carriage return at the end of a line is cut off, an empty last line is none.
  Lines are taken to be shorter than the scanner's buffer (64 KiB).\<close>

definition scan_lines :: "string \<Rightarrow> string list" where
  "scan_lines s =
     (let ps = split_on (CHR 0x0A) s in
      map (\<lambda>l. TrimSuffix l [CHR 0x0D]) (if last ps = [] then butlast ps else ps))"

text \<open>\<open>strconv.ParseUint(s, 16, bits)\<close>; the value that \<open>strconv.Atoi\<close> returns together with an error: 0 for a
  character that is not a digit, the nearest number of 64 bits otherwise. \<open>ParseUint\<close> stops at the digit at which 64 bits no longer suffice and
  does not look at the rest.\<close>

fun hex_val :: "nat \<Rightarrow> string \<Rightarrow> nat option" where
  "hex_val acc [] = Some acc"
| "hex_val acc (c # s) = (case hex_digit c of Some d \<Rightarrow> hex_val (16 * acc + d) s | None \<Rightarrow> None)"

definition ParseUint16 :: "string \<Rightarrow> nat \<Rightarrow> nat option" where
  "ParseUint16 s bits =
     (if s = [] then None else case hex_val 0 s of Some n \<Rightarrow> if n < 2 ^ bits then Some n else None | None \<Rightarrow> None)"

fun uint64_val :: "nat \<Rightarrow> string \<Rightarrow> nat option" where
  "uint64_val acc [] = Some acc"
| "uint64_val acc (c # s) =
     (let n = of_char c :: nat; acc' = 10 * acc + (n - 48) in
      if \<not> (48 \<le> n \<and> n \<le> 57) then None
      else if acc' \<ge> 2 ^ 64 then Some (2 ^ 64 - 1) else uint64_val acc' s)"

definition Atoi_value :: "string \<Rightarrow> int" where
  "Atoi_value s =
     (let (neg, ds) = (case s of CHR ''-'' # t \<Rightarrow> (True, t) | CHR ''+'' # t \<Rightarrow> (False, t) | _ \<Rightarrow> (False, s)) in
      if ds = [] then 0
      else case uint64_val 0 ds of
             None \<Rightarrow> 0
           | Some n \<Rightarrow> if neg then max (- (2 ^ 63)) (- int n) else min (2 ^ 63 - 1) (int n))"

text \<open>\<open>net.IP.String\<close> of 4 or 16 bytes: dotted decimal for IPv4, also when it is mapped into IPv6; otherwise groups of hexadecimal
  digits with the first longest run of at least two zero groups cut out.\<close>

definition hex_char :: "nat \<Rightarrow> char" where
  "hex_char d = char_of (if d < 10 then 48 + d else 87 + d)"

fun hex_nat :: "nat \<Rightarrow> string" where
  "hex_nat n = (if n < 16 then [hex_char n] else hex_nat (n div 16) @ [hex_char (n mod 16)])"

declare hex_nat.simps [simp del]

definition ip4_String :: "u8 list \<Rightarrow> string" where
  "ip4_String bs = strings_Join (map (dec \<circ> unat) bs) ''.''"

definition zero_run :: "nat list \<Rightarrow> (nat \<times> nat) option" where
  "zero_run gs =
     fold (\<lambda>i best. let l = length (takeWhile (\<lambda>g. g = 0) (drop i gs)) in
             if l \<ge> 2 \<and> l > (case best of Some (_, m) \<Rightarrow> m | None \<Rightarrow> 0) then Some (i, l) else best)
       [0..<length gs] None"

definition ip6_String :: "u8 list \<Rightarrow> string" where
  "ip6_String bs =
     (let gs = map (\<lambda>i. 256 * unat (bs ! (2 * i)) + unat (bs ! (2 * i + 1))) [0..<8]; hs = map hex_nat gs in
      case zero_run gs of
        Some (i, l) \<Rightarrow> strings_Join (take i hs) '':'' @ ''::'' @ strings_Join (drop (i + l) hs) '':''
      | None \<Rightarrow> strings_Join hs '':'')"

definition IP_String :: "u8 list \<Rightarrow> string" where
  "IP_String bs =
     (if length bs = 4 then ip4_String bs
      else if take 10 bs = replicate 10 0 \<and> bs ! 10 = 255 \<and> bs ! 11 = 255 then ip4_String (drop 12 bs)
      else ip6_String bs)"

subsection \<open>Bytes of a number\<close>

text \<open>The \<open>n\<close> low bytes of an integer, the lowest first.\<close>

definition le_bytes :: "nat \<Rightarrow> int \<Rightarrow> u8 list" where
  "le_bytes n v = map (\<lambda>i. word_of_int (v div 256 ^ i)) [0..<n]"

lemma length_le_bytes [simp]: "length (le_bytes n v) = n"
  by (simp add: le_bytes_def)

lemma le_bytes_0 [simp]: "le_bytes 0 v = []"
  by (simp add: le_bytes_def)

lemma le_bytes_Suc: "le_bytes (Suc n) v = word_of_int v # le_bytes n (v div 256)"
  by (rule nth_equalityI)
    (auto simp: le_bytes_def nth_Cons' nth_append zdiv_zmult2_eq[symmetric] power_Suc[symmetric] less_Suc_eq simp del: upt_Suc power_Suc)

text \<open>The bytes determine the number.\<close>

lemma le_bytes_value: "0 \<le> v \<Longrightarrow> v < 256 ^ n \<Longrightarrow> v = (\<Sum>i<n. uint (le_bytes n v ! i) * 256 ^ i)"
proof (induction n arbitrary: v)
  case (Suc n)
  have low: "uint (word_of_int v :: u8) = v mod 256"
    by (simp add: uint_word_of_int)
  have "v div 256 = (\<Sum>i<n. uint (le_bytes n (v div 256) ! i) * 256 ^ i)"
    using Suc.prems by (intro Suc.IH) (auto simp: div_less_iff_less_mult pos_imp_zdiv_nonneg_iff mult.commute)
  then have "v = v mod 256 + (\<Sum>i<n. uint (le_bytes n (v div 256) ! i) * 256 ^ i) * 256"
    using div_mult_mod_eq[of v 256] by linarith
  then show ?case
    by (simp add: le_bytes_Suc sum.lessThan_Suc_shift low sum_distrib_left mult.commute mult.left_commute del: sum.lessThan_Suc)
qed simp

subsection \<open>Hexadecimal digits\<close>

lemma hex_Decode_length: "snd (hex_Decode s) \<Longrightarrow> length (fst (hex_Decode s)) = length s div 2"
  by (induction s rule: hex_Decode.induct) (auto split: option.splits prod.splits)

lemma hex_digit_dot [simp]: "hex_digit CHR ''.'' = None"
  by (simp add: hex_digit_def)

lemma hex_Decode_no_dot: "even (length s) \<Longrightarrow> snd (hex_Decode s) \<Longrightarrow> CHR ''.'' \<notin> set s"
  by (induction s rule: hex_Decode.induct) (auto split: option.splits prod.splits)

subsection \<open>Positions\<close>

lemma IndexByte_append: "c \<notin> set a \<Longrightarrow> IndexByte (a @ c # r) c = int (length a)"
  by (simp add: IndexByte_def takeWhile_append)

lemma LastIndexByte_append: "c \<notin> set r \<Longrightarrow> LastIndexByte (a @ c # r) c = int (length a)"
  by (auto simp: LastIndexByte_def takeWhile_append)

lemma IndexByte_split:
  assumes "IndexByte s c = int n"
  shows "s = take n s @ c # drop (Suc n) s" "c \<notin> set (take n s)" "n < length s"
proof -
  have c: "c \<in> set s" and n: "length (takeWhile (\<lambda>x. x \<noteq> c) s) = n"
    using assms by (auto simp: IndexByte_def split: if_splits)
  have tw: "takeWhile (\<lambda>x. x \<noteq> c) s = take n s"
    using n takeWhile_eq_take by fastforce
  have "dropWhile (\<lambda>x. x \<noteq> c) s \<noteq> []" using c by auto
  moreover have "length s = n + length (dropWhile (\<lambda>x. x \<noteq> c) s)"
    by (metis n length_append takeWhile_dropWhile_id)
  ultimately have lt: "n < length s" by (cases "dropWhile (\<lambda>x. x \<noteq> c) s") auto
  have "s ! n = c"
    using nth_length_takeWhile[of "\<lambda>x. x \<noteq> c" s] lt n by simp
  then show "s = take n s @ c # drop (Suc n) s" using id_take_nth_drop[OF lt] by simp
  show "c \<notin> set (take n s)" using tw set_takeWhileD by metis
  show "n < length s" by (rule lt)
qed

lemma LastIndexByte_ge: "IndexByte s c = int n \<Longrightarrow> int n \<le> LastIndexByte s c"
proof -
  assume "IndexByte s c = int n"
  note sp = IndexByte_split[OF this]
  show ?thesis
  proof (cases "c \<in> set (drop (Suc n) s)")
    case True
    then obtain a r where r: "drop (Suc n) s = a @ c # r" "c \<notin> set r"
      using split_list_last by fastforce
    then have "s = (take n s @ c # a) @ c # r" using sp(1) by simp
    then have "LastIndexByte s c = int (length (take n s @ c # a))" using LastIndexByte_append[OF r(2)] by metis
    then show ?thesis using sp(3) by simp
  next
    case False
    then show ?thesis using LastIndexByte_append[of c "drop (Suc n) s" "take n s"] sp by simp
  qed
qed

subsection \<open>Decimal numbers\<close>

lemma digits_val_no_dot: "digits_val acc s \<noteq> None \<Longrightarrow> CHR ''.'' \<notin> set s"
  by (induction acc s rule: digits_val.induct) (auto simp: Let_def split: if_splits)

lemma Atoi_no_dot: "Atoi s = Some v \<Longrightarrow> CHR ''.'' \<notin> set s"
proof -
  assume "Atoi s = Some v"
  then obtain ds where "digits_val 0 ds \<noteq> None" "s = ds \<or> s = CHR ''-'' # ds \<or> s = CHR ''+'' # ds"
    by (auto simp: Atoi_def Let_def split: if_splits prod.splits option.splits list.splits char.splits bool.splits)
  then show ?thesis using digits_val_no_dot[of 0 ds] by auto
qed

end
