(* ===== verification/ProcFs.thy ===== *)
theory ProcFs
  imports GoStrings
begin

section \<open>The \<open>proc\<close> file system as the \<open>fillproc\<close> extension reads it\<close>

text \<open>
  \<open>extension/fillprocextension/internal/proc\<close>: socket tables (\<open>netstat.go\<close>), processes (\<open>proc.go\<close>), container identifiers
  (\<open>container.go\<close>) and the processes that are skipped (\<open>blacklist.go\<close>).

  The file system is the argument \<open>proc_fs\<close>: what \<open>os.ReadDir\<close>, \<open>os.Readlink\<close> and \<open>os.ReadFile\<close> return at the time of the call, \<open>None\<close>
  for an error. A run-time panic is \<open>None\<close>, a Go error the left summand of the result.
\<close>

record proc_fs =
  fs_ReadDir :: "string \<Rightarrow> (string \<times> bool) list option"
  fs_Readlink :: "string \<Rightarrow> string option"
  fs_ReadFile :: "string \<Rightarrow> string option"

datatype proc_error = IO_error | NotEnoughFields | BadFormat | BadNumber

subsection \<open>Socket tables (\<open>netstat.go\<close>)\<close>

record sock_addr =
  sa_IP :: "u8 list"
  sa_Port :: "16 word"

record sock_tab_entry =
  se_Ino :: string
  se_LocalAddr :: sock_addr
  se_RemoteAddr :: sock_addr

definition SockAddr_String :: "sock_addr \<Rightarrow> string" where
  "SockAddr_String s = IP_String (sa_IP s) @ '':'' @ dec (unat (sa_Port s))"

definition parseIPv4 :: "string \<Rightarrow> proc_error + u8 list" where
  "parseIPv4 s = (case ParseUint16 s 32 of None \<Rightarrow> Inl BadNumber | Some v \<Rightarrow> Inr (le_bytes 4 (int v)))"

text \<open>The loop of \<open>parseIPv6\<close>: groups of eight digits into \<open>ip[i:i+4]\<close>; a shorter rest or a full address would panic.\<close>

function parseIPv6_loop :: "nat \<Rightarrow> u8 list \<Rightarrow> string \<Rightarrow> (proc_error + u8 list) option" where
  "parseIPv6_loop i ip s =
     (if s = [] then Some (Inr ip)
      else if length s < 8 \<or> i + 4 > length ip then None
      else case ParseUint16 (take 8 s) 32 of
             None \<Rightarrow> Some (Inl BadNumber)
           | Some u \<Rightarrow> parseIPv6_loop (i + 4) (take i ip @ le_bytes 4 (int u) @ drop (i + 4) ip) (drop 8 s))"
  by auto
termination
  by (relation "measure (\<lambda>(i, ip, s). length s)") auto

declare parseIPv6_loop.simps [simp del]

definition parseIPv6 :: "string \<Rightarrow> (proc_error + u8 list) option" where
  "parseIPv6 s = parseIPv6_loop 0 (replicate 16 0) s"

definition parseAddr :: "string \<Rightarrow> (proc_error + sock_addr) option" where
  "parseAddr s =
     (let fields = split_on (CHR '':'') s in
      if length fields < 2 then Some (Inl NotEnoughFields)
      else do {
        r \<leftarrow> (if length (fields ! 0) = 8 then Some (parseIPv4 (fields ! 0))
              else if length (fields ! 0) = 32 then parseIPv6 (fields ! 0)
              else Some (Inl BadFormat));
        (case r of
           Inl e \<Rightarrow> Some (Inl e)
         | Inr ip \<Rightarrow>
             Some (case ParseUint16 (fields ! 1) 16 of
                     None \<Rightarrow> Inl BadNumber
                   | Some v \<Rightarrow> Inr \<lparr>sa_IP = ip, sa_Port = of_nat v\<rparr>))
      })"

type_synonym sock_tab = "(string, sock_tab_entry) gomap"

fun netstat_lines :: "(string, int) gomap \<Rightarrow> string list \<Rightarrow> sock_tab \<Rightarrow> (proc_error + sock_tab) option" where
  "netstat_lines peers [] result = Some (Inr result)"
| "netstat_lines peers (l # ls) result =
     (let fields = Fields (takeWhile (\<lambda>c. c \<noteq> CHR ''#'') l) in
      if length fields < 12 then Some (Inl NotEnoughFields)
      else do {
        r1 \<leftarrow> parseAddr (fields ! 1);
        (case r1 of
           Inl e \<Rightarrow> Some (Inl e)
         | Inr localAddr \<Rightarrow>
             do {
               r2 \<leftarrow> parseAddr (fields ! 2);
               (case r2 of
                  Inl e \<Rightarrow> Some (Inl e)
                | Inr remoteAddr \<Rightarrow>
                    (let peer = SockAddr_String localAddr in
                     netstat_lines peers ls
                       (case map_load peers peer of
                          Some matchPort \<Rightarrow>
                            if sa_Port remoteAddr = word_of_int matchPort
                            then map_store peer \<lparr>se_Ino = fields ! 9, se_LocalAddr = localAddr, se_RemoteAddr = remoteAddr\<rparr> result
                            else result
                        | None \<Rightarrow> result)))
             })
      })"

definition DoNetstat :: "proc_fs \<Rightarrow> string \<Rightarrow> (string, int) gomap \<Rightarrow> sock_tab \<Rightarrow> (proc_error + sock_tab) option" where
  "DoNetstat fs path peers result =
     (case fs_ReadFile fs path of
        None \<Rightarrow> Some (Inl IO_error)
      | Some content \<Rightarrow> netstat_lines peers (tl (scan_lines content)) result)"

subsection \<open>Skipped processes (\<open>blacklist.go\<close>)\<close>

definition blackCmdList :: "string list" where
  "blackCmdList = [''/usr/lib/systemd'', ''-bash'', ''/bin/sh'', ''/bin/bash'']"

definition blackComms :: "string list" where
  "blackComms =
     [''sh'', ''bash'', ''sshd'', ''etcd'', ''nginx'', ''nginx-ingress-c'', ''sftp-server'', ''NetworkManager'', ''calico-node'',
      ''pause'', ''sleep'', ''crond'', ''openresty'', ''coredns'', ''kube-apiserver'', ''kube-controller'', ''kube-proxy'',
      ''kube-scheduler'', ''kubelet'', ''kubectl'', ''containerd'', ''containerd-shim'', ''docker-proxy'', ''dockerd'', ''odiglet'',
      ''runsvdir'', ''runsv'', ''tail'', ''top'', ''git'', ''ssh'', ''ps'', ''vi'', ''vim'', ''tmux'']"

definition SkipBlackComm :: "string \<Rightarrow> bool" where
  "SkipBlackComm comm \<longleftrightarrow> comm = [] \<or> comm \<in> set blackComms"

definition SkipBlackCmdline :: "string \<Rightarrow> bool" where
  "SkipBlackCmdline cmdLine \<longleftrightarrow> cmdLine = [] \<or> list_ex (has_prefix cmdLine) blackCmdList"

subsection \<open>Container identifiers (\<open>container.go\<close>)\<close>

text \<open>
  The expression \<open>^.*/(?:.*[-:])?([0-9a-f]+)(?:\.|\s*$)\<close>, leftmost-first as Go's \<open>regexp\<close> matches: the last slash from which
  the rest matches; behind it the last \<open>-\<close> or \<open>:\<close> from which the rest matches, or none; a maximal run of digits.
\<close>

definition lower_hex :: "char \<Rightarrow> bool" where
  "lower_hex c \<longleftrightarrow> (let n = of_char c :: nat in 48 \<le> n \<and> n \<le> 57 \<or> 97 \<le> n \<and> n \<le> 102)"

definition regex_space :: "char \<Rightarrow> bool" where
  "regex_space c \<longleftrightarrow> of_char c \<in> {9, 10, 12, 13, 32 :: nat}"

definition match_id :: "string \<Rightarrow> string option" where
  "match_id s =
     (let h = takeWhile lower_hex s; r = dropWhile lower_hex s in
      if h \<noteq> [] \<and> (has_prefix r ''.'' \<or> list_all regex_space r) then Some h else None)"

text \<open>The longest prefix that ends in a character of \<open>P\<close> and after which \<open>f\<close> matches.\<close>

fun after_last :: "(char \<Rightarrow> bool) \<Rightarrow> (string \<Rightarrow> string option) \<Rightarrow> string \<Rightarrow> string option" where
  "after_last P f [] = None"
| "after_last P f (c # s) =
     (case after_last P f s of
        Some r \<Rightarrow> Some r
      | None \<Rightarrow> if P c then f s else None)"

definition match_tail :: "string \<Rightarrow> string option" where
  "match_tail s = (case after_last (\<lambda>c. c = CHR ''-'' \<or> c = CHR '':'') match_id s of Some r \<Rightarrow> Some r | None \<Rightarrow> match_id s)"

definition getContainerIDFromLine :: "string \<Rightarrow> string" where
  "getContainerIDFromLine line = (case after_last (\<lambda>c. c = CHR ''/'') match_tail line of Some r \<Rightarrow> r | None \<Rightarrow> [])"

fun first_id :: "string list \<Rightarrow> string" where
  "first_id [] = []"
| "first_id (l # ls) = (if getContainerIDFromLine l \<noteq> [] then getContainerIDFromLine l else first_id ls)"

definition getContainerIDFromReader :: "string \<Rightarrow> string" where
  "getContainerIDFromReader content = first_id (scan_lines content)"

text \<open>\<open>path.Join\<close> of clean components.\<close>

definition Path :: "int \<Rightarrow> string list \<Rightarrow> string" where
  "Path pid subpath = strings_Join (''/proc'' # dec_int pid # subpath) ''/''"

definition GetContainerIDFromCGroup :: "proc_fs \<Rightarrow> int \<Rightarrow> string" where
  "GetContainerIDFromCGroup fs pid =
     (case fs_ReadFile fs (''/proc/'' @ dec_int pid @ ''/cgroup'') of
        None \<Rightarrow> []
      | Some content \<Rightarrow> (let containerId = getContainerIDFromReader content in if length containerId < 12 then [] else containerId))"

subsection \<open>Processes (\<open>proc.go\<close>)\<close>

record proc_info =
  pi_ProcessID :: int
  pi_ExeName :: string
  pi_CmdLine :: string
  pi_Comm :: string
  pi_HostName :: string
  pi_ContainerId :: string
  pi_NetNamespace :: string
  pi_Ignore :: bool

text \<open>The getters return the empty string with an error, and their callers look at the string only.\<close>

abbreviation or_empty :: "string option \<Rightarrow> string" where
  "or_empty r \<equiv> case r of Some s \<Rightarrow> s | None \<Rightarrow> []"

definition GetExeName :: "proc_fs \<Rightarrow> int \<Rightarrow> string" where
  "GetExeName fs pid = or_empty (fs_Readlink fs (Path pid [''exe'']))"

definition GetCommandLine :: "proc_fs \<Rightarrow> int \<Rightarrow> string" where
  "GetCommandLine fs pid =
     or_empty (map_option (\<lambda>c. TrimSpace (map (\<lambda>b. if b = CHR 0x00 then CHR '' '' else b) c)) (fs_ReadFile fs (Path pid [''cmdline''])))"

definition GetComm :: "proc_fs \<Rightarrow> int \<Rightarrow> string" where
  "GetComm fs pid = or_empty (map_option (\<lambda>c. TrimSuffix c [CHR 0x0A]) (fs_ReadFile fs (Path pid [''comm''])))"

definition GetHostName :: "proc_fs \<Rightarrow> int \<Rightarrow> string" where
  "GetHostName fs pid = or_empty (map_option (\<lambda>c. TrimSuffix c [CHR 0x0A]) (fs_ReadFile fs (Path pid [''root'', ''etc'', ''hostname''])))"

definition GetNetNamespace :: "proc_fs \<Rightarrow> int \<Rightarrow> string" where
  "GetNetNamespace fs pid = or_empty (fs_Readlink fs (Path pid [''ns'', ''net'']))"

definition new_proc_info :: "int \<Rightarrow> proc_info" where
  "new_proc_info pid = \<lparr>pi_ProcessID = pid, pi_ExeName = [], pi_CmdLine = [], pi_Comm = [], pi_HostName = [], pi_ContainerId = [],
     pi_NetNamespace = [], pi_Ignore = False\<rparr>"

definition ScanProc :: "proc_fs \<Rightarrow> int \<Rightarrow> proc_info" where
  "ScanProc fs pid =
     (let p1 = (new_proc_info pid)\<lparr>pi_ExeName := GetExeName fs pid\<rparr> in
      if pi_ExeName p1 = [] then p1\<lparr>pi_Ignore := True\<rparr>
      else
        (let p2 = p1\<lparr>pi_NetNamespace := GetNetNamespace fs pid\<rparr> in
         if pi_NetNamespace p2 = [] then p2\<lparr>pi_Ignore := True\<rparr>
         else
           (let p3 = p2\<lparr>pi_Comm := GetComm fs pid\<rparr> in
            if SkipBlackComm (pi_Comm p3) then p3\<lparr>pi_Ignore := True\<rparr>
            else
              (let p4 = p3\<lparr>pi_CmdLine := GetCommandLine fs pid\<rparr> in
               if SkipBlackCmdline (pi_CmdLine p4) then p4\<lparr>pi_Ignore := True\<rparr>
               else
                 (let p5 = p4\<lparr>pi_HostName := GetHostName fs pid\<rparr> in
                  if pi_HostName p5 = [] then p5\<lparr>pi_Ignore := True\<rparr>
                  else p5\<lparr>pi_ContainerId := GetContainerIDFromCGroup fs pid\<rparr>)))))"

definition netstat_pair :: "proc_fs \<Rightarrow> string \<Rightarrow> string \<Rightarrow> (string, int) gomap \<Rightarrow> (proc_error + sock_tab) option" where
  "netstat_pair fs tcp tcp6 peers =
     do {
       r1 \<leftarrow> DoNetstat fs tcp peers [];
       (case r1 of Inl e \<Rightarrow> Some (Inl e) | Inr result \<Rightarrow> DoNetstat fs tcp6 peers result)
     }"

definition ListMatchNetSocks :: "proc_fs \<Rightarrow> proc_info \<Rightarrow> (string, int) gomap \<Rightarrow> (proc_error + sock_tab) option" where
  "ListMatchNetSocks fs p peers =
     netstat_pair fs (Path (pi_ProcessID p) [''net'', ''tcp'']) (Path (pi_ProcessID p) [''net'', ''tcp6'']) peers"

definition ListVMMatchNetSocks :: "proc_fs \<Rightarrow> (string, int) gomap \<Rightarrow> (proc_error + sock_tab) option" where
  "ListVMMatchNetSocks fs peers = netstat_pair fs ''/proc/net/tcp'' ''/proc/net/tcp6'' peers"

definition socket_link :: "string \<Rightarrow> string" where
  "socket_link ino = ''socket:['' @ ino @ '']''"

text \<open>One entry of the \<open>fd\<close> directory: the peers whose socket it links to.\<close>

definition fd_peers :: "proc_fs \<Rightarrow> proc_info \<Rightarrow> sock_tab \<Rightarrow> string \<times> bool \<Rightarrow> string list" where
  "fd_peers fs p socks di =
     (if snd di then []
      else case fs_Readlink fs (Path (pi_ProcessID p) [''fd'', fst di]) of
             None \<Rightarrow> []
           | Some lname \<Rightarrow>
               if \<not> has_prefix lname ''socket:['' then []
               else map fst (filter (\<lambda>(peer, sock). socket_link (se_Ino sock) = lname) socks))"

definition GetMatchNetSockets :: "proc_fs \<Rightarrow> proc_info \<Rightarrow> sock_tab \<Rightarrow> string list" where
  "GetMatchNetSockets fs p socks =
     (case fs_ReadDir fs (Path (pi_ProcessID p) [''fd'']) of
        None \<Rightarrow> []
      | Some dirs \<Rightarrow> concat (map (fd_peers fs p socks) dirs))"

definition isDirectoryPid :: "string \<Rightarrow> int option" where
  "isDirectoryPid name =
     (case name of
        [] \<Rightarrow> None
      | c # _ \<Rightarrow> Some (let n = of_char c :: nat in if n < 48 \<or> n > 57 then 0 else Atoi_value name))"

definition add_pid :: "string \<times> bool \<Rightarrow> (int, bool) gomap \<Rightarrow> (int, bool) gomap option" where
  "add_pid di result =
     (if \<not> snd di then Some result
      else do { pid \<leftarrow> isDirectoryPid (fst di); Some (if pid > 0 then map_store pid True result else result) })"

definition FindAllProcesses :: "proc_fs \<Rightarrow> (proc_error + (int, bool) gomap) option" where
  "FindAllProcesses fs =
     (case fs_ReadDir fs ''/proc'' of
        None \<Rightarrow> Some (Inl IO_error)
      | Some dirs \<Rightarrow> map_option Inr (fold_opt add_pid dirs []))"

subsection \<open>Parsing never panics\<close>

lemma parseIPv6_loop_total:
  "length s = 8 * n \<Longrightarrow> i + 4 * n \<le> length ip \<Longrightarrow>
   \<exists>r. parseIPv6_loop i ip s = Some r \<and> (\<forall>ip'. r = Inr ip' \<longrightarrow> length ip' = length ip)"
proof (induction n arbitrary: i ip s)
  case 0
  then show ?case by (simp add: parseIPv6_loop.simps)
next
  case (Suc n)
  show ?case
  proof (cases "ParseUint16 (take 8 s) 32")
    case None
    then show ?thesis using Suc.prems by (auto simp: parseIPv6_loop.simps)
  next
    case (Some u)
    let ?ip = "take i ip @ le_bytes 4 (int u) @ drop (i + 4) ip"
    have len: "length ?ip = length ip" using Suc.prems by simp
    have "parseIPv6_loop i ip s = parseIPv6_loop (i + 4) ?ip (drop 8 s)"
      using Some Suc.prems by (subst parseIPv6_loop.simps) auto
    then show ?thesis using Suc.IH[of "drop 8 s" "i + 4" ?ip] Suc.prems len by auto
  qed
qed

lemma parseIPv6_total: "length s = 32 \<Longrightarrow> \<exists>r. parseIPv6 s = Some r \<and> (\<forall>ip. r = Inr ip \<longrightarrow> length ip = 16)"
  using parseIPv6_loop_total[of s 4 0 "replicate 16 0"] by (simp add: parseIPv6_def)

lemma parseAddr_total: "\<exists>r. parseAddr s = Some r \<and> (\<forall>a. r = Inr a \<longrightarrow> length (sa_IP a) \<in> {4, 16})"
proof (cases "length (split_on (CHR '':'') s) < 2")
  case True
  then show ?thesis by (simp add: parseAddr_def)
next
  case False
  let ?f = "split_on (CHR '':'') s ! 0"
  let ?ip = "if length ?f = 8 then Some (parseIPv4 ?f) else if length ?f = 32 then parseIPv6 ?f else Some (Inl BadFormat)"
  have "\<exists>r. ?ip = Some r \<and> (\<forall>ip. r = Inr ip \<longrightarrow> length ip \<in> {4, 16})"
    using parseIPv6_total[of ?f] by (auto simp: parseIPv4_def split: option.splits)
  then obtain r where r: "?ip = Some r" "\<forall>ip. r = Inr ip \<longrightarrow> length ip \<in> {4, 16}" by blast
  then show ?thesis using False
    by (cases r) (auto simp: parseAddr_def Let_def split: option.split simp del: if_split)
qed

definition listed :: "string list \<Rightarrow> string \<Rightarrow> int \<Rightarrow> sock_tab_entry \<Rightarrow> bool" where
  "listed ls peer port e \<longleftrightarrow>
     (\<exists>l\<in>set ls. let fields = Fields (takeWhile (\<lambda>c. c \<noteq> CHR ''#'') l) in
        length fields \<ge> 12 \<and> parseAddr (fields ! 1) = Some (Inr (se_LocalAddr e)) \<and> parseAddr (fields ! 2) = Some (Inr (se_RemoteAddr e)) \<and>
        fields ! 9 = se_Ino e \<and> peer = SockAddr_String (se_LocalAddr e) \<and> sa_Port (se_RemoteAddr e) = word_of_int port)"

text \<open>What a table yields: entries of the table whose local address is a peer and whose remote port is the one asked for.\<close>

definition sound_tab :: "string list \<Rightarrow> (string, int) gomap \<Rightarrow> sock_tab \<Rightarrow> bool" where
  "sound_tab ls peers tab \<longleftrightarrow> gomap_wf tab \<and> (\<forall>peer e. map_load tab peer = Some e \<longrightarrow> (\<exists>port. map_load peers peer = Some port \<and> listed ls peer port e))"

lemma listed_mono: "listed ls peer port e \<Longrightarrow> set ls \<subseteq> set ls' \<Longrightarrow> listed ls' peer port e"
  unfolding listed_def by blast

lemma netstat_lines_sound:
  "sound_tab ls0 peers result \<Longrightarrow> set ls \<subseteq> set ls0 \<Longrightarrow>
   \<exists>r. netstat_lines peers ls result = Some r \<and> (\<forall>tab. r = Inr tab \<longrightarrow> sound_tab ls0 peers tab)"
proof (induction peers ls result rule: netstat_lines.induct)
  case (1 peers result)
  then show ?case by simp
next
  case (2 peers l ls result)
  let ?f = "Fields (takeWhile (\<lambda>c. c \<noteq> CHR ''#'') l)"
  obtain r1 where r1: "parseAddr (?f ! 1) = Some r1" using parseAddr_total by blast
  obtain r2 where r2: "parseAddr (?f ! 2) = Some r2" using parseAddr_total by blast
  show ?case
  proof (cases "length ?f < 12 \<or> (\<exists>e. r1 = Inl e) \<or> (\<exists>e. r2 = Inl e)")
    case True
    then show ?thesis using r1 r2 by (cases r1; cases r2) (auto simp: Let_def)
  next
    case False
    then obtain la ra where lr: "r1 = Inr la" "r2 = Inr ra" by (cases r1; cases r2) auto
    let ?peer = "SockAddr_String la"
    let ?res = "case map_load peers ?peer of
        Some matchPort \<Rightarrow>
          if sa_Port ra = word_of_int matchPort
          then map_store ?peer \<lparr>se_Ino = ?f ! 9, se_LocalAddr = la, se_RemoteAddr = ra\<rparr> result else result
      | None \<Rightarrow> result"
    have "listed ls0 ?peer port \<lparr>se_Ino = ?f ! 9, se_LocalAddr = la, se_RemoteAddr = ra\<rparr>" if "sa_Port ra = word_of_int port" for port
      unfolding listed_def Let_def using that False r1 r2 lr "2.prems"(2) by (intro bexI[of _ l]) auto
    then have "sound_tab ls0 peers ?res"
      using "2.prems"(1) by (auto simp: sound_tab_def wf_store split: option.splits)
    then show ?thesis
      using "2.IH"[OF refl _ r1 lr(1) r2 lr(2) refl] False r1 r2 lr "2.prems"(2) by (simp add: Let_def)
  qed
qed

text \<open>The lines of a table of the file system; none when it cannot be read.\<close>

definition table_lines :: "proc_fs \<Rightarrow> string \<Rightarrow> string list" where
  "table_lines fs path = (case fs_ReadFile fs path of Some content \<Rightarrow> tl (scan_lines content) | None \<Rightarrow> [])"

lemma netstat_pair_sound:
  "\<exists>r. netstat_pair fs tcp tcp6 peers = Some r \<and>
     (\<forall>tab. r = Inr tab \<longrightarrow> sound_tab (table_lines fs tcp @ table_lines fs tcp6) peers tab)"
proof -
  let ?ls = "table_lines fs tcp @ table_lines fs tcp6"
  have step: "\<exists>r. DoNetstat fs path peers tab = Some r \<and> (\<forall>tab'. r = Inr tab' \<longrightarrow> sound_tab ?ls peers tab')"
    if "sound_tab ?ls peers tab" "path = tcp \<or> path = tcp6" for path tab
  proof (cases "fs_ReadFile fs path")
    case (Some content)
    then have "set (tl (scan_lines content)) \<subseteq> set ?ls" using that(2) by (auto simp: table_lines_def)
    then show ?thesis using netstat_lines_sound[OF that(1)] Some by (simp add: DoNetstat_def)
  qed (simp add: DoNetstat_def)
  have "sound_tab ?ls peers []" by (simp add: sound_tab_def gomap_wf_def)
  from step[OF this, of tcp] obtain r1 where r1: "DoNetstat fs tcp peers [] = Some r1" "\<forall>tab. r1 = Inr tab \<longrightarrow> sound_tab ?ls peers tab"
    by auto
  show ?thesis
  proof (cases r1)
    case (Inr tab)
    then show ?thesis using r1 step[of tab tcp6] by (simp add: netstat_pair_def)
  qed (use r1 in \<open>simp add: netstat_pair_def\<close>)
qed

lemma GetMatchNetSockets_sound:
  assumes "peer \<in> set (GetMatchNetSockets fs p socks)" "gomap_wf socks"
  shows "\<exists>e fd. map_load socks peer = Some e \<and> fs_Readlink fs (Path (pi_ProcessID p) [''fd'', fd]) = Some (socket_link (se_Ino e))"
proof -
  from assms(1) obtain di where "peer \<in> set (fd_peers fs p socks di)"
    by (auto simp: GetMatchNetSockets_def split: option.splits)
  then show ?thesis
    using assms(2) by (auto simp: fd_peers_def gomap_wf_def split: if_splits option.splits) metis
qed

lemma FindAllProcesses_total:
  assumes "\<And>dirs di. fs_ReadDir fs ''/proc'' = Some dirs \<Longrightarrow> di \<in> set dirs \<Longrightarrow> fst di \<noteq> []"
  shows "\<exists>r. FindAllProcesses fs = Some r \<and> (\<forall>pids. r = Inr pids \<longrightarrow> gomap_wf pids)"
proof -
  have "\<exists>m'. fold_opt add_pid dirs m = Some m' \<and> gomap_wf m'" if "\<forall>di\<in>set dirs. fst di \<noteq> []" "gomap_wf m" for dirs m
    using that
  proof (induction dirs arbitrary: m)
    case (Cons di dirs)
    have "\<exists>m1. add_pid di m = Some m1 \<and> gomap_wf m1"
      using Cons.prems by (auto simp: add_pid_def isDirectoryPid_def wf_store split: list.splits)
    then show ?case using Cons.IH Cons.prems by fastforce
  qed simp
  note fold = this
  show ?thesis
    using fold[of _ "[]"] assms by (fastforce simp: FindAllProcesses_def gomap_wf_def split: option.split)
qed

subsection \<open>Addresses have no brackets\<close>

lemma set_strings_Join: "set (strings_Join xs sep) \<subseteq> (\<Union>x\<in>set xs. set x) \<union> set sep"
  by (induction xs sep rule: strings_Join.induct) auto

lemma char_of_bracket: "n < 256 \<Longrightarrow> n \<noteq> 91 \<Longrightarrow> char_of (n :: nat) \<noteq> CHR ''[''"
proof
  assume n: "n < 256" "n \<noteq> 91" and "char_of n = CHR ''[''"
  then have "of_char (char_of n) = (of_char (CHR ''['') :: nat)" by simp
  then show False using n by simp
qed

lemma dec_no_bracket: "CHR ''['' \<notin> set (dec n)"
proof (induction n rule: dec.induct)
  case (1 n)
  have "CHR ''['' \<noteq> digit_char d" if "d < 10" for d
    using that char_of_bracket[of "48 + d"] by (auto simp: digit_char_def)
  then show ?case using 1 by (subst dec.simps) auto
qed

lemma hex_nat_no_bracket: "CHR ''['' \<notin> set (hex_nat n)"
proof (induction n rule: hex_nat.induct)
  case (1 n)
  have "CHR ''['' \<noteq> hex_char d" if "d < 16" for d
    using that char_of_bracket[of "48 + d"] char_of_bracket[of "87 + d"] by (auto simp: hex_char_def)
  then show ?case using 1 by (subst hex_nat.simps) auto
qed

lemma Join_no_bracket: "\<forall>x\<in>set xs. CHR ''['' \<notin> set x \<Longrightarrow> CHR ''['' \<notin> set sep \<Longrightarrow> CHR ''['' \<notin> set (strings_Join xs sep)"
  using set_strings_Join[of xs sep] by blast

lemma IP_String_no_bracket: "CHR ''['' \<notin> set (IP_String bs)"
proof -
  have v4: "CHR ''['' \<notin> set (ip4_String bs)" for bs
    unfolding ip4_String_def by (rule Join_no_bracket) (auto simp: dec_no_bracket)
  have v6: "CHR ''['' \<notin> set (strings_Join (map hex_nat gs) '':'')" for gs
    by (rule Join_no_bracket) (auto simp: hex_nat_no_bracket)
  define gs where "gs = map (\<lambda>i. 256 * unat (bs ! (2 * i)) + unat (bs ! (2 * i + 1))) [0..<8]"
  have "ip6_String bs = (case zero_run gs of
      Some (i, l) \<Rightarrow> strings_Join (map hex_nat (take i gs)) '':'' @ ''::'' @ strings_Join (map hex_nat (drop (i + l) gs)) '':''
    | None \<Rightarrow> strings_Join (map hex_nat gs) '':'')"
    unfolding ip6_String_def Let_def gs_def[symmetric] by (simp only: take_map drop_map)
  then have "CHR ''['' \<notin> set (ip6_String bs)" using v6 by (auto split: option.split)
  then show ?thesis using v4 by (simp add: IP_String_def)
qed

lemma SockAddr_String_no_bracket: "CHR ''['' \<notin> set (SockAddr_String a)"
  using IP_String_no_bracket dec_no_bracket by (simp add: SockAddr_String_def)

subsection \<open>Container identifiers are found\<close>

lemma after_last_eq:
  "P c \<Longrightarrow> \<forall>x\<in>set r. \<not> P x \<Longrightarrow> f r = Some v \<Longrightarrow> after_last P f (a @ c # r) = Some v"
proof (induction a)
  case Nil
  have "after_last P f r = None" if "\<forall>x\<in>set r. \<not> P x" for r using that by (induction r) auto
  then show ?case using Nil by simp
qed simp

lemma after_last_none: "\<forall>x\<in>set r. \<not> P x \<Longrightarrow> after_last P f r = None"
  by (induction r) auto

lemma lower_hex_not: "lower_hex c \<Longrightarrow> c \<noteq> CHR ''-'' \<and> c \<noteq> CHR '':'' \<and> c \<noteq> CHR ''/'' \<and> c \<noteq> CHR ''.''"
  by (auto simp: lower_hex_def)

lemma match_id_hex: "list_all lower_hex h \<Longrightarrow> h \<noteq> [] \<Longrightarrow> match_id h = Some h"
  by (simp add: match_id_def list_all_iff takeWhile_eq_all_conv[THEN iffD2] dropWhile_eq_Nil_conv[THEN iffD2] Let_def)

lemma match_id_dot: "list_all lower_hex h \<Longrightarrow> h \<noteq> [] \<Longrightarrow> match_id (h @ CHR ''.'' # r) = Some h"
  by (simp add: match_id_def list_all_iff takeWhile_append dropWhile_append lower_hex_def has_prefix_def Let_def)

text \<open>The identifier of a container is found in the two formats of a cgroup line: as the last component of the path, and
  between the last dash and the suffix of a systemd scope.\<close>

theorem container_id_found:
  assumes "list_all lower_hex h" "h \<noteq> []"
  shows "getContainerIDFromLine (pre @ ''/'' @ h) = h \<and>
    (CHR ''/'' \<notin> set name \<longrightarrow> getContainerIDFromLine (pre @ ''/'' @ name @ ''-'' @ h @ ''.scope'') = h)"
proof
  have no: "\<forall>x\<in>set h. x \<noteq> CHR ''-'' \<and> x \<noteq> CHR '':'' \<and> x \<noteq> CHR ''/''" using assms(1) lower_hex_not by (auto simp: list_all_iff)
  have "match_tail h = Some h"
    using no after_last_none[of h "\<lambda>c. c = CHR ''-'' \<or> c = CHR '':''" match_id] match_id_hex[OF assms] by (simp add: match_tail_def)
  then show "getContainerIDFromLine (pre @ ''/'' @ h) = h"
    using no after_last_eq[of "\<lambda>c. c = CHR ''/''" "CHR ''/''" h match_tail h pre] by (auto simp: getContainerIDFromLine_def)
  show "CHR ''/'' \<notin> set name \<longrightarrow> getContainerIDFromLine (pre @ ''/'' @ name @ ''-'' @ h @ ''.scope'') = h"
  proof
    assume name: "CHR ''/'' \<notin> set name"
    have "after_last (\<lambda>c. c = CHR ''-'' \<or> c = CHR '':'') match_id (name @ CHR ''-'' # h @ ''.scope'') = Some h"
      using no match_id_dot[OF assms] by (intro after_last_eq) auto
    then have "match_tail (name @ CHR ''-'' # h @ ''.scope'') = Some h" by (simp add: match_tail_def)
    then have "after_last (\<lambda>c. c = CHR ''/'') match_tail (pre @ CHR ''/'' # name @ CHR ''-'' # h @ ''.scope'') = Some h"
      using no name by (intro after_last_eq) auto
    then show "getContainerIDFromLine (pre @ ''/'' @ name @ ''-'' @ h @ ''.scope'') = h" by (simp add: getContainerIDFromLine_def)
  qed
qed

theorem container_id_found_witness:
  "getContainerIDFromLine ''0::/system.slice/docker-0123456789abcdef.scope'' = ''0123456789abcdef''"
  using container_id_found[of "''0123456789abcdef''" "''0::/system.slice''" "''docker''"] by (simp add: lower_hex_def)

subsection \<open>Every listed socket is found\<close>

lemma netstat_lines_complete:
  assumes "netstat_lines peers ls result = Some (Inr tab)" "map_load peers peer = Some port"
    "map_load result peer \<noteq> None \<or> (\<exists>e. listed ls peer port e)"
  shows "map_load tab peer \<noteq> None"
  using assms
proof (induction peers ls result rule: netstat_lines.induct)
  case (1 peers result)
  then show ?case by (simp add: listed_def)
next
  case (2 peers l ls result)
  let ?f = "Fields (takeWhile (\<lambda>c. c \<noteq> CHR ''#'') l)"
  have len: "\<not> length ?f < 12" using "2.prems"(1) by (auto simp: Let_def)
  obtain r1 r2 where r: "parseAddr (?f ! 1) = Some r1" "parseAddr (?f ! 2) = Some r2" using parseAddr_total by metis
  obtain la where la: "parseAddr (?f ! 1) = Some (Inr la)"
    using "2.prems"(1) len r(1) by (cases r1) (auto simp: Let_def)
  obtain ra where ra: "parseAddr (?f ! 2) = Some (Inr ra)"
    using "2.prems"(1) len la r(2) by (cases r2) (auto simp: Let_def)
  let ?peer = "SockAddr_String la"
  let ?e = "\<lparr>se_Ino = ?f ! 9, se_LocalAddr = la, se_RemoteAddr = ra\<rparr>"
  let ?res = "case map_load peers ?peer of
      Some matchPort \<Rightarrow> if sa_Port ra = word_of_int matchPort then map_store ?peer ?e result else result | None \<Rightarrow> result"
  have step: "netstat_lines peers ls ?res = Some (Inr tab)" using "2.prems"(1) len la ra by (simp add: Let_def)
  have "map_load ?res peer \<noteq> None \<or> (\<exists>e. listed ls peer port e)"
  proof (cases "map_load result peer \<noteq> None \<or> (\<exists>e. listed ls peer port e)")
    case True
    then show ?thesis by (auto split: option.split)
  next
    case False
    then obtain e where "listed (l # ls) peer port e" using "2.prems"(3) by blast
    then have "peer = ?peer" "sa_Port ra = word_of_int port" using False la ra unfolding listed_def Let_def by auto
    then show ?thesis using "2.prems"(2) by simp
  qed
  then show ?case
    using "2.IH"[OF refl len la refl ra refl refl] step "2.prems"(2) by blast
qed

lemma listed_append: "listed (a @ b) peer port e \<longleftrightarrow> listed a peer port e \<or> listed b peer port e"
  unfolding listed_def by (simp add: bex_Un)

lemma netstat_pair_complete:
  assumes "netstat_pair fs tcp tcp6 peers = Some (Inr tab)" "map_load peers peer = Some port"
    "listed (table_lines fs tcp @ table_lines fs tcp6) peer port e"
  shows "map_load tab peer \<noteq> None"
proof -
  obtain r where r: "DoNetstat fs tcp peers [] = Some r" using assms(1) by (auto simp: netstat_pair_def bind_eq_Some_conv)
  then obtain tab1 where 1: "DoNetstat fs tcp peers [] = Some (Inr tab1)" "DoNetstat fs tcp6 peers tab1 = Some (Inr tab)"
    using assms(1) by (cases r) (auto simp: netstat_pair_def)
  have *: "map_load r' peer \<noteq> None" if "DoNetstat fs path peers r = Some (Inr r')"
    "map_load r peer \<noteq> None \<or> (\<exists>e. listed (table_lines fs path) peer port e)" for path r r'
    using that netstat_lines_complete[OF _ assms(2)] by (auto simp: DoNetstat_def table_lines_def split: option.splits)
  then show ?thesis using *[OF 1(1)] *[OF 1(2)] assms(3) unfolding listed_append by blast
qed

end
