(* ===== verification/FillProc.thy ===== *)
theory FillProc
  imports ProcFs Ticker
begin

section \<open>The \<open>fillproc\<close> extension: processes of the peers\<close>

text \<open>
  \<open>extension/fillprocextension\<close>: \<open>socket_cache.go\<close> (matching the sockets of the peers with processes) and \<open>socket_proc.go\<close> (the
  extension that the receivers ask, interface \<open>fillproc.FillProc\<close> of \<open>pkg/fillproc/api.go\<close>).

  The methods of \<open>SocketCache\<close> take the file system at the time of the call; maps are ranged over in the order of the
  association list. \<open>None\<close> is a run-time panic, also that of a nil cache.
\<close>

subsection \<open>The socket cache\<close>

record socket_cache =
  sc_activeProcNum :: int
  sc_Procs :: "(int, proc_info) gomap"
  sc_ToMapSockets :: "(string, int) gomap"
  sc_CachedSockets :: "(string, proc_info) gomap"
  sc_HostNetNamespace :: string

definition newSocketCache :: socket_cache where
  "newSocketCache = \<lparr>sc_activeProcNum = 0, sc_Procs = [], sc_ToMapSockets = [], sc_CachedSockets = [], sc_HostNetNamespace = []\<rparr>"

definition drop_gone :: "(int, bool) gomap \<Rightarrow> int \<times> proc_info \<Rightarrow> socket_cache \<Rightarrow> socket_cache" where
  "drop_gone pids kv c =
     (if map_load pids (fst kv) = None
      then c\<lparr>sc_Procs := map_delete (fst kv) (sc_Procs c), sc_activeProcNum := sc_activeProcNum c - 1\<rparr> else c)"

definition add_new :: "proc_fs \<Rightarrow> int \<times> bool \<Rightarrow> socket_cache \<Rightarrow> socket_cache" where
  "add_new fs kv c =
     (if map_load (sc_Procs c) (fst kv) = None
      then c\<lparr>sc_Procs := map_store (fst kv) (ScanProc fs (fst kv)) (sc_Procs c), sc_activeProcNum := sc_activeProcNum c + 1\<rparr> else c)"

definition scanNewProcs :: "proc_fs \<Rightarrow> socket_cache \<Rightarrow> socket_cache option" where
  "scanNewProcs fs c =
     do {
       r \<leftarrow> FindAllProcesses fs;
       (case r of
          Inl err \<Rightarrow> Some c
        | Inr pids \<Rightarrow> Some (fold (add_new fs) pids (fold (drop_gone pids) (sc_Procs c) c)))
     }"

text \<open>The two passes of \<open>matchSockets\<close>. The first shares one table and stops when all its entries are taken; the second reads a
  table per process in another network namespace and stops when no peer is left.\<close>

definition assign :: "proc_info \<Rightarrow> string list \<Rightarrow> (string, proc_info) gomap \<Rightarrow> (string, proc_info) gomap" where
  "assign p matchPeers result = fold (\<lambda>peer. map_store peer p) matchPeers result"

fun match_vm ::
  "proc_fs \<Rightarrow> (int \<times> proc_info) list \<Rightarrow> sock_tab \<Rightarrow> (string, int) gomap \<Rightarrow> (string, proc_info) gomap \<Rightarrow>
   (string, int) gomap \<times> (string, proc_info) gomap" where
  "match_vm fs [] socks peers result = (peers, result)"
| "match_vm fs ((k, p) # ps) socks peers result =
     (if pi_Ignore p then match_vm fs ps socks peers result
      else
        (let matchPeers = GetMatchNetSockets fs p socks;
             result1 = assign p matchPeers result; socks1 = fold map_delete matchPeers socks; peers1 = fold map_delete matchPeers peers
         in if socks1 = [] then (peers1, result1) else match_vm fs ps socks1 peers1 result1))"

fun match_container ::
  "proc_fs \<Rightarrow> string \<Rightarrow> (int \<times> proc_info) list \<Rightarrow> (string, int) gomap \<Rightarrow> (string, proc_info) gomap \<Rightarrow>
   (string, proc_info) gomap option" where
  "match_container fs hostNs [] peers result = Some result"
| "match_container fs hostNs ((k, p) # ps) peers result =
     (if pi_Ignore p \<or> pi_NetNamespace p = hostNs then match_container fs hostNs ps peers result
      else do {
        r \<leftarrow> ListMatchNetSocks fs p peers;
        (let matchPeers = (case r of Inr socks \<Rightarrow> GetMatchNetSockets fs p socks | Inl err \<Rightarrow> []);
             result1 = assign p matchPeers result; peers1 = fold map_delete matchPeers peers
         in if peers1 = [] then Some result1 else match_container fs hostNs ps peers1 result1)
      })"

definition vm_pass ::
  "proc_fs \<Rightarrow> (string, int) gomap \<Rightarrow> (int \<times> proc_info) list \<Rightarrow> proc_error + sock_tab \<Rightarrow> (string, int) gomap \<times> (string, proc_info) gomap" where
  "vm_pass fs peers procs r =
     (case r of
        Inr socks \<Rightarrow> if socks \<noteq> [] then match_vm fs procs socks peers [] else (peers, [])
      | Inl err \<Rightarrow> (peers, []))"

definition matchSockets :: "proc_fs \<Rightarrow> (string, int) gomap \<Rightarrow> socket_cache \<Rightarrow> (string, proc_info) gomap option" where
  "matchSockets fs peers c =
     do {
       r \<leftarrow> ListVMMatchNetSocks fs peers;
       (let (peers1, result) = vm_pass fs peers (sc_Procs c) r in
        if peers1 = [] \<or> sc_HostNetNamespace c = [] then Some result
        else match_container fs (sc_HostNetNamespace c) (sc_Procs c) peers1 result)
     }"

definition mapSocketToPids :: "proc_fs \<Rightarrow> socket_cache \<Rightarrow> socket_cache option" where
  "mapSocketToPids fs c =
     (let toMatchPeers = sc_ToMapSockets c; c1 = c\<lparr>sc_ToMapSockets := []\<rparr> in
      if toMatchPeers = [] then Some c1
      else do {
        c2 \<leftarrow> scanNewProcs fs c1;
        (if sc_activeProcNum c2 = 0 then Some c2
         else
           (let c3 = (if sc_HostNetNamespace c2 = []
                      then (case map_load (sc_Procs c2) 1 of
                              Some hostProc \<Rightarrow> c2\<lparr>sc_HostNetNamespace := pi_NetNamespace hostProc\<rparr> | None \<Rightarrow> c2)
                      else c2)
            in do {
              result \<leftarrow> matchSockets fs toMatchPeers c3;
              Some (c3\<lparr>sc_CachedSockets := fold (\<lambda>(peer, p). map_store peer p) result (sc_CachedSockets c3)\<rparr>)
            }))
      })"

definition sc_GetContainerIdByPid :: "int \<Rightarrow> socket_cache \<Rightarrow> string" where
  "sc_GetContainerIdByPid pid c = (case map_load (sc_Procs c) pid of Some p \<Rightarrow> pi_ContainerId p | None \<Rightarrow> [])"

subsection \<open>The extension\<close>

record fillproc_config =
  fc_Enable :: bool
  fc_Interval :: int

record socket_proc_ext =
  ex_cache :: "socket_cache option"
  ex_enable :: bool
  ex_interval :: int
  ex_ticker :: "policy_ticker option"

abbreviation defaultSocketProcInterval :: int where
  "defaultSocketProcInterval \<equiv> 5000000000"

definition createDefaultConfig :: fillproc_config where
  "createDefaultConfig = \<lparr>fc_Enable = True, fc_Interval = defaultSocketProcInterval\<rparr>"

text \<open>\<open>accessProc\<close> is the answer of \<open>proc.AccessProc\<close>; an interval below a millisecond is replaced.\<close>

definition newSocketProcExtension :: "fillproc_config \<Rightarrow> bool \<Rightarrow> socket_proc_ext" where
  "newSocketProcExtension cfg accessProc =
     (let interval = (if fc_Interval cfg < 1000000 then defaultSocketProcInterval else fc_Interval cfg);
          enable = (fc_Enable cfg \<and> accessProc)
      in \<lparr>ex_cache = (if enable then Some newSocketCache else None), ex_enable = enable, ex_interval = interval,
          ex_ticker = (if enable then Some NewPolicyTicker else None)\<rparr>)"

definition ext_Start :: "socket_proc_ext \<Rightarrow> socket_proc_ext option" where
  "ext_Start p =
     (if ex_enable p
      then do { t \<leftarrow> ex_ticker p; t1 \<leftarrow> pt_Start (ex_interval p) t; Some (p\<lparr>ex_ticker := Some t1\<rparr>) }
      else Some p)"

definition ext_Shutdown :: "socket_proc_ext \<Rightarrow> socket_proc_ext option" where
  "ext_Shutdown p =
     (if ex_enable p then do { t \<leftarrow> ex_ticker p; t1 \<leftarrow> pt_Stop t; Some (p\<lparr>ex_ticker := Some t1\<rparr>) } else Some p)"

definition peer_key :: "string \<Rightarrow> string" where
  "peer_key peerAddr = (if has_prefix peerAddr ''[::1]:'' then ''::1:'' @ drop 6 peerAddr else peerAddr)"

definition server_port :: "string \<Rightarrow> int" where
  "server_port serverAddr = Atoi_value (drop (nat (LastIndexByte serverAddr (CHR '':'') + 1)) serverAddr)"

definition getMatchPidAndContainerId :: "string \<Rightarrow> string \<Rightarrow> socket_proc_ext \<Rightarrow> (socket_proc_ext \<times> int \<times> string) option" where
  "getMatchPidAndContainerId peerAddr serverAddr p =
     do {
       c \<leftarrow> ex_cache p;
       (let peer = peer_key peerAddr in
        case map_load (sc_CachedSockets c) peer of
          Some procInfo \<Rightarrow> Some (p, pi_ProcessID procInfo, pi_ContainerId procInfo)
        | None \<Rightarrow>
            if map_load (sc_ToMapSockets c) peer = None
            then Some (p\<lparr>ex_cache := Some (c\<lparr>sc_ToMapSockets := map_store peer (server_port serverAddr) (sc_ToMapSockets c)\<rparr>)\<rparr>, 0, [])
            else Some (p, 0, []))
     }"

text \<open>The peer of a gRPC call is an argument: the addresses of both ends, if the context has them. The transports of a gRPC server set both, so
  a peer without a local address, on which the code would panic, is not among the arguments.\<close>

definition GetMatchPidAndContainerId :: "(string \<times> string) option \<Rightarrow> socket_proc_ext \<Rightarrow> (socket_proc_ext \<times> int \<times> string) option" where
  "GetMatchPidAndContainerId ctx p =
     (if \<not> ex_enable p then Some (p, 0, [])
      else case ctx of
             None \<Rightarrow> Some (p, 0, [])
           | Some (peerAddr, localAddr) \<Rightarrow> getMatchPidAndContainerId peerAddr localAddr p)"

definition GetMatchPidAndContainerIdForHttp :: "string \<Rightarrow> string \<Rightarrow> socket_proc_ext \<Rightarrow> (socket_proc_ext \<times> int \<times> string) option" where
  "GetMatchPidAndContainerIdForHttp peerAddr serverAddr p =
     (if \<not> ex_enable p \<or> peerAddr = [] \<or> serverAddr = [] then Some (p, 0, [])
      else getMatchPidAndContainerId peerAddr serverAddr p)"

definition GetContainerIdByPid :: "int \<Rightarrow> socket_proc_ext \<Rightarrow> string option" where
  "GetContainerIdByPid pid p = do { c \<leftarrow> ex_cache p; Some (sc_GetContainerIdByPid pid c) }"

subsection \<open>Known processes\<close>

text \<open>Entries of a directory have a name.\<close>

definition fs_ok :: "proc_fs \<Rightarrow> bool" where
  "fs_ok fs \<longleftrightarrow> (\<forall>dirs. fs_ReadDir fs ''/proc'' = Some dirs \<longrightarrow> (\<forall>di\<in>set dirs. fst di \<noteq> []))"

definition sc_inv :: "socket_cache \<Rightarrow> bool" where
  "sc_inv c \<longleftrightarrow>
     gomap_wf (sc_Procs c) \<and> sc_activeProcNum c = int (length (sc_Procs c)) \<and>
     (\<forall>k p. map_load (sc_Procs c) k = Some p \<longrightarrow> pi_ProcessID p = k) \<and>
     gomap_wf (sc_ToMapSockets c) \<and> gomap_wf (sc_CachedSockets c) \<and>
     dom (map_of (sc_ToMapSockets c)) \<inter> dom (map_of (sc_CachedSockets c)) = {}"

lemma ScanProc_ProcessID [simp]: "pi_ProcessID (ScanProc fs pid) = pid"
  by (simp add: ScanProc_def new_proc_info_def Let_def)

lemma length_delete_present: "gomap_wf m \<Longrightarrow> map_load m k = Some v \<Longrightarrow> Suc (length (map_delete k m)) = length m"
  using delete_absent by (induction m) (fastforce simp: gomap_wf_def map_delete_def map_of_eq_None_iff split: if_splits)+

lemma map_load_deletes: "map_load (fold map_delete ks m) k = (if k \<in> set ks then None else map_load m k)"
  by (induction ks arbitrary: m) auto

lemma wf_deletes: "gomap_wf m \<Longrightarrow> gomap_wf (fold map_delete ks m)"
  by (induction ks arbitrary: m) (auto simp: wf_delete)

text \<open>The part of the invariant that concerns the processes, with the other maps kept.\<close>

definition procs_ok :: "socket_cache \<Rightarrow> socket_cache \<Rightarrow> bool" where
  "procs_ok c c' \<longleftrightarrow>
     gomap_wf (sc_Procs c') \<and> sc_activeProcNum c' = int (length (sc_Procs c')) \<and>
     (\<forall>k p. map_load (sc_Procs c') k = Some p \<longrightarrow> pi_ProcessID p = k) \<and>
     sc_ToMapSockets c' = sc_ToMapSockets c \<and> sc_CachedSockets c' = sc_CachedSockets c \<and> sc_HostNetNamespace c' = sc_HostNetNamespace c"

lemma drop_gone_ok:
  assumes "procs_ok c c'" "map_load pids (fst kv) = None \<Longrightarrow> map_load (sc_Procs c') (fst kv) \<noteq> None"
  shows "procs_ok c (drop_gone pids kv c')"
proof (cases "map_load pids (fst kv)")
  case None
  then obtain p where "map_load (sc_Procs c') (fst kv) = Some p" using assms(2) by blast
  then have "Suc (length (map_delete (fst kv) (sc_Procs c'))) = length (sc_Procs c')"
    using assms(1) length_delete_present by (auto simp: procs_ok_def)
  then have "int (length (sc_Procs c')) - 1 = int (length (map_delete (fst kv) (sc_Procs c')))" by linarith
  with None assms(1) show ?thesis by (auto simp: drop_gone_def procs_ok_def wf_delete split: if_splits)
qed (use assms(1) in \<open>simp add: drop_gone_def\<close>)

lemma drop_gone_fold:
  assumes "procs_ok c c'" "distinct (map fst kvs)" "\<forall>k\<in>fst ` set kvs. map_load (sc_Procs c') k \<noteq> None"
  shows "procs_ok c (fold (drop_gone pids) kvs c') \<and>
    map_of (sc_Procs (fold (drop_gone pids) kvs c')) = (\<lambda>k. if k \<in> fst ` set kvs \<and> map_load pids k = None then None else map_load (sc_Procs c') k)"
  using assms
proof (induction kvs arbitrary: c')
  case (Cons kv kvs)
  let ?c = "drop_gone pids kv c'"
  have ok: "procs_ok c ?c" using drop_gone_ok[OF Cons.prems(1)] Cons.prems(3) by simp
  have load: "map_load (sc_Procs ?c) k = (if k = fst kv \<and> map_load pids k = None then None else map_load (sc_Procs c') k)" for k
    by (auto simp: drop_gone_def)
  have "\<forall>k\<in>fst ` set kvs. map_load (sc_Procs ?c) k \<noteq> None"
  proof
    fix k assume k: "k \<in> fst ` set kvs"
    then have "k \<noteq> fst kv" using Cons.prems(2) by (metis distinct.simps(2) list.map(2) list.set_map)
    moreover have "map_load (sc_Procs c') k \<noteq> None" using k Cons.prems(3) by auto
    ultimately show "map_load (sc_Procs ?c) k \<noteq> None" using load by simp
  qed
  with Cons.IH[OF ok] Cons.prems(2) show ?case by (auto simp: load fun_eq_iff)
qed auto

lemma add_new_ok: "procs_ok c c' \<Longrightarrow> procs_ok c (add_new fs kv c')"
  by (auto simp: add_new_def procs_ok_def wf_store length_store)

lemma add_new_fold:
  "procs_ok c c' \<Longrightarrow> procs_ok c (fold (add_new fs) kvs c') \<and>
   (\<forall>k. map_load (sc_Procs (fold (add_new fs) kvs c')) k =
     (case map_load (sc_Procs c') k of Some p \<Rightarrow> Some p | None \<Rightarrow> if k \<in> fst ` set kvs then Some (ScanProc fs k) else None))"
proof (induction kvs arbitrary: c')
  case (Cons kv kvs)
  have "map_load (sc_Procs (add_new fs kv c')) k =
      (case map_load (sc_Procs c') k of Some p \<Rightarrow> Some p | None \<Rightarrow> if k = fst kv then Some (ScanProc fs k) else None)" for k
    by (auto simp: add_new_def split: option.split)
  then show ?case using Cons.IH[OF add_new_ok[OF Cons.prems]] by (auto split: option.split)
qed (simp split: option.split)

lemma scanNewProcs_ok:
  assumes "fs_ok fs" "sc_inv c"
  shows "\<exists>c'. scanNewProcs fs c = Some c' \<and> procs_ok c c' \<and>
    (\<forall>pids. FindAllProcesses fs = Some (Inr pids) \<longrightarrow>
       map_of (sc_Procs c') = (\<lambda>k. if map_load pids k = None then None
         else case map_load (sc_Procs c) k of Some p \<Rightarrow> Some p | None \<Rightarrow> Some (ScanProc fs k)))"
proof -
  have c: "procs_ok c c" using assms(2) by (simp add: sc_inv_def procs_ok_def)
  obtain r where r: "FindAllProcesses fs = Some r" using FindAllProcesses_total assms(1) by (fastforce simp: fs_ok_def)
  show ?thesis
  proof (cases r)
    case (Inr pids)
    let ?c1 = "fold (drop_gone pids) (sc_Procs c) c"
    have 1: "procs_ok c ?c1"
      "map_load (sc_Procs ?c1) k = (if map_load pids k = None then None else map_load (sc_Procs c) k)" for k
      using drop_gone_fold[OF c, of "sc_Procs c" pids] assms(2) map_of_eq_None_iff[of "sc_Procs c" k]
      by (auto simp: sc_inv_def gomap_wf_def map_of_eq_None_iff split: if_splits)
    have "k \<in> fst ` set pids \<longleftrightarrow> map_load pids k \<noteq> None" for k by (simp add: map_of_eq_None_iff)
    then show ?thesis
      using add_new_fold[OF 1(1), of fs pids] 1(2) r Inr by (auto simp: scanNewProcs_def fun_eq_iff split: option.split)
  qed (use r c in \<open>simp add: scanNewProcs_def\<close>)
qed

subsection \<open>Matched sockets belong to the process\<close>

text \<open>The process has an open file that is a socket which one of the tables it can be in lists for the peer and port.\<close>

definition owns :: "proc_fs \<Rightarrow> proc_info \<Rightarrow> string \<Rightarrow> int \<Rightarrow> bool" where
  "owns fs p peer port \<longleftrightarrow>
     \<not> pi_Ignore p \<and>
     (\<exists>e fd. fs_Readlink fs (Path (pi_ProcessID p) [''fd'', fd]) = Some (socket_link (se_Ino e)) \<and>
        (listed (table_lines fs ''/proc/net/tcp'' @ table_lines fs ''/proc/net/tcp6'') peer port e \<or>
         listed (table_lines fs (Path (pi_ProcessID p) [''net'', ''tcp'']) @ table_lines fs (Path (pi_ProcessID p) [''net'', ''tcp6'']))
           peer port e))"

definition sound_result :: "proc_fs \<Rightarrow> (string, int) gomap \<Rightarrow> (string, proc_info) gomap \<Rightarrow> bool" where
  "sound_result fs peers result \<longleftrightarrow>
     (\<forall>peer p. map_load result peer = Some p \<longrightarrow> (\<exists>port. map_load peers peer = Some port \<and> owns fs p peer port))"

lemma load_assign: "map_load (assign p ms result) peer = (if peer \<in> set ms then Some p else map_load result peer)"
  unfolding assign_def by (induction ms arbitrary: result) auto

lemma sound_tab_deletes: "sound_tab ls peers tab \<Longrightarrow> sound_tab ls peers (fold map_delete ks tab)"
  by (auto simp: sound_tab_def map_load_deletes wf_deletes split: if_splits)

lemma sound_tab_sub: "sound_tab ls peers tab \<Longrightarrow> map_of peers \<subseteq>\<^sub>m map_of peers0 \<Longrightarrow> sound_tab ls peers0 tab"
  by (fastforce simp: sound_tab_def map_le_def dom_def)

lemma assign_sound:
  assumes "sound_result fs peers result" "sound_tab ls peers socks" "\<not> pi_Ignore p"
    and ls: "ls = table_lines fs ''/proc/net/tcp'' @ table_lines fs ''/proc/net/tcp6'' \<or>
      ls = table_lines fs (Path (pi_ProcessID p) [''net'', ''tcp'']) @ table_lines fs (Path (pi_ProcessID p) [''net'', ''tcp6''])"
  shows "sound_result fs peers (assign p (GetMatchNetSockets fs p socks) result)"
proof -
  have "\<exists>port. map_load peers peer = Some port \<and> owns fs p peer port" if m: "peer \<in> set (GetMatchNetSockets fs p socks)" for peer
  proof -
    have wf: "gomap_wf socks" using assms(2) by (simp add: sound_tab_def)
    obtain e fd where e: "map_load socks peer = Some e" "fs_Readlink fs (Path (pi_ProcessID p) [''fd'', fd]) = Some (socket_link (se_Ino e))"
      using GetMatchNetSockets_sound[OF m wf] by blast
    then obtain port where "map_load peers peer = Some port" "listed ls peer port e" using assms(2) by (auto simp: sound_tab_def)
    then show ?thesis using e assms(3) ls unfolding owns_def by blast
  qed
  then show ?thesis using assms(1) by (auto simp: sound_result_def load_assign)
qed

lemma match_vm_sound:
  assumes "ls = table_lines fs ''/proc/net/tcp'' @ table_lines fs ''/proc/net/tcp6''"
    "sound_tab ls peers0 socks" "sound_result fs peers0 result" "map_of peers \<subseteq>\<^sub>m map_of peers0"
    "match_vm fs ps socks peers result = (peers', result')"
  shows "sound_result fs peers0 result' \<and> map_of peers' \<subseteq>\<^sub>m map_of peers0"
  using assms
proof (induction fs ps socks peers result rule: match_vm.induct)
  case (2 fs k p ps socks peers result)
  let ?m = "GetMatchNetSockets fs p socks"
  show ?case
  proof (cases "pi_Ignore p")
    case False
    have "sound_result fs peers0 (assign p ?m result)" using assign_sound[OF "2.prems"(3,2) False] "2.prems"(1) by blast
    moreover have "map_of (fold map_delete ?m peers) \<subseteq>\<^sub>m map_of peers0"
      using "2.prems"(4) by (auto simp: map_le_def dom_def map_load_deletes)
    ultimately show ?thesis
      using "2.IH"(2)[OF False refl refl refl refl] sound_tab_deletes[OF "2.prems"(2)] "2.prems"(1,5) False
      by (auto simp: Let_def split: if_splits)
  qed (use "2.IH"(1) "2.prems" in simp)
qed simp

lemma match_container_sound:
  assumes "sound_result fs peers0 result" "map_of peers \<subseteq>\<^sub>m map_of peers0"
  shows "\<exists>result'. match_container fs ns ps peers result = Some result' \<and> sound_result fs peers0 result' \<and>
    dom (map_of result) \<subseteq> dom (map_of result')"
  using assms
proof (induction fs ns ps peers result rule: match_container.induct)
  case (2 fs ns k p ps peers result)
  show ?case
  proof (cases "pi_Ignore p \<or> pi_NetNamespace p = ns")
    case False
    let ?ls = "table_lines fs (Path (pi_ProcessID p) [''net'', ''tcp'']) @ table_lines fs (Path (pi_ProcessID p) [''net'', ''tcp6''])"
    obtain r where r: "ListMatchNetSocks fs p peers = Some r" "\<forall>tab. r = Inr tab \<longrightarrow> sound_tab ?ls peers tab"
      using netstat_pair_sound[of fs] unfolding ListMatchNetSocks_def by blast
    define m where "m = (case r of Inr socks \<Rightarrow> GetMatchNetSockets fs p socks | Inl err \<Rightarrow> [])"
    have sound: "sound_result fs peers0 (assign p m result)"
    proof (cases r)
      case (Inr socks)
      then have "sound_tab ?ls peers0 socks" using r(2) sound_tab_sub[OF _ "2.prems"(2)] by blast
      then show ?thesis using assign_sound[OF "2.prems"(1)] False Inr by (simp add: m_def)
    qed (use "2.prems"(1) in \<open>simp add: m_def assign_def\<close>)
    have le: "map_of (fold map_delete m peers) \<subseteq>\<^sub>m map_of peers0"
      using "2.prems"(2) by (auto simp: map_le_def dom_def map_load_deletes)
    have dom: "dom (map_of result) \<subseteq> dom (map_of (assign p m result))" by (auto simp: load_assign dom_def)
    have eq: "match_container fs ns ((k, p) # ps) peers result =
        (if fold map_delete m peers = [] then Some (assign p m result) else match_container fs ns ps (fold map_delete m peers) (assign p m result))"
      using False r(1) by (simp add: m_def Let_def)
    show ?thesis
    proof (cases "fold map_delete m peers = []")
      case True
      then show ?thesis using eq sound dom by simp
    next
      case ne: False
      from "2.IH"(2)[OF False r(1) m_def refl refl ne sound le] eq ne dom show ?thesis by auto
    qed
  qed (use "2.IH"(1) "2.prems" in simp)
qed simp

lemma matchSockets_sound:
  "\<exists>result. matchSockets fs peers c = Some result \<and> sound_result fs peers result"
proof -
  let ?ls = "table_lines fs ''/proc/net/tcp'' @ table_lines fs ''/proc/net/tcp6''"
  obtain r where r: "ListVMMatchNetSocks fs peers = Some r" "\<forall>tab. r = Inr tab \<longrightarrow> sound_tab ?ls peers tab"
    using netstat_pair_sound[of fs] unfolding ListVMMatchNetSocks_def by blast
  have empty: "sound_result fs peers []" by (simp add: sound_result_def)
  obtain peers1 result where pr: "vm_pass fs peers (sc_Procs c) r = (peers1, result)" by fastforce
  have vm: "sound_result fs peers result \<and> map_of peers1 \<subseteq>\<^sub>m map_of peers"
    using pr r(2) match_vm_sound[OF refl _ empty map_le_refl] empty by (auto simp: vm_pass_def split: sum.splits if_splits)
  then show ?thesis
    using match_container_sound[of fs peers result peers1 "sc_HostNetNamespace c" "sc_Procs c"] r(1) pr
    by (auto simp: matchSockets_def)
qed

lemma load_fold_store_pairs:
  "gomap_wf result \<Longrightarrow> map_load (fold (\<lambda>(k, v). map_store k v) result m) k = (case map_load result k of Some v \<Rightarrow> Some v | None \<Rightarrow> map_load m k)"
proof (induction result arbitrary: m)
  case (Cons kv result)
  obtain a b where kv: "kv = (a, b)" by (cases kv)
  have wf: "gomap_wf result" and a: "map_load result a = None"
    using Cons.prems kv by (auto simp: gomap_wf_def map_of_eq_None_iff)
  show ?case using Cons.IH[OF wf] a kv by (auto split: option.split)
qed simp

lemma wf_assign: "gomap_wf result \<Longrightarrow> gomap_wf (assign p ms result)"
  unfolding assign_def by (induction ms arbitrary: result) (auto simp: wf_store)

lemma match_vm_wf: "gomap_wf result \<Longrightarrow> gomap_wf (snd (match_vm fs ps socks peers result))"
  by (induction fs ps socks peers result rule: match_vm.induct) (auto simp: Let_def wf_assign)

lemma match_container_wf: "gomap_wf result \<Longrightarrow> match_container fs ns ps peers result = Some result' \<Longrightarrow> gomap_wf result'"
  by (induction fs ns ps peers result rule: match_container.induct)
    (auto simp: Let_def wf_assign bind_eq_Some_conv split: if_splits)

lemma matchSockets_wf: "matchSockets fs peers c = Some result \<Longrightarrow> gomap_wf result"
proof -
  assume m: "matchSockets fs peers c = Some result"
  then obtain r where r: "ListVMMatchNetSocks fs peers = Some r" by (auto simp: matchSockets_def bind_eq_Some_conv)
  obtain peers1 result1 where v: "vm_pass fs peers (sc_Procs c) r = (peers1, result1)" by fastforce
  have "gomap_wf (snd (vm_pass fs peers (sc_Procs c) r))"
    using match_vm_wf[of "[]" fs "sc_Procs c" _ peers] by (simp add: vm_pass_def gomap_wf_def split: sum.split)
  then have "gomap_wf result1" by (simp add: v)
  then show ?thesis using m match_container_wf by (auto simp: matchSockets_def r v split: if_splits)
qed

text \<open>The known processes after a tick.\<close>

lemma mapSocketToPids_ok:
  assumes "fs_ok fs" "sc_inv c"
  shows "\<exists>c'. mapSocketToPids fs c = Some c' \<and> sc_inv c' \<and> sc_ToMapSockets c' = [] \<and>
    (\<forall>peer. map_load (sc_CachedSockets c') peer = map_load (sc_CachedSockets c) peer \<or>
       (\<exists>p port. map_load (sc_CachedSockets c') peer = Some p \<and> map_load (sc_ToMapSockets c) peer = Some port \<and> owns fs p peer port))"
proof (cases "sc_ToMapSockets c = []")
  case True
  then show ?thesis using assms(2) by (auto simp: mapSocketToPids_def sc_inv_def)
next
  case False
  let ?c1 = "c\<lparr>sc_ToMapSockets := []\<rparr>"
  have c1: "sc_inv ?c1" using assms(2) by (simp add: sc_inv_def gomap_wf_def)
  obtain c2 where c2: "scanNewProcs fs ?c1 = Some c2" "procs_ok ?c1 c2" using scanNewProcs_ok[OF assms(1) c1] by blast
  have inv2: "sc_inv c2" using c1 c2(2) by (simp add: sc_inv_def procs_ok_def gomap_wf_def)
  define c3 where "c3 = (if sc_HostNetNamespace c2 = []
      then (case map_load (sc_Procs c2) 1 of Some hostProc \<Rightarrow> c2\<lparr>sc_HostNetNamespace := pi_NetNamespace hostProc\<rparr> | None \<Rightarrow> c2) else c2)"
  have c3: "sc_inv c3" "sc_ToMapSockets c3 = []" "sc_CachedSockets c3 = sc_CachedSockets c"
    using inv2 c2(2) by (auto simp: c3_def sc_inv_def procs_ok_def split: option.split)
  obtain result where res: "matchSockets fs (sc_ToMapSockets c) c3 = Some result" "sound_result fs (sc_ToMapSockets c) result" "gomap_wf result"
    using matchSockets_sound matchSockets_wf by metis
  let ?cached = "fold (\<lambda>(peer, p). map_store peer p) result (sc_CachedSockets c)"
  have load: "map_load ?cached peer = (case map_load result peer of Some p \<Rightarrow> Some p | None \<Rightarrow> map_load (sc_CachedSockets c) peer)" for peer
    by (rule load_fold_store_pairs[OF res(3)])
  have wf: "gomap_wf (fold (\<lambda>(peer, p). map_store peer p) r m)" if "gomap_wf m" for r :: "(string \<times> proc_info) list" and m
    using that by (induction r arbitrary: m) (auto simp: wf_store)
  have "sc_inv (c3\<lparr>sc_CachedSockets := ?cached\<rparr>)" using c3(1,2) wf[of "sc_CachedSockets c" result] assms(2) by (auto simp: sc_inv_def)
  moreover have "mapSocketToPids fs c = Some (if sc_activeProcNum c2 = 0 then c2 else c3\<lparr>sc_CachedSockets := ?cached\<rparr>)"
    using False c2(1) res(1) c3(3) by (simp add: mapSocketToPids_def c3_def[symmetric] Let_def)
  ultimately show ?thesis
    using inv2 c2(2) c3(2) load res(2) by (auto simp: procs_ok_def sound_result_def split: option.splits)
qed

subsection \<open>Runs of the extension\<close>

text \<open>The three questions of the interface \<open>fillproc.FillProc\<close> and the tick.\<close>

datatype fp_event =
  FP_Grpc "(string \<times> string) option" | FP_Http string string | FP_Container int | FP_Tick proc_fs

definition fp_step :: "fp_event \<Rightarrow> socket_proc_ext \<Rightarrow> socket_proc_ext option" where
  "fp_step ev p =
     (case ev of
        FP_Grpc ctx \<Rightarrow> map_option fst (GetMatchPidAndContainerId ctx p)
      | FP_Http a b \<Rightarrow> map_option fst (GetMatchPidAndContainerIdForHttp a b p)
      | FP_Container pid \<Rightarrow> map_option (\<lambda>_. p) (GetContainerIdByPid pid p)
      | FP_Tick fs \<Rightarrow>
          if ex_enable p then do { c \<leftarrow> ex_cache p; c1 \<leftarrow> mapSocketToPids fs c; Some (p\<lparr>ex_cache := Some c1\<rparr>) } else Some p)"

definition ev_ok :: "fp_event \<Rightarrow> bool" where
  "ev_ok ev \<longleftrightarrow> (case ev of FP_Tick fs \<Rightarrow> fs_ok fs | _ \<Rightarrow> True)"

definition ext_inv :: "socket_proc_ext \<Rightarrow> bool" where
  "ext_inv p \<longleftrightarrow> (ex_enable p \<longleftrightarrow> ex_cache p \<noteq> None) \<and> (\<forall>c. ex_cache p = Some c \<longrightarrow> sc_inv c)"

definition ext_cached :: "socket_proc_ext \<Rightarrow> string \<Rightarrow> proc_info option" where
  "ext_cached p peer = (case ex_cache p of Some c \<Rightarrow> map_load (sc_CachedSockets c) peer | None \<Rightarrow> None)"

lemma new_ext_inv: "ext_inv (newSocketProcExtension cfg access)"
  by (simp add: ext_inv_def newSocketProcExtension_def newSocketCache_def sc_inv_def gomap_wf_def Let_def)

lemma getMatch_ok:
  assumes "ext_inv p" "ex_enable p"
  shows "\<exists>p' pid cid. getMatchPidAndContainerId a b p = Some (p', pid, cid) \<and> ext_inv p' \<and> ext_cached p' = ext_cached p \<and>
    (case ext_cached p (peer_key a) of
       Some q \<Rightarrow> p' = p \<and> pid = pi_ProcessID q \<and> cid = pi_ContainerId q
     | None \<Rightarrow> pid = 0 \<and> cid = [] \<and> (\<exists>c. ex_cache p' = Some c \<and> map_load (sc_ToMapSockets c) (peer_key a) \<noteq> None))"
proof -
  obtain c where c: "ex_cache p = Some c" "sc_inv c" using assms by (auto simp: ext_inv_def)
  show ?thesis
    using assms c by (auto simp: getMatchPidAndContainerId_def ext_cached_def ext_inv_def sc_inv_def wf_store fun_eq_iff Let_def split: option.splits)
qed

lemma container_question: "ext_inv p \<Longrightarrow> fp_step (FP_Container pid) p = (if ex_enable p then Some p else None)"
  by (auto simp: fp_step_def GetContainerIdByPid_def ext_inv_def)

lemma fp_step_ok:
  assumes "ext_inv p" "ev_ok ev" "ex_enable p \<or> (\<forall>pid. ev \<noteq> FP_Container pid)"
  shows "\<exists>p'. fp_step ev p = Some p' \<and> ext_inv p' \<and> (\<forall>peer q. ext_cached p peer = Some q \<longrightarrow> ext_cached p' peer = Some q)"
proof (cases "ex_enable p")
  case False
  then show ?thesis using assms(1,3)
    by (auto simp: fp_step_def GetMatchPidAndContainerId_def GetMatchPidAndContainerIdForHttp_def split: fp_event.split)
next
  case True
  then obtain c where c: "ex_cache p = Some c" "sc_inv c" using assms(1) by (auto simp: ext_inv_def)
  show ?thesis
  proof (cases ev)
    case (FP_Grpc ctx)
    then show ?thesis using True assms(1) getMatch_ok[OF assms(1) True]
      by (fastforce simp: fp_step_def GetMatchPidAndContainerId_def split: option.split)
  next
    case (FP_Http a b)
    then show ?thesis using True assms(1) getMatch_ok[OF assms(1) True, of a b]
      by (auto simp: fp_step_def GetMatchPidAndContainerIdForHttp_def)
  next
    case (FP_Container pid)
    then show ?thesis using True assms(1) by (simp add: container_question)
  next
    case (FP_Tick fs)
    then obtain c' where c': "mapSocketToPids fs c = Some c'" "sc_inv c'"
      "\<forall>peer. map_load (sc_CachedSockets c') peer = map_load (sc_CachedSockets c) peer \<or> map_load (sc_ToMapSockets c) peer \<noteq> None"
      using mapSocketToPids_ok[OF _ c(2), of fs] assms(2) by (fastforce simp: ev_ok_def)
    have "map_load (sc_CachedSockets c') peer = Some q" if "map_load (sc_CachedSockets c) peer = Some q" for peer q
      using that c(2) c'(3) by (auto simp: sc_inv_def) (metis IntI domI empty_iff)
    then show ?thesis using True FP_Tick c c' by (auto simp: fp_step_def ext_inv_def ext_cached_def)
  qed
qed

abbreviation fp_run :: "fp_event list \<Rightarrow> socket_proc_ext \<Rightarrow> socket_proc_ext option" where
  "fp_run \<equiv> fold_opt fp_step"

lemma fp_step_enable: "fp_step ev p = Some p' \<Longrightarrow> ex_enable p' = ex_enable p"
  by (auto simp: fp_step_def GetMatchPidAndContainerId_def GetMatchPidAndContainerIdForHttp_def getMatchPidAndContainerId_def
      Let_def bind_eq_Some_conv split: fp_event.splits option.splits if_splits)

lemma fp_step_inv:
  assumes "ext_inv p" "ev_ok ev" "fp_step ev p = Some p'"
  shows "ext_inv p' \<and> (\<forall>peer q. ext_cached p peer = Some q \<longrightarrow> ext_cached p' peer = Some q)"
proof -
  have "ex_enable p \<or> (\<forall>pid. ev \<noteq> FP_Container pid)" using assms(1,3) container_question by force
  from fp_step_ok[OF assms(1,2) this] assms(3) show ?thesis by simp
qed

lemma fp_step_panics:
  "ext_inv p \<Longrightarrow> ev_ok ev \<Longrightarrow> fp_step ev p = None \<longleftrightarrow> \<not> ex_enable p \<and> (\<exists>pid. ev = FP_Container pid)"
  using fp_step_ok[of p ev] container_question[of p] by (cases "ex_enable p \<or> (\<forall>pid. ev \<noteq> FP_Container pid)") auto

lemma fp_run_inv:
  "fp_run evs p = Some p' \<Longrightarrow> ext_inv p \<Longrightarrow> \<forall>ev\<in>set evs. ev_ok ev \<Longrightarrow>
   ext_inv p' \<and> (\<forall>peer q. ext_cached p peer = Some q \<longrightarrow> ext_cached p' peer = Some q)"
proof (induction evs arbitrary: p)
  case (Cons ev evs)
  then obtain p1 where p1: "fp_step ev p = Some p1" "fp_run evs p1 = Some p'" by (auto simp: bind_eq_Some_conv)
  with fp_step_inv[OF Cons.prems(2) _ p1(1)] Cons.prems(3) Cons.IH[OF p1(2)] show ?case by simp
qed simp

lemma fp_run_panics:
  "ext_inv p \<Longrightarrow> \<forall>ev\<in>set evs. ev_ok ev \<Longrightarrow>
   fp_run evs p = None \<longleftrightarrow> \<not> ex_enable p \<and> (\<exists>pid. FP_Container pid \<in> set evs)"
proof (induction evs arbitrary: p)
  case (Cons ev evs)
  show ?case
  proof (cases "fp_step ev p")
    case None
    then show ?thesis using fp_step_panics[of p ev] Cons.prems by auto
  next
    case (Some p1)
    then have "\<not> ex_enable p \<longrightarrow> (\<forall>pid. ev \<noteq> FP_Container pid)" using fp_step_panics[of p ev] Cons.prems by auto
    with Some fp_step_inv[of p ev p1] fp_step_enable[OF Some] Cons show ?thesis by auto
  qed
qed simp

subsection \<open>The owner of a socket is found\<close>

definition has_fd :: "proc_fs \<Rightarrow> int \<Rightarrow> string \<Rightarrow> bool" where
  "has_fd fs pid ino \<longleftrightarrow>
     (\<exists>dirs fd. fs_ReadDir fs (Path pid [''fd'']) = Some dirs \<and> (fd, False) \<in> set dirs \<and>
        fs_Readlink fs (Path pid [''fd'', fd]) = Some (socket_link ino))"

lemma GetMatchNetSockets_complete:
  assumes "map_load socks peer = Some e" "has_fd fs (pi_ProcessID p) (se_Ino e)"
  shows "peer \<in> set (GetMatchNetSockets fs p socks)"
proof -
  obtain dirs fd where d: "fs_ReadDir fs (Path (pi_ProcessID p) [''fd'']) = Some dirs" "(fd, False) \<in> set dirs"
    "fs_Readlink fs (Path (pi_ProcessID p) [''fd'', fd]) = Some (socket_link (se_Ino e))"
    using assms(2) by (auto simp: has_fd_def)
  have "(peer, e) \<in> set (filter (\<lambda>(peer, sock). socket_link (se_Ino sock) = socket_link (se_Ino e)) socks)"
    using map_of_SomeD[OF assms(1)] by simp
  then have "peer \<in> set (fd_peers fs p socks (fd, False))"
    using d(3) by (force simp: fd_peers_def socket_link_def has_prefix_def)
  then show ?thesis using d(1,2) by (auto simp: GetMatchNetSockets_def)
qed

lemma match_vm_complete:
  assumes "sound_tab ls peers0 socks" "map_load peers0 peer = Some port" "\<forall>e. listed ls peer port e \<longrightarrow> se_Ino e = ino"
    "\<not> pi_Ignore p" "has_fd fs (pi_ProcessID p) ino"
    "map_load result peer \<noteq> None \<or> map_load socks peer \<noteq> None \<and> p \<in> snd ` set ps"
  shows "map_load (snd (match_vm fs ps socks peers result)) peer \<noteq> None"
  using assms
proof (induction fs ps socks peers result rule: match_vm.induct)
  case (2 fs k q ps socks peers result)
  show ?case
  proof (cases "pi_Ignore q")
    case True
    then have "map_load result peer \<noteq> None \<or> map_load socks peer \<noteq> None \<and> p \<in> snd ` set ps" using "2.prems"(4,6) by auto
    then show ?thesis using "2.IH"(1)[OF True] "2.prems" True by simp
  next
    case False
    define m where "m = GetMatchNetSockets fs q socks"
    have "map_load (assign q m result) peer \<noteq> None \<or> map_load (fold map_delete m socks) peer \<noteq> None \<and> p \<in> snd ` set ps"
    proof (cases "peer \<in> set m \<or> map_load result peer \<noteq> None")
      case ne: False
      then obtain e where e: "map_load socks peer = Some e" "p \<in> snd ` set ((k, q) # ps)" using "2.prems"(6) by auto
      then have "se_Ino e = ino" using "2.prems"(1-3) by (fastforce simp: sound_tab_def)
      then have "p \<noteq> q" using ne GetMatchNetSockets_complete[OF e(1)] "2.prems"(5) by (auto simp: m_def)
      then show ?thesis using ne e by (auto simp: map_load_deletes)
    qed (auto simp: load_assign)
    then show ?thesis
      using "2.IH"(2)[OF False m_def refl refl refl] sound_tab_deletes[OF "2.prems"(1)] "2.prems"(2-5) False
      by (auto simp: m_def[symmetric] Let_def)
  qed
qed simp

lemma match_container_mono:
  "match_container fs ns ps peers result = Some result' \<Longrightarrow> map_load result peer \<noteq> None \<Longrightarrow> map_load result' peer \<noteq> None"
  by (induction fs ns ps peers result rule: match_container.induct)
    (auto simp: Let_def load_assign bind_eq_Some_conv split: if_splits)

lemma matchSockets_complete:
  assumes vm: "ListVMMatchNetSocks fs peers = Some (Inr socks)" and peer: "map_load peers peer = Some port"
    and e: "listed ls peer port e" "\<forall>e'. listed ls peer port e' \<longrightarrow> se_Ino e' = se_Ino e"
      "ls = table_lines fs ''/proc/net/tcp'' @ table_lines fs ''/proc/net/tcp6''"
    and p: "map_load (sc_Procs c) pid = Some p" "\<not> pi_Ignore p" "has_fd fs (pi_ProcessID p) (se_Ino e)"
    and m: "matchSockets fs peers c = Some result"
  shows "map_load result peer \<noteq> None"
proof -
  have sock: "map_load socks peer \<noteq> None"
    using netstat_pair_complete[OF vm[unfolded ListVMMatchNetSocks_def] peer] e(1,3) by blast
  have sound: "sound_tab ls peers socks"
    using netstat_pair_sound[of fs "''/proc/net/tcp''" "''/proc/net/tcp6''" peers] vm e(3) by (auto simp: ListVMMatchNetSocks_def)
  have "p \<in> snd ` set (sc_Procs c)" using map_of_SomeD[OF p(1)] by force
  then have "map_load (snd (match_vm fs (sc_Procs c) socks peers [])) peer \<noteq> None"
    using match_vm_complete[OF sound peer e(2) p(2,3)] sock by blast
  moreover have "vm_pass fs peers (sc_Procs c) (Inr socks) = match_vm fs (sc_Procs c) socks peers []"
    using sock by (auto simp: vm_pass_def)
  ultimately show ?thesis using m match_container_mono
    by (auto simp: matchSockets_def vm split: prod.splits if_splits)
qed

lemma mapSocketToPids_complete:
  assumes "fs_ok fs" "sc_inv c" "map_load (sc_ToMapSockets c) peer = Some port"
    and pids: "FindAllProcesses fs = Some (Inr pids)" "map_load pids pid \<noteq> None"
    and p: "\<not> pi_Ignore (case map_load (sc_Procs c) pid of Some q \<Rightarrow> q | None \<Rightarrow> ScanProc fs pid)"
    and vm: "ListVMMatchNetSocks fs (sc_ToMapSockets c) = Some (Inr socks)"
    and e: "listed ls peer port e" "\<forall>e'. listed ls peer port e' \<longrightarrow> se_Ino e' = se_Ino e"
      "ls = table_lines fs ''/proc/net/tcp'' @ table_lines fs ''/proc/net/tcp6''" "has_fd fs pid (se_Ino e)"
  shows "\<exists>c' q. mapSocketToPids fs c = Some c' \<and> map_load (sc_CachedSockets c') peer = Some q \<and> owns fs q peer port"
proof -
  let ?c1 = "c\<lparr>sc_ToMapSockets := []\<rparr>" and ?p = "case map_load (sc_Procs c) pid of Some q \<Rightarrow> q | None \<Rightarrow> ScanProc fs pid"
  have c1: "sc_inv ?c1" using assms(2) by (simp add: sc_inv_def gomap_wf_def)
  obtain c2 where c2: "scanNewProcs fs ?c1 = Some c2" "procs_ok ?c1 c2" "map_load (sc_Procs c2) pid = Some ?p"
    using scanNewProcs_ok[OF assms(1) c1] pids by (auto split: option.split)
  define c3 where "c3 = (if sc_HostNetNamespace c2 = []
      then (case map_load (sc_Procs c2) 1 of Some hostProc \<Rightarrow> c2\<lparr>sc_HostNetNamespace := pi_NetNamespace hostProc\<rparr> | None \<Rightarrow> c2) else c2)"
  have c3: "sc_Procs c3 = sc_Procs c2" "sc_CachedSockets c3 = sc_CachedSockets c"
    using c2(2) by (auto simp: c3_def procs_ok_def split: option.split)
  have ne: "sc_ToMapSockets c \<noteq> []" "sc_activeProcNum c2 \<noteq> 0"
    using assms(3) c2(2,3) by (auto simp: procs_ok_def)
  have pid: "pi_ProcessID ?p = pid" using c2(2,3) by (auto simp: procs_ok_def)
  obtain result where res: "matchSockets fs (sc_ToMapSockets c) c3 = Some result" "sound_result fs (sc_ToMapSockets c) result" "gomap_wf result"
    using matchSockets_sound matchSockets_wf by metis
  then have "map_load result peer \<noteq> None"
    using matchSockets_complete[OF vm assms(3) e(1-3) _ p _ res(1), of pid] c2(3) c3(1) e(4) pid by simp
  then obtain q where q1: "map_load result peer = Some q" by blast
  with res(2) assms(3) have q: "map_load result peer = Some q" "owns fs q peer port"
    by (auto simp: sound_result_def dest!: spec[of _ peer])
  have "mapSocketToPids fs c = Some (c3\<lparr>sc_CachedSockets := fold (\<lambda>(peer, p). map_store peer p) result (sc_CachedSockets c3)\<rparr>)"
    using ne c2(1) res(1) by (simp add: mapSocketToPids_def c3_def[symmetric] Let_def)
  then show ?thesis using q load_fold_store_pairs[OF res(3)] by simp
qed

lemma fp_run_enable: "fp_run evs p = Some p' \<Longrightarrow> ex_enable p' = ex_enable p"
proof (induction evs arbitrary: p)
  case (Cons e es)
  then obtain p1 where p1: "fp_step e p = Some p1" "fp_run es p1 = Some p'" by (auto simp: bind_eq_Some_conv)
  then show ?case using Cons.IH[OF p1(2)] fp_step_enable[OF p1(1)] by simp
qed simp

subsection \<open>Properties of the extension\<close>

lemma reachable_inv:
  "fp_run evs (newSocketProcExtension cfg access) = Some p \<Longrightarrow> \<forall>ev\<in>set evs. ev_ok ev \<Longrightarrow> ext_inv p"
  using fp_run_inv[OF _ new_ext_inv] by blast

text \<open>C18: Panics of the extension, exactly. Whatever the configuration, the extension starts. When it is enabled, which takes the configuration and a
  readable \<open>/proc\<close>, every sequence of ticks and of the three questions of its interface is handled without a panic; when it is
  disabled, exactly the sequences that ask for the container of a process panic. After every other one the number of active processes is the number of
  known ones. Entries of the directory \<open>/proc\<close> are assumed to have names.\<close>

theorem fillproc_never_panics:
  assumes "\<forall>ev\<in>set evs. ev_ok ev"
  shows "\<exists>p. ext_Start (newSocketProcExtension cfg access) = Some p \<and>
    (fp_run evs p = None \<longleftrightarrow> \<not> (fc_Enable cfg \<and> access) \<and> (\<exists>pid. FP_Container pid \<in> set evs)) \<and>
    (\<forall>p' c. fp_run evs p = Some p' \<and> ex_cache p' = Some c \<longrightarrow> sc_activeProcNum c = int (length (sc_Procs c)))"
proof -
  have "\<exists>p. ext_Start (newSocketProcExtension cfg access) = Some p \<and> ext_inv p \<and> (ex_enable p \<longleftrightarrow> fc_Enable cfg \<and> access)"
    using new_ext_inv[of cfg access]
    by (auto simp: ext_Start_def newSocketProcExtension_def pt_Start_def ext_inv_def Let_def)
  then obtain p where p: "ext_Start (newSocketProcExtension cfg access) = Some p" "ext_inv p" "ex_enable p \<longleftrightarrow> fc_Enable cfg \<and> access"
    by blast
  then show ?thesis using fp_run_panics[OF p(2) assms] fp_run_inv[OF _ p(2) assms] by (auto simp: ext_inv_def sc_inv_def)
qed

text \<open>C17: A process that is newly reported for a peer has a socket open that the socket tables list with this local address and with
  the port of the server the peer talked to.\<close>

theorem matched_process_owns_socket:
  assumes "fp_run evs (newSocketProcExtension cfg access) = Some p" "\<forall>ev\<in>set evs. ev_ok ev" "fs_ok fs"
    "fp_step (FP_Tick fs) p = Some p'" "ext_cached p' peer = Some q" "ext_cached p peer \<noteq> Some q"
  shows "\<exists>c port. ex_cache p = Some c \<and> map_load (sc_ToMapSockets c) peer = Some port \<and> owns fs q peer port"
proof -
  have inv: "ext_inv p" by (rule reachable_inv[OF assms(1,2)])
  have en: "ex_enable p" using assms(4-6) by (auto simp: fp_step_def split: if_splits)
  then obtain c where c: "ex_cache p = Some c" "sc_inv c" "ex_enable p"
    using inv by (auto simp: ext_inv_def)
  obtain c' where "mapSocketToPids fs c = Some c'" "p' = p\<lparr>ex_cache := Some c'\<rparr>"
    using assms(4) c by (auto simp: fp_step_def bind_eq_Some_conv)
  then have "\<exists>port. map_load (sc_ToMapSockets c) peer = Some port \<and> owns fs q peer port"
    using mapSocketToPids_ok[OF assms(3) c(2)] assms(5,6) c(1) by (auto simp: ext_cached_def dest!: spec[of _ peer])
  then show ?thesis using c(1) by blast
qed

text \<open>C16: A peer that has been asked for is identified at the next tick, when the socket tables can be read and list its socket,
  with one inode, and a process that is not skipped has it open.\<close>

theorem peer_is_identified:
  assumes run: "fp_run evs (newSocketProcExtension cfg access) = Some p" "\<forall>ev\<in>set evs. ev_ok ev" "ex_cache p = Some c"
    and asked: "map_load (sc_ToMapSockets c) peer = Some port" and fs: "fs_ok fs"
    and proc: "FindAllProcesses fs = Some (Inr pids)" "map_load pids pid \<noteq> None"
      "\<not> pi_Ignore (case map_load (sc_Procs c) pid of Some q \<Rightarrow> q | None \<Rightarrow> ScanProc fs pid)" "has_fd fs pid (se_Ino e)"
    and table: "ListVMMatchNetSocks fs (sc_ToMapSockets c) = Some (Inr socks)"
      "ls = table_lines fs ''/proc/net/tcp'' @ table_lines fs ''/proc/net/tcp6''"
      "listed ls peer port e" "\<forall>e'. listed ls peer port e' \<longrightarrow> se_Ino e' = se_Ino e"
  shows "\<exists>p' q. fp_step (FP_Tick fs) p = Some p' \<and> ext_cached p' peer = Some q \<and> owns fs q peer port"
proof -
  have "ext_inv p" by (rule reachable_inv[OF run(1,2)])
  then have c: "sc_inv c" "ex_enable p" using run(3) by (auto simp: ext_inv_def)
  obtain c' q where "mapSocketToPids fs c = Some c'" "map_load (sc_CachedSockets c') peer = Some q" "owns fs q peer port"
    using mapSocketToPids_complete[OF fs c(1) asked proc(1,2,3) table(1,3,4,2) proc(4)] by blast
  then show ?thesis using c(2) run(3) by (simp add: fp_step_def ext_cached_def)
qed

text \<open>A process once reported for a peer is reported for ever, in whatever order questions and ticks follow and whatever has
  become of the process and its socket.\<close>

theorem cached_process_never_expires:
  assumes "fp_run evs (newSocketProcExtension cfg access) = Some p" "\<forall>ev\<in>set evs. ev_ok ev"
    "ext_cached p (peer_key peer) = Some q" "\<forall>ev\<in>set evs'. ev_ok ev"
  shows "\<exists>p'. fp_run evs' p = Some p' \<and> getMatchPidAndContainerId peer server p' = Some (p', pi_ProcessID q, pi_ContainerId q)"
proof -
  have inv: "ext_inv p" by (rule reachable_inv[OF assms(1,2)])
  then have "ex_enable p" using assms(3) by (auto simp: ext_inv_def ext_cached_def split: option.splits)
  then obtain p' where p': "fp_run evs' p = Some p'" "ext_inv p'" "ext_cached p' (peer_key peer) = Some q"
    using fp_run_panics[OF inv assms(4)] fp_run_inv[OF _ inv assms(4)] assms(3) by blast
  have "ex_enable p'" using p'(2,3) by (auto simp: ext_inv_def ext_cached_def split: option.splits)
  then show ?thesis using getMatch_ok[OF p'(2), of peer server] p'(1,3) by auto
qed

lemma owns_no_bracket: "owns fs q peer port \<Longrightarrow> CHR ''['' \<notin> set peer"
  using SockAddr_String_no_bracket by (auto simp: owns_def listed_def Let_def)

lemma fp_step_cached:
  assumes "ext_inv p" "ev_ok ev" "fp_step ev p = Some p'" "CHR ''['' \<in> set peer" "ext_cached p peer = None"
  shows "ext_cached p' peer = None"
proof (cases "ex_enable p")
  case False
  then show ?thesis using assms(1,3,5) container_question[OF assms(1)]
    by (auto simp: fp_step_def GetMatchPidAndContainerId_def GetMatchPidAndContainerIdForHttp_def split: fp_event.splits)
next
  case True
  then obtain c where c: "ex_cache p = Some c" "sc_inv c" using assms(1) by (auto simp: ext_inv_def)
  have ask: "ext_cached p' = ext_cached p" if "map_option fst (getMatchPidAndContainerId a b p) = Some p'" for a b
    using getMatch_ok[OF assms(1) True, of a b] that by auto
  show ?thesis
  proof (cases ev)
    case (FP_Grpc ctx)
    then have "p' = p \<or> (\<exists>a b. map_option fst (getMatchPidAndContainerId a b p) = Some p')"
      using assms(3) True by (auto simp: fp_step_def GetMatchPidAndContainerId_def split: option.splits)
    then show ?thesis using ask assms(5) by metis
  next
    case (FP_Container pid)
    then show ?thesis using assms(3,5) True container_question[OF assms(1)] by simp
  next
    case (FP_Http a b)
    then show ?thesis using assms(3,5) True ask by (auto simp: fp_step_def GetMatchPidAndContainerIdForHttp_def split: if_splits)
  next
    case (FP_Tick fs)
    then obtain c' where c': "mapSocketToPids fs c = Some c'" "p' = p\<lparr>ex_cache := Some c'\<rparr>"
      using assms(3) True c by (auto simp: fp_step_def bind_eq_Some_conv)
    have ok: "fs_ok fs" using FP_Tick assms(2) by (simp add: ev_ok_def)
    show ?thesis
      using mapSocketToPids_ok[OF ok c(2)] owns_no_bracket[of _ _ peer] assms(4,5) c(1) c'
      by (auto simp: ext_cached_def dest!: spec[of _ peer])
  qed
qed

text \<open>The keys of the socket tables are printed without brackets: a peer with an IPv6 address other than \<open>::1\<close> is never identified,
  however often it is asked for.\<close>

theorem ipv6_peer_never_identified:
  assumes "fp_run evs (newSocketProcExtension cfg True) = Some p" "\<forall>ev\<in>set evs. ev_ok ev" "fc_Enable cfg"
    "CHR ''['' \<in> set peer" "\<not> has_prefix peer ''[::1]:''"
  shows "\<exists>p'. getMatchPidAndContainerId peer server p = Some (p', 0, [])"
proof -
  have none: "ext_cached p' peer = None" if "fp_run es p0 = Some p'" "ext_inv p0" "\<forall>ev\<in>set es. ev_ok ev" "ext_cached p0 peer = None" for es p0 p'
    using that
  proof (induction es arbitrary: p0)
    case (Cons e es)
    then obtain p1 where p1: "fp_step e p0 = Some p1" "fp_run es p1 = Some p'" by (auto simp: bind_eq_Some_conv)
    then show ?case using Cons.IH[OF p1(2)] fp_step_inv[OF _ _ p1(1)] fp_step_cached[OF _ _ p1(1) assms(4)] Cons.prems by auto
  qed simp
  have "ext_cached p peer = None"
    using none[OF assms(1) new_ext_inv assms(2)] by (simp add: ext_cached_def newSocketProcExtension_def newSocketCache_def Let_def)
  moreover have "ex_enable p" using fp_run_enable[OF assms(1)] assms(3) by (simp add: newSocketProcExtension_def Let_def)
  ultimately show ?thesis
    using getMatch_ok[OF reachable_inv[OF assms(1,2)], of peer server] assms(5) by (auto simp: peer_key_def)
qed

subsection \<open>A file system with one process\<close>

definition demo_line :: string where
  "demo_line = ''0: 0100007F:9C40 0100007F:10DD 01 0:0 0:0 0 0 0 4242 1 0 20''"

definition demo_fs :: proc_fs where
  "demo_fs = \<lparr>
     fs_ReadDir = (\<lambda>d. if d = ''/proc'' then Some [(''7'', True), (''self'', True)]
                      else if d = ''/proc/7/fd'' then Some [(''3'', False)] else None),
     fs_Readlink = (\<lambda>l. if l = ''/proc/7/exe'' then Some ''/bin/app'' else if l = ''/proc/7/ns/net'' then Some ''net:[1]''
                       else if l = ''/proc/7/fd/3'' then Some ''socket:[4242]'' else None),
     fs_ReadFile = (\<lambda>f. if f = ''/proc/net/tcp'' then Some (''sl'' @ [CHR 0x0A] @ demo_line @ [CHR 0x0A])
                       else if f = ''/proc/net/tcp6'' then Some (''sl'' @ [CHR 0x0A])
                       else if f = ''/proc/7/comm'' then Some (''app'' @ [CHR 0x0A])
                       else if f = ''/proc/7/cmdline'' then Some ''app'' else if f = ''/proc/7/root/etc/hostname'' then Some ''host'' else None)\<rparr>"

definition demo_entry :: sock_tab_entry where
  "demo_entry = \<lparr>se_Ino = ''4242'', se_LocalAddr = \<lparr>sa_IP = [127, 0, 0, 1], sa_Port = 40000\<rparr>,
     se_RemoteAddr = \<lparr>sa_IP = [127, 0, 0, 1], sa_Port = 4317\<rparr>\<rparr>"

lemma demo_addr:
  "parseAddr ''0100007F:9C40'' = Some (Inr (se_LocalAddr demo_entry))" "parseAddr ''0100007F:10DD'' = Some (Inr (se_RemoteAddr demo_entry))"
  by (simp_all add: parseAddr_def parseIPv4_def ParseUint16_def hex_digit_def le_bytes_def upt_rec demo_entry_def Let_def)

lemma demo_peer: "SockAddr_String (se_LocalAddr demo_entry) = ''127.0.0.1:40000''"
  by (simp add: demo_entry_def SockAddr_String_def IP_String_def ip4_String_def dec.simps digit_char_def char_of_def bit_0)

lemma demo_fields: "Fields (takeWhile (\<lambda>c. c \<noteq> CHR ''#'') demo_line) =
  [''0:'', ''0100007F:9C40'', ''0100007F:10DD'', ''01'', ''0:0'', ''0:0'', ''0'', ''0'', ''0'', ''4242'', ''1'', ''0'', ''20'']"
  by (simp add: demo_line_def Fields.simps is_space_def)

lemma demo_tables: "table_lines demo_fs ''/proc/net/tcp'' = [demo_line]" "table_lines demo_fs ''/proc/net/tcp6'' = []"
  by (simp_all add: demo_fs_def table_lines_def scan_lines_def TrimSuffix_def has_suffix_def demo_line_def Let_def)

lemma demo_Path: "Path 7 xs = strings_Join (''/proc'' # ''7'' # xs) ''/''"
  by (simp add: Path_def dec_int_def dec.simps digit_char_def char_of_def bit_0)

definition demo_question :: fp_event where
  "demo_question = FP_Http ''127.0.0.1:40000'' ''127.0.0.1:4317''"

abbreviation demo_ext :: socket_proc_ext where
  "demo_ext \<equiv> newSocketProcExtension createDefaultConfig True"

definition demo_asked :: socket_proc_ext where
  "demo_asked = demo_ext\<lparr>ex_cache := Some (newSocketCache\<lparr>sc_ToMapSockets := [(''127.0.0.1:40000'', 4317)]\<rparr>)\<rparr>"

lemma demo_run: "fp_run [demo_question] demo_ext = Some demo_asked"
  by (simp add: demo_question_def demo_asked_def fp_step_def GetMatchPidAndContainerIdForHttp_def getMatchPidAndContainerId_def
      newSocketProcExtension_def createDefaultConfig_def newSocketCache_def peer_key_def has_prefix_def server_port_def
      LastIndexByte_def Atoi_value_def map_store_def Let_def)

lemma demo_ok: "fs_ok demo_fs" "ev_ok demo_question" "ev_ok (FP_Tick demo_fs)"
  by (simp_all add: fs_ok_def demo_fs_def ev_ok_def demo_question_def)

lemma demo_pids: "FindAllProcesses demo_fs = Some (Inr [(7, True)])"
  by (simp add: FindAllProcesses_def demo_fs_def add_pid_def isDirectoryPid_def Atoi_value_def map_store_def Let_def)

lemma demo_scan: "\<not> pi_Ignore (ScanProc demo_fs 7)"
  by (simp add: ScanProc_def new_proc_info_def demo_fs_def GetExeName_def GetNetNamespace_def GetComm_def GetCommandLine_def GetHostName_def
      demo_Path SkipBlackComm_def blackComms_def SkipBlackCmdline_def blackCmdList_def TrimSuffix_def TrimSpace_def is_space_def
      has_suffix_def has_prefix_def Let_def)

lemma demo_fd: "has_fd demo_fs 7 ''4242''"
  by (simp add: has_fd_def demo_Path demo_fs_def socket_link_def)

lemma demo_listed: "listed [demo_line] ''127.0.0.1:40000'' 4317 e \<longleftrightarrow> e = demo_entry"
  unfolding listed_def Let_def using demo_peer demo_addr
  by (auto simp: demo_fields demo_entry_def)

lemma demo_vm: "\<exists>socks. ListVMMatchNetSocks demo_fs [(''127.0.0.1:40000'', 4317)] = Some (Inr socks)"
proof -
  have "DoNetstat demo_fs ''/proc/net/tcp'' peers tab = netstat_lines peers [demo_line] tab"
    "DoNetstat demo_fs ''/proc/net/tcp6'' peers tab = netstat_lines peers [] tab" for peers tab
    using demo_tables by (auto simp: DoNetstat_def table_lines_def split: option.splits) (simp_all add: demo_fs_def)
  then show ?thesis by (simp add: ListVMMatchNetSocks_def netstat_pair_def demo_fields demo_addr demo_peer Let_def)
qed

theorem fillproc_never_panics_witness:
  "\<exists>p p'. ext_Start demo_ext = Some p \<and> fp_run [demo_question, FP_Tick demo_fs, FP_Container 7] p = Some p' \<and>
     (\<forall>c. ex_cache p' = Some c \<longrightarrow> sc_activeProcNum c = int (length (sc_Procs c)))"
  using fillproc_never_panics[of "[demo_question, FP_Tick demo_fs, FP_Container 7]" createDefaultConfig True] demo_ok
  by (auto simp: ev_ok_def createDefaultConfig_def)

definition demo_cache :: socket_cache where
  "demo_cache = newSocketCache\<lparr>sc_ToMapSockets := [(''127.0.0.1:40000'', 4317)]\<rparr>"

lemma demo_cache: "ex_cache demo_asked = Some demo_cache" "map_load (sc_ToMapSockets demo_cache) ''127.0.0.1:40000'' = Some 4317"
  "sc_inv demo_cache" "\<not> pi_Ignore (case map_load (sc_Procs demo_cache) 7 of Some q \<Rightarrow> q | None \<Rightarrow> ScanProc demo_fs 7)"
  "\<exists>socks. ListVMMatchNetSocks demo_fs (sc_ToMapSockets demo_cache) = Some (Inr socks)" "sc_CachedSockets demo_cache = []"
  using demo_scan demo_vm by (simp_all add: demo_asked_def demo_cache_def newSocketCache_def sc_inv_def gomap_wf_def)

lemma demo_table:
  "[demo_line] = table_lines demo_fs ''/proc/net/tcp'' @ table_lines demo_fs ''/proc/net/tcp6''"
  "listed [demo_line] ''127.0.0.1:40000'' 4317 demo_entry"
  "\<forall>e'. listed [demo_line] ''127.0.0.1:40000'' 4317 e' \<longrightarrow> se_Ino e' = se_Ino demo_entry"
  "has_fd demo_fs 7 (se_Ino demo_entry)" "map_load [(7 :: int, True)] 7 \<noteq> None"
  using demo_fd by (simp_all add: demo_tables demo_listed demo_entry_def)

lemma demo_identified:
  "\<exists>c' q. mapSocketToPids demo_fs demo_cache = Some c' \<and> map_load (sc_CachedSockets c') ''127.0.0.1:40000'' = Some q \<and>
     owns demo_fs q ''127.0.0.1:40000'' 4317"
proof -
  obtain socks where "ListVMMatchNetSocks demo_fs (sc_ToMapSockets demo_cache) = Some (Inr socks)" using demo_cache(5) by blast
  from mapSocketToPids_complete[OF demo_ok(1) demo_cache(3,2) demo_pids demo_table(5) demo_cache(4) this demo_table(2,3,1,4)]
  show ?thesis by blast
qed

theorem peer_is_identified_witness:
  "\<exists>p' q. fp_step (FP_Tick demo_fs) demo_asked = Some p' \<and> ext_cached p' ''127.0.0.1:40000'' = Some q \<and>
     owns demo_fs q ''127.0.0.1:40000'' 4317"
proof -
  obtain socks where socks: "ListVMMatchNetSocks demo_fs (sc_ToMapSockets demo_cache) = Some (Inr socks)" using demo_cache(5) by blast
  show ?thesis
    by (rule peer_is_identified[OF demo_run _ demo_cache(1,2) demo_ok(1) demo_pids demo_table(5) demo_cache(4) demo_table(4) socks
        demo_table(1-3)]) (use demo_ok in simp)
qed

definition demo_matched :: socket_proc_ext where
  "demo_matched = the (fp_step (FP_Tick demo_fs) demo_asked)"

lemma demo_matched:
  obtains q where "fp_step (FP_Tick demo_fs) demo_asked = Some demo_matched" "ext_cached demo_matched ''127.0.0.1:40000'' = Some q"
    "owns demo_fs q ''127.0.0.1:40000'' 4317"
  using demo_identified demo_cache(1) that
  by (auto simp: demo_matched_def fp_step_def ext_cached_def demo_asked_def newSocketProcExtension_def createDefaultConfig_def)

theorem matched_process_owns_socket_witness:
  "\<exists>q port. ext_cached demo_matched ''127.0.0.1:40000'' = Some q \<and> owns demo_fs q ''127.0.0.1:40000'' port"
proof -
  obtain q where q: "fp_step (FP_Tick demo_fs) demo_asked = Some demo_matched" "ext_cached demo_matched ''127.0.0.1:40000'' = Some q"
    by (rule demo_matched)
  have "ext_cached demo_asked ''127.0.0.1:40000'' \<noteq> Some q" using demo_cache(1,6) by (simp add: ext_cached_def)
  then show ?thesis using matched_process_owns_socket[OF demo_run _ demo_ok(1) q] q(2) demo_ok by auto
qed

theorem cached_process_never_expires_witness:
  "\<exists>(q :: proc_info) p'. fp_run [FP_Tick demo_fs, demo_question] demo_matched = Some p' \<and>
     getMatchPidAndContainerId ''127.0.0.1:40000'' ''127.0.0.1:4317'' p' = Some (p', pi_ProcessID q, pi_ContainerId q)"
proof -
  obtain q where q: "fp_step (FP_Tick demo_fs) demo_asked = Some demo_matched" "ext_cached demo_matched ''127.0.0.1:40000'' = Some q"
    by (rule demo_matched)
  have run: "fp_run [demo_question, FP_Tick demo_fs] demo_ext = Some demo_matched"
    using demo_run q(1) by (simp add: bind_eq_Some_conv)
  have key: "peer_key ''127.0.0.1:40000'' = ''127.0.0.1:40000''" by (simp add: peer_key_def has_prefix_def)
  have "\<exists>p'. fp_run [FP_Tick demo_fs, demo_question] demo_matched = Some p' \<and>
      getMatchPidAndContainerId ''127.0.0.1:40000'' ''127.0.0.1:4317'' p' = Some (p', pi_ProcessID q, pi_ContainerId q)"
    by (rule cached_process_never_expires[OF run]) (use key q(2) demo_ok in simp_all)
  then show ?thesis by blast
qed

theorem ipv6_peer_never_identified_witness:
  "\<exists>p'. getMatchPidAndContainerId ''[fe80::1]:40000'' ''[fe80::2]:4317'' demo_asked = Some (p', 0, [])"
  using ipv6_peer_never_identified[OF demo_run, of "''[fe80::1]:40000''" "''[fe80::2]:4317''"] demo_ok
  by (simp add: createDefaultConfig_def has_prefix_def)

end
