(* ===== verification/OtlpReceiver.thy ===== *)
theory OtlpReceiver
  imports FillProc Pdata
begin

section \<open>The OTLP receiver\<close>

text \<open>
  \<open>receiver/otlpreceiver\<close>: the trace, metrics and logs services (\<open>internal/trace/otlp.go\<close>, \<open>internal/metrics\<close>, \<open>internal/logs\<close>), the
  translation of errors (\<open>internal/errors\<close>, \<open>internal/httphelper\<close>), the HTTP handlers (\<open>otlphttp.go\<close>) and the configuration.

  An error is a gRPC status, or wraps one, or has none; the last two may be marked permanent. The extension the receiver asks
  is a record of the operations of the Go interface \<open>fillproc.FillProc\<close> on a state; the wire formats, \<open>mime.ParseMediaType\<close> and
  \<open>url.Parse\<close> are arguments; the next consumer answers with an error or none. \<open>None\<close> is a run-time panic.
\<close>

subsection \<open>Errors\<close>

datatype grpc_code =
  OK | Canceled | Unknown | InvalidArgument | DeadlineExceeded | NotFound | AlreadyExists | PermissionDenied | ResourceExhausted
| FailedPrecondition | Aborted | OutOfRange | Unimplemented | Internal | Unavailable | DataLoss | Unauthenticated

fun code_String :: "grpc_code \<Rightarrow> string" where
  "code_String OK = ''OK''"
| "code_String Canceled = ''Canceled''"
| "code_String Unknown = ''Unknown''"
| "code_String InvalidArgument = ''InvalidArgument''"
| "code_String DeadlineExceeded = ''DeadlineExceeded''"
| "code_String NotFound = ''NotFound''"
| "code_String AlreadyExists = ''AlreadyExists''"
| "code_String PermissionDenied = ''PermissionDenied''"
| "code_String ResourceExhausted = ''ResourceExhausted''"
| "code_String FailedPrecondition = ''FailedPrecondition''"
| "code_String Aborted = ''Aborted''"
| "code_String OutOfRange = ''OutOfRange''"
| "code_String Unimplemented = ''Unimplemented''"
| "code_String Internal = ''Internal''"
| "code_String Unavailable = ''Unavailable''"
| "code_String DataLoss = ''DataLoss''"
| "code_String Unauthenticated = ''Unauthenticated''"

text \<open>\<open>WrappedErr p c m\<close> is an error with text \<open>m\<close> that is no status itself and has one with code \<open>c\<close> in its chain, and whether
  \<open>consumererror.Permanent\<close> is in the chain too.\<close>

datatype go_error = StatusErr grpc_code string | WrappedErr bool grpc_code string | PlainErr bool string

fun err_permanent :: "go_error \<Rightarrow> bool" where
  "err_permanent (StatusErr c m) = False"
| "err_permanent (WrappedErr p c m) = p"
| "err_permanent (PlainErr p m) = p"

fun err_Error :: "go_error \<Rightarrow> string" where
  "err_Error (StatusErr c m) = ''rpc error: code = '' @ code_String c @ '' desc = '' @ m"
| "err_Error (WrappedErr p c m) = m"
| "err_Error (PlainErr p m) = m"

text \<open>\<open>status.FromError\<close> and \<open>(*Status).Err\<close>: for a wrapped status the message is the text of the whole error.\<close>

fun FromError :: "go_error \<Rightarrow> (grpc_code \<times> string) option" where
  "FromError (StatusErr c m) = Some (c, m)"
| "FromError (WrappedErr p c m) = Some (c, m)"
| "FromError (PlainErr p m) = None"

definition status_Err :: "grpc_code \<times> string \<Rightarrow> go_error option" where
  "status_Err s = (if fst s = OK then None else Some (StatusErr (fst s) (snd s)))"

definition GetStatusFromError :: "go_error \<Rightarrow> go_error option" where
  "GetStatusFromError err =
     status_Err
       (case FromError err of
          Some s \<Rightarrow> s
        | None \<Rightarrow> (let code = (if err_permanent err then Internal else Unavailable) in (code, err_Error err)))"

definition GetHTTPStatusCodeFromStatus :: "grpc_code \<times> string \<Rightarrow> nat" where
  "GetHTTPStatusCodeFromStatus s =
     (if fst s \<in> {Canceled, DeadlineExceeded, Aborted, OutOfRange, Unavailable, DataLoss} then 503
      else if fst s = ResourceExhausted then 429
      else 500)"

definition NewStatusFromMsgAndHTTPCode :: "string \<Rightarrow> nat \<Rightarrow> grpc_code \<times> string" where
  "NewStatusFromMsgAndHTTPCode errMsg statusCode =
     (let c = (if statusCode = 400 then InvalidArgument
               else if statusCode = 401 then Unauthenticated
               else if statusCode = 403 then PermissionDenied
               else if statusCode = 404 then Unimplemented
               else if statusCode = 429 then ResourceExhausted
               else if statusCode \<in> {502, 503, 504} then Unavailable
               else Unknown)
      in (c, errMsg))"

subsection \<open>The trace service\<close>

record 's fill_proc_ops =
  fp_Match :: "(string \<times> string) option \<Rightarrow> 's \<Rightarrow> ('s \<times> int \<times> string) option"
  fp_MatchHttp :: "string \<Rightarrow> string \<Rightarrow> 's \<Rightarrow> ('s \<times> int \<times> string) option"
  fp_ContainerIdByPid :: "int \<Rightarrow> 's \<Rightarrow> string option"

text \<open>The operations of the extension of the repository.\<close>

definition socket_proc_ops :: "socket_proc_ext fill_proc_ops" where
  "socket_proc_ops = \<lparr>fp_Match = GetMatchPidAndContainerId, fp_MatchHttp = GetMatchPidAndContainerIdForHttp,
     fp_ContainerIdByPid = GetContainerIdByPid\<rparr>"

abbreviation AttributeTelemetrySDKName :: string where "AttributeTelemetrySDKName \<equiv> ''telemetry.sdk.name''"
abbreviation AttributeServiceInstanceID :: string where "AttributeServiceInstanceID \<equiv> ''service.instance.id''"

definition getBeylaPid :: "attrs \<Rightarrow> int" where
  "getBeylaPid attributes =
     (if (case map_load attributes AttributeTelemetrySDKName of Some sdkName \<Rightarrow> value_Str sdkName \<noteq> ''beyla'' | None \<Rightarrow> False) then 0
      else case map_load attributes AttributeServiceInstanceID of
             Some serviceInstanceId \<Rightarrow>
               (let instanceId = value_Str serviceInstanceId in
                case Atoi (drop (nat (LastIndexByte instanceId (CHR ''-'') + 1)) instanceId) of Some pid \<Rightarrow> pid | None \<Rightarrow> 0)
           | None \<Rightarrow> 0)"

definition getContainerId :: "attrs \<Rightarrow> string" where
  "getContainerId attributes = (case map_load attributes AttributeContainerID of Some containerId \<Rightarrow> value_Str containerId | None \<Rightarrow> [])"

definition put_proc :: "int \<Rightarrow> string \<Rightarrow> attrs \<Rightarrow> attrs" where
  "put_proc pid containerId resourceAttr =
     (let r1 = (if pid > 0 then map_store KEY_PID (ValueInt pid) resourceAttr else resourceAttr) in
      if containerId \<noteq> [] then map_store KEY_CONTAINERID (ValueStr containerId) r1 else r1)"

text \<open>The extension is \<open>None\<close> when none is configured.\<close>

definition fillPidAndContainerId :: "'s fill_proc_ops \<Rightarrow> 's option \<Rightarrow> int \<Rightarrow> string \<Rightarrow> attrs \<Rightarrow> attrs option" where
  "fillPidAndContainerId ops ext pid containerId resourceAttr =
     (let beylaPid = getBeylaPid resourceAttr in
      if beylaPid > 0 then
        do {
          cid \<leftarrow> (case ext of Some s \<Rightarrow> fp_ContainerIdByPid ops beylaPid s | None \<Rightarrow> Some containerId);
          Some (put_proc beylaPid cid resourceAttr)
        }
      else
        (let resContainerId = getContainerId resourceAttr in
         if resContainerId \<noteq> [] then
           (if containerId \<noteq> [] \<and> resContainerId = containerId \<and> pid > 0
            then Some (map_store KEY_CONTAINERID (ValueStr containerId) (map_store KEY_PID (ValueInt pid) resourceAttr))
            else Some resourceAttr)
         else Some (put_proc pid containerId resourceAttr)))"

fun fill_resources :: "'s fill_proc_ops \<Rightarrow> 's option \<Rightarrow> int \<Rightarrow> string \<Rightarrow> traces \<Rightarrow> traces option" where
  "fill_resources ops ext pid containerId [] = Some []"
| "fill_resources ops ext pid containerId (rs # td) =
     do {
       a \<leftarrow> fillPidAndContainerId ops ext pid containerId (rs_Resource rs);
       td1 \<leftarrow> fill_resources ops ext pid containerId td;
       Some (rs\<lparr>rs_Resource := a\<rparr> # td1)
     }"

text \<open>\<open>Export\<close> and \<open>ExportHttp\<close> differ in the question they ask the extension. The result: the extension afterwards, the batch the
  next consumer got, and the error of the response.\<close>

definition export_with ::
  "('s \<Rightarrow> ('s \<times> int \<times> string) option) \<Rightarrow> 's fill_proc_ops \<Rightarrow> (traces \<Rightarrow> go_error option) \<Rightarrow> 's option \<Rightarrow> traces \<Rightarrow>
   ('s option \<times> traces option \<times> go_error option) option" where
  "export_with ask ops next_consumer ext td =
     (if traces_spans td = [] then Some (ext, None, None)
      else do {
        (ext1, pid, containerId) \<leftarrow>
          (case ext of
             Some s \<Rightarrow> do { (s1, pid, cid) \<leftarrow> ask s; Some (Some s1, pid, cid) }
           | None \<Rightarrow> Some (None, 0, []));
        td1 \<leftarrow> fill_resources ops ext1 pid containerId td;
        Some (ext1, Some td1, (case next_consumer td1 of Some err \<Rightarrow> GetStatusFromError err | None \<Rightarrow> None))
      })"

definition trace_Export where
  "trace_Export ops next_consumer ctx ext td = export_with (fp_Match ops ctx) ops next_consumer ext td"

definition trace_ExportHttp where
  "trace_ExportHttp ops next_consumer remoteAddr host ext td = export_with (fp_MatchHttp ops remoteAddr host) ops next_consumer ext td"

text \<open>The metrics and the logs service forward a request that is not empty.\<close>

definition metrics_Export :: "('m \<Rightarrow> nat) \<Rightarrow> ('m \<Rightarrow> go_error option) \<Rightarrow> 'm \<Rightarrow> 'm option \<times> go_error option" where
  "metrics_Export dataPointCount next_consumer md =
     (if dataPointCount md = 0 then (None, None)
      else (Some md, (case next_consumer md of Some err \<Rightarrow> GetStatusFromError err | None \<Rightarrow> None)))"

definition logs_Export :: "('l \<Rightarrow> nat) \<Rightarrow> ('l \<Rightarrow> go_error option) \<Rightarrow> 'l \<Rightarrow> 'l option \<times> go_error option" where
  "logs_Export logRecordCount next_consumer ld =
     (if logRecordCount ld = 0 then (None, None)
      else (Some ld, (case next_consumer ld of Some err \<Rightarrow> GetStatusFromError err | None \<Rightarrow> None)))"

subsection \<open>HTTP\<close>

record http_request =
  rq_Method :: string
  rq_ContentType :: string
  rq_Body :: "go_error + string"
  rq_CloseErr :: "go_error option"

record http_response =
  rw_Status :: nat
  rw_ContentType :: string
  rw_Body :: string

text \<open>An encoder for one signal: request and response of the signal, and the status message.\<close>

record ('req, 'resp) encoder =
  en_unmarshal :: "string \<Rightarrow> go_error + 'req"
  en_marshal :: "'resp \<Rightarrow> go_error + string"
  en_marshalStatus :: "grpc_code \<times> string \<Rightarrow> go_error + string"
  en_contentType :: string

abbreviation pbContentType :: string where "pbContentType \<equiv> ''application/x-protobuf''"
abbreviation jsonContentType :: string where "jsonContentType \<equiv> ''application/json''"

text \<open>The two encoders of \<open>encoder.go\<close>. The functions of the OTLP and protobuf libraries they call are \<open>wire_format\<close>.\<close>

record ('req, 'resp) wire_format =
  wf_UnmarshalProto :: "string \<Rightarrow> go_error + 'req"
  wf_UnmarshalJSON :: "string \<Rightarrow> go_error + 'req"
  wf_MarshalProto :: "'resp \<Rightarrow> go_error + string"
  wf_MarshalJSON :: "'resp \<Rightarrow> go_error + string"
  wf_proto_Marshal :: "grpc_code \<times> string \<Rightarrow> go_error + string"
  wf_jsonpb_Marshal :: "grpc_code \<times> string \<Rightarrow> go_error + string"

definition protoEncoder :: "('req, 'resp) wire_format \<Rightarrow> ('req, 'resp) encoder" where
  "protoEncoder wire = \<lparr>en_unmarshal = wf_UnmarshalProto wire, en_marshal = wf_MarshalProto wire, en_marshalStatus = wf_proto_Marshal wire,
     en_contentType = pbContentType\<rparr>"

definition jsonEncoder :: "('req, 'resp) wire_format \<Rightarrow> ('req, 'resp) encoder" where
  "jsonEncoder wire = \<lparr>en_unmarshal = wf_UnmarshalJSON wire, en_marshal = wf_MarshalJSON wire, en_marshalStatus = wf_jsonpb_Marshal wire,
     en_contentType = jsonContentType\<rparr>"

definition fallbackMsg :: string where
  "fallbackMsg = ''{\"code\": 13, \"message\": \"failed to marshal error message\"}''"

definition writeStatusResponse :: "('req, 'resp) encoder \<Rightarrow> nat \<Rightarrow> grpc_code \<times> string \<Rightarrow> http_response" where
  "writeStatusResponse enc statusCode s =
     (case en_marshalStatus enc s of
        Inl err \<Rightarrow> \<lparr>rw_Status = 500, rw_ContentType = jsonContentType, rw_Body = fallbackMsg\<rparr>
      | Inr msg \<Rightarrow> \<lparr>rw_Status = statusCode, rw_ContentType = en_contentType enc, rw_Body = msg\<rparr>)"

definition writeError :: "('req, 'resp) encoder \<Rightarrow> go_error \<Rightarrow> nat \<Rightarrow> http_response" where
  "writeError enc err statusCode =
     (case FromError err of
        Some s \<Rightarrow> writeStatusResponse enc (GetHTTPStatusCodeFromStatus s) s
      | None \<Rightarrow> writeStatusResponse enc statusCode (NewStatusFromMsgAndHTTPCode (err_Error err) statusCode))"

definition getMimeTypeFromContentType :: "(string \<Rightarrow> string option) \<Rightarrow> string \<Rightarrow> string" where
  "getMimeTypeFromContentType parse contentType = (case parse contentType of Some mediatype \<Rightarrow> mediatype | None \<Rightarrow> [])"

definition handleUnmatchedMethod :: http_response where
  "handleUnmatchedMethod = \<lparr>rw_Status = 405, rw_ContentType = ''text/plain'', rw_Body = ''405 method not allowed, supported: [POST]''\<rparr>"

definition handleUnmatchedContentType :: http_response where
  "handleUnmatchedContentType = \<lparr>rw_Status = 415, rw_ContentType = ''text/plain'',
     rw_Body = ''415 unsupported media type, supported: [application/json, application/x-protobuf]''\<rparr>"

definition readContentType ::
  "(string \<Rightarrow> string option) \<Rightarrow> 'enc \<Rightarrow> 'enc \<Rightarrow> http_request \<Rightarrow> http_response + 'enc" where
  "readContentType parse pbEncoder jsEncoder req =
     (if rq_Method req \<noteq> ''POST'' then Inl handleUnmatchedMethod
      else
        (let mime = getMimeTypeFromContentType parse (rq_ContentType req) in
         if mime = pbContentType then Inr pbEncoder
         else if mime = jsonContentType then Inr jsEncoder
         else Inl handleUnmatchedContentType))"

definition readAndCloseBody :: "('req, 'resp) encoder \<Rightarrow> http_request \<Rightarrow> http_response + string" where
  "readAndCloseBody enc req =
     (case rq_Body req of
        Inl err \<Rightarrow> Inl (writeError enc err 400)
      | Inr body \<Rightarrow> (case rq_CloseErr req of Some err \<Rightarrow> Inl (writeError enc err 400) | None \<Rightarrow> Inr body))"

definition errorHandler :: "(string \<Rightarrow> string option) \<Rightarrow> ('req, 'resp) encoder \<Rightarrow> ('req, 'resp) encoder \<Rightarrow> http_request \<Rightarrow> string \<Rightarrow> nat \<Rightarrow> http_response" where
  "errorHandler parse pbEncoder jsEncoder req errMsg statusCode =
     (let s = NewStatusFromMsgAndHTTPCode errMsg statusCode; mime = getMimeTypeFromContentType parse (rq_ContentType req) in
      if mime = pbContentType then writeStatusResponse pbEncoder statusCode s
      else if mime = jsonContentType then writeStatusResponse jsEncoder statusCode s
      else \<lparr>rw_Status = 500, rw_ContentType = jsonContentType, rw_Body = fallbackMsg\<rparr>)"

text \<open>\<open>handleTraces\<close>, \<open>handleMetrics\<close> and \<open>handleLogs\<close> are the same code on three types. \<open>export\<close> is the call of the service: what it
  leaves behind, with the response or an error.\<close>

definition handle ::
  "(string \<Rightarrow> string option) \<Rightarrow> ('req, 'resp) encoder \<Rightarrow> ('req, 'resp) encoder \<Rightarrow> ('req \<Rightarrow> ('w \<times> (go_error + 'resp)) option) \<Rightarrow>
   http_request \<Rightarrow> 'w \<Rightarrow> ('w \<times> http_response) option" where
  "handle parse pbEncoder jsEncoder export req w =
     (case readContentType parse pbEncoder jsEncoder req of
        Inl resp \<Rightarrow> Some (w, resp)
      | Inr enc \<Rightarrow>
          (case readAndCloseBody enc req of
             Inl resp \<Rightarrow> Some (w, resp)
           | Inr body \<Rightarrow>
               (case en_unmarshal enc body of
                  Inl err \<Rightarrow> Some (w, writeError enc err 400)
                | Inr otlpReq \<Rightarrow>
                    do {
                      (w1, r) \<leftarrow> export otlpReq;
                      Some (w1,
                        case r of
                          Inl err \<Rightarrow> writeError enc err 500
                        | Inr otlpResp \<Rightarrow>
                            (case en_marshal enc otlpResp of
                               Inl err \<Rightarrow> writeError enc err 500
                             | Inr msg \<Rightarrow> \<lparr>rw_Status = 200, rw_ContentType = en_contentType enc, rw_Body = msg\<rparr>))
                    })))"

definition handleTraces where
  "handleTraces parse wire ops next_consumer remoteAddr host req ext =
     handle parse (protoEncoder wire) (jsonEncoder wire)
       (\<lambda>td. do { (ext1, out, err) \<leftarrow> trace_ExportHttp ops next_consumer remoteAddr host ext td;
                 Some ((ext1, out), case err of Some e \<Rightarrow> Inl e | None \<Rightarrow> Inr ()) })
       req (ext, None)"

definition handleMetrics where
  "handleMetrics parse wire dataPointCount next_consumer req =
     handle parse (protoEncoder wire) (jsonEncoder wire)
       (\<lambda>md. let (out, err) = metrics_Export dataPointCount next_consumer md in Some (out, case err of Some e \<Rightarrow> Inl e | None \<Rightarrow> Inr ()))
       req None"

definition handleLogs where
  "handleLogs parse wire logRecordCount next_consumer req =
     handle parse (protoEncoder wire) (jsonEncoder wire)
       (\<lambda>ld. let (out, err) = logs_Export logRecordCount next_consumer ld in Some (out, case err of Some e \<Rightarrow> Inl e | None \<Rightarrow> Inr ()))
       req None"

subsection \<open>Configuration\<close>

record http_config =
  hc_Endpoint :: string
  hc_TracesURLPath :: string
  hc_MetricsURLPath :: string
  hc_LogsURLPath :: string

record otlp_config =
  oc_GRPC :: "string option"
  oc_HTTP :: "http_config option"
  oc_ExtensionID :: "string option"

definition otlp_Validate :: "otlp_config \<Rightarrow> bool" where
  "otlp_Validate cfg \<longleftrightarrow> \<not> (oc_GRPC cfg = None \<and> oc_HTTP cfg = None)"

text \<open>\<open>url_Path\<close> is the path of the parsed URL; here \<open>None\<close> is the error of \<open>url.Parse\<close>.\<close>

definition sanitizeURLPath :: "(string \<Rightarrow> string option) \<Rightarrow> string \<Rightarrow> string option" where
  "sanitizeURLPath url_Path urlPath =
     (case url_Path urlPath of
        None \<Rightarrow> None
      | Some p \<Rightarrow> Some (if has_prefix p ''/'' then p else ''/'' @ p))"

text \<open>What \<open>Unmarshal\<close> does after the generic decoding: protocols that are not set are dropped, the paths are sanitised.\<close>

definition otlp_Unmarshal :: "(string \<Rightarrow> string option) \<Rightarrow> bool \<Rightarrow> bool \<Rightarrow> otlp_config \<Rightarrow> otlp_config option" where
  "otlp_Unmarshal url_Path grpcSet httpSet cfg =
     (let cfg1 = (if \<not> grpcSet then cfg\<lparr>oc_GRPC := None\<rparr> else cfg) in
      if \<not> httpSet then Some (cfg1\<lparr>oc_HTTP := None\<rparr>)
      else do {
        h \<leftarrow> oc_HTTP cfg1;
        t \<leftarrow> sanitizeURLPath url_Path (hc_TracesURLPath h);
        m \<leftarrow> sanitizeURLPath url_Path (hc_MetricsURLPath h);
        l \<leftarrow> sanitizeURLPath url_Path (hc_LogsURLPath h);
        Some (cfg1\<lparr>oc_HTTP := Some (h\<lparr>hc_TracesURLPath := t, hc_MetricsURLPath := m, hc_LogsURLPath := l\<rparr>)\<rparr>)
      })"

subsection \<open>The contract of the extension\<close>

text \<open>
  What the receiver relies on: in the states of \<open>inv\<close> every question is answered, without a panic, and leaves a state of \<open>inv\<close>.
\<close>

locale fill_proc =
  fixes ops :: "'s fill_proc_ops" and inv :: "'s \<Rightarrow> bool"
  assumes match_total: "inv s \<Longrightarrow> \<exists>s' pid cid. fp_Match ops ctx s = Some (s', pid, cid) \<and> inv s'"
    and matchHttp_total: "inv s \<Longrightarrow> \<exists>s' pid cid. fp_MatchHttp ops a b s = Some (s', pid, cid) \<and> inv s'"
    and containerId_total: "inv s \<Longrightarrow> \<exists>cid. fp_ContainerIdByPid ops pid s = Some cid"
begin

lemma fill_total: "(\<And>s. ext = Some s \<Longrightarrow> inv s) \<Longrightarrow> \<exists>a'. fillPidAndContainerId ops ext pid cid a = Some a'"
proof -
  assume inv: "\<And>s. ext = Some s \<Longrightarrow> inv s"
  obtain c where "(case ext of Some s \<Rightarrow> fp_ContainerIdByPid ops (getBeylaPid a) s | None \<Rightarrow> Some cid) = Some c"
    using containerId_total[OF inv] by (cases ext) auto
  then show ?thesis by (simp add: fillPidAndContainerId_def Let_def)
qed

lemma fill_resources_total:
  assumes "\<And>s. ext = Some s \<Longrightarrow> inv s"
  shows "\<exists>td'. fill_resources ops ext pid cid td = Some td' \<and> map rs_ScopeSpans td' = map rs_ScopeSpans td"
proof (induction td)
  case (Cons rs td)
  obtain a where "fillPidAndContainerId ops ext pid cid (rs_Resource rs) = Some a" using fill_total[OF assms] by blast
  then show ?case using Cons by auto
qed simp

lemma export_total:
  assumes "\<And>s. ext = Some s \<Longrightarrow> inv s" "\<And>s. inv s \<Longrightarrow> \<exists>s' pid cid. ask s = Some (s', pid, cid) \<and> inv s'" "traces_spans td \<noteq> []"
  shows "\<exists>ext' td' err. export_with ask ops next_consumer ext td = Some (ext', Some td', err) \<and> traces_spans td' = traces_spans td \<and>
    (ext' = None \<longleftrightarrow> ext = None) \<and> (\<forall>s. ext' = Some s \<longrightarrow> inv s)"
proof -
  obtain ext1 pid cid where e: "(case ext of Some s \<Rightarrow> do { (s1, pid, cid) \<leftarrow> ask s; Some (Some s1, pid, cid) } | None \<Rightarrow> Some (None, 0, []))
      = Some (ext1, pid, cid)" "\<And>s. ext1 = Some s \<Longrightarrow> inv s" "ext1 = None \<longleftrightarrow> ext = None"
  proof (cases ext)
    case (Some s)
    then obtain s' pid cid where "ask s = Some (s', pid, cid)" "inv s'" using assms(1,2) by blast
    with Some show ?thesis using that[of "Some s'" pid cid] by auto
  qed (use that[of None 0 "[]"] in auto)
  obtain td' where td': "fill_resources ops ext1 pid cid td = Some td'" "map rs_ScopeSpans td' = map rs_ScopeSpans td"
    using fill_resources_total[OF e(2)] by blast
  have "map rs_spans td' = map rs_spans td"
    using arg_cong[OF td'(2), of "map (\<lambda>sss. concat (map ss_Spans sss))"] by (simp add: rs_spans_def[abs_def] comp_def)
  then have "traces_spans td' = traces_spans td" by (simp add: traces_spans_def)
  then show ?thesis using e(2,3) td'(1) assms(3) by (auto simp: export_with_def e(1))
qed

end

text \<open>The extension of the repository keeps the contract when it is enabled.\<close>

interpretation socket_proc: fill_proc socket_proc_ops "\<lambda>p. ext_inv p \<and> ex_enable p"
proof
  fix p ctx assume p: "ext_inv p \<and> ex_enable p"
  have en: "ex_enable p'" if "getMatchPidAndContainerId a b p = Some (p', pid, cid)" for a b p' pid cid
    using that p by (auto simp: getMatchPidAndContainerId_def bind_eq_Some_conv Let_def split: option.splits if_splits)
  show "\<exists>s' pid cid. fp_Match socket_proc_ops ctx p = Some (s', pid, cid) \<and> ext_inv s' \<and> ex_enable s'"
  proof (cases ctx)
    case (Some ab)
    obtain a b where "ab = (a, b)" by (cases ab)
    with Some show ?thesis using p en[of a b] getMatch_ok[of p a b] by (fastforce simp: socket_proc_ops_def GetMatchPidAndContainerId_def)
  qed (use p in \<open>simp add: socket_proc_ops_def GetMatchPidAndContainerId_def\<close>)
next
  fix p a b assume p: "ext_inv p \<and> ex_enable p"
  have en: "ex_enable p'" if "getMatchPidAndContainerId a b p = Some (p', pid, cid)" for p' pid cid
    using that p by (auto simp: getMatchPidAndContainerId_def bind_eq_Some_conv Let_def split: option.splits if_splits)
  show "\<exists>s' pid cid. fp_MatchHttp socket_proc_ops a b p = Some (s', pid, cid) \<and> ext_inv s' \<and> ex_enable s'"
    using p en getMatch_ok[of p a b] by (fastforce simp: socket_proc_ops_def GetMatchPidAndContainerIdForHttp_def)
next
  fix p pid assume "ext_inv p \<and> ex_enable p"
  then show "\<exists>cid. fp_ContainerIdByPid socket_proc_ops pid p = Some cid"
    by (auto simp: socket_proc_ops_def GetContainerIdByPid_def ext_inv_def)
qed

subsection \<open>Properties of the receiver\<close>

text \<open>C19: With an enabled \<open>fillproc\<close> extension in any state it can reach, the trace services forward every batch that has a span, with
  all its spans in order, to the next consumer; no call panics.\<close>

theorem otlp_traces_forwarded:
  assumes "fp_run evs (newSocketProcExtension cfg True) = Some p" "\<forall>ev\<in>set evs. ev_ok ev" "fc_Enable cfg" "traces_spans td \<noteq> []"
  shows "(\<exists>p' td' err. trace_Export socket_proc_ops nc ctx (Some p) td = Some (Some p', Some td', err) \<and> traces_spans td' = traces_spans td) \<and>
    (\<exists>p' td' err. trace_ExportHttp socket_proc_ops nc a b (Some p) td = Some (Some p', Some td', err) \<and> traces_spans td' = traces_spans td)"
proof -
  have inv: "ext_inv p \<and> ex_enable p"
    using reachable_inv[OF assms(1,2)] fp_run_enable[OF assms(1)] assms(3) by (simp add: newSocketProcExtension_def Let_def)
  have fwd: "\<exists>p' td' err. export_with ask socket_proc_ops nc (Some p) td = Some (Some p', Some td', err) \<and> traces_spans td' = traces_spans td"
    if "\<And>s. ext_inv s \<and> ex_enable s \<Longrightarrow> \<exists>s' pid cid. ask s = Some (s', pid, cid) \<and> (ext_inv s' \<and> ex_enable s')" for ask
    using socket_proc.export_total[of "Some p" ask td nc] that inv assms(4) by (fastforce simp: not_None_eq)
  show ?thesis
    unfolding trace_Export_def trace_ExportHttp_def
    by (intro conjI; rule fwd; erule socket_proc.match_total socket_proc.matchHttp_total)
qed

text \<open>An extension that is configured but disabled has no cache: a resource that carries a Beyla process number makes the export
  panic.\<close>

theorem beyla_panics_when_disabled:
  assumes "\<not> (fc_Enable cfg \<and> access)" "rs \<in> set td" "getBeylaPid (rs_Resource rs) > 0" "traces_spans td \<noteq> []"
  shows "trace_Export socket_proc_ops nc ctx (Some (newSocketProcExtension cfg access)) td = None"
proof -
  let ?p = "newSocketProcExtension cfg access"
  have p: "\<not> ex_enable ?p" "ex_cache ?p = None" using assms(1) by (auto simp: newSocketProcExtension_def Let_def)
  have "fillPidAndContainerId socket_proc_ops (Some ?p) pid cid (rs_Resource rs) = None" for pid cid
    using assms(3) p(2) by (simp add: fillPidAndContainerId_def socket_proc_ops_def GetContainerIdByPid_def)
  then have "fill_resources socket_proc_ops (Some ?p) pid cid td = None" for pid cid
    using assms(2) by (induction td) (auto simp: bind_eq_None_conv)
  then show ?thesis
    using assms(4) p(1) by (simp add: trace_Export_def export_with_def socket_proc_ops_def GetMatchPidAndContainerId_def)
qed

text \<open>The process number a resource gets: that of Beyla when the resource has one, otherwise the one of the peer, but only when the
  resource does not name another container. All other attributes stay as they are.\<close>

theorem process_attributes_correct:
  assumes "fillPidAndContainerId ops ext pid cid a = Some a'"
  shows "(\<forall>k. k \<noteq> KEY_PID \<and> k \<noteq> KEY_CONTAINERID \<longrightarrow> map_load a' k = map_load a k) \<and>
    (getBeylaPid a > 0 \<longrightarrow> map_load a' KEY_PID = Some (ValueInt (getBeylaPid a))) \<and>
    (getBeylaPid a \<le> 0 \<and> pid > 0 \<and> getContainerId a \<in> {[], cid} \<longrightarrow> map_load a' KEY_PID = Some (ValueInt pid)) \<and>
    (getBeylaPid a \<le> 0 \<and> getContainerId a \<notin> {[], cid} \<longrightarrow> a' = a)"
  using assms
  by (auto simp: fillPidAndContainerId_def put_proc_def Let_def bind_eq_Some_conv split: if_splits)

text \<open>Whether a client may retry: the statuses that the OTLP specification calls retryable.\<close>

definition retryable :: "go_error \<Rightarrow> bool" where
  "retryable e = (case FromError e of
     None \<Rightarrow> \<not> err_permanent e
   | Some (c, m) \<Rightarrow> c \<in> {Canceled, DeadlineExceeded, Aborted, OutOfRange, Unavailable, DataLoss, ResourceExhausted})"

definition error_code :: "go_error \<Rightarrow> grpc_code" where
  "error_code e = (case FromError e of Some (c, m) \<Rightarrow> c | None \<Rightarrow> if err_permanent e then Internal else Unavailable)"

definition error_message :: "go_error \<Rightarrow> string" where
  "error_message e = (case FromError e of Some (c, m) \<Rightarrow> m | None \<Rightarrow> err_Error e)"

lemma GetStatusFromError_code:
  "GetStatusFromError e = (if error_code e = OK then None else Some (StatusErr (error_code e) (error_message e)))"
  by (auto simp: GetStatusFromError_def status_Err_def error_code_def error_message_def Let_def split: option.split)

lemma http_code_range: "GetHTTPStatusCodeFromStatus s \<in> {429, 500, 503}"
  by (simp add: GetHTTPStatusCodeFromStatus_def)

lemma http_code_retryable: "GetHTTPStatusCodeFromStatus (error_code e, m) \<in> {429, 503} \<longleftrightarrow> retryable e"
proof (cases "FromError e")
  case (Some s)
  then show ?thesis by (cases s; cases "fst s") (simp_all add: retryable_def error_code_def GetHTTPStatusCodeFromStatus_def)
qed (simp add: retryable_def error_code_def GetHTTPStatusCodeFromStatus_def)

text \<open>The encoder for the media type of a request.\<close>

definition encoder_for :: "('req, 'resp) wire_format \<Rightarrow> string \<Rightarrow> ('req, 'resp) encoder" where
  "encoder_for wire mime = (if mime = pbContentType then protoEncoder wire else jsonEncoder wire)"

lemma encoder_for_type: "mime \<in> {pbContentType, jsonContentType} \<Longrightarrow> en_contentType (encoder_for wire mime) = mime"
  by (auto simp: encoder_for_def protoEncoder_def jsonEncoder_def)

text \<open>C20: What the HTTP status tells the client. A decodable \<open>POST\<close> request, in either media type, whose batch is handed to the next consumer (it has
  spans and filling in the process does not panic) and whose answer can be marshalled, is answered with 200 when the next consumer accepts the batch. When it refuses it with an error that has a gRPC status, itself or wrapped, permanent or not, the code of the status decides: 429 for
  \<open>ResourceExhausted\<close>, 503 for the other codes the OTLP specification calls retryable, 500 for the rest; only a status with code
  \<open>OK\<close> is answered with 200. An error without a status is answered with 503 if it is not permanent and with 500 if it is: \<open>GetStatusFromError\<close>
  makes it \<open>Internal\<close>, while the comments of the export functions speak of \<open>InvalidArgument\<close> and 400. The answer has the media type of
  the request.\<close>

theorem http_status_tells_retry:
  assumes "rq_Method req = ''POST''" "parse (rq_ContentType req) = Some mime" "mime \<in> {pbContentType, jsonContentType}"
      "rq_Body req = Inr body" "rq_CloseErr req = None"
    and enc: "en_unmarshal (encoder_for wire mime) body = Inr td" "en_marshal (encoder_for wire mime) () = Inr msg"
      "\<forall>s. \<exists>m. en_marshalStatus (encoder_for wire mime) s = Inr m"
    and out: "trace_ExportHttp ops nc a b ext td = Some (ext', Some td', err)"
  shows "\<exists>resp. handleTraces parse wire ops nc a b req ext = Some ((ext', Some td'), resp) \<and> rw_ContentType resp = mime \<and>
    (case nc td' of
       None \<Rightarrow> rw_Status resp = 200
     | Some e \<Rightarrow>
         if error_code e = OK then rw_Status resp = 200
         else rw_Status resp \<in> {429, 500, 503} \<and> (rw_Status resp \<in> {429, 503} \<longleftrightarrow> retryable e) \<and>
           (rw_Status resp = 429 \<longleftrightarrow> error_code e = ResourceExhausted))"
proof -
  have err: "err = (case nc td' of Some e \<Rightarrow> GetStatusFromError e | None \<Rightarrow> None)"
    using out by (auto simp: trace_ExportHttp_def export_with_def bind_eq_Some_conv split: if_splits)
  let ?enc = "encoder_for wire mime"
  have enc': "readContentType parse (protoEncoder wire) (jsonEncoder wire) req = Inr ?enc" "readAndCloseBody ?enc req = Inr body"
    using assms(1-5) by (auto simp: readContentType_def getMimeTypeFromContentType_def readAndCloseBody_def encoder_for_def)
  note kind = encoder_for_type [OF assms(3), of wire]
  show ?thesis
  proof (cases "nc td'")
    case None
    then show ?thesis using enc enc' out err kind by (simp add: handleTraces_def handle_def)
  next
    case (Some e)
    show ?thesis
    proof (cases "error_code e = OK")
      case True
      then have "GetStatusFromError e = None" by (simp add: GetStatusFromError_code)
      then show ?thesis using enc enc' out err kind Some True by (simp add: handleTraces_def handle_def)
    next
      case False
      then have e': "GetStatusFromError e = Some (StatusErr (error_code e) (error_message e))" by (simp add: GetStatusFromError_code)
      let ?s = "(error_code e, error_message e)"
      obtain m where m: "en_marshalStatus ?enc ?s = Inr m" using enc(3) by blast
      have "handleTraces parse wire ops nc a b req ext =
          Some ((ext', Some td'), \<lparr>rw_Status = GetHTTPStatusCodeFromStatus ?s, rw_ContentType = mime, rw_Body = m\<rparr>)"
        using enc(1) enc' out err Some e' m kind by (simp add: handleTraces_def handle_def writeError_def writeStatusResponse_def)
      moreover have "GetHTTPStatusCodeFromStatus ?s = 429 \<longleftrightarrow> error_code e = ResourceExhausted"
        by (simp add: GetHTTPStatusCodeFromStatus_def)
      ultimately show ?thesis using Some False http_code_range[of ?s] http_code_retryable[of e "error_message e"] by simp
    qed
  qed
qed

text \<open>A resource without the name of its SDK is taken for one of Beyla.\<close>

lemma beyla_pid_without_sdk_name:
  "getBeylaPid [(AttributeServiceInstanceID, ValueStr ''550e8400-e29b-41d4-a716-446655440000'')] = 446655440000"
  by (simp add: getBeylaPid_def LastIndexByte_def Atoi_def)

subsection \<open>Sample requests\<close>

definition demo_beyla :: attrs where
  "demo_beyla = [(AttributeTelemetrySDKName, ValueStr ''beyla''), (AttributeServiceInstanceID, ValueStr ''host-7'')]"

definition demo_batch :: "attrs \<Rightarrow> traces" where
  "demo_batch a = [\<lparr>rs_Resource = a, rs_ScopeSpans = [\<lparr>ss_Scope = [], ss_Spans = [zero_span]\<rparr>]\<rparr>]"

lemma demo_batch_spans: "traces_spans (demo_batch a) = [zero_span]"
  by (simp add: demo_batch_def traces_spans_def rs_spans_def)

lemma demo_beyla_pid: "getBeylaPid demo_beyla = 7"
  by (simp add: demo_beyla_def getBeylaPid_def LastIndexByte_def Atoi_def)

theorem otlp_traces_forwarded_witness:
  "(\<exists>p' td' err. trace_Export socket_proc_ops (\<lambda>td. None) None (Some demo_asked) (demo_batch demo_beyla) = Some (Some p', Some td', err) \<and>
      traces_spans td' = [zero_span]) \<and>
   (\<exists>p' td' err. trace_ExportHttp socket_proc_ops (\<lambda>td. None) ''127.0.0.1:1'' ''127.0.0.1:4318'' (Some demo_asked) (demo_batch demo_beyla) =
      Some (Some p', Some td', err) \<and> traces_spans td' = [zero_span])"
  using otlp_traces_forwarded[OF demo_run, of "demo_batch demo_beyla" "\<lambda>td. None" None "''127.0.0.1:1''" "''127.0.0.1:4318''"] demo_ok
  by (simp add: createDefaultConfig_def demo_batch_spans)

theorem beyla_panics_when_disabled_witness:
  "trace_Export socket_proc_ops (\<lambda>td. None) None (Some (newSocketProcExtension \<lparr>fc_Enable = False, fc_Interval = 0\<rparr> True)) (demo_batch demo_beyla) = None"
  using beyla_panics_when_disabled[of "\<lparr>fc_Enable = False, fc_Interval = 0\<rparr>" True
      "\<lparr>rs_Resource = demo_beyla, rs_ScopeSpans = [\<lparr>ss_Scope = [], ss_Spans = [zero_span]\<rparr>]\<rparr>" "demo_batch demo_beyla" "\<lambda>td. None" None]
  by (simp add: demo_beyla_pid demo_batch_spans) (simp add: demo_batch_def)

theorem process_attributes_correct_witness:
  "\<exists>a'. fillPidAndContainerId socket_proc_ops None 5 ''c1'' [(AttributeContainerID, ValueStr ''c2'')] = Some a' \<and>
     a' = [(AttributeContainerID, ValueStr ''c2'')]"
proof -
  have ext: "fillPidAndContainerId socket_proc_ops None 5 ''c1'' [(AttributeContainerID, ValueStr ''c2'')] = Some [(AttributeContainerID, ValueStr ''c2'')]"
    by (simp add: fillPidAndContainerId_def getBeylaPid_def getContainerId_def)
  have "getBeylaPid [(AttributeContainerID, ValueStr ''c2'')] \<le> 0" "getContainerId [(AttributeContainerID, ValueStr ''c2'')] \<notin> {[], ''c1''}"
    by (simp_all add: getBeylaPid_def getContainerId_def)
  with process_attributes_correct[OF ext] ext show ?thesis by blast
qed

definition demo_wire :: "(traces, unit) wire_format" where
  "demo_wire = \<lparr>wf_UnmarshalProto = (\<lambda>b. Inl (PlainErr True b)), wf_UnmarshalJSON = (\<lambda>b. Inr (demo_batch [])), wf_MarshalProto = (\<lambda>r. Inr ''''),
     wf_MarshalJSON = (\<lambda>r. Inr ''{}''), wf_proto_Marshal = (\<lambda>s. Inr (snd s)), wf_jsonpb_Marshal = (\<lambda>s. Inr (snd s))\<rparr>"

definition demo_request :: http_request where
  "demo_request = \<lparr>rq_Method = ''POST'', rq_ContentType = jsonContentType, rq_Body = Inr ''x'', rq_CloseErr = None\<rparr>"

theorem http_status_tells_retry_witness:
  "\<exists>resp. handleTraces Some demo_wire socket_proc_ops (\<lambda>td. Some (PlainErr False ''queue full'')) ''a'' ''b'' demo_request None =
     Some ((None, Some (demo_batch [])), resp) \<and> rw_Status resp \<in> {429, 503}"
proof -
  have out: "trace_ExportHttp socket_proc_ops (\<lambda>td. Some (PlainErr False ''queue full'')) ''a'' ''b'' None (demo_batch []) =
      Some (None, Some (demo_batch []), Some (StatusErr Unavailable ''queue full''))"
    by (simp add: trace_ExportHttp_def export_with_def demo_batch_def traces_spans_def rs_spans_def fillPidAndContainerId_def getBeylaPid_def
        getContainerId_def put_proc_def GetStatusFromError_def status_Err_def)
  have req: "rq_Method demo_request = ''POST''" "Some (rq_ContentType demo_request) = Some jsonContentType"
    "jsonContentType \<in> {pbContentType, jsonContentType}"
    "rq_Body demo_request = Inr ''x''" "rq_CloseErr demo_request = None" "en_unmarshal (encoder_for demo_wire jsonContentType) ''x'' = Inr (demo_batch [])"
    "en_marshal (encoder_for demo_wire jsonContentType) () = Inr ''{}''" "\<forall>s. \<exists>m. en_marshalStatus (encoder_for demo_wire jsonContentType) s = Inr m"
    by (simp_all add: demo_request_def demo_wire_def encoder_for_def jsonEncoder_def)
  from http_status_tells_retry[where parse = Some, OF req out] show ?thesis by (auto simp: retryable_def error_code_def)
qed

end
