(* ===== verification/Shared.thy ===== *)
theory Shared
  imports Prelude
begin

section \<open>Components shared between signals\<close>

text \<open>
  \<open>common/sharedcomponent\<close> and \<open>receiver/otlpreceiver/internal/common/sharedcomponent\<close>: one wrapped component per key, started
  and stopped once however often it is asked.

  Pointers to the wrappers are positions of a heap, because the key map, the factory's callers and the clean-up closure share
  them. The wrapped component is a value with a start and a stop function that may fail or panic (\<open>None\<close>). The closure
  \<open>removeFunc\<close> is the key it deletes. In the second package the status function of a telemetry setting is overwritten in place by
  a closure that calls other settings: \<open>reporter\<close> is the closure, \<open>report\<close> its call, which need not return.
\<close>

subsection \<open>\<open>common/sharedcomponent\<close>\<close>

record ('k, 'v) shared_component =
  shc_Component :: 'v
  shc_startOnce :: bool
  shc_stopOnce :: bool
  shc_key :: 'k

record ('k, 'v) shared_components =
  shs_heap :: "('k, 'v) shared_component list"
  shs_comps :: "('k, nat) gomap"

definition NewSharedComponents :: "('k, 'v) shared_components" where
  "NewSharedComponents = \<lparr>shs_heap = [], shs_comps = []\<rparr>"

definition GetOrAdd :: "'k \<Rightarrow> 'v \<Rightarrow> ('k, 'v) shared_components \<Rightarrow> nat \<times> ('k, 'v) shared_components" where
  "GetOrAdd key create scs =
     (case map_load (shs_comps scs) key of
        Some c \<Rightarrow> (c, scs)
      | None \<Rightarrow>
          (let newComp = length (shs_heap scs) in
           (newComp,
            scs\<lparr>shs_heap := shs_heap scs @ [\<lparr>shc_Component = create, shc_startOnce = False, shc_stopOnce = False, shc_key = key\<rparr>],
                shs_comps := map_store key newComp (shs_comps scs)\<rparr>)))"

definition shc_Unwrap :: "nat \<Rightarrow> ('k, 'v) shared_components \<Rightarrow> 'v" where
  "shc_Unwrap r scs = shc_Component (shs_heap scs ! r)"

definition shc_Start ::
  "('v \<Rightarrow> ('v \<times> 'e option) option) \<Rightarrow> nat \<Rightarrow> ('k, 'v) shared_components \<Rightarrow> (('k, 'v) shared_components \<times> 'e option) option" where
  "shc_Start start r scs =
     (let c = shs_heap scs ! r in
      if shc_startOnce c then Some (scs, None)
      else do {
        (v, err) \<leftarrow> start (shc_Component c);
        Some (scs\<lparr>shs_heap := (shs_heap scs)[r := c\<lparr>shc_Component := v, shc_startOnce := True\<rparr>]\<rparr>, err)
      })"

definition shc_Shutdown ::
  "('v \<Rightarrow> ('v \<times> 'e option) option) \<Rightarrow> nat \<Rightarrow> ('k, 'v) shared_components \<Rightarrow> (('k, 'v) shared_components \<times> 'e option) option" where
  "shc_Shutdown shutdown r scs =
     (let c = shs_heap scs ! r in
      if shc_stopOnce c then Some (scs, None)
      else do {
        (v, err) \<leftarrow> shutdown (shc_Component c);
        Some (scs\<lparr>shs_heap := (shs_heap scs)[r := c\<lparr>shc_Component := v, shc_stopOnce := True\<rparr>],
                  shs_comps := map_delete (shc_key c) (shs_comps scs)\<rparr>, err)
      })"

subsection \<open>\<open>otlpreceiver/internal/common/sharedcomponent\<close>\<close>

text \<open>\<open>HostReport t\<close> is the function the host put into setting \<open>t\<close>; \<open>ReportBoth t prev\<close> the closure of \<open>LoadOrStore\<close>.\<close>

datatype reporter = HostReport nat | ReportBoth nat reporter

datatype 'e status_event = StatusStarting | StatusStopping | StatusStopped | PermanentErrorEvent 'e

record ('k, 'v) comp =
  cmp_component :: 'v
  cmp_startOnce :: bool
  cmp_stopOnce :: bool
  cmp_key :: 'k
  cmp_telemetry :: nat
  cmp_seenSettings :: "nat list"

record ('k, 'v, 'e) comp_map =
  cm_heap :: "('k, 'v) comp list"
  cm_components :: "('k, nat) gomap"
  cm_settings :: "nat \<Rightarrow> reporter"
  cm_reports :: "(nat \<times> 'e status_event) list"

text \<open>The instances a call of a status function reaches, in order.\<close>

partial_function (option) report :: "(nat \<Rightarrow> reporter) \<Rightarrow> reporter \<Rightarrow> nat list option" where
  "report settings f =
     (case f of
        HostReport t \<Rightarrow> Some [t]
      | ReportBoth t prev \<Rightarrow>
          Option.bind (report settings (settings t)) (\<lambda>xs.
          Option.bind (report settings prev) (\<lambda>ys. Some (xs @ ys))))"

declare report.simps [code]

definition ReportStatus :: "nat \<Rightarrow> 'e status_event \<Rightarrow> ('k, 'v, 'e) comp_map \<Rightarrow> ('k, 'v, 'e) comp_map option" where
  "ReportStatus t ev m =
     do {
       ts \<leftarrow> report (cm_settings m) (cm_settings m t);
       Some (m\<lparr>cm_reports := cm_reports m @ map (\<lambda>t. (t, ev)) ts\<rparr>)
     }"

definition NewMap :: "('k, 'v, 'e) comp_map" where
  "NewMap = \<lparr>cm_heap = [], cm_components = [], cm_settings = HostReport, cm_reports = []\<rparr>"

definition LoadOrStore ::
  "'k \<Rightarrow> 'e + 'v \<Rightarrow> nat \<Rightarrow> ('k, 'v, 'e) comp_map \<Rightarrow> ('e + nat) \<times> ('k, 'v, 'e) comp_map" where
  "LoadOrStore key create telemetrySettings m =
     (case map_load (cm_components m) key of
        Some p \<Rightarrow>
          (let c = cm_heap m ! p in
           if telemetrySettings \<in> set (cmp_seenSettings c) then (Inr p, m)
           else
             (let prev = cm_settings m (cmp_telemetry c) in
              (Inr p,
               m\<lparr>cm_heap := (cm_heap m)[p := c\<lparr>cmp_seenSettings := cmp_seenSettings c @ [telemetrySettings]\<rparr>],
                 cm_settings := (cm_settings m)(cmp_telemetry c := ReportBoth telemetrySettings prev)\<rparr>)))
      | None \<Rightarrow>
          (case create of
             Inl err \<Rightarrow> (Inl err, m)
           | Inr v \<Rightarrow>
               (let newComp = length (cm_heap m) in
                (Inr newComp,
                 m\<lparr>cm_heap := cm_heap m @
                     [\<lparr>cmp_component = v, cmp_startOnce = False, cmp_stopOnce = False, cmp_key = key,
                       cmp_telemetry = telemetrySettings, cmp_seenSettings = [telemetrySettings]\<rparr>],
                   cm_components := map_store key newComp (cm_components m)\<rparr>))))"

definition cmp_Unwrap :: "nat \<Rightarrow> ('k, 'v, 'e) comp_map \<Rightarrow> 'v" where
  "cmp_Unwrap c m = cmp_component (cm_heap m ! c)"

definition cmp_Start ::
  "('v \<Rightarrow> ('v \<times> 'e option) option) \<Rightarrow> nat \<Rightarrow> ('k, 'v, 'e) comp_map \<Rightarrow> (('k, 'v, 'e) comp_map \<times> 'e option) option" where
  "cmp_Start start p m =
     (let c = cm_heap m ! p in
      if cmp_startOnce c then Some (m, None)
      else do {
        m1 \<leftarrow> ReportStatus (cmp_telemetry c) StatusStarting m;
        (v, err) \<leftarrow> start (cmp_component c);
        m2 \<leftarrow> (case err of Some e \<Rightarrow> ReportStatus (cmp_telemetry c) (PermanentErrorEvent e) m1 | None \<Rightarrow> Some m1);
        Some (m2\<lparr>cm_heap := (cm_heap m2)[p := c\<lparr>cmp_component := v, cmp_startOnce := True\<rparr>]\<rparr>, err)
      })"

definition cmp_Shutdown ::
  "('v \<Rightarrow> ('v \<times> 'e option) option) \<Rightarrow> nat \<Rightarrow> ('k, 'v, 'e) comp_map \<Rightarrow> (('k, 'v, 'e) comp_map \<times> 'e option) option" where
  "cmp_Shutdown shutdown p m =
     (let c = cm_heap m ! p in
      if cmp_stopOnce c then Some (m, None)
      else do {
        m1 \<leftarrow> ReportStatus (cmp_telemetry c) StatusStopping m;
        (v, err) \<leftarrow> shutdown (cmp_component c);
        m2 \<leftarrow> ReportStatus (cmp_telemetry c) (case err of Some e \<Rightarrow> PermanentErrorEvent e | None \<Rightarrow> StatusStopped) m1;
        Some (m2\<lparr>cm_heap := (cm_heap m2)[p := c\<lparr>cmp_component := v, cmp_stopOnce := True\<rparr>],
                 cm_components := map_delete (cmp_key c) (cm_components m2)\<rparr>, err)
      })"

subsection \<open>Runs\<close>

text \<open>\<open>Obtain k v t\<close>: the factory asks for the component of key \<open>k\<close> with setting \<open>t\<close>; a new one starts as \<open>v\<close>.\<close>

datatype ('k, 'v) shared_event = Obtain 'k 'v nat | StartIt nat | StopIt nat

datatype wrapped_call = CallStart | CallStop

fun shared_step where
  "shared_step get sta sto (Obtain k v t) s = Some (snd (get k v t s))"
| "shared_step get sta sto (StartIt p) s = map_option fst (sta p s)"
| "shared_step get sta sto (StopIt p) s = map_option fst (sto p s)"

text \<open>The calls made on pointer \<open>p\<close>, and the calls of a list that are not repetitions.\<close>

fun calls_on :: "nat \<Rightarrow> ('k, 'v) shared_event list \<Rightarrow> wrapped_call list" where
  "calls_on p [] = []"
| "calls_on p (StartIt q # es) = (if q = p then CallStart # calls_on p es else calls_on p es)"
| "calls_on p (StopIt q # es) = (if q = p then CallStop # calls_on p es else calls_on p es)"
| "calls_on p (_ # es) = calls_on p es"

fun firsts :: "'a list \<Rightarrow> 'a list \<Rightarrow> 'a list" where
  "firsts seen [] = []"
| "firsts seen (x # xs) = (if x \<in> set seen then firsts seen xs else x # firsts (x # seen) xs)"

fun wrapped_apply :: "('v \<Rightarrow> ('v \<times> 'e option) option) \<Rightarrow> ('v \<Rightarrow> ('v \<times> 'e option) option) \<Rightarrow> wrapped_call \<Rightarrow> 'v \<Rightarrow> 'v option" where
  "wrapped_apply start stop CallStart v = map_option fst (start v)"
| "wrapped_apply start stop CallStop v = map_option fst (stop v)"

text \<open>A run that respects a guard in every state it passes.\<close>

fun guarded :: "('ev \<Rightarrow> 's \<Rightarrow> bool) \<Rightarrow> ('ev \<Rightarrow> 's \<Rightarrow> 's option) \<Rightarrow> 'ev list \<Rightarrow> 's \<Rightarrow> bool" where
  "guarded g step [] s = True"
| "guarded g step (e # es) s \<longleftrightarrow> g e s \<and> (case step e s of Some s' \<Rightarrow> guarded g step es s' | None \<Rightarrow> True)"

lemma guarded_append:
  "guarded g step (xs @ ys) s \<longleftrightarrow>
     guarded g step xs s \<and> (case fold_opt step xs s of Some s' \<Rightarrow> guarded g step ys s' | None \<Rightarrow> True)"
  by (induction xs arbitrary: s) (auto split: option.splits)

text \<open>Pointers come from the factory, so they are valid; settings are fresh, or known to the component of the key.\<close>

fun shs_guard :: "('k, 'v) shared_event \<Rightarrow> ('k, 'v) shared_components \<Rightarrow> bool" where
  "shs_guard (Obtain k v t) s = True"
| "shs_guard (StartIt p) s = (p < length (shs_heap s))"
| "shs_guard (StopIt p) s = (p < length (shs_heap s))"

fun cm_guard :: "('k, 'v) shared_event \<Rightarrow> ('k, 'v, 'e) comp_map \<Rightarrow> bool" where
  "cm_guard (Obtain k v t) m =
     ((case map_load (cm_components m) k of Some p \<Rightarrow> t \<in> set (cmp_seenSettings (cm_heap m ! p)) | None \<Rightarrow> False) \<or>
      (\<forall>c \<in> set (cm_heap m). t \<notin> set (cmp_seenSettings c)))"
| "cm_guard (StartIt p) m = (p < length (cm_heap m))"
| "cm_guard (StopIt p) m = (p < length (cm_heap m))"

definition cm_get where "cm_get k v t m = apfst projr (LoadOrStore k (Inr v) t m)"

abbreviation shs_run where
  "shs_run start stop \<equiv> fold_opt (shared_step (\<lambda>k v t. GetOrAdd k v) (shc_Start start) (shc_Shutdown stop))"

abbreviation cm_run where
  "cm_run start stop \<equiv> fold_opt (shared_step cm_get (cmp_Start start) (cmp_Shutdown stop))"

subsection \<open>The abstract map\<close>

text \<open>A key leads to the one component of that key that has not been stopped.\<close>

definition shs_inv :: "('k, 'v) shared_components \<Rightarrow> bool" where
  "shs_inv s \<longleftrightarrow> gomap_wf (shs_comps s) \<and>
     (\<forall>k p. map_load (shs_comps s) k = Some p \<longrightarrow>
        p < length (shs_heap s) \<and> shc_key (shs_heap s ! p) = k \<and> \<not> shc_stopOnce (shs_heap s ! p)) \<and>
     (\<forall>p < length (shs_heap s). \<not> shc_stopOnce (shs_heap s ! p) \<longrightarrow> map_load (shs_comps s) (shc_key (shs_heap s ! p)) = Some p)"

lemma nth_update: "(xs[p := x]) ! q = (if q = p \<and> p < length xs then x else xs ! q)"
  by (cases "p < length xs") (auto simp: nth_list_update list_update_beyond)

lemma shs_invD:
  "shs_inv s \<Longrightarrow> map_load (shs_comps s) k = Some p \<Longrightarrow>
     p < length (shs_heap s) \<and> shc_key (shs_heap s ! p) = k \<and> \<not> shc_stopOnce (shs_heap s ! p)"
  by (auto simp: shs_inv_def)

lemma shs_inv_wf: "shs_inv s \<Longrightarrow> gomap_wf (shs_comps s)"
  by (simp add: shs_inv_def)

lemma shs_inv_live:
  "shs_inv s \<Longrightarrow> p < length (shs_heap s) \<Longrightarrow> \<not> shc_stopOnce (shs_heap s ! p) \<Longrightarrow>
     map_load (shs_comps s) (shc_key (shs_heap s ! p)) = Some p"
  by (simp add: shs_inv_def)

lemma shs_invI:
  "gomap_wf (shs_comps s) \<Longrightarrow>
   (\<And>k p. map_load (shs_comps s) k = Some p \<Longrightarrow>
      p < length (shs_heap s) \<and> shc_key (shs_heap s ! p) = k \<and> \<not> shc_stopOnce (shs_heap s ! p)) \<Longrightarrow>
   (\<And>p. p < length (shs_heap s) \<Longrightarrow> \<not> shc_stopOnce (shs_heap s ! p) \<Longrightarrow>
      map_load (shs_comps s) (shc_key (shs_heap s ! p)) = Some p) \<Longrightarrow> shs_inv s"
  by (simp add: shs_inv_def)

lemma shc_StartE:
  assumes "shc_Start start p s = Some (s', err)"
  obtains "shc_startOnce (shs_heap s ! p)" "s' = s" "err = None"
  | v where "\<not> shc_startOnce (shs_heap s ! p)" "start (shc_Component (shs_heap s ! p)) = Some (v, err)"
      "s' = s\<lparr>shs_heap := (shs_heap s)[p := (shs_heap s ! p)\<lparr>shc_Component := v, shc_startOnce := True\<rparr>]\<rparr>"
  using assms by (auto simp: shc_Start_def Let_def split: if_splits bind_splits prod.splits)

lemma shc_ShutdownE:
  assumes "shc_Shutdown stop p s = Some (s', err)"
  obtains "shc_stopOnce (shs_heap s ! p)" "s' = s" "err = None"
  | v where "\<not> shc_stopOnce (shs_heap s ! p)" "stop (shc_Component (shs_heap s ! p)) = Some (v, err)"
      "s' = s\<lparr>shs_heap := (shs_heap s)[p := (shs_heap s ! p)\<lparr>shc_Component := v, shc_stopOnce := True\<rparr>],
              shs_comps := map_delete (shc_key (shs_heap s ! p)) (shs_comps s)\<rparr>"
  using assms by (auto simp: shc_Shutdown_def Let_def split: if_splits bind_splits prod.splits)

lemma GetOrAdd_inv:
  assumes "shs_inv s"
  shows "shs_inv (snd (GetOrAdd k v s))"
proof (cases "map_load (shs_comps s) k")
  case None
  show ?thesis
  proof (rule shs_invI)
    fix j p
    assume "map_load (shs_comps (snd (GetOrAdd k v s))) j = Some p"
    with None shs_invD [OF assms, of j p]
    show "p < length (shs_heap (snd (GetOrAdd k v s))) \<and> shc_key (shs_heap (snd (GetOrAdd k v s)) ! p) = j \<and>
          \<not> shc_stopOnce (shs_heap (snd (GetOrAdd k v s)) ! p)"
      by (auto simp: GetOrAdd_def Let_def nth_append less_Suc_eq split: if_splits)
  next
    fix p
    assume p: "p < length (shs_heap (snd (GetOrAdd k v s)))" "\<not> shc_stopOnce (shs_heap (snd (GetOrAdd k v s)) ! p)"
    show "map_load (shs_comps (snd (GetOrAdd k v s))) (shc_key (shs_heap (snd (GetOrAdd k v s)) ! p)) = Some p"
    proof (cases "p < length (shs_heap s)")
      case True
      with p(2) None shs_inv_live [OF assms True] show ?thesis by (auto simp: GetOrAdd_def Let_def nth_append)
    next
      case False
      with p(1) None show ?thesis by (auto simp: GetOrAdd_def Let_def nth_append less_Suc_eq)
    qed
  qed (use None shs_inv_wf [OF assms] in \<open>simp add: GetOrAdd_def Let_def wf_store\<close>)
qed (use assms in \<open>simp add: GetOrAdd_def\<close>)

lemma shc_Start_inv:
  assumes "shs_inv s" "shc_Start start p s = Some (s', err)"
  shows "shs_inv s'"
  using assms(2)
proof (cases rule: shc_StartE)
  case (2 v)
  show ?thesis
    by (rule shs_invI)
      (use shs_inv_wf [OF assms(1)] shs_invD [OF assms(1)] shs_inv_live [OF assms(1)] in \<open>auto simp: 2(3) nth_update split: if_splits\<close>)
qed (simp add: assms(1))

lemma shc_Shutdown_inv:
  assumes "shs_inv s" "shc_Shutdown stop p s = Some (s', err)" "p < length (shs_heap s)"
  shows "shs_inv s'"
  using assms(2)
proof (cases rule: shc_ShutdownE)
  case (2 v)
  show ?thesis
  proof (rule shs_invI)
    fix k q
    assume "map_load (shs_comps s') k = Some q"
    with shs_invD [OF assms(1), of k q]
    show "q < length (shs_heap s') \<and> shc_key (shs_heap s' ! q) = k \<and> \<not> shc_stopOnce (shs_heap s' ! q)"
      by (auto simp: 2(3) nth_update split: if_splits)
  next
    fix q
    assume q: "q < length (shs_heap s')" "\<not> shc_stopOnce (shs_heap s' ! q)"
    then have qp: "q \<noteq> p" "\<not> shc_stopOnce (shs_heap s ! q)" "q < length (shs_heap s)"
      by (auto simp: 2(3) nth_update split: if_splits)
    have "shc_key (shs_heap s ! q) \<noteq> shc_key (shs_heap s ! p)"
      using shs_inv_live [OF assms(1) qp(3, 2)] shs_inv_live [OF assms(1, 3) 2(1)] qp(1) by auto
    then show "map_load (shs_comps s') (shc_key (shs_heap s' ! q)) = Some q"
      using shs_inv_live [OF assms(1) qp(3, 2)] qp(1) by (simp add: 2(3) nth_update)
  qed (use shs_inv_wf [OF assms(1)] in \<open>simp add: 2(3) wf_delete\<close>)
qed (simp add: assms(1))

lemma shs_step_inv:
  "shs_inv s \<Longrightarrow> shs_guard e s \<Longrightarrow>
   shared_step (\<lambda>k v t. GetOrAdd k v) (shc_Start start) (shc_Shutdown stop) e s = Some s' \<Longrightarrow> shs_inv s'"
  by (cases e) (auto intro: GetOrAdd_inv shc_Start_inv shc_Shutdown_inv)

text \<open>The calls a component has had already.\<close>

definition calls_done :: "('k, 'v) shared_component \<Rightarrow> wrapped_call list" where
  "calls_done c = (if shc_startOnce c then [CallStart] else []) @ (if shc_stopOnce c then [CallStop] else [])"

lemma calls_done_mem [simp]:
  "CallStart \<in> set (calls_done c) \<longleftrightarrow> shc_startOnce c" "CallStop \<in> set (calls_done c) \<longleftrightarrow> shc_stopOnce c"
  by (auto simp: calls_done_def)

lemma firsts_cong: "set a = set b \<Longrightarrow> firsts a xs = firsts b xs"
proof (induction xs arbitrary: a b)
  case (Cons x xs)
  have "firsts (x # a) xs = firsts (x # b) xs" by (rule Cons.IH) (simp add: Cons.prems)
  moreover have "firsts a xs = firsts b xs" by (rule Cons.IH) (rule Cons.prems)
  ultimately show ?case using Cons.prems by simp
qed simp

lemma calls_done_upd [simp]:
  "set (calls_done (c\<lparr>shc_Component := v, shc_startOnce := True\<rparr>)) = insert CallStart (set (calls_done c))"
  "set (calls_done (c\<lparr>shc_Component := v, shc_stopOnce := True\<rparr>)) = insert CallStop (set (calls_done c))"
  by (auto simp: calls_done_def)

text \<open>One step seen from pointer \<open>p\<close>: the wrapped component gets the call unless it has had it.\<close>

definition seen_from :: "nat \<Rightarrow> wrapped_call list \<Rightarrow> _" where
  "seen_from p cs start stop s s' \<longleftrightarrow>
     p < length (shs_heap s') \<and>
     fold_opt (wrapped_apply start stop) (firsts (calls_done (shs_heap s ! p)) cs) (shc_Component (shs_heap s ! p)) =
       Some (shc_Component (shs_heap s' ! p)) \<and>
     set (calls_done (shs_heap s' ! p)) = set (calls_done (shs_heap s ! p)) \<union> set cs \<and>
     shc_key (shs_heap s' ! p) = shc_key (shs_heap s ! p)"

lemma shs_step_at:
  assumes p: "p < length (shs_heap s)"
    and st: "shared_step (\<lambda>k v t. GetOrAdd k v) (shc_Start start) (shc_Shutdown stop) e s = Some s'"
  shows "seen_from p (calls_on p [e]) start stop s s'"
proof (cases e)
  case (Obtain k v t)
  then show ?thesis using p st
    by (auto simp: seen_from_def GetOrAdd_def Let_def nth_append split: option.splits)
next
  case (StartIt q)
  with st obtain err where "shc_Start start q s = Some (s', err)" by auto
  then show ?thesis
  proof (cases rule: shc_StartE)
    case 1
    then show ?thesis using p StartIt by (auto simp: seen_from_def)
  next
    case (2 v)
    then show ?thesis using p StartIt by (auto simp: seen_from_def nth_update)
  qed
next
  case (StopIt q)
  with st obtain err where "shc_Shutdown stop q s = Some (s', err)" by auto
  then show ?thesis
  proof (cases rule: shc_ShutdownE)
    case 1
    then show ?thesis using p StopIt by (auto simp: seen_from_def)
  next
    case (2 v)
    then show ?thesis using p StopIt by (auto simp: seen_from_def nth_update)
  qed
qed

lemma firsts_append: "firsts a (xs @ ys) = firsts a xs @ firsts (a @ xs) ys"
proof (induction xs arbitrary: a)
  case (Cons x xs)
  have "firsts (x # a @ xs) ys = firsts (a @ x # xs) ys" by (rule firsts_cong) auto
  moreover have "firsts (a @ x # xs) ys = firsts (a @ xs) ys" if "x \<in> set a"
    using that by (intro firsts_cong) auto
  ultimately show ?case using Cons by auto
qed simp

lemma calls_on_Cons: "calls_on p (e # es) = calls_on p [e] @ calls_on p es"
  by (cases e) auto

lemma seen_from_trans:
  assumes "seen_from p xs start stop s s1" "seen_from p ys start stop s1 s'"
  shows "seen_from p (xs @ ys) start stop s s'"
proof -
  have "firsts (calls_done (shs_heap s ! p) @ xs) ys = firsts (calls_done (shs_heap s1 ! p)) ys"
    using assms(1) by (intro firsts_cong) (auto simp: seen_from_def)
  with assms show ?thesis by (auto simp: seen_from_def firsts_append fold_opt_append)
qed

lemma shs_run_calls:
  "p < length (shs_heap s) \<Longrightarrow> shs_run start stop es s = Some s' \<Longrightarrow> seen_from p (calls_on p es) start stop s s'"
proof (induction es arbitrary: s)
  case (Cons e es)
  from Cons.prems(2) obtain s1 where
    s1: "shared_step (\<lambda>k v t. GetOrAdd k v) (shc_Start start) (shc_Shutdown stop) e s = Some s1" and
    r: "shs_run start stop es s1 = Some s'" by (auto split: bind_splits)
  note at = shs_step_at [OF Cons.prems(1) s1]
  from at have "p < length (shs_heap s1)" by (simp add: seen_from_def)
  from seen_from_trans [OF at Cons.IH [OF this r]] show ?case
    by (simp only: calls_on_Cons [of p e es])
qed (simp add: seen_from_def)

text \<open>Calls on one component panic only if the wrapped component does.\<close>

lemma shs_run_single:
  assumes "p < length (shs_heap s)" "set es \<subseteq> {StartIt p, StopIt p}"
    "fold_opt (wrapped_apply start stop) (firsts (calls_done (shs_heap s ! p)) (calls_on p es)) (shc_Component (shs_heap s ! p)) \<noteq> None"
  shows "shs_run start stop es s \<noteq> None"
  using assms
proof (induction es arbitrary: s)
  case (Cons e es)
  let ?c = "shs_heap s ! p" and ?step = "shared_step (\<lambda>k v t. GetOrAdd k v) (shc_Start start) (shc_Shutdown stop)"
  from Cons.prems(3) have f: "fold_opt (wrapped_apply start stop)
      (firsts (calls_done ?c) (calls_on p [e]) @ firsts (calls_done ?c @ calls_on p [e]) (calls_on p es)) (shc_Component ?c) \<noteq> None"
    by (subst (asm) calls_on_Cons) (simp add: firsts_append)
  then have "fold_opt (wrapped_apply start stop) (firsts (calls_done ?c) (calls_on p [e])) (shc_Component ?c) \<noteq> None"
    by (auto simp: fold_opt_append bind_eq_Some_conv)
  with Cons.prems(2) have "?step e s \<noteq> None"
    by (cases "start (shc_Component ?c)"; cases "stop (shc_Component ?c)")
      (auto simp: shc_Start_def shc_Shutdown_def Let_def split: if_splits)
  then obtain s1 where s1: "?step e s = Some s1" by blast
  from shs_step_at [OF Cons.prems(1) s1] have at: "seen_from p (calls_on p [e]) start stop s s1" .
  have "firsts (calls_done ?c @ calls_on p [e]) (calls_on p es) = firsts (calls_done (shs_heap s1 ! p)) (calls_on p es)"
    using at by (intro firsts_cong) (auto simp: seen_from_def)
  with f at have "fold_opt (wrapped_apply start stop) (firsts (calls_done (shs_heap s1 ! p)) (calls_on p es)) (shc_Component (shs_heap s1 ! p)) \<noteq> None"
    by (auto simp: fold_opt_append seen_from_def)
  with Cons.IH [of s1] Cons.prems(2) at s1 show ?case by (auto simp: seen_from_def)
qed simp

lemma firsts_after_start: "firsts [CallStart] cs = (if CallStop \<in> set cs then [CallStop] else [])"
proof -
  have "firsts [CallStop, CallStart] cs = []" for cs
    by (induction cs) (auto, metis wrapped_call.exhaust)
  then show ?thesis by (induction cs) (auto, (metis wrapped_call.exhaust)+)
qed

text \<open>Start and stop calls by the holders of one component, the first of them a start.\<close>

lemma stop_among: "set es \<subseteq> {StartIt p, StopIt p} \<Longrightarrow> CallStop \<in> set (calls_on p es) \<longleftrightarrow> StopIt p \<in> set es"
  by (induction es rule: calls_on.induct) auto

lemma shs_single_run:
  fixes start stop :: "'v \<Rightarrow> ('v \<times> 'e option) option"
  assumes p: "p < length (shs_heap s)" "calls_done (shs_heap s ! p) = []" and es: "set es \<subseteq> {StartIt p, StopIt p}"
    and start: "start (shc_Component (shs_heap s ! p)) = Some (v1, e1)" and stop: "stop v1 = Some (v2, e2)"
  shows "\<exists>s'. shs_run start stop (StartIt p # es) s = Some s' \<and> p < length (shs_heap s') \<and>
    shc_Component (shs_heap s' ! p) = (if StopIt p \<in> set es then v2 else v1) \<and>
    shc_key (shs_heap s' ! p) = shc_key (shs_heap s ! p) \<and> (shc_stopOnce (shs_heap s' ! p) \<longleftrightarrow> StopIt p \<in> set es)"
proof -
  let ?es = "StartIt p # es"
  have f: "fold_opt (wrapped_apply start stop) (firsts [] (calls_on p ?es)) (shc_Component (shs_heap s ! p)) =
      Some (if StopIt p \<in> set es then v2 else v1)"
    using start stop stop_among [OF es] by (auto simp: firsts_after_start)
  have "set ?es \<subseteq> {StartIt p, StopIt p}" using es by auto
  from shs_run_single [OF p(1) this, of start stop] f obtain s' where s': "shs_run start stop ?es s = Some s'"
    by (simp only: p(2)) blast
  note at = shs_run_calls [OF p(1) s']
  have "shc_stopOnce (shs_heap s' ! p) \<longleftrightarrow> CallStop \<in> set (calls_on p ?es)"
    using at calls_done_mem(2) [of "shs_heap s' ! p"] by (simp only: seen_from_def p(2)) auto
  then have "shc_stopOnce (shs_heap s' ! p) \<longleftrightarrow> StopIt p \<in> set es" using stop_among [OF es] by simp
  with s' at f show ?thesis by (simp only: seen_from_def p(2)) auto
qed

subsection \<open>The contract of a shared map\<close>

text \<open>
  An implementation has an abstraction to the plain map above; its operations, under its invariant and its guard, act
  on the abstraction as the plain ones do.
\<close>

locale shared_map =
  fixes view :: "'s \<Rightarrow> ('k, 'v) shared_components"
    and inv :: "'s \<Rightarrow> bool"
    and guard :: "('k, 'v) shared_event \<Rightarrow> 's \<Rightarrow> bool"
    and get :: "'k \<Rightarrow> 'v \<Rightarrow> nat \<Rightarrow> 's \<Rightarrow> nat \<times> 's"
    and sta sto :: "nat \<Rightarrow> 's \<Rightarrow> ('s \<times> 'e option) option"
    and start stop :: "'v \<Rightarrow> ('v \<times> 'e option) option"
  assumes inv_view: "inv s \<Longrightarrow> shs_inv (view s)"
    and get_view: "inv s \<Longrightarrow> guard (Obtain k v t) s \<Longrightarrow> apsnd view (get k v t s) = GetOrAdd k v (view s)"
    and sta_view: "inv s \<Longrightarrow> guard (StartIt p) s \<Longrightarrow> map_option (apfst view) (sta p s) = shc_Start start p (view s)"
    and sto_view: "inv s \<Longrightarrow> guard (StopIt p) s \<Longrightarrow> map_option (apfst view) (sto p s) = shc_Shutdown stop p (view s)"
    and step_inv: "inv s \<Longrightarrow> guard e s \<Longrightarrow> shared_step get sta sto e s = Some s' \<Longrightarrow> inv s'"
begin

lemma step_view:
  assumes "inv s" "guard e s"
  shows "map_option view (shared_step get sta sto e s) =
         shared_step (\<lambda>k v t. GetOrAdd k v) (shc_Start start) (shc_Shutdown stop) e (view s)"
proof (cases e)
  case (Obtain k v t)
  with assms get_view [of s k v t] show ?thesis by (metis option.map(2) shared_step.simps(1) snd_apsnd)
next
  case (StartIt p)
  with assms sta_view [of s p, symmetric] show ?thesis by (simp add: option.map_comp comp_def)
next
  case (StopIt p)
  with assms sto_view [of s p, symmetric] show ?thesis by (simp add: option.map_comp comp_def)
qed

lemma run_view:
  "inv s \<Longrightarrow> guarded guard (shared_step get sta sto) es s \<Longrightarrow>
   map_option view (fold_opt (shared_step get sta sto) es s) = shs_run start stop es (view s)"
proof (induction es arbitrary: s)
  case (Cons e es)
  then have g: "guard e s" by simp
  show ?case
  proof (cases "shared_step get sta sto e s")
    case None
    with step_view [OF Cons.prems(1) g, symmetric] show ?thesis by simp
  next
    case (Some s1)
    with Cons.IH [of s1] Cons.prems step_inv [OF Cons.prems(1) g Some] step_view [OF Cons.prems(1) g, symmetric]
    show ?thesis by simp
  qed
qed simp

lemma shared_run_inv:
  "inv s \<Longrightarrow> guarded guard (shared_step get sta sto) es s \<Longrightarrow>
   fold_opt (shared_step get sta sto) es s = Some s' \<Longrightarrow> inv s'"
  by (induction es arbitrary: s) (auto split: bind_splits intro: step_inv)

text \<open>The component a request creates gets the first start and the first stop of the calls on it, in their order; the key
  leads to it until it is stopped.\<close>

lemma created_component:
  assumes "inv s" and es: "es = Obtain k v t # post" and g: "guarded guard (shared_step get sta sto) es s"
    and r: "fold_opt (shared_step get sta sto) es s = Some s'" and new: "map_load (shs_comps (view s)) k = None"
  defines "p \<equiv> length (shs_heap (view s))"
  shows "p < length (shs_heap (view s'))"
    and "fold_opt (wrapped_apply start stop) (firsts [] (calls_on p post)) v = Some (shc_Component (shs_heap (view s') ! p))"
    and "map_load (shs_comps (view s')) k = Some p \<longleftrightarrow> CallStop \<notin> set (calls_on p post)"
proof -
  let ?c = "\<lparr>shc_Component = v, shc_startOnce = False, shc_stopOnce = False, shc_key = k\<rparr>"
  let ?s1 = "snd (GetOrAdd k v (view s))"
  from run_view [OF assms(1) g] r es have run: "shs_run start stop post ?s1 = Some (view s')" by simp
  have s1: "p < length (shs_heap ?s1)" "shs_heap ?s1 ! p = ?c"
    using new by (auto simp: GetOrAdd_def Let_def p_def)
  from shs_run_calls [OF s1(1) run] have at: "seen_from p (calls_on p post) start stop ?s1 (view s')" .
  then show "p < length (shs_heap (view s'))"
    and "fold_opt (wrapped_apply start stop) (firsts [] (calls_on p post)) v = Some (shc_Component (shs_heap (view s') ! p))"
    by (simp_all add: seen_from_def s1 calls_done_def)
  have "shc_key (shs_heap (view s') ! p) = k"
    and stopped: "shc_stopOnce (shs_heap (view s') ! p) \<longleftrightarrow> CallStop \<in> set (calls_on p post)"
    using at calls_done_mem(2) [of "shs_heap (view s') ! p"] by (auto simp: seen_from_def s1 calls_done_def)
  then show "map_load (shs_comps (view s')) k = Some p \<longleftrightarrow> CallStop \<notin> set (calls_on p post)"
    using inv_view [OF shared_run_inv [OF assms(1) g r]] at by (auto simp: shs_inv_def seen_from_def)
qed

end

interpretation plain: shared_map id shs_inv shs_guard "\<lambda>k v t. GetOrAdd k v" "shc_Start start" "shc_Shutdown stop" start stop
  for start stop
  by unfold_locales (auto simp: shs_step_inv apsnd_def apfst_def map_prod_def option.map_ident option.map_id0 intro: shs_step_inv)

subsection \<open>The map of the OTLP receiver\<close>

definition comp_view :: "('k, 'v) comp \<Rightarrow> ('k, 'v) shared_component" where
  "comp_view c = \<lparr>shc_Component = cmp_component c, shc_startOnce = cmp_startOnce c, shc_stopOnce = cmp_stopOnce c, shc_key = cmp_key c\<rparr>"

definition cm_view :: "('k, 'v, 'e) comp_map \<Rightarrow> ('k, 'v) shared_components" where
  "cm_view m = \<lparr>shs_heap = map comp_view (cm_heap m), shs_comps = cm_components m\<rparr>"

text \<open>The closure a component has built up: its later instances, the newest first, then the first one.\<close>

fun chain :: "nat list \<Rightarrow> reporter" where
  "chain [] = HostReport 0"
| "chain [t] = HostReport t"
| "chain (t # ts) = ReportBoth t (chain ts)"

definition comp_ok :: "(nat \<Rightarrow> reporter) \<Rightarrow> ('k, 'v) comp \<Rightarrow> bool" where
  "comp_ok settings c \<longleftrightarrow>
     (\<exists>later. cmp_seenSettings c = cmp_telemetry c # later \<and> distinct (cmp_telemetry c # later) \<and>
        settings (cmp_telemetry c) = chain (rev (cmp_seenSettings c)) \<and> (\<forall>t \<in> set later. settings t = HostReport t))"

definition cm_inv :: "('k, 'v, 'e) comp_map \<Rightarrow> bool" where
  "cm_inv m \<longleftrightarrow> shs_inv (cm_view m) \<and> (\<forall>c \<in> set (cm_heap m). comp_ok (cm_settings m) c) \<and>
     (\<forall>p < length (cm_heap m). \<forall>q < length (cm_heap m). p \<noteq> q \<longrightarrow>
        set (cmp_seenSettings (cm_heap m ! p)) \<inter> set (cmp_seenSettings (cm_heap m ! q)) = {}) \<and>
     (\<forall>t. (\<forall>c \<in> set (cm_heap m). t \<notin> set (cmp_seenSettings c)) \<longrightarrow> cm_settings m t = HostReport t)"

lemma chain_Cons: "ts \<noteq> [] \<Longrightarrow> chain (t # ts) = ReportBoth t (chain ts)"
  by (cases ts) auto

lemma report_simps [simp]:
  "report st (HostReport t) = Some [t]"
  "report st (ReportBoth t prev) = report st (st t) \<bind> (\<lambda>xs. report st prev \<bind> (\<lambda>ys. Some (xs @ ys)))"
  by (subst report.simps, simp)+

lemma report_chain: "ts \<noteq> [] \<Longrightarrow> (\<forall>t \<in> set (butlast ts). st t = HostReport t) \<Longrightarrow> report st (chain ts) = Some ts"
  by (induction ts rule: chain.induct) auto

lemma report_comp:
  assumes "comp_ok st c"
  shows "report st (st (cmp_telemetry c)) = Some (rev (cmp_seenSettings c))"
proof -
  from assms obtain later where l: "cmp_seenSettings c = cmp_telemetry c # later" "\<forall>t \<in> set later. st t = HostReport t"
    "st (cmp_telemetry c) = chain (rev (cmp_seenSettings c))" by (auto simp: comp_ok_def)
  have "report st (chain (rev (cmp_seenSettings c))) = Some (rev (cmp_seenSettings c))"
    using l(1, 2) by (intro report_chain) auto
  with l(3) show ?thesis by simp
qed

text \<open>What the instances of a component are told.\<close>

definition told :: "('k, 'v) comp \<Rightarrow> 'e status_event list \<Rightarrow> (nat \<times> 'e status_event) list" where
  "told c evs = concat (map (\<lambda>ev. map (\<lambda>t. (t, ev)) (rev (cmp_seenSettings c))) evs)"

lemma ReportStatus_ok:
  "comp_ok (cm_settings m) c \<Longrightarrow>
   ReportStatus (cmp_telemetry c) ev m = Some (m\<lparr>cm_reports := cm_reports m @ told c [ev]\<rparr>)"
  by (simp add: ReportStatus_def report_comp told_def)

lemma cm_inv_comp: "cm_inv m \<Longrightarrow> p < length (cm_heap m) \<Longrightarrow> comp_ok (cm_settings m) (cm_heap m ! p)"
  by (auto simp: cm_inv_def)

definition start_events :: "'e option \<Rightarrow> 'e status_event list" where
  "start_events err = StatusStarting # (case err of Some e \<Rightarrow> [PermanentErrorEvent e] | None \<Rightarrow> [])"

definition stop_events :: "'e option \<Rightarrow> 'e status_event list" where
  "stop_events err = [StatusStopping, case err of Some e \<Rightarrow> PermanentErrorEvent e | None \<Rightarrow> StatusStopped]"

lemma cmp_Start_eq:
  assumes "cm_inv m" "p < length (cm_heap m)" "\<not> cmp_startOnce (cm_heap m ! p)"
  shows "cmp_Start start p m =
    (case start (cmp_component (cm_heap m ! p)) of
       None \<Rightarrow> None
     | Some (v, err) \<Rightarrow>
         Some (m\<lparr>cm_heap := (cm_heap m)[p := (cm_heap m ! p)\<lparr>cmp_component := v, cmp_startOnce := True\<rparr>],
                 cm_reports := cm_reports m @ told (cm_heap m ! p) (start_events err)\<rparr>, err))"
proof -
  note ok = cm_inv_comp [OF assms(1, 2)]
  show ?thesis using assms(3) ok
    by (auto simp: cmp_Start_def Let_def ReportStatus_ok start_events_def told_def split: option.splits)
qed

lemma cmp_Shutdown_eq:
  assumes "cm_inv m" "p < length (cm_heap m)" "\<not> cmp_stopOnce (cm_heap m ! p)"
  shows "cmp_Shutdown stop p m =
    (case stop (cmp_component (cm_heap m ! p)) of
       None \<Rightarrow> None
     | Some (v, err) \<Rightarrow>
         Some (m\<lparr>cm_heap := (cm_heap m)[p := (cm_heap m ! p)\<lparr>cmp_component := v, cmp_stopOnce := True\<rparr>],
                 cm_components := map_delete (cmp_key (cm_heap m ! p)) (cm_components m),
                 cm_reports := cm_reports m @ told (cm_heap m ! p) (stop_events err)\<rparr>, err))"
proof -
  note ok = cm_inv_comp [OF assms(1, 2)]
  show ?thesis using assms(3) ok
    by (auto simp: cmp_Shutdown_def Let_def ReportStatus_ok stop_events_def told_def split: option.splits)
qed

lemma comp_view_nth [simp]: "p < length (cm_heap m) \<Longrightarrow> map comp_view (cm_heap m) ! p = comp_view (cm_heap m ! p)"
  by simp

lemma comp_view_sel [simp]:
  "shc_Component (comp_view c) = cmp_component c" "shc_startOnce (comp_view c) = cmp_startOnce c"
  "shc_stopOnce (comp_view c) = cmp_stopOnce c" "shc_key (comp_view c) = cmp_key c"
  by (simp_all add: comp_view_def)

lemma cmp_Start_view:
  assumes "cm_inv m" "p < length (cm_heap m)"
  shows "map_option (apfst cm_view) (cmp_Start start p m) = shc_Start start p (cm_view m)"
proof (cases "cmp_startOnce (cm_heap m ! p)")
  case True
  with assms show ?thesis by (simp add: cmp_Start_def shc_Start_def cm_view_def Let_def)
next
  case False
  with assms show ?thesis
    by (auto simp: cmp_Start_eq shc_Start_def cm_view_def Let_def map_update comp_view_def split: option.splits prod.splits)
qed

lemma cmp_Shutdown_view:
  assumes "cm_inv m" "p < length (cm_heap m)"
  shows "map_option (apfst cm_view) (cmp_Shutdown stop p m) = shc_Shutdown stop p (cm_view m)"
proof (cases "cmp_stopOnce (cm_heap m ! p)")
  case True
  with assms show ?thesis by (simp add: cmp_Shutdown_def shc_Shutdown_def cm_view_def Let_def)
next
  case False
  with assms show ?thesis
    by (auto simp: cmp_Shutdown_eq shc_Shutdown_def cm_view_def Let_def map_update comp_view_def split: option.splits prod.splits)
qed

text \<open>Starting and stopping keep the settings of every component.\<close>

lemma cm_inv_update:
  assumes m: "cm_inv m" "p < length (cm_heap m)" "shs_inv (cm_view m')"
    and eq: "cm_heap m' = (cm_heap m)[p := c']" "cm_settings m' = cm_settings m"
    and c': "cmp_seenSettings c' = cmp_seenSettings (cm_heap m ! p)" "cmp_telemetry c' = cmp_telemetry (cm_heap m ! p)"
  shows "cm_inv m'"
proof -
  have seen: "map cmp_seenSettings (cm_heap m') = map cmp_seenSettings (cm_heap m)"
    and tel: "map cmp_telemetry (cm_heap m') = map cmp_telemetry (cm_heap m)"
    using m(2) by (simp_all add: eq c' map_update list_update_same_conv)
  have len: "length (cm_heap m') = length (cm_heap m)" by (simp add: eq)
  have nth: "cmp_seenSettings (cm_heap m' ! q) = cmp_seenSettings (cm_heap m ! q)"
    "cmp_telemetry (cm_heap m' ! q) = cmp_telemetry (cm_heap m ! q)" if "q < length (cm_heap m)" for q
    using that len by (metis seen nth_map, metis tel nth_map len)
  have "comp_ok (cm_settings m') (cm_heap m' ! q)" if "q < length (cm_heap m)" for q
    using cm_inv_comp [OF m(1) that] nth [OF that] by (simp add: comp_ok_def eq)
  moreover have "cm_settings m' t = HostReport t" if "\<forall>c \<in> set (cm_heap m'). t \<notin> set (cmp_seenSettings c)" for t
  proof -
    have "\<forall>ts \<in> set (map cmp_seenSettings (cm_heap m)). t \<notin> set ts"
      using that by (simp add: seen [symmetric])
    with m(1) show ?thesis by (simp add: cm_inv_def eq(2))
  qed
  ultimately show ?thesis
    using m(1, 3) by (simp add: cm_inv_def all_set_conv_all_nth len nth)
qed

lemma cmp_Start_inv:
  assumes "cm_inv m" "p < length (cm_heap m)" "cmp_Start start p m = Some (m', err)"
  shows "cm_inv m'"
proof (cases "cmp_startOnce (cm_heap m ! p)")
  case True
  with assms show ?thesis by (simp add: cmp_Start_def Let_def)
next
  case False
  have "shc_Start start p (cm_view m) = Some (cm_view m', err)"
    using cmp_Start_view [OF assms(1, 2), of start, symmetric] assms(3) by simp
  with assms(1) have "shs_inv (cm_view m')" by (auto simp: cm_inv_def intro: shc_Start_inv)
  with assms False show ?thesis
    by (auto simp: cmp_Start_eq split: option.splits intro: cm_inv_update [OF assms(1, 2)])
qed

lemma cmp_Shutdown_inv:
  assumes "cm_inv m" "p < length (cm_heap m)" "cmp_Shutdown stop p m = Some (m', err)"
  shows "cm_inv m'"
proof (cases "cmp_stopOnce (cm_heap m ! p)")
  case True
  with assms show ?thesis by (simp add: cmp_Shutdown_def Let_def)
next
  case False
  have "shc_Shutdown stop p (cm_view m) = Some (cm_view m', err)"
    using cmp_Shutdown_view [OF assms(1, 2), of stop, symmetric] assms(3) by simp
  then have "shs_inv (cm_view m')"
    by (rule shc_Shutdown_inv [rotated]) (use assms(1, 2) in \<open>simp_all add: cm_inv_def cm_view_def\<close>)
  with assms False show ?thesis
    by (auto simp: cmp_Shutdown_eq split: option.splits intro: cm_inv_update [OF assms(1, 2)])
qed

lemma cm_get_view:
  assumes "cm_inv m"
  shows "apsnd cm_view (cm_get k v t m) = GetOrAdd k v (cm_view m)"
proof (cases "map_load (cm_components m) k")
  case None
  then show ?thesis by (simp add: cm_get_def LoadOrStore_def GetOrAdd_def cm_view_def comp_view_def Let_def)
next
  case (Some p)
  then have p: "p < length (cm_heap m)"
    using assms shs_invD [of "cm_view m" k p] by (simp add: cm_inv_def cm_view_def)
  have "(map comp_view (cm_heap m))[p := comp_view ((cm_heap m ! p)\<lparr>cmp_seenSettings := x\<rparr>)] = map comp_view (cm_heap m)" for x
    using p by (simp add: list_update_same_conv comp_view_def)
  with Some show ?thesis
    by (simp add: cm_get_def LoadOrStore_def GetOrAdd_def cm_view_def Let_def map_update)
qed

text \<open>A new component brings its own settings.\<close>

lemma cm_store_inv:
  assumes m: "cm_inv m" "\<forall>c \<in> set (cm_heap m). t \<notin> set (cmp_seenSettings c)" and new: "map_load (cm_components m) k = None"
  shows "cm_inv (snd (cm_get k v t m))"
proof -
  have v: "shs_inv (cm_view (snd (cm_get k v t m)))"
    using GetOrAdd_inv [of "cm_view m" k v] cm_get_view [OF m(1), of k v t] m(1)
    by (metis cm_inv_def snd_apsnd)
  have t: "cm_settings m t = HostReport t" using m by (simp add: cm_inv_def)
  have "cm_heap (snd (cm_get k v t m)) = cm_heap m @ [\<lparr>cmp_component = v, cmp_startOnce = False, cmp_stopOnce = False,
          cmp_key = k, cmp_telemetry = t, cmp_seenSettings = [t]\<rparr>]"
    and "cm_settings (snd (cm_get k v t m)) = cm_settings m"
    using new by (simp_all add: cm_get_def LoadOrStore_def Let_def)
  with v t m show ?thesis
    by (auto simp: cm_inv_def comp_ok_def nth_append less_Suc_eq)
qed

text \<open>A further instance extends the closure of its component.\<close>

lemma cm_load_inv:
  assumes m: "cm_inv m" "\<forall>c \<in> set (cm_heap m). t \<notin> set (cmp_seenSettings c)" and old: "map_load (cm_components m) k = Some p"
  shows "cm_inv (snd (cm_get k v t m))"
proof -
  let ?c = "cm_heap m ! p" and ?m = "snd (cm_get k v t m)"
  let ?c' = "?c\<lparr>cmp_seenSettings := cmp_seenSettings ?c @ [t]\<rparr>"
  have p: "p < length (cm_heap m)"
    using m(1) old shs_invD [of "cm_view m" k p] by (simp add: cm_inv_def cm_view_def)
  note ok = cm_inv_comp [OF m(1)]
  have fresh: "t \<notin> set (cmp_seenSettings (cm_heap m ! q))" if "q < length (cm_heap m)" for q
    using m(2) that by simp
  have v: "shs_inv (cm_view ?m)"
    using GetOrAdd_inv [of "cm_view m" k v] cm_get_view [OF m(1), of k v t] m(1) by (metis cm_inv_def snd_apsnd)
  have heap: "cm_heap ?m = (cm_heap m)[p := ?c']"
    and set: "cm_settings ?m = (cm_settings m)(cmp_telemetry ?c := ReportBoth t (cm_settings m (cmp_telemetry ?c)))"
    using old fresh [OF p] by (simp_all add: cm_get_def LoadOrStore_def Let_def)
  have t: "cm_settings m t = HostReport t" using m by (simp add: cm_inv_def)
  have tel: "cmp_telemetry (cm_heap m ! q) \<in> set (cmp_seenSettings (cm_heap m ! q))" if "q < length (cm_heap m)" for q
    using ok [OF that] by (auto simp: comp_ok_def)
  have apart: "set (cmp_seenSettings (cm_heap m ! q)) \<inter> set (cmp_seenSettings (cm_heap m ! r)) = {}"
    if "q < length (cm_heap m)" "r < length (cm_heap m)" "q \<noteq> r" for q r
    using m(1) that by (simp add: cm_inv_def)
  have c': "comp_ok (cm_settings ?m) ?c'"
    using ok [OF p] fresh [OF p] tel [OF p] t by (auto simp: comp_ok_def set chain_Cons)
  have oks: "comp_ok (cm_settings ?m) (cm_heap ?m ! q)" if q: "q < length (cm_heap m)" for q
  proof (cases "q = p")
    case True
    with c' p show ?thesis by (simp add: heap)
  next
    case False
    then have "cmp_telemetry ?c \<notin> set (cmp_seenSettings (cm_heap m ! q))" using apart [OF q p] tel [OF p] by auto
    with ok [OF q] tel [OF q] False show ?thesis by (auto simp: comp_ok_def set heap)
  qed
  have len: "length (cm_heap ?m) = length (cm_heap m)" by (simp add: heap)
  have seen: "cmp_seenSettings (cm_heap ?m ! q) = cmp_seenSettings (cm_heap m ! q) @ (if q = p then [t] else [])"
    if "q < length (cm_heap m)" for q using that by (simp add: heap nth_update)
  have "cm_settings ?m u = HostReport u" if u: "\<forall>c \<in> set (cm_heap ?m). u \<notin> set (cmp_seenSettings c)" for u
  proof -
    have out: "u \<notin> set (cmp_seenSettings (cm_heap m ! q))" if "q < length (cm_heap m)" for q
      using u that seen [OF that] by (metis Un_iff len nth_mem set_append)
    then have "cm_settings m u = HostReport u" using m(1) by (simp add: cm_inv_def all_set_conv_all_nth)
    moreover have "u \<noteq> cmp_telemetry ?c" using out [OF p] tel [OF p] by auto
    ultimately show ?thesis by (simp add: set)
  qed
  moreover have "set (cmp_seenSettings (cm_heap ?m ! q)) \<inter> set (cmp_seenSettings (cm_heap ?m ! r)) = {}"
    if "q < length (cm_heap m)" "r < length (cm_heap m)" "q \<noteq> r" for q r
    using apart [OF that] fresh that by (auto simp: seen)
  ultimately show ?thesis
    using v oks by (simp add: cm_inv_def all_set_conv_all_nth len)
qed

lemma cm_get_inv:
  assumes m: "cm_inv m" and g: "cm_guard (Obtain k v t) m"
  shows "cm_inv (snd (cm_get k v t m))"
proof (cases "\<forall>c \<in> set (cm_heap m). t \<notin> set (cmp_seenSettings c)")
  case True
  then show ?thesis using m by (cases "map_load (cm_components m) k") (simp_all add: cm_store_inv cm_load_inv)
next
  case False
  with m g show ?thesis by (auto simp: cm_get_def LoadOrStore_def Let_def split: option.splits)
qed

interpretation otlp_map: shared_map cm_view cm_inv cm_guard cm_get "cmp_Start start" "cmp_Shutdown stop" start stop
  for start stop
proof
  show "cm_inv s'" if "cm_inv s" "cm_guard e s" "shared_step cm_get (cmp_Start start) (cmp_Shutdown stop) e s = Some s'" for s e s'
    using that by (cases e) (auto intro: cm_get_inv cmp_Start_inv cmp_Shutdown_inv)
qed (simp_all add: cm_get_view cmp_Start_view cmp_Shutdown_view cm_inv_def)

lemma NewMap_inv: "cm_inv NewMap"
  by (simp add: cm_inv_def NewMap_def shs_inv_def cm_view_def)

text \<open>A holder changes the wrapped component in place.\<close>

definition cm_update :: "nat \<Rightarrow> ('v \<Rightarrow> 'v) \<Rightarrow> ('k, 'v, 'e) comp_map \<Rightarrow> ('k, 'v, 'e) comp_map" where
  "cm_update p f m =
     m\<lparr>cm_heap := (cm_heap m)[p := (cm_heap m ! p)\<lparr>cmp_component := f (cmp_Unwrap p m)\<rparr>]\<rparr>"

lemma cm_update_inv:
  assumes "cm_inv m" "p < length (cm_heap m)"
  shows "cm_inv (cm_update p f m)"
proof -
  have v: "shs_inv (cm_view m)" using assms(1) by (simp add: cm_inv_def)
  have "shs_inv (cm_view (cm_update p f m))"
  proof (rule shs_invI)
    fix k q
    assume "map_load (shs_comps (cm_view (cm_update p f m))) k = Some q"
    with shs_invD [OF v, of k q]
    show "q < length (shs_heap (cm_view (cm_update p f m))) \<and> shc_key (shs_heap (cm_view (cm_update p f m)) ! q) = k \<and>
          \<not> shc_stopOnce (shs_heap (cm_view (cm_update p f m)) ! q)"
      by (auto simp: cm_view_def cm_update_def nth_update)
  next
    fix q
    assume "q < length (shs_heap (cm_view (cm_update p f m)))" "\<not> shc_stopOnce (shs_heap (cm_view (cm_update p f m)) ! q)"
    with shs_inv_live [OF v, of q]
    show "map_load (shs_comps (cm_view (cm_update p f m))) (shc_key (shs_heap (cm_view (cm_update p f m)) ! q)) = Some q"
      by (auto simp: cm_view_def cm_update_def nth_update split: if_splits)
  qed (use shs_inv_wf [OF v] in \<open>simp add: cm_view_def cm_update_def\<close>)
  from cm_inv_update [OF assms this, of "(cm_heap m ! p)\<lparr>cmp_component := f (cmp_Unwrap p m)\<rparr>"] show ?thesis
    by (simp add: cm_update_def)
qed

lemma single_component_run:
  assumes m: "cm_inv m" "p < length (cm_heap m)" "\<not> cmp_startOnce (cm_heap m ! p)" "\<not> cmp_stopOnce (cm_heap m ! p)"
    and es: "set es \<subseteq> {StartIt p, StopIt p}"
    and start: "start (cmp_Unwrap p m) = Some (v1, e1)" and stop: "stop v1 = Some (v2, e2)"
  shows "\<exists>m'. cm_run start stop (StartIt p # es) m = Some m' \<and> p < length (cm_heap m') \<and>
    cmp_Unwrap p m' = (if StopIt p \<in> set es then v2 else v1) \<and>
    (StopIt p \<in> set es \<longrightarrow> map_load (cm_components m') (cmp_key (cm_heap m ! p)) \<noteq> Some p)"
proof -
  have len: "p < length (cm_heap m1)"
    if "shared_step cm_get (cmp_Start start) (cmp_Shutdown stop) e m = Some m1" "cm_guard e m" "cm_inv m" "p < length (cm_heap m)" for e m m1
  proof -
    have "shared_step (\<lambda>k v t. GetOrAdd k v) (shc_Start start) (shc_Shutdown stop) e (cm_view m) = Some (cm_view m1)"
      using otlp_map.step_view [OF that(3, 2), of start stop] that(1) by simp
    from shs_step_at [OF _ this, of p] that(4) show ?thesis by (simp add: cm_view_def seen_from_def)
  qed
  have g: "guarded cm_guard (shared_step cm_get (cmp_Start start) (cmp_Shutdown stop)) xs m"
    if "set xs \<subseteq> {StartIt p, StopIt p}" "cm_inv m" "p < length (cm_heap m)" for xs m
    using that
  proof (induction xs arbitrary: m)
    case (Cons x xs)
    then have "cm_guard x m" by auto
    then show ?case
      using Cons len [of x m] otlp_map.step_inv [OF Cons.prems(2), of x start stop] by (auto simp del: cm_guard.simps split: option.splits)
  qed simp
  have g': "guarded cm_guard (shared_step cm_get (cmp_Start start) (cmp_Shutdown stop)) (StartIt p # es) m"
    using g [of "StartIt p # es"] es m by auto
  have view: "p < length (shs_heap (cm_view m))" "calls_done (shs_heap (cm_view m) ! p) = []"
    "start (shc_Component (shs_heap (cm_view m) ! p)) = Some (v1, e1)"
    using m start by (simp_all add: calls_done_def cm_view_def cmp_Unwrap_def)
  from shs_single_run [where start = start and stop = stop, OF view(1, 2) es view(3) stop] otlp_map.run_view [OF m(1) g', symmetric]
  obtain m' where m': "cm_run start stop (StartIt p # es) m = Some m'" "p < length (cm_heap m')"
    "cmp_Unwrap p m' = (if StopIt p \<in> set es then v2 else v1)" "cmp_stopOnce (cm_heap m' ! p) \<longleftrightarrow> StopIt p \<in> set es"
    by (auto simp: cm_view_def cmp_Unwrap_def simp del: fold_opt.simps)
  have "cm_inv m'" using otlp_map.shared_run_inv [OF m(1) g' m'(1)] .
  then have "map_load (cm_components m') (cmp_key (cm_heap m ! p)) \<noteq> Some p" if "StopIt p \<in> set es"
    using that m'(2, 4) shs_invD [of "cm_view m'" "cmp_key (cm_heap m ! p)" p] by (auto simp: cm_inv_def cm_view_def)
  with m' show ?thesis by blast
qed

abbreviation cm_guarded where
  "cm_guarded start stop \<equiv> guarded cm_guard (shared_step cm_get (cmp_Start start) (cmp_Shutdown stop))"

lemma cm_reachable_inv:
  "cm_guarded start stop es NewMap \<Longrightarrow> cm_run start stop es NewMap = Some m \<Longrightarrow> cm_inv m"
  by (rule otlp_map.shared_run_inv [OF NewMap_inv])

subsection \<open>Properties\<close>

text \<open>C28: One shared component per configuration: the component that a first request for a key creates receives, of all later
  start and stop calls of all its holders, exactly the first start and the first stop, in the order in which they came, whatever happens
  to other keys in between; and the key leads to it exactly as long as it has not been stopped, so that a configuration can be
  built again afterwards.\<close>

theorem shared_receiver_started_once:
  assumes "cm_guarded start stop (pre @ Obtain k v t # post) NewMap"
    and pre: "cm_run start stop pre NewMap = Some m0" and new: "map_load (cm_components m0) k = None"
    and post: "cm_run start stop (Obtain k v t # post) m0 = Some m"
  shows "length (cm_heap m0) < length (cm_heap m) \<and>
    fold_opt (wrapped_apply start stop) (firsts [] (calls_on (length (cm_heap m0)) post)) v = Some (cmp_Unwrap (length (cm_heap m0)) m) \<and>
    (map_load (cm_components m) k = Some (length (cm_heap m0)) \<longleftrightarrow> CallStop \<notin> set (calls_on (length (cm_heap m0)) post))"
proof -
  from assms(1) pre have g: "cm_guarded start stop pre NewMap" "cm_guarded start stop (Obtain k v t # post) m0"
    by (simp_all add: guarded_append del: guarded.simps)
  note inv = cm_reachable_inv [OF g(1) pre]
  have new': "map_load (shs_comps (cm_view m0)) k = None" using new by (simp add: cm_view_def)
  note c = otlp_map.created_component [OF inv refl g(2) post new']
  show ?thesis using c by (auto simp: cm_view_def cmp_Unwrap_def)
qed

text \<open>C29: Status of a shared component: whatever requests, starts and stops came before, a start that is due returns unless the
  wrapped component panics, and tells every instance that asked for the component exactly once that it is starting, the latest first, and
  in the same way of the error if there is one.\<close>

theorem every_instance_is_told:
  assumes "cm_guarded start stop es NewMap" "cm_run start stop es NewMap = Some m" "p < length (cm_heap m)"
    and "\<not> cmp_startOnce (cm_heap m ! p)" "start (cmp_Unwrap p m) = Some (v, err)"
  shows "\<exists>m'. cmp_Start start p m = Some (m', err) \<and> cmp_Unwrap p m' = v \<and>
    cm_reports m' = cm_reports m @ told (cm_heap m ! p) (start_events err) \<and> distinct (cmp_seenSettings (cm_heap m ! p))"
proof -
  note inv = cm_reachable_inv [OF assms(1, 2)]
  have "distinct (cmp_seenSettings (cm_heap m ! p))"
    using cm_inv_comp [OF inv assms(3)] by (auto simp: comp_ok_def)
  then show ?thesis
    using assms(3-5) by (simp add: cmp_Start_eq [OF inv] cmp_Unwrap_def)
qed

text \<open>The guard on settings is needed: two components that hold each other's settings report in a circle.\<close>

lemma crossed_settings_circle:
  assumes "st a = ReportBoth b ra" "st b = ReportBoth a rb" "report st r = Some ts"
  shows "r \<noteq> st a \<and> r \<noteq> st b"
proof -
  have "s = st \<longrightarrow> r \<noteq> st a \<and> r \<noteq> st b" if "report s r = Some ts" for s
  proof (rule report.raw_induct [OF _ that, of "\<lambda>s r ts. s = st \<longrightarrow> r \<noteq> st a \<and> r \<noteq> st b"])
    fix rep :: "(nat \<Rightarrow> reporter) \<Rightarrow> reporter \<Rightarrow> nat list option" and s f y
    assume IH: "\<And>s r ts. rep s r = Some ts \<Longrightarrow> s = st \<longrightarrow> r \<noteq> st a \<and> r \<noteq> st b"
      and body: "(case f of HostReport t \<Rightarrow> Some [t] | ReportBoth t prev \<Rightarrow> rep s (s t) \<bind> (\<lambda>xs. rep s prev \<bind> (\<lambda>ys. Some (xs @ ys)))) = Some y"
    have "rep st (st a) = None" "rep st (st b) = None"
      using IH [of st "st a"] IH [of st "st b"] by (meson not_Some_eq)+
    with body show "s = st \<longrightarrow> f \<noteq> st a \<and> f \<noteq> st b" by (auto simp: assms(1, 2) simp del: not_None_eq)
  qed
  with assms(3) show ?thesis by blast
qed

text \<open>Two signals of one configuration, a third of another; the holders start and stop twice each.\<close>

definition demo_lifecycle :: "(string, string list) shared_event list" where
  "demo_lifecycle = [Obtain ''a'' [] 0, Obtain ''a'' [] 1, StartIt 0, StartIt 0, Obtain ''b'' [] 2, StopIt 0, StartIt 1, StopIt 0, Obtain ''a'' [] 3]"

definition demo_call :: "string \<Rightarrow> string list \<Rightarrow> (string list \<times> string option) option" where
  "demo_call x v = Some (v @ [x], None)"

lemmas demo_shared =
  demo_lifecycle_def demo_call_def cm_get_def LoadOrStore_def NewMap_def cmp_Start_def cmp_Shutdown_def ReportStatus_def Let_def
  map_store_def map_delete_def cmp_Unwrap_def

theorem shared_receiver_started_once_witness:
  "\<exists>m. cm_run (demo_call ''start'') (demo_call ''stop'') demo_lifecycle NewMap = Some m \<and> cmp_Unwrap 0 m = [''start'', ''stop''] \<and>
     map_load (cm_components m) ''a'' = Some 2"
proof -
  obtain m :: "(string, string list, string) comp_map" where
    m: "cm_run (demo_call ''start'') (demo_call ''stop'') demo_lifecycle NewMap = Some m" "map_load (cm_components m) ''a'' = Some 2"
    by (simp add: demo_shared)
  have g: "cm_guarded (demo_call ''start'') (demo_call ''stop'') ([] @ demo_lifecycle) (NewMap :: (string, string list, string) comp_map)"
    by (simp add: demo_shared)
  have "fold_opt (wrapped_apply (demo_call ''start'') (demo_call ''stop'')) [CallStart, CallStop] [] = Some (cmp_Unwrap 0 m)"
    using shared_receiver_started_once [OF g [unfolded demo_lifecycle_def], of NewMap m] m(1)
    by (simp add: demo_lifecycle_def NewMap_def)
  with m show ?thesis by (simp add: demo_call_def)
qed

theorem every_instance_is_told_witness:
  "\<exists>m m'. cm_run (demo_call ''start'') (demo_call ''stop'') (take 2 demo_lifecycle) NewMap = Some m \<and>
     cmp_Start (demo_call ''start'') 0 m = Some (m', None) \<and> cm_reports m' = [(1, StatusStarting), (0, StatusStarting)]"
proof -
  obtain m :: "(string, string list, string) comp_map" where
    m: "cm_run (demo_call ''start'') (demo_call ''stop'') (take 2 demo_lifecycle) NewMap = Some m" "length (cm_heap m) = 1"
      "\<not> cmp_startOnce (cm_heap m ! 0)" "cmp_Unwrap 0 m = []" "cm_reports m = []" "cmp_seenSettings (cm_heap m ! 0) = [0, 1]"
    by (simp add: demo_shared)
  have g: "cm_guarded (demo_call ''start'') (demo_call ''stop'') (take 2 demo_lifecycle) (NewMap :: (string, string list, string) comp_map)"
    by (simp add: demo_shared)
  from every_instance_is_told [OF g m(1), of 0 "[''start'']" None] m
  show ?thesis by (auto simp: demo_call_def told_def start_events_def)
qed



end
