(* ===== verification/Endpoint.thy ===== *)
theory Endpoint
  imports GoStrings
begin

section \<open>Endpoints and ports\<close>

text \<open>
  \<open>common/localhostgate/featuregate.go\<close> and the endpoint handling of the Skywalking receiver (\<open>factory.go\<close>, \<open>config.go\<close>), over
  \<open>net.SplitHostPort\<close> of the Go library. The registry of feature gates is third-party: its answers are arguments.
\<close>

subsection \<open>The feature gate\<close>

datatype register_error = ErrAlreadyRegistered | OtherRegisterError

text \<open>\<open>registered\<close> is what \<open>Register\<close> returns, \<open>all_gates\<close> what \<open>VisitAll\<close> visits, with the identifier of each gate; the outer \<open>None\<close> is
  the panic, the inner one a nil gate.\<close>

definition mustRegisterOrLoad :: "'g option \<times> register_error option \<Rightarrow> (string \<times> 'g) list \<Rightarrow> string \<Rightarrow> 'g option option" where
  "mustRegisterOrLoad registered all_gates gate_id =
     (let (gate, err) = registered in
      if err = Some ErrAlreadyRegistered then Some (foldl (\<lambda>gate g. if fst g = gate_id then Some (snd g) else gate) gate all_gates)
      else if err \<noteq> None then None
      else Some gate)"

definition EndpointForPort :: "bool \<Rightarrow> int \<Rightarrow> string" where
  "EndpointForPort enabled port =
     (let host = (if \<not> enabled then ''0.0.0.0'' else ''localhost'') in host @ '':'' @ dec_int port)"

subsection \<open>\<open>net.SplitHostPort\<close>\<close>

definition SplitHostPort :: "string \<Rightarrow> (string \<times> string) option" where
  "SplitHostPort hostport =
     (let i = LastIndexByte hostport (CHR '':'') in
      if i < 0 then None
      else
        let port = drop (nat (i + 1)) hostport in
        if hd hostport = CHR ''['' then
          (let e = IndexByte hostport (CHR '']'') in
           if e < 0 \<or> e + 1 = int (length hostport) \<or> e + 1 \<noteq> i then None
           else if IndexByte (drop 1 hostport) (CHR ''['') \<ge> 0 \<or> IndexByte (drop (nat (e + 1)) hostport) (CHR '']'') \<ge> 0 then None
           else Some (take (nat (e - 1)) (drop 1 hostport), port))
        else
          (let host = take (nat i) hostport in
           if IndexByte host (CHR '':'') \<ge> 0 then None
           else if IndexByte hostport (CHR ''['') \<ge> 0 \<or> IndexByte hostport (CHR '']'') \<ge> 0 then None
           else Some (host, port)))"

subsection \<open>The port of an endpoint\<close>

datatype endpoint_error = BadlyFormatted | NotANumber | OutOfPortRange

definition extractPortFromEndpoint :: "string \<Rightarrow> endpoint_error + int" where
  "extractPortFromEndpoint endpoint =
     (case SplitHostPort endpoint of
        None \<Rightarrow> Inl BadlyFormatted
      | Some (_, portStr) \<Rightarrow>
          (case Atoi portStr of
             None \<Rightarrow> Inl NotANumber
           | Some port \<Rightarrow> if port < 1 \<or> port > 65535 then Inl OutOfPortRange else Inr port))"

subsection \<open>Decimal numbers read back\<close>

lemma digits_val_append: "digits_val acc (s @ t) = digits_val acc s \<bind> (\<lambda>n. digits_val n t)"
  by (induction s arbitrary: acc) (auto simp: Let_def)

lemma digits_val_dec: "digits_val 0 (dec n) = Some n"
proof (induction n rule: dec.induct)
  case (1 n)
  show ?case
  proof (cases "n < 10")
    case True
    then show ?thesis by (subst dec.simps) (simp add: of_digit_char)
  next
    case False
    moreover have "n mod 10 < 10" by simp
    ultimately show ?thesis using 1 [OF False]
      by (subst dec.simps) (simp add: digits_val_append of_digit_char)
  qed
qed

lemma dec_digits: "c \<in> set (dec n) \<Longrightarrow> \<exists>d < 10. c = digit_char d"
proof (induction n rule: dec.induct)
  case (1 n)
  then show ?case by (subst (asm) (2) dec.simps) (auto split: if_splits intro: exI [of _ "n mod 10"])
qed

lemma dec_no_char: "of_char c < (48 :: nat) \<or> (57 :: nat) < of_char c \<Longrightarrow> c \<notin> set (dec n)"
  using of_digit_char by (fastforce dest: dec_digits)

lemma Atoi_dec: "int n < 2 ^ 63 \<Longrightarrow> Atoi (dec n) = Some (int n)"
proof -
  assume n: "int n < 2 ^ 63"
  obtain c cs where d: "dec n = c # cs" by (cases "dec n") auto
  have "c \<noteq> CHR ''-''" "c \<noteq> CHR ''+''"
    using dec_no_char [of "CHR ''-''" n] dec_no_char [of "CHR ''+''" n] by (auto simp: d)
  then have "(case dec n of CHR ''-'' # t \<Rightarrow> (True, t) | CHR ''+'' # t \<Rightarrow> (False, t) | _ \<Rightarrow> (False, dec n)) = (False, dec n)"
    by (simp add: d split: char.splits bool.splits)
  with n show ?thesis by (simp add: Atoi_def digits_val_dec)
qed

text \<open>Host and port of a plain address, and of a bracketed one.\<close>

lemma SplitHostPort_plain:
  assumes "set h \<inter> {CHR '':'', CHR ''['', CHR '']''} = {}" "set p \<inter> {CHR '':'', CHR ''['', CHR '']''} = {}" "h \<noteq> []"
  shows "SplitHostPort (h @ '':'' @ p) = Some (h, p)"
proof -
  have "LastIndexByte (h @ CHR '':'' # p) (CHR '':'') = int (length h)"
    using assms(2) by (intro LastIndexByte_append) auto
  moreover have "hd (h @ CHR '':'' # p) \<noteq> CHR ''[''" using assms by (cases h) auto
  moreover have "IndexByte h (CHR '':'') < 0" "IndexByte (h @ CHR '':'' # p) (CHR ''['') < 0" "IndexByte (h @ CHR '':'' # p) (CHR '']'') < 0"
    using assms by (auto simp: IndexByte_def)
  ultimately show ?thesis by (simp add: SplitHostPort_def Let_def nat_add_distrib)
qed

lemma Atoi_dec_int: "- (2 ^ 63) \<le> v \<Longrightarrow> v < 2 ^ 63 \<Longrightarrow> Atoi (dec_int v) = Some v"
  by (cases "v < 0") (simp_all add: dec_int_def Atoi_dec, simp add: Atoi_def digits_val_dec)

lemma dec_int_chars: "set (dec_int v) \<inter> {CHR '':'', CHR ''['', CHR '']''} = {}"
  using dec_no_char [of "CHR '':''"] dec_no_char [of "CHR ''[''"] dec_no_char [of "CHR '']''"] by (auto simp: dec_int_def)

lemma extract_plain:
  assumes "set h \<inter> {CHR '':'', CHR ''['', CHR '']''} = {}" "h \<noteq> []" "- (2 ^ 63) \<le> v" "v < 2 ^ 63"
  shows "extractPortFromEndpoint (h @ '':'' @ dec_int v) = (if 1 \<le> v \<and> v \<le> 65535 then Inr v else Inl OutOfPortRange)"
  using SplitHostPort_plain [OF assms(1) dec_int_chars assms(2)] Atoi_dec_int [OF assms(3, 4)]
  by (auto simp: extractPortFromEndpoint_def)

lemma extract_range: "extractPortFromEndpoint e = Inr p \<Longrightarrow> 1 \<le> p \<and> p \<le> 65535"
  by (auto simp: extractPortFromEndpoint_def split: option.splits if_splits)

text \<open>C32: An endpoint made for a port is read back as that port, under both settings of the feature gate, for every port that can be
  listened on; every other 64-bit number is refused as out of range.\<close>

theorem endpoint_roundtrip:
  assumes "- (2 ^ 63) \<le> port" "port < 2 ^ 63"
  shows "extractPortFromEndpoint (EndpointForPort enabled port) =
         (if 1 \<le> port \<and> port \<le> 65535 then Inr port else Inl OutOfPortRange)"
  using extract_plain [OF _ _ assms, of "if enabled then ''localhost'' else ''0.0.0.0''"]
  by (cases enabled) (simp_all add: EndpointForPort_def)

theorem endpoint_roundtrip_witness:
  "extractPortFromEndpoint (EndpointForPort True 11800) = Inr 11800 \<and> extractPortFromEndpoint (EndpointForPort False 70000) = Inl OutOfPortRange"
  using endpoint_roundtrip [of 11800 True] endpoint_roundtrip [of 70000 False] by simp

end
