(* ===== verification/OtlpServer.thy ===== *)
theory OtlpServer
  imports OtlpReceiver Shared Endpoint
begin

section \<open>Life cycle of the OTLP receiver\<close>

text \<open>
  \<open>receiver/otlpreceiver/otlp.go\<close> and \<open>factory.go\<close>: which services the two servers offer, starting, stopping, and one receiver for
  all signals of a configuration.

  Sockets and server construction are third-party: their errors are arguments (\<open>host_env\<close>), as are the extensions of the host, of which
  one may not be a \<open>FillProc\<close>. A server is the list of what is registered with it; \<open>or_serving\<close> are the goroutines the wait group counts.
  \<open>None\<close> is a panic (registering a pattern twice, a failed type assertion) or a wait that never ends. The HTTP multiplexer is that of
  Go 1.21, the language version of the module: it refuses the empty pattern and repeated patterns.
\<close>

type_synonym errs = "string list option"

datatype transport = TransportGRPC | TransportHTTP

datatype 'x otlp_service = TracesService "'x option" | MetricsService | LogsService

record 'x host_env =
  he_grpcToServer :: errs
  he_grpcListen :: errs
  he_httpToServer :: errs
  he_httpListen :: errs
  he_httpShutdown :: errs
  he_extensions :: "(string, 'x option) gomap"

record 'x otlp_receiver =
  or_cfg :: otlp_config
  or_serverGRPC :: "'x otlp_service list option"
  or_serverHTTP :: "(string \<times> 'x otlp_service) list option"
  or_nextTraces :: bool
  or_nextMetrics :: bool
  or_nextLogs :: bool
  or_serving :: "transport list"

text \<open>\<open>obs\<close> are the errors of the two calls of \<open>NewObsReport\<close>.\<close>

definition newOtlpReceiver :: "errs \<times> errs \<Rightarrow> otlp_config \<Rightarrow> string list + 'x otlp_receiver" where
  "newOtlpReceiver obs cfg =
     (case fst obs of
        Some err \<Rightarrow> Inl err
      | None \<Rightarrow>
          (case snd obs of
             Some err \<Rightarrow> Inl err
           | None \<Rightarrow>
               Inr \<lparr>or_cfg = cfg, or_serverGRPC = None, or_serverHTTP = None, or_nextTraces = False, or_nextMetrics = False,
                    or_nextLogs = False, or_serving = []\<rparr>))"

definition getFillProc :: "'x host_env \<Rightarrow> 'x otlp_receiver \<Rightarrow> 'x option option" where
  "getFillProc host r =
     (case oc_ExtensionID (or_cfg r) of
        Some i \<Rightarrow> (case map_load (he_extensions host) i of Some ext \<Rightarrow> map_option Some ext | None \<Rightarrow> Some None)
      | None \<Rightarrow> Some None)"

definition startGRPCServer :: "'x host_env \<Rightarrow> 'x otlp_receiver \<Rightarrow> ('x otlp_receiver \<times> errs) option" where
  "startGRPCServer host r =
     (if oc_GRPC (or_cfg r) = None then Some (r, None)
      else case he_grpcToServer host of
             Some err \<Rightarrow> Some (r\<lparr>or_serverGRPC := None\<rparr>, Some err)
           | None \<Rightarrow>
               do {
                 tr \<leftarrow> (if or_nextTraces r then map_option (\<lambda>x. [TracesService x]) (getFillProc host r) else Some []);
                 let services = tr @ (if or_nextMetrics r then [MetricsService] else []) @ (if or_nextLogs r then [LogsService] else []);
                 let r1 = r\<lparr>or_serverGRPC := Some services\<rparr>;
                 (case he_grpcListen host of
                    Some err \<Rightarrow> Some (r1, Some err)
                  | None \<Rightarrow> Some (r1\<lparr>or_serving := or_serving r1 @ [TransportGRPC]\<rparr>, None))
               })"

definition mux_HandleFunc :: "string \<Rightarrow> 'h \<Rightarrow> (string \<times> 'h) list \<Rightarrow> (string \<times> 'h) list option" where
  "mux_HandleFunc pattern handler mux =
     (if pattern = [] \<or> pattern \<in> fst ` set mux then None else Some (mux @ [(pattern, handler)]))"

definition startHTTPServer :: "'x host_env \<Rightarrow> 'x otlp_receiver \<Rightarrow> ('x otlp_receiver \<times> errs) option" where
  "startHTTPServer host r =
     (case oc_HTTP (or_cfg r) of
        None \<Rightarrow> Some (r, None)
      | Some http \<Rightarrow>
          do {
            mux1 \<leftarrow> (if or_nextTraces r
                     then do { x \<leftarrow> getFillProc host r; mux_HandleFunc (hc_TracesURLPath http) (TracesService x) [] } else Some []);
            mux2 \<leftarrow> (if or_nextMetrics r then mux_HandleFunc (hc_MetricsURLPath http) MetricsService mux1 else Some mux1);
            mux3 \<leftarrow> (if or_nextLogs r then mux_HandleFunc (hc_LogsURLPath http) LogsService mux2 else Some mux2);
            (case he_httpToServer host of
               Some err \<Rightarrow> Some (r\<lparr>or_serverHTTP := None\<rparr>, Some err)
             | None \<Rightarrow>
                 (let r1 = r\<lparr>or_serverHTTP := Some mux3\<rparr> in
                  case he_httpListen host of
                    Some err \<Rightarrow> Some (r1, Some err)
                  | None \<Rightarrow> Some (r1\<lparr>or_serving := or_serving r1 @ [TransportHTTP]\<rparr>, None)))
          })"

text \<open>Stopping a server ends its goroutine; the wait returns when no goroutine is left. Both servers let open requests finish first; requests are not part of
  this state, so a shutdown whose open requests end is one step, and one that waits for a request that never ends is not represented.\<close>

definition otlp_Shutdown :: "'x host_env \<Rightarrow> 'x otlp_receiver \<Rightarrow> ('x otlp_receiver \<times> errs) option" where
  "otlp_Shutdown host r =
     (let err = (if or_serverHTTP r \<noteq> None then he_httpShutdown host else None);
          s1 = (if or_serverHTTP r \<noteq> None then removeAll TransportHTTP (or_serving r) else or_serving r);
          s2 = (if or_serverGRPC r \<noteq> None then removeAll TransportGRPC s1 else s1)
      in if s2 \<noteq> [] then None else Some (r\<lparr>or_serving := []\<rparr>, err))"

definition errors_Join :: "errs \<Rightarrow> errs \<Rightarrow> errs" where
  "errors_Join a b = (case (a, b) of (Some x, Some y) \<Rightarrow> Some (x @ y) | (Some x, None) \<Rightarrow> Some x | (None, y) \<Rightarrow> y)"

definition otlp_Start :: "'x host_env \<Rightarrow> 'x otlp_receiver \<Rightarrow> ('x otlp_receiver \<times> errs) option" where
  "otlp_Start host r =
     do {
       (r1, err) \<leftarrow> startGRPCServer host r;
       if err \<noteq> None then Some (r1, err)
       else do {
         (r2, err2) \<leftarrow> startHTTPServer host r1;
         if err2 \<noteq> None then do { (r3, err3) \<leftarrow> otlp_Shutdown host r2; Some (r3, errors_Join err2 err3) }
         else Some (r2, None)
       }
     }"

definition registerTraceConsumer :: "'x otlp_receiver \<Rightarrow> 'x otlp_receiver" where
  "registerTraceConsumer r = r\<lparr>or_nextTraces := True\<rparr>"

definition registerMetricsConsumer :: "'x otlp_receiver \<Rightarrow> 'x otlp_receiver" where
  "registerMetricsConsumer r = r\<lparr>or_nextMetrics := True\<rparr>"

definition registerLogsConsumer :: "'x otlp_receiver \<Rightarrow> 'x otlp_receiver" where
  "registerLogsConsumer r = r\<lparr>or_nextLogs := True\<rparr>"

subsection \<open>Factory\<close>

definition grpcPort :: int where "grpcPort = 4317"
definition httpPort :: int where "httpPort = 4318"

definition otlp_createDefaultConfig :: "bool \<Rightarrow> otlp_config" where
  "otlp_createDefaultConfig enabled =
     \<lparr>oc_GRPC = Some (EndpointForPort enabled grpcPort),
      oc_HTTP = Some \<lparr>hc_Endpoint = EndpointForPort enabled httpPort, hc_TracesURLPath = ''/v1/traces'',
                      hc_MetricsURLPath = ''/v1/metrics'', hc_LogsURLPath = ''/v1/logs''\<rparr>,
      oc_ExtensionID = None\<rparr>"

type_synonym 'x otlp_receivers = "(nat, 'x otlp_receiver, string list) comp_map"

text \<open>The pointer to the configuration, \<open>key\<close>, is the key of the shared map; \<open>settings\<close> is the address of the call's own copy of the
  telemetry settings. The receiver that \<open>Unwrap\<close> returns is changed in place.\<close>

definition create_signal ::
  "('x otlp_receiver \<Rightarrow> 'x otlp_receiver) \<Rightarrow> errs \<times> errs \<Rightarrow> nat \<Rightarrow> otlp_config \<Rightarrow> nat \<Rightarrow> 'x otlp_receivers \<Rightarrow>
   (string list + nat) \<times> 'x otlp_receivers" where
  "create_signal register obs key cfg settings receivers =
     (case LoadOrStore key (newOtlpReceiver obs cfg) settings receivers of
        (Inl err, m) \<Rightarrow> (Inl err, m)
      | (Inr r, m) \<Rightarrow> (Inr r, cm_update r register m))"

definition createTraces where "createTraces = create_signal registerTraceConsumer"
definition createMetrics where "createMetrics = create_signal registerMetricsConsumer"
definition createLog where "createLog = create_signal registerLogsConsumer"

subsection \<open>Starting\<close>

text \<open>What a receiver should offer, given the extension its trace service asks.\<close>

definition services_of :: "'x option \<Rightarrow> 'x otlp_receiver \<Rightarrow> 'x otlp_service list" where
  "services_of x r = (if or_nextTraces r then [TracesService x] else []) @ (if or_nextMetrics r then [MetricsService] else []) @
     (if or_nextLogs r then [LogsService] else [])"

definition routes_of :: "http_config \<Rightarrow> 'x option \<Rightarrow> 'x otlp_receiver \<Rightarrow> (string \<times> 'x otlp_service) list" where
  "routes_of http x r = (if or_nextTraces r then [(hc_TracesURLPath http, TracesService x)] else []) @
     (if or_nextMetrics r then [(hc_MetricsURLPath http, MetricsService)] else []) @
     (if or_nextLogs r then [(hc_LogsURLPath http, LogsService)] else [])"

definition configured :: "'x otlp_receiver \<Rightarrow> transport list" where
  "configured r = (if oc_GRPC (or_cfg r) = None then [] else [TransportGRPC]) @ (if oc_HTTP (or_cfg r) = None then [] else [TransportHTTP])"

text \<open>The paths of the offered signals differ and are not empty; the configured extension, if any, is of the right type.\<close>

definition otlp_usable :: "'x host_env \<Rightarrow> 'x otlp_receiver \<Rightarrow> bool" where
  "otlp_usable host r \<longleftrightarrow> getFillProc host r \<noteq> None \<and>
     (case oc_HTTP (or_cfg r) of
        Some http \<Rightarrow> distinct (map fst (routes_of http None r)) \<and> [] \<notin> set (map fst (routes_of http None r))
      | None \<Rightarrow> True)"

lemma startGRPC_eq:
  assumes "getFillProc host r = Some x"
  shows "startGRPCServer host r =
    (if oc_GRPC (or_cfg r) = None then Some (r, None)
     else if he_grpcToServer host \<noteq> None then Some (r\<lparr>or_serverGRPC := None\<rparr>, he_grpcToServer host)
     else if he_grpcListen host \<noteq> None then Some (r\<lparr>or_serverGRPC := Some (services_of x r)\<rparr>, he_grpcListen host)
     else Some (r\<lparr>or_serverGRPC := Some (services_of x r), or_serving := or_serving r @ [TransportGRPC]\<rparr>, None))"
  by (auto simp: startGRPCServer_def assms services_of_def split: option.splits)

lemma startHTTP_eq:
  assumes "getFillProc host r = Some x" "oc_HTTP (or_cfg r) = Some http"
    "distinct (map fst (routes_of http None r))" "[] \<notin> set (map fst (routes_of http None r))"
  shows "startHTTPServer host r =
    (if he_httpToServer host \<noteq> None then Some (r\<lparr>or_serverHTTP := None\<rparr>, he_httpToServer host)
     else if he_httpListen host \<noteq> None then Some (r\<lparr>or_serverHTTP := Some (routes_of http x r)\<rparr>, he_httpListen host)
     else Some (r\<lparr>or_serverHTTP := Some (routes_of http x r), or_serving := or_serving r @ [TransportHTTP]\<rparr>, None))"
  using assms(3, 4)
  by (auto simp: startHTTPServer_def assms(1, 2) routes_of_def mux_HandleFunc_def Let_def split: option.splits if_splits)

lemma startHTTP_none: "oc_HTTP (or_cfg r) = None \<Longrightarrow> startHTTPServer host r = Some (r, None)"
  by (simp add: startHTTPServer_def)

lemma getFillProc_cong: "or_cfg r = or_cfg r' \<Longrightarrow> getFillProc host r = getFillProc host r'"
  by (simp add: getFillProc_def)

lemma routes_of_upd [simp]:
  "routes_of http x (r\<lparr>or_serverGRPC := a\<rparr>) = routes_of http x r" "routes_of http x (r\<lparr>or_serving := b\<rparr>) = routes_of http x r"
  by (simp_all add: routes_of_def)

lemma getFillProc_upd [simp]:
  "getFillProc host (r\<lparr>or_serverGRPC := a\<rparr>) = getFillProc host r" "getFillProc host (r\<lparr>or_serving := b\<rparr>) = getFillProc host r"
  by (simp_all add: getFillProc_def)

definition started :: "'x host_env \<Rightarrow> 'x otlp_receiver \<Rightarrow> 'x otlp_receiver \<Rightarrow> errs \<Rightarrow> bool" where
  "started host r r' err \<longleftrightarrow>
     (if err = None then
        or_serving r' = configured r \<and>
        (\<exists>x. getFillProc host r = Some x \<and>
           (oc_GRPC (or_cfg r) \<noteq> None \<longrightarrow> or_serverGRPC r' = Some (services_of x r)) \<and>
           (\<forall>http. oc_HTTP (or_cfg r) = Some http \<longrightarrow> or_serverHTTP r' = Some (routes_of http x r)))
      else or_serving r' = [])"

text \<open>Starting is all or nothing: a new receiver whose paths differ and whose extension has the right type starts without a panic.
  Without an error, every configured protocol is served and offers exactly the signals that have a consumer, each HTTP signal
  under its path. With an error of either protocol nothing is left running. In both cases a later shutdown returns and stops everything.\<close>

lemma otlp_Start_result:
  assumes new: "or_serving r = []" and ok: "otlp_usable host r"
  shows "\<exists>r' err. otlp_Start host r = Some (r', err) \<and> started host r r' err \<and> (\<exists>e. otlp_Shutdown host r' = Some (r'\<lparr>or_serving := []\<rparr>, e))"
proof -
  from ok obtain x where x: "getFillProc host r = Some x" by (auto simp: otlp_usable_def)
  note grpc = startGRPC_eq [OF x]
  show ?thesis
  proof (cases "oc_HTTP (or_cfg r)")
    case None
    then show ?thesis using new x
      by (auto simp: otlp_Start_def grpc startHTTP_none started_def configured_def otlp_Shutdown_def Let_def)
  next
    case (Some http)
    with ok have p: "distinct (map fst (routes_of http None r))" "[] \<notin> set (map fst (routes_of http None r))"
      by (auto simp: otlp_usable_def)
    note http = startHTTP_eq [OF x Some p]
    have http1: "startHTTPServer host (r\<lparr>or_serverGRPC := a, or_serving := b\<rparr>) =
      (if he_httpToServer host \<noteq> None then Some (r\<lparr>or_serverGRPC := a, or_serving := b, or_serverHTTP := None\<rparr>, he_httpToServer host)
       else if he_httpListen host \<noteq> None
            then Some (r\<lparr>or_serverGRPC := a, or_serving := b, or_serverHTTP := Some (routes_of http x r)\<rparr>, he_httpListen host)
       else Some (r\<lparr>or_serverGRPC := a, or_serverHTTP := Some (routes_of http x r), or_serving := b @ [TransportHTTP]\<rparr>, None))" for a b
      using startHTTP_eq [of host "r\<lparr>or_serverGRPC := a, or_serving := b\<rparr>" x http] x Some p by simp
    show ?thesis using new x Some
      by (auto simp: otlp_Start_def grpc http http1 started_def configured_def otlp_Shutdown_def errors_Join_def Let_def split: option.splits)
  qed
qed

text \<open>Two signals under one path are accepted by the validation, and panic at the start.\<close>

lemma otlp_equal_paths_panic:
  assumes "oc_HTTP (or_cfg r) = Some http" "oc_GRPC (or_cfg r) = None" "or_nextTraces r" "or_nextMetrics r"
    "hc_TracesURLPath http = hc_MetricsURLPath http"
  shows "otlp_Validate (or_cfg r) \<and> otlp_Start host r = None"
proof -
  have "startHTTPServer host r = None"
    using assms by (auto simp: startHTTPServer_def mux_HandleFunc_def split: option.splits bind_split)
  with assms show ?thesis by (auto simp: otlp_Validate_def otlp_Start_def startGRPCServer_def)
qed

subsection \<open>One receiver for all signals\<close>

datatype otlp_signal = SignalTraces | SignalMetrics | SignalLogs

fun create_of where
  "create_of SignalTraces = createTraces"
| "create_of SignalMetrics = createMetrics"
| "create_of SignalLogs = createLog"

fun register_of :: "otlp_signal \<Rightarrow> 'x otlp_receiver \<Rightarrow> 'x otlp_receiver" where
  "register_of SignalTraces = registerTraceConsumer"
| "register_of SignalMetrics = registerMetricsConsumer"
| "register_of SignalLogs = registerLogsConsumer"

text \<open>The pipelines of a configuration ask one after the other, each with its own copy of the settings.\<close>

definition create_all :: "nat \<Rightarrow> otlp_config \<Rightarrow> (otlp_signal \<times> nat) list \<Rightarrow> 'x otlp_receivers \<Rightarrow> 'x otlp_receivers" where
  "create_all key cfg calls m = foldl (\<lambda>m c. snd (create_of (fst c) (None, None) key cfg (snd c) m)) m calls"

definition receiver_for :: "otlp_config \<Rightarrow> otlp_signal set \<Rightarrow> 'x otlp_receiver" where
  "receiver_for cfg sigs =
     \<lparr>or_cfg = cfg, or_serverGRPC = None, or_serverHTTP = None, or_nextTraces = (SignalTraces \<in> sigs),
      or_nextMetrics = (SignalMetrics \<in> sigs), or_nextLogs = (SignalLogs \<in> sigs), or_serving = []\<rparr>"

lemma create_of_eq:
  "create_of sig (None, None) key cfg t m =
     (let (p, m1) = cm_get key (receiver_for cfg {}) t m in (Inr p, cm_update p (register_of sig) m1))"
  by (cases sig; cases "map_load (cm_components m) key")
    (simp_all add: createTraces_def createMetrics_def createLog_def create_signal_def cm_get_def LoadOrStore_def
      newOtlpReceiver_def receiver_for_def Let_def)

lemma register_receiver [simp]: "register_of sig (receiver_for cfg sigs) = receiver_for cfg (insert sig sigs)"
  by (cases sig) (simp_all add: receiver_for_def registerTraceConsumer_def registerMetricsConsumer_def registerLogsConsumer_def)

definition one_receiver :: "nat \<Rightarrow> otlp_config \<Rightarrow> (otlp_signal \<times> nat) list \<Rightarrow> 'x otlp_receivers \<Rightarrow> bool" where
  "one_receiver key cfg calls m \<longleftrightarrow>
     cm_inv m \<and> map_load (cm_components m) key = Some 0 \<and>
     cm_heap m = [\<lparr>cmp_component = receiver_for cfg (fst ` set calls), cmp_startOnce = False, cmp_stopOnce = False, cmp_key = key,
                   cmp_telemetry = snd (hd calls), cmp_seenSettings = map snd calls\<rparr>]"

lemma create_first: "one_receiver key cfg [c] (create_all key cfg [c] NewMap)"
proof -
  have "cm_inv (snd (cm_get key (receiver_for cfg {}) (snd c) (NewMap :: 'x otlp_receivers)))"
    by (rule cm_get_inv [OF NewMap_inv]) (simp add: NewMap_def)
  then have "cm_inv (cm_update 0 (register_of (fst c)) (snd (cm_get key (receiver_for cfg {}) (snd c) (NewMap :: 'x otlp_receivers))))"
    by (rule cm_update_inv) (simp add: cm_get_def LoadOrStore_def NewMap_def Let_def)
  then show ?thesis
    by (simp add: one_receiver_def create_all_def create_of_eq cm_get_def LoadOrStore_def NewMap_def Let_def cm_update_def cmp_Unwrap_def map_store_def)
qed

lemma create_next:
  assumes m: "one_receiver key cfg calls m" "calls \<noteq> []" and t: "t \<notin> snd ` set calls"
  shows "one_receiver key cfg (calls @ [(sig, t)]) (snd (create_of sig (None, None) key cfg t m))"
proof -
  have "cm_inv (snd (cm_get key (receiver_for cfg {}) t m))"
    by (rule cm_get_inv) (use m t in \<open>auto simp: one_receiver_def\<close>)
  then have "cm_inv (cm_update 0 (register_of sig) (snd (cm_get key (receiver_for cfg {}) t m)))"
    by (rule cm_update_inv) (use m t in \<open>simp add: one_receiver_def cm_get_def LoadOrStore_def Let_def\<close>)
  with m t show ?thesis
    by (auto simp: one_receiver_def create_of_eq cm_get_def LoadOrStore_def Let_def cm_update_def cmp_Unwrap_def)
qed

lemma create_all_one: "calls \<noteq> [] \<Longrightarrow> distinct (map snd calls) \<Longrightarrow> one_receiver key cfg calls (create_all key cfg calls NewMap)"
proof (induction calls rule: rev_induct)
  case (snoc c calls)
  show ?case
  proof (cases "calls = []")
    case True
    then show ?thesis using create_first by simp
  next
    case False
    with snoc create_next [of key cfg calls "create_all key cfg calls NewMap" "snd c" "fst c"]
    show ?thesis by (auto simp: create_all_def)
  qed
qed simp

text \<open>C30: From the factory to the end, for a usable receiver (\<open>otlp_usable\<close>): with HTTP configured, the URL paths of the signals that are asked for are
  pairwise different and not empty, and the configured extension, if the host has it, is a \<open>FillProc\<close>. The validation of the configuration does not ensure
  this: equal paths panic at the start. However many pipelines ask for the configuration, in whatever order and each with its own settings, they share one receiver,
  which has the consumers of exactly the signals that were asked for. When its holders then start and stop it, beginning with a start,
  in any number and order, nothing panics or hangs, open requests permitting; the servers run as they should until somebody stops it, and after that none runs and the
  configuration can be built anew.\<close>

theorem otlp_receiver_lifecycle:
  fixes host :: "'x host_env"
  assumes "calls \<noteq> []" "distinct (map snd calls)" "set es \<subseteq> {StartIt 0, StopIt 0}"
    and "otlp_usable host (receiver_for cfg (fst ` set calls))"
  shows "\<exists>m r1 err. cm_run (otlp_Start host) (otlp_Shutdown host) (StartIt 0 # es) (create_all key cfg calls NewMap) = Some m \<and>
    started host (receiver_for cfg (fst ` set calls)) r1 err \<and>
    (if StopIt 0 \<in> set es then or_serving (cmp_Unwrap 0 m) = [] \<and> map_load (cm_components m) key \<noteq> Some 0
     else cmp_Unwrap 0 m = r1)"
proof -
  let ?m = "create_all key cfg calls NewMap :: 'x otlp_receivers" and ?r = "receiver_for cfg (fst ` set calls)"
  have one: "one_receiver key cfg calls ?m" by (rule create_all_one [OF assms(1, 2)])
  have m: "cm_inv ?m" "0 < length (cm_heap ?m)" "\<not> cmp_startOnce (cm_heap ?m ! 0)" "\<not> cmp_stopOnce (cm_heap ?m ! 0)"
    "cmp_Unwrap 0 ?m = ?r" "cmp_key (cm_heap ?m ! 0) = key"
    using one by (simp_all add: one_receiver_def cmp_Unwrap_def)
  have "or_serving ?r = []" by (simp add: receiver_for_def)
  from otlp_Start_result [OF this assms(4)] obtain r1 err e where
    r1: "otlp_Start host ?r = Some (r1, err)" "started host ?r r1 err" "otlp_Shutdown host r1 = Some (r1\<lparr>or_serving := []\<rparr>, e)"
    by blast
  from single_component_run [OF m(1-4) assms(3), of "otlp_Start host" r1 err "otlp_Shutdown host"] m(5, 6) r1
  show ?thesis by (auto intro!: exI [of _ r1] exI [of _ err])
qed

text \<open>The default configuration is usable, whichever signals are asked for.\<close>

lemma default_usable: "otlp_usable host (receiver_for (otlp_createDefaultConfig enabled) sigs)"
  by (auto simp: otlp_usable_def receiver_for_def otlp_createDefaultConfig_def getFillProc_def routes_of_def)

definition demo_host :: "unit host_env" where
  "demo_host = \<lparr>he_grpcToServer = None, he_grpcListen = None, he_httpToServer = None, he_httpListen = Some [''address in use''],
     he_httpShutdown = None, he_extensions = []\<rparr>"

theorem otlp_receiver_lifecycle_witness:
  "\<exists>m. cm_run (otlp_Start demo_host) (otlp_Shutdown demo_host) [StartIt 0, StartIt 0, StopIt 0, StopIt 0]
     (create_all 7 (otlp_createDefaultConfig True) [(SignalTraces, 0), (SignalLogs, 1)] NewMap) = Some m \<and>
   or_serving (cmp_Unwrap 0 m) = [] \<and> map_load (cm_components m) 7 \<noteq> Some 0"
  using otlp_receiver_lifecycle [of "[(SignalTraces, 0), (SignalLogs, 1)]" "[StartIt 0, StopIt 0, StopIt 0]" demo_host "otlp_createDefaultConfig True" 7]
    default_usable [of demo_host True "{SignalTraces, SignalLogs}"] by fastforce

end
