(* ===== verification/SkyIds.thy ===== *)
theory SkyIds
  imports Pdata GoStrings
begin

section \<open>The Skywalking receiver: identifiers\<close>

text \<open>
  The identifiers of \<open>skywalkingproto_to_traces.go\<close>: trace and segment identifiers of an agent, which are strings, become
  the 16 and 8 bytes of OTLP. Every panic of a slice expression is kept as \<open>None\<close>. \<open>uuid.Parse\<close> is a parameter.
\<close>

unbundle bit_operations_syntax

subsection \<open>Identifiers\<close>

text \<open>\<open>for i := from; i < from + n; i++ { uid[i] ^= byte(v); v >>= 8 }\<close>\<close>

fun xor_bytes :: "nat \<Rightarrow> nat \<Rightarrow> int \<Rightarrow> u8 list \<Rightarrow> u8 list" where
  "xor_bytes i 0 v uid = uid"
| "xor_bytes i (Suc n) v uid = xor_bytes (Suc i) n (v div 256) (uid[i := uid ! i XOR word_of_int v])"

definition zero_uid :: "u8 list" where
  "zero_uid = replicate 16 0"

definition swStringToUUID :: "string \<Rightarrow> u32 \<Rightarrow> u8 list option" where
  "swStringToUUID s extra =
     (if length s < 32 then Some zero_uid
      else
        (let (bs, ok) = hex_Decode (take 32 s); uid0 = take 16 (bs @ zero_uid) in
         if \<not> ok then Some uid0
         else
           (let uid1 = xor_bytes 0 4 (uint extra) uid0 in
            if length s = 32 then Some uid1
            else
              (let index1 = IndexByte s (CHR ''.''); index2 = LastIndexByte s (CHR ''.'') in
               if index1 \<noteq> 32 \<or> index2 < 0 then Some zero_uid
               else do {
                 m \<leftarrow> substring s (index1 + 1) index2;
                 (case Atoi m of
                    None \<Rightarrow> Some zero_uid
                  | Some mid \<Rightarrow>
                      do {
                        l \<leftarrow> substring s (index2 + 1) (int (length s));
                        (case Atoi l of
                           None \<Rightarrow> Some zero_uid
                         | Some lst \<Rightarrow> Some (xor_bytes 8 8 lst (xor_bytes 4 4 mid uid1)))
                      })
               }))))"

definition uuidTo8Bytes :: "u8 list \<Rightarrow> u8 list" where
  "uuidTo8Bytes uuid = map (\<lambda>i. uuid ! i XOR uuid ! (i + 8)) [0..<8]"

definition swTraceIDToTraceID :: "(string \<Rightarrow> u8 list option) \<Rightarrow> string \<Rightarrow> trace_id option" where
  "swTraceIDToTraceID uuid_Parse traceID =
     (if length traceID \<le> 36
      then Some (case uuid_Parse traceID of None \<Rightarrow> zero_uid | Some uid \<Rightarrow> uid)
      else swStringToUUID traceID 0)"

definition segmentIDToSpanID :: "string \<Rightarrow> u32 \<Rightarrow> span_id option" where
  "segmentIDToSpanID segmentID spanID =
     (if length segmentID < 32 then Some (replicate 8 0) else map_option uuidTo8Bytes (swStringToUUID segmentID spanID))"

text \<open>\<open>pcommon.NewTimestampFromTime(time.UnixMilli(ms))\<close>: nanoseconds, wrapped.\<close>

definition microsecondsToTimestamp :: "int \<Rightarrow> u64" where
  "microsecondsToTimestamp ms = word_of_int (ms * 1000000)"

subsection \<open>The loops as byte-wise XOR\<close>

definition xor_list :: "u8 list \<Rightarrow> u8 list \<Rightarrow> u8 list" where
  "xor_list a b = map2 (XOR) a b"

lemma length_xor_list [simp]: "length (xor_list a b) = min (length a) (length b)"
  by (simp add: xor_list_def)

lemma nth_xor_list [simp]: "i < length a \<Longrightarrow> i < length b \<Longrightarrow> xor_list a b ! i = a ! i XOR b ! i"
  by (simp add: xor_list_def)

lemma length_xor_bytes [simp]: "length (xor_bytes i n v uid) = length uid"
  by (induction i n v uid rule: xor_bytes.induct) auto

lemma nth_xor_bytes:
  "i + n \<le> length uid \<Longrightarrow> j < length uid \<Longrightarrow>
   xor_bytes i n v uid ! j = (if i \<le> j \<and> j < i + n then uid ! j XOR le_bytes n v ! (j - i) else uid ! j)"
proof (induction i n v uid rule: xor_bytes.induct)
  case (2 i n v uid)
  then show ?case
    by (cases "j = i") (auto simp: le_bytes_Suc nth_Cons' Suc_diff_le)
qed auto

lemma xor_cancel: "(x :: 'a :: len word) XOR a = x XOR b \<longleftrightarrow> a = b"
  by (metis xor.left_commute xor_self_eq xor.right_neutral)

lemma le_bytes_inj_u32: "le_bytes 4 (uint (a :: u32)) = le_bytes 4 (uint b) \<Longrightarrow> a = b"
proof -
  assume eq: "le_bytes 4 (uint a) = le_bytes 4 (uint b)"
  have "uint a = uint b"
    using le_bytes_value[of "uint a" 4] le_bytes_value[of "uint b" 4] uint_lt2p[of a] uint_lt2p[of b]
    by (simp only: eq) simp
  then show "a = b" by (simp add: word_uint_eq_iff)
qed

lemma hex_Decode_32:
  assumes "length s = 32" "snd (hex_Decode s)"
  shows "take 16 (fst (hex_Decode s) @ zero_uid) = fst (hex_Decode s)" "length (fst (hex_Decode s)) = 16"
  using hex_Decode_length[OF assms(2)] assms(1) by auto

subsection \<open>The format of an identifier\<close>

text \<open>
  The comment of \<open>swStringToUUID\<close>: 32 hexadecimal digits, alone or followed by two decimal numbers, and the identifier is
  the XOR of the digits with the little-endian bytes of \<open>extra\<close> and of the two numbers.
\<close>

definition sw_id_parts :: "string \<Rightarrow> (u8 list \<times> int \<times> int) option" where
  "sw_id_parts s =
     (let (start, ok) = hex_Decode (take 32 s); rest = drop 32 s;
          m = takeWhile (\<lambda>c. c \<noteq> CHR ''.'') (tl rest); l = drop (Suc (length m)) (tl rest) in
      if length s < 32 \<or> \<not> ok then None
      else if rest = [] then Some (start, 0, 0)
      else if hd rest \<noteq> CHR ''.'' \<or> CHR ''.'' \<notin> set (tl rest) then None
      else case (Atoi m, Atoi l) of (Some mid, Some lst) \<Rightarrow> Some (start, mid, lst) | _ \<Rightarrow> None)"

definition sw_id_ok :: "string \<Rightarrow> bool" where
  "sw_id_ok s \<longleftrightarrow> sw_id_parts s \<noteq> None"

lemma sw_id_partsD:
  assumes "sw_id_parts s = Some (start, mid, lst)"
  obtains a where "length a = 32" "hex_Decode a = (start, True)" "s = a" "mid = 0" "lst = 0"
  | a m l where "length a = 32" "hex_Decode a = (start, True)" "s = a @ CHR ''.'' # m @ CHR ''.'' # l"
      "Atoi m = Some mid" "Atoi l = Some lst"
proof -
  define a rest where "a = take 32 s" and "rest = drop 32 s"
  have s: "s = a @ rest" by (simp add: a_def rest_def)
  have a: "length a = 32" "hex_Decode a = (start, True)"
    using assms by (auto simp: sw_id_parts_def Let_def a_def split: prod.splits if_splits option.splits)
  show thesis
  proof (cases rest)
    case Nil
    then show thesis using that(1)[OF a] s assms a
      by (auto simp: sw_id_parts_def Let_def split: prod.splits if_splits option.splits)
  next
    case (Cons c r)
    define m where "m = takeWhile (\<lambda>c. c \<noteq> CHR ''.'') r"
    have d: "drop 32 s = c # r" using Cons by (simp add: rest_def)
    have *: "c = CHR ''.''" "CHR ''.'' \<in> set r" "Atoi m = Some mid" "Atoi (drop (Suc (length m)) r) = Some lst"
      using assms by (auto simp: sw_id_parts_def Let_def d m_def split: prod.splits if_splits option.splits)
    have "IndexByte r CHR ''.'' = int (length m)" using *(2) by (simp add: IndexByte_def m_def)
    from IndexByte_split(1)[OF this] have "r = m @ CHR ''.'' # drop (Suc (length m)) r"
      by (simp add: m_def takeWhile_eq_take[symmetric])
    with * Cons s show thesis using that(2)[OF a] by metis
  qed
qed

lemma xor_bytes_zero: "xor_bytes i n 0 uid = uid" if "i + n \<le> length uid"
  using that by (intro nth_equalityI) (auto simp: nth_xor_bytes le_bytes_def)

lemma xor_bytes_all:
  "length uid = 16 \<Longrightarrow>
   xor_bytes 8 8 lst (xor_bytes 4 4 mid (xor_bytes 0 4 e uid)) = xor_list uid (le_bytes 4 e @ le_bytes 4 mid @ le_bytes 8 lst)"
  by (rule nth_equalityI) (auto simp: nth_xor_bytes nth_append)

lemma swStringToUUID_32:
  assumes "length a = 32" "hex_Decode a = (start, True)"
  shows "swStringToUUID a e = Some (xor_bytes 0 4 (uint e) start)"
  using assms hex_Decode_32[of a] by (simp add: swStringToUUID_def Let_def)

lemma swStringToUUID_dotted:
  assumes a: "length a = 32" "hex_Decode a = (start, True)" and l: "CHR ''.'' \<notin> set l"
  shows "swStringToUUID (a @ CHR ''.'' # m @ CHR ''.'' # l) e =
    Some (case (Atoi m, Atoi l) of
            (Some mid, Some lst) \<Rightarrow> xor_bytes 8 8 lst (xor_bytes 4 4 mid (xor_bytes 0 4 (uint e) start))
          | _ \<Rightarrow> zero_uid)"
proof -
  have dot: "CHR ''.'' \<notin> set a" using hex_Decode_no_dot[of a] a by simp
  have i1: "IndexByte (a @ CHR ''.'' # m @ CHR ''.'' # l) CHR ''.'' = 32"
    using IndexByte_append[OF dot] a(1) by simp
  have i2: "LastIndexByte (a @ CHR ''.'' # m @ CHR ''.'' # l) CHR ''.'' = 33 + int (length m)"
    using LastIndexByte_append[OF l, of "a @ CHR ''.'' # m"] a(1) by simp
  show ?thesis
    using a hex_Decode_32[of a]
    by (auto simp: swStringToUUID_def Let_def i1 i2 substring_def nat_add_distrib split: option.splits)
qed

lemma swStringToUUID_parts:
  assumes "sw_id_parts s = Some (start, mid, lst)"
  shows "length start = 16" 
    and "swStringToUUID s e = Some (xor_list start (le_bytes 4 (uint e) @ le_bytes 4 mid @ le_bytes 8 lst))"
proof -
  have "length start = 16 \<and> swStringToUUID s e = Some (xor_list start (le_bytes 4 (uint e) @ le_bytes 4 mid @ le_bytes 8 lst))"
    using assms
  proof (cases rule: sw_id_partsD)
    case (1 a)
    then have len: "length start = 16" using hex_Decode_32[of a] by simp
    have "swStringToUUID s e = Some (xor_bytes 8 8 0 (xor_bytes 4 4 0 (xor_bytes 0 4 (uint e) start)))"
      using 1 len by (simp add: swStringToUUID_32 xor_bytes_zero)
    then show ?thesis using len 1(4,5) by (simp only: xor_bytes_all)
  next
    case (2 a m l)
    then have "length start = 16" using hex_Decode_32[of a] by simp
    then show ?thesis using 2 Atoi_no_dot[OF 2(5)] by (simp add: swStringToUUID_dotted xor_bytes_all)
  qed
  then show "length start = 16" "swStringToUUID s e = Some (xor_list start (le_bytes 4 (uint e) @ le_bytes 4 mid @ le_bytes 8 lst))"
    by auto
qed

subsection \<open>Spans of one segment\<close>

lemma segmentIDToSpanID_parts:
  assumes "sw_id_parts s = Some (start, mid, lst)"
  shows "segmentIDToSpanID s x = Some (uuidTo8Bytes (xor_list start (le_bytes 4 (uint x) @ le_bytes 4 mid @ le_bytes 8 lst)))"
proof -
  have "\<not> length s < 32" using assms by (auto simp: sw_id_parts_def Let_def split: prod.splits)
  then show ?thesis by (simp add: segmentIDToSpanID_def swStringToUUID_parts(2)[OF assms])
qed

lemma sw_id_ok_total: "sw_id_ok s \<Longrightarrow> segmentIDToSpanID s x \<noteq> None"
  by (auto simp: sw_id_ok_def segmentIDToSpanID_parts)

lemma segmentIDToSpanID_inj:
  assumes "sw_id_ok s" "segmentIDToSpanID s x = segmentIDToSpanID s y"
  shows "x = y"
proof -
  obtain start mid lst where p: "sw_id_parts s = Some (start, mid, lst)"
    using assms(1) by (auto simp: sw_id_ok_def)
  let ?u = "\<lambda>x. xor_list start (le_bytes 4 (uint (x :: u32)) @ le_bytes 4 mid @ le_bytes 8 lst)"
  have len: "length start = 16" by (rule swStringToUUID_parts(1)[OF p])
  have eq: "uuidTo8Bytes (?u x) = uuidTo8Bytes (?u y)"
    using assms(2) by (simp add: segmentIDToSpanID_parts[OF p])
  have "le_bytes 4 (uint x) ! i = le_bytes 4 (uint y) ! i" if i: "i < 4" for i
  proof -
    have "?u x ! i XOR ?u x ! (i + 8) = ?u y ! i XOR ?u y ! (i + 8)"
      using arg_cong[OF eq, of "\<lambda>u. u ! i"] i by (simp add: uuidTo8Bytes_def del: upt_Suc nth_xor_list)
    moreover have "?u x ! (i + 8) = ?u y ! (i + 8)" using i len by (simp add: nth_append)
    ultimately have "?u x ! i = ?u y ! i" by (metis xor_cancel xor.commute)
    then show ?thesis using i len by (simp add: nth_append xor_cancel)
  qed
  then have "le_bytes 4 (uint x) = le_bytes 4 (uint y)" by (intro nth_equalityI) auto
  then show "x = y" by (rule le_bytes_inj_u32)
qed

lemma int32_word_inj:
  assumes "- (2 ^ 31) \<le> a" "a < 2 ^ 31" "- (2 ^ 31) \<le> b" "b < 2 ^ 31" "(word_of_int a :: u32) = word_of_int b"
  shows "a = b"
proof -
  have "(2 ^ 32 :: int) dvd a - b"
    using assms(5) by (simp add: word_of_int_eq_iff take_bit_eq_mod mod_eq_dvd_iff)
  then obtain k where k: "a - b = 2 ^ 32 * k" by (rule dvdE)
  have "k < 1" "- 1 < k" using k assms(1-4) by simp_all
  with k show ?thesis by simp
qed

subsection \<open>The panic\<close>

text \<open>The slice \<open>s[index1+1 : index2]\<close> is out of order when the two indices are the same dot.\<close>

lemma swStringToUUID_panics:
  "swStringToUUID s e = None \<longleftrightarrow>
   length s > 32 \<and> snd (hex_Decode (take 32 s)) \<and> s ! 32 = CHR ''.'' \<and> CHR ''.'' \<notin> set (drop 33 s)"
  (is "_ \<longleftrightarrow> ?bad")
proof
  assume n: "swStringToUUID s e = None"
  then have ok: "snd (hex_Decode (take 32 s))" and i1: "IndexByte s CHR ''.'' = int 32" and len: "length s > 32"
    and sub: "substring s 33 (LastIndexByte s CHR ''.'') = None \<or>
      (\<exists>m. substring s 33 (LastIndexByte s CHR ''.'') = Some m \<and> substring s (LastIndexByte s CHR ''.'' + 1) (int (length s)) = None)"
    by (auto simp: swStringToUUID_def Let_def bind_eq_None_conv split: prod.splits if_splits option.splits)
  note sp = IndexByte_split[OF i1]
  have "CHR ''.'' \<notin> set (drop 33 s)"
  proof
    assume "CHR ''.'' \<in> set (drop 33 s)"
    then obtain m l where ml: "drop 33 s = m @ CHR ''.'' # l" "CHR ''.'' \<notin> set l" using split_list_last by fastforce
    have "s = take 32 s @ CHR ''.'' # m @ CHR ''.'' # l" using sp(1) ml(1) by simp
    moreover have "hex_Decode (take 32 s) = (fst (hex_Decode (take 32 s)), True)" using ok by (simp add: prod_eq_iff)
    then have "swStringToUUID (take 32 s @ CHR ''.'' # m @ CHR ''.'' # l) e \<noteq> None"
      using len ml(2) by (subst swStringToUUID_dotted) auto
    ultimately show False using n by metis
  qed
  then show ?bad using ok len sp by (metis nth_append_length length_take min.absorb2 less_imp_le)
next
  assume bad: ?bad
  have len: "length (take 32 s) = 32" using bad by simp
  have dot: "CHR ''.'' \<notin> set (take 32 s)" using hex_Decode_no_dot[OF _ conjunct1[OF conjunct2[OF bad]]] len by simp
  have s: "s = take 32 s @ CHR ''.'' # drop 33 s" using bad id_take_nth_drop[of 32 s] by simp
  have i1: "IndexByte s CHR ''.'' = 32" using IndexByte_append[OF dot, of "drop 33 s"] s len by simp
  have i2: "LastIndexByte s CHR ''.'' = 32" using LastIndexByte_append[of "CHR ''.''" "drop 33 s" "take 32 s"] s len bad by simp
  show "swStringToUUID s e = None"
    using bad by (auto simp: swStringToUUID_def Let_def i1 i2 substring_def split: prod.split)
qed

text \<open>The identifier follows the documented format: the hexadecimal start XOR \<open>extra\<close>, \<open>mid\<close> and \<open>last\<close>.\<close>

theorem uuid_follows_format:
  assumes "sw_id_parts s = Some (start, mid, lst)"
  shows "swStringToUUID s extra = Some (xor_list start (le_bytes 4 (uint extra) @ le_bytes 4 mid @ le_bytes 8 lst))"
  using assms by (rule swStringToUUID_parts(2))

theorem uuid_follows_format_witness:
  "swStringToUUID ''000102030405060708090a0b0c0d0e0f.1.2'' 3 = Some [3, 1, 2, 3, 5, 5, 6, 7, 10, 9, 10, 11, 12, 13, 14, 15]"
proof -
  have "sw_id_parts ''000102030405060708090a0b0c0d0e0f.1.2'' = Some ([0, 1, 2, 3, 4, 5, 6, 7, 8, 9, 10, 11, 12, 13, 14, 15], 1, 2)"
    by (simp add: sw_id_parts_def Let_def hex_digit_def Atoi_def)
  from uuid_follows_format[OF this, of 3] show ?thesis
    by (simp add: xor_list_def le_bytes_def upt_rec)
qed

text \<open>The conversion of an identifier panics exactly when 32 hexadecimal digits are followed by a single dot.\<close>

theorem uuid_panics_iff:
  "swStringToUUID s extra = None \<longleftrightarrow>
   length s > 32 \<and> snd (hex_Decode (take 32 s)) \<and> s ! 32 = CHR ''.'' \<and> CHR ''.'' \<notin> set (drop 33 s)"
  by (rule swStringToUUID_panics)

end
