(* ===== verification/SkyComponents.thy ===== *)
theory SkyComponents
  imports Pdata
begin

section \<open>The Skywalking receiver: the component table\<close>

text \<open>
  \<open>componment_mapping.go\<close>: the table of the components an agent names by number, the two maps filled from it at their first
  use, and the two lookups.
\<close>

datatype sw_componment = SwC (swc_Id: int) (swc_Name: string) (swc_Server: string)

definition components :: "sw_componment list" where
  "components =
     [SwC 0 ''Unknown'' [], SwC 1 ''Tomcat'' [], SwC 2 ''HttpClient'' [], SwC 3 ''Dubbo'' [], SwC 4 ''H2'' [],
      SwC 5 ''Mysql'' [], SwC 6 ''ORACLE'' [], SwC 7 ''Redis'' [], SwC 8 ''Motan'' [], SwC 9 ''MongoDB'' [],
      SwC 10 ''Resin'' [], SwC 11 ''Feign'' [], SwC 12 ''OKHttp'' [], SwC 13 ''SpringRestTemplate'' [],
      SwC 14 ''SpringMVC'' [], SwC 15 ''Struts2'' [], SwC 16 ''NutzMVC'' [], SwC 17 ''NutzHttp'' [],
      SwC 18 ''JettyClient'' [], SwC 19 ''JettyServer'' [], SwC 20 ''Memcached'' [], SwC 21 ''ShardingJDBC'' [],
      SwC 22 ''PostgreSQL'' [], SwC 23 ''GRPC'' [], SwC 24 ''ElasticJob'' [], SwC 25 ''RocketMQ'' [],
      SwC 26 ''httpasyncclient'' [], SwC 27 ''Kafka'' [], SwC 28 ''ServiceComb'' [], SwC 29 ''Hystrix'' [],
      SwC 30 ''Jedis'' ''Redis'', SwC 31 ''SQLite'' [], SwC 32 ''h2-jdbc-driver'' ''H2'',
      SwC 33 ''mysql-connector-java'' ''Mysql'', SwC 34 ''ojdbc'' [], SwC 35 ''Spymemcached'' ''Memcached'',
      SwC 36 ''Xmemcached'' ''Memcached'', SwC 37 ''postgresql-jdbc-driver'' ''PostgreSQL'',
      SwC 38 ''rocketMQ-producer'' ''RocketMQ'', SwC 39 ''rocketMQ-consumer'' ''RocketMQ'',
      SwC 40 ''kafka-producer'' ''Kafka'', SwC 41 ''kafka-consumer'' ''Kafka'', SwC 42 ''mongodb-driver'' ''MongoDB'',
      SwC 43 ''SOFARPC'' [], SwC 44 ''ActiveMQ'' [], SwC 45 ''activemq-producer'' ''ActiveMQ'',
      SwC 46 ''activemq-consumer'' ''ActiveMQ'', SwC 47 ''Elasticsearch'' [], SwC 48 ''transport-client'' ''Elasticsearch'',
      SwC 49 ''http'' [], SwC 50 ''rpc'' [], SwC 51 ''RabbitMQ'' [], SwC 52 ''rabbitmq-producer'' ''RabbitMQ'',
      SwC 53 ''rabbitmq-consumer'' ''RabbitMQ'', SwC 54 ''Canal'' [], SwC 55 ''Gson'' [], SwC 56 ''Redisson'' ''Redis'',
      SwC 57 ''Lettuce'' ''Redis'', SwC 58 ''Zookeeper'' ''Zookeeper'', SwC 59 ''Vertx'' [], SwC 60 ''ShardingSphere'' [],
      SwC 61 ''spring-cloud-gateway'' [], SwC 62 ''RESTEasy'' [], SwC 63 ''SolrJ'' ''Solr'', SwC 64 ''Solr'' [],
      SwC 65 ''SpringAsync'' [], SwC 66 ''JdkHttp'' [], SwC 67 ''spring-webflux'' [], SwC 68 ''Play'' [],
      SwC 69 ''cassandra-java-driver'' ''Cassandra'', SwC 70 ''Cassandra'' [], SwC 71 ''Light4J'' [], SwC 72 ''Pulsar'' [],
      SwC 73 ''pulsar-producer'' ''Pulsar'', SwC 74 ''pulsar-consumer'' ''Pulsar'', SwC 75 ''Ehcache'' [],
      SwC 76 ''SocketIO'' [], SwC 77 ''rest-high-level-client'' ''Elasticsearch'', SwC 78 ''spring-tx'' [],
      SwC 79 ''Armeria'' [], SwC 80 ''JdkThreading'' [], SwC 81 ''KotlinCoroutine'' [], SwC 82 ''AvroServer'' [],
      SwC 83 ''AvroClient'' [], SwC 84 ''Undertow'' [], SwC 85 ''Finagle'' [], SwC 86 ''Mariadb'' [],
      SwC 87 ''mariadb-jdbc'' ''Mariadb'', SwC 88 ''quasar'' [], SwC 89 ''InfluxDB'' [],
      SwC 90 ''influxdb-java'' ''InfluxDB'', SwC 91 ''brpc-java'' [], SwC 92 ''GraphQL'' [],
      SwC 93 ''spring-annotation'' [], SwC 94 ''HBase'' [], SwC 95 ''spring-kafka-consumer'' ''kafka-consumer'',
      SwC 96 ''SpringScheduled'' [], SwC 97 ''quartz-scheduler'' [], SwC 98 ''xxl-job'' [],
      SwC 99 ''spring-webflux-webclient'' [], SwC 100 ''thrift-server'' [], SwC 101 ''thrift-client'' [],
      SwC 102 ''AsyncHttpClient'' [], SwC 103 ''dbcp'' [], SwC 104 ''mssql-jdbc-driver'' ''SqlServer'',
      SwC 105 ''Apache-CXF'' [], SwC 106 ''dolphinscheduler'' [], SwC 107 ''JsonRpc'' [], SwC 108 ''seata'' [],
      SwC 109 ''MyBatis'' [], SwC 110 ''tcp'' [], SwC 111 ''AzureHttpTrigger'' [], SwC 112 ''Neo4j'' [],
      SwC 113 ''Sentinel'' [], SwC 114 ''GuavaCache'' [], SwC 115 ''AlibabaDruId'' [], SwC 116 ''HikariCP'' [],
      SwC 117 ''Fastjson'' [], SwC 118 ''Jackson'' [], SwC 119 ''ClickHouse-jdbc-driver'' ''ClickHouse'',
      SwC 120 ''ClickHouse'' [], SwC 121 ''Apache-Kylin-jdbc-driver'' ''Apache-Kylin'', SwC 122 ''Apache-Kylin'' [],
      SwC 123 ''GuavaEventBus'' [], SwC 124 ''AWSLambdaTrigger'' [], SwC 125 ''AWSLambdaGatewayAPIHTTP'' [],
      SwC 126 ''AWSLambdaGatewayAPIREST'' [], SwC 127 ''Apache-ShenYu'' [], SwC 128 ''Hutool'' [], SwC 129 ''https'' [],
      SwC 130 ''tls'' [], SwC 131 ''Micronaut'' [], SwC 132 ''NATS'' [], SwC 133 ''Impala-jdbc-driver'' ''Impala'',
      SwC 134 ''Impala'' [], SwC 135 ''EventMesh'' [], SwC 136 ''eventmesh-producer'' ''EventMesh'',
      SwC 137 ''eventmesh-consumer'' ''EventMesh'', SwC 138 ''AWSDynamoDB'' [], SwC 139 ''AWSSNS'' [],
      SwC 140 ''AWSSQS'' [], SwC 141 ''Micrometer'' [], SwC 142 ''mtls'' [], SwC 143 ''amqp'' [],
      SwC 144 ''amqp-producer'' ''amqp'', SwC 145 ''amqp-consumer'' ''amqp'', SwC 146 ''Jersey'' [], SwC 147 ''Grizzly'' [],
      SwC 148 ''WebSphere'' [], SwC 149 ''Aerospike'' [], SwC 150 ''Nacos'' [], SwC 151 ''Netty-http'' [],
      SwC 152 ''c3p0'' [], SwC 153 ''Derby-jdbc-driver'' [], SwC 154 ''Sqlite-jdbc-driver'' [],
      SwC 155 ''Db2-jdbc-driver'' [], SwC 156 ''Sybase-jdbc-driver'' [], SwC 157 ''OceanBase-jdbc-driver'' [],
      SwC 158 ''SolonMVC'' [], SwC 159 ''DNS'' [], SwC 3001 ''AspNetCore'' [], SwC 3002 ''EntityFrameworkCore'' [],
      SwC 3003 ''SqlClient'' ''SqlServer'', SwC 3004 ''CAP'' [], SwC 3005 ''StackExchange.Redis'' ''Redis'',
      SwC 3006 ''SqlServer'' [], SwC 3007 ''Npgsql'' ''PostgreSQL'', SwC 3008 ''MySqlConnector'' ''Mysql'',
      SwC 3009 ''EntityFrameworkCore.InMemory'' ''InMemoryDatabase'',
      SwC 3010 ''EntityFrameworkCore.SqlServer'' ''SqlServer'', SwC 3011 ''EntityFrameworkCore.Sqlite'' ''SQLite'',
      SwC 3012 ''Pomelo.EntityFrameworkCore.MySql'' ''Mysql'',
      SwC 3013 ''Npgsql.EntityFrameworkCore.PostgreSQL'' ''PostgreSQL'', SwC 3014 ''InMemoryDatabase'' [],
      SwC 3015 ''AspNet'' [], SwC 3016 ''SmartSql'' [], SwC 3017 ''FreeSql'' [], SwC 3018 ''FreeRedis'' ''Redis'',
      SwC 4001 ''HttpServer'' [], SwC 4002 ''Express'' [], SwC 4003 ''Egg'' [], SwC 4004 ''Koa'' [], SwC 4005 ''Axios'' [],
      SwC 4006 ''Mongoose'' [], SwC 5001 ''ServiceCombMesher'' [], SwC 5002 ''ServiceCombServiceCenter'' [],
      SwC 5003 ''MOSN'' [], SwC 5004 ''GoHttpServer'' [], SwC 5005 ''GoHttpClient'' [], SwC 5006 ''Gin'' [],
      SwC 5007 ''Gear'' [], SwC 5008 ''GoMicroClient'' [], SwC 5009 ''GoMicroServer'' [], SwC 5010 ''Kratos'' [],
      SwC 5012 ''GoMysql'' ''Mysql'', SwC 5013 ''OpenFunction'' [], SwC 5014 ''GoRedis'' ''Redis'', SwC 5015 ''Echo'' [],
      SwC 5016 ''Lock'' [], SwC 5017 ''GoMuxServer'' [], SwC 5018 ''Iris'' [], SwC 5019 ''GoFastHttpClient'' [],
      SwC 5020 ''GoFastHttpServer'' [], SwC 5021 ''Fiber'' [], SwC 5022 ''GoFrame'' [], SwC 5023 ''GoZero'' [],
      SwC 6000 ''Nginx'' [], SwC 6001 ''Kong'' [], SwC 6002 ''APISIX'' [], SwC 7000 ''Python'' [], SwC 7001 ''Flask'' [],
      SwC 7002 ''Requests'' [], SwC 7003 ''PyMysql'' ''Mysql'', SwC 7004 ''Django'' [], SwC 7005 ''Tornado'' [],
      SwC 7006 ''Urllib3'' [], SwC 7007 ''Sanic'' [], SwC 7008 ''AioHttp'' [], SwC 7009 ''PyramId'' [],
      SwC 7010 ''Psychopg'' ''PostgreSQL'', SwC 7011 ''Celery'' [], SwC 7012 ''Falcon'' [],
      SwC 7013 ''MysqlClient'' ''Mysql'', SwC 7014 ''FastAPI'' [], SwC 7015 ''Bottle'' [],
      SwC 7016 ''AsyncPG'' ''PostgreSQL'', SwC 7017 ''AIORedis'' ''Redis'', SwC 7018 ''Websockets'' [],
      SwC 7019 ''HTTPX'' [], SwC 8001 ''PHP'' [], SwC 8002 ''cURL'' [], SwC 8003 ''PDO'' [], SwC 8004 ''Mysqli'' ''Mysql'',
      SwC 8005 ''Yar'' [], SwC 8006 ''Predis'' ''Redis'', SwC 9000 ''EnvoyProxy'' [], SwC 10000 ''JavaScript'' [],
      SwC 10001 ''ajax'' [], SwC 11000 ''Rust'' []]"

definition componentIdMap :: "(int, sw_componment) gomap" where
  "componentIdMap = fold (\<lambda>c. map_store (swc_Id c) c) components []"

definition nameToServerMap :: "(string, string) gomap" where
  "nameToServerMap = fold (\<lambda>c m. if swc_Server c \<noteq> [] then map_store (swc_Name c) (swc_Server c) m else m) components []"

definition GetComponent :: "int \<Rightarrow> string" where
  "GetComponent componmentId =
     (case map_load componentIdMap componmentId of
        Some c \<Rightarrow> if swc_Server c = [] then swc_Name c else swc_Server c
      | None \<Rightarrow> ''Unknown'')"

definition GetServerName :: "string \<Rightarrow> string" where
  "GetServerName componmentName =
     (case map_load nameToServerMap componmentName of Some server \<Rightarrow> server | None \<Rightarrow> componmentName)"

subsection \<open>The table is consistent\<close>

lemma load_fold_store:
  "distinct (map f xs) \<Longrightarrow> x \<in> set xs \<Longrightarrow> map_load (fold (\<lambda>x. map_store (f x) x) xs m) (f x) = Some x"
proof (induction xs arbitrary: m)
  case (Cons y xs)
  have keep: "map_load (fold (\<lambda>x. map_store (f x) x) xs m) k = map_load m k" if "k \<notin> f ` set xs" for k m
    using that by (induction xs arbitrary: m) auto
  show ?case using Cons keep[of "f y"] by auto
qed simp

lemma component_ids_ascending: "successively (<) (map swc_Id components)"
  by (simp add: components_def)

lemma component_ids_distinct: "distinct (map swc_Id components)"
  using component_ids_ascending by (simp only: successively_conv_sorted_wrt[OF transp_on_less] strict_sorted_iff)

text \<open>The component numbers of the table are pairwise different, so every entry is found again under its number.\<close>

theorem component_lookup:
  assumes "c \<in> set components"
  shows "GetComponent (swc_Id c) = (if swc_Server c = [] then swc_Name c else swc_Server c)"
  using load_fold_store[OF component_ids_distinct assms] by (simp add: GetComponent_def componentIdMap_def)

theorem component_lookup_witness: "GetComponent 57 = ''Redis''"
  using component_lookup[of "SwC 57 ''Lettuce'' ''Redis''"] by (simp add: components_def)

end
