(* ===== verification/SqlPrune.thy ===== *)
theory SqlPrune
  imports GoStrings
begin

section \<open>Operation and table of a SQL statement\<close>

text \<open>
  \<open>pkg/sqlprune/sqlparser.go\<close>. The tokenizer and the parser of \<open>xwb1989/sqlparser\<close> are third-party
  code: \<open>sql_lib\<close> holds the tokens a statement is scanned into, up to the end of the input, and the syntax tree
  the parser returns, as \<open>reflect\<close> shows it to the code (pointers followed). The scanner loop is recursion on
  the tokens; \<open>None\<close> is the index panic of \<open>tables[len(tables)-1]\<close>.
\<close>

datatype token_type =
  T_EOF | T_LEX_ERROR | T_ID | T_VALUE_ARG | T_COMMENT | T_TABLE | T_FROM | T_INTO | T_JOIN
| T_SELECT | T_STREAM | T_INSERT | T_UPDATE | T_DELETE | T_SET | T_CREATE | T_ALTER | T_DROP | T_ANALYZE | T_RENAME
| T_SHOW | T_USE | T_DESCRIBE | T_EXPLAIN | T_TRUNCATE | T_REPAIR | T_OPTIMIZE | T_BEGIN | T_START | T_COMMIT
| T_ROLLBACK | T_REPLACE | T_char nat | T_other nat

type_synonym token = "token_type \<times> string"

definition tokenIsDBOperation :: "token_type \<Rightarrow> bool" where
  "tokenIsDBOperation t \<longleftrightarrow>
     t \<in> {T_SELECT, T_STREAM, T_INSERT, T_UPDATE, T_DELETE, T_SET, T_CREATE, T_ALTER, T_DROP, T_ANALYZE, T_RENAME,
          T_SHOW, T_USE, T_DESCRIBE, T_EXPLAIN, T_TRUNCATE, T_REPAIR, T_OPTIMIZE, T_BEGIN, T_START, T_COMMIT,
          T_ROLLBACK, T_REPLACE}"

datatype reflect_value =
  R_struct (r_type: string) (r_v: string) (r_fields: "reflect_value list")
| R_seq "reflect_value list"
| R_interface string reflect_value
| R_other

record sql_lib =
  sql_Tokens :: "string \<Rightarrow> token list"
  sql_Parse :: "string \<Rightarrow> reflect_value option"

text \<open>\<open>strings.ToUpper\<close> on the ASCII keywords that reach it.\<close>

definition upper_char :: "char \<Rightarrow> char" where
  "upper_char c = (let n = of_char c :: nat in if 97 \<le> n \<and> n \<le> 122 then char_of (n - 32) else c)"

definition ToUpper :: "string \<Rightarrow> string" where
  "ToUpper s = map upper_char s"

subsection \<open>The scanner loop\<close>

record sql_state =
  sq_operation :: string
  sq_lastType :: token_type
  sq_tables :: "string list"
  sq_addedTable :: bool
  sq_addMoreTables :: bool

definition sql_init :: sql_state where
  "sql_init = \<lparr>sq_operation = [], sq_lastType = T_EOF, sq_tables = [], sq_addedTable = False, sq_addMoreTables = False\<rparr>"

text \<open>The end of the loop body: a table name, any other token, the last type.\<close>

definition sql_name :: "token_type \<Rightarrow> string \<Rightarrow> sql_state \<Rightarrow> sql_state" where
  "sql_name tokenType dat st =
     (let st1 =
        (if tokenType = T_ID \<or> tokenType = T_VALUE_ARG then
           (if sq_lastType st \<in> {T_TABLE, T_FROM, T_INTO, T_UPDATE, T_JOIN} \<or> sq_addMoreTables st
            then st\<lparr>sq_tables := sq_tables st @ [if tokenType = T_VALUE_ARG then ''?'' else dat],
                    sq_addedTable := True, sq_addMoreTables := False\<rparr>
            else st)
         else st\<lparr>sq_addedTable := False\<rparr>)
      in if tokenType \<noteq> T_COMMENT then st1\<lparr>sq_lastType := tokenType\<rparr> else st1)"

definition sql_operation :: "token_type \<Rightarrow> string \<Rightarrow> sql_state \<Rightarrow> sql_state" where
  "sql_operation tokenType dat st =
     (if sq_operation st = [] \<and> tokenIsDBOperation tokenType then st\<lparr>sq_operation := ToUpper dat\<rparr> else st)"

fun sql_loop :: "token list \<Rightarrow> sql_state \<Rightarrow> sql_state option" where
  "sql_loop [] st = Some st"
| "sql_loop ((tokenType, dat) # toks) st =
     (if tokenType = T_LEX_ERROR then Some st
      else
        (let st1 = sql_operation tokenType dat st in
         if tokenType = T_char 44 \<and> sq_addedTable st1 then sql_loop toks (st1\<lparr>sq_addMoreTables := True\<rparr>)
         else if tokenType = T_char 46 \<and> sq_addedTable st1 then
           (case toks of
              [] \<Rightarrow> Some (sql_name T_EOF [] st1)
            | (tokenType2, dat2) # toks2 \<Rightarrow>
                if tokenType2 = T_ID then
                  (if sq_tables st1 = [] then None
                   else sql_loop toks2 (st1\<lparr>sq_tables := butlast (sq_tables st1) @ [last (sq_tables st1) @ ''.'' @ dat2]\<rparr>))
                else sql_loop toks2 (sql_name tokenType2 dat2 st1))
         else sql_loop toks (sql_name tokenType dat st1)))"

definition SQLParseOperationAndTable :: "sql_lib \<Rightarrow> string \<Rightarrow> (string \<times> string) option" where
  "SQLParseOperationAndTable lib query =
     map_option
       (\<lambda>st. let tables = (if length (sq_tables st) > 1 \<and> sq_operation st \<noteq> ''SELECT'' then take 1 (sq_tables st) else sq_tables st)
             in (sq_operation st, strings_Join tables '',''))
       (sql_loop (sql_Tokens lib query) sql_init)"

subsection \<open>The syntax tree\<close>

fun getTableNames :: "reflect_value \<Rightarrow> string list \<Rightarrow> bool \<Rightarrow> string list" where
  "getTableNames (R_struct name v flds) tables isTable =
     (if name = ''TableIdent'' then (if v \<noteq> [] \<and> isTable then tables @ [v] else tables)
      else fold (\<lambda>field ts. getTableNames field ts isTable) flds tables)"
| "getTableNames (R_seq elems) tables isTable = fold (\<lambda>e ts. getTableNames e ts isTable) elems tables"
| "getTableNames (R_interface name w) tables isTable =
     getTableNames w tables (if name = ''SimpleTableExpr'' then True else isTable)"
| "getTableNames R_other tables isTable = tables"

definition SQLParseOperationAndTableNEW :: "sql_lib \<Rightarrow> string \<Rightarrow> (string \<times> string) option" where
  "SQLParseOperationAndTableNEW lib query =
     (case sql_Parse lib query of
        None \<Rightarrow> SQLParseOperationAndTable lib query
      | Some stmt \<Rightarrow>
          (let tables = getTableNames stmt [] False in
           if tables = [] then Some ([], []) else Some (''SELECT'', hd tables)))"

subsection \<open>The scanner never panics\<close>

definition sql_inv :: "sql_state \<Rightarrow> bool" where
  "sql_inv st \<longleftrightarrow> (sq_addedTable st \<longrightarrow> sq_tables st \<noteq> [])"

lemma sql_name_inv: "sql_inv st \<Longrightarrow> sql_inv (sql_name t d st)"
  by (simp add: sql_inv_def sql_name_def Let_def)

lemma sql_operation_frame [simp]:
  "sq_tables (sql_operation t d st) = sq_tables st" "sq_addedTable (sql_operation t d st) = sq_addedTable st"
  by (simp_all add: sql_operation_def)

lemma sql_operation_inv: "sql_inv st \<Longrightarrow> sql_inv (sql_operation t d st)"
  by (simp add: sql_inv_def)

lemma sql_loop_total: "sql_inv st \<Longrightarrow> \<exists>st'. sql_loop toks st = Some st' \<and> sql_inv st'"
proof (induction toks st rule: sql_loop.induct)
  case (1 st)
  then show ?case by simp
next
  case (2 t d toks st)
  let ?st = "sql_operation t d st"
  have inv: "sql_inv ?st" by (rule sql_operation_inv [OF "2.prems"])
  show ?case
  proof (cases "t = T_LEX_ERROR")
    case True
    then show ?thesis using "2.prems" by simp
  next
    case False
    note nl = this
    show ?thesis
    proof (cases "t = T_char 44 \<and> sq_addedTable ?st")
      case True
      with "2.IH"(1) [OF nl refl True] inv show ?thesis by (simp add: sql_inv_def)
    next
      case False
      note nc = this
      show ?thesis
      proof (cases "t = T_char 46 \<and> sq_addedTable ?st")
        case True
        note dot = this
        then have ne: "sq_tables st \<noteq> []" using "2.prems" by (simp add: sql_inv_def)
        show ?thesis
        proof (cases toks)
          case Nil
          then show ?thesis using dot sql_name_inv [OF inv] by simp
        next
          case (Cons p toks2)
          obtain t2 d2 where p: "p = (t2, d2)" by (cases p)
          show ?thesis
          proof (cases "t2 = T_ID")
            case True
            then show ?thesis
              using "2.IH"(2) [OF nl refl nc dot Cons p [symmetric] True] dot ne Cons p by (simp add: sql_inv_def)
          next
            case False
            then show ?thesis
              using "2.IH"(3) [OF nl refl nc dot Cons p [symmetric] False sql_name_inv [OF inv]] dot Cons p by simp
          qed
        qed
      next
        case False
        from "2.IH"(4) [OF nl refl nc False sql_name_inv [OF inv]] nl nc False show ?thesis by (auto simp: Let_def)
      qed
    qed
  qed
qed

lemma sql_init_inv: "sql_inv sql_init"
  by (simp add: sql_inv_def sql_init_def)

text \<open>the SQL summary of a database span is always produced: for every statement and whatever the
  tokenizer and the parser return, the fallback scanner does not run out of range, and a statement the parser
  understands is summarised from its tree.\<close>

theorem sql_summary_total:
  "\<exists>operation table. SQLParseOperationAndTableNEW lib query = Some (operation, table)"
  using sql_loop_total [OF sql_init_inv, of "sql_Tokens lib query"]
  by (auto simp: SQLParseOperationAndTableNEW_def SQLParseOperationAndTable_def Let_def split: option.split)

text \<open>The tables of a tree, in order: the named \<open>TableIdent\<close> nodes below a \<open>SimpleTableExpr\<close>.\<close>

fun table_names :: "bool \<Rightarrow> reflect_value \<Rightarrow> string list" where
  "table_names b (R_struct name v flds) =
     (if name = ''TableIdent'' then (if b \<and> v \<noteq> [] then [v] else []) else concat (map (table_names b) flds))"
| "table_names b (R_seq elems) = concat (map (table_names b) elems)"
| "table_names b (R_interface name w) = table_names (b \<or> name = ''SimpleTableExpr'') w"
| "table_names b R_other = []"

lemma fold_append_names:
  "(\<And>x ts. x \<in> set xs \<Longrightarrow> f x ts = ts @ g x) \<Longrightarrow> fold f xs ts = ts @ concat (map g xs)"
  by (induction xs arbitrary: ts) auto

lemma getTableNames_table_names: "getTableNames v tables b = tables @ table_names b v"
proof (induction v arbitrary: tables b)
  case (R_struct name v flds)
  then show ?case by (simp add: fold_append_names [where g = "table_names b"])
next
  case (R_seq elems)
  then show ?case by (simp add: fold_append_names [where g = "table_names b"])
next
  case (R_interface name w)
  then show ?case by simp
qed simp

text \<open>a statement the parser understands is summarised by the first table of its tree and always as
  \<open>SELECT\<close>, whatever kind of statement it is: \<open>update t set a = 1\<close> is reported as \<open>SELECT t\<close>, where
  the scanner would have said \<open>UPDATE\<close>.\<close>

theorem parsed_sql_is_select:
  assumes "sql_Parse lib query = Some stmt"
  shows "SQLParseOperationAndTableNEW lib query =
           Some (case table_names False stmt of [] \<Rightarrow> ([], []) | t # _ \<Rightarrow> (''SELECT'', t))"
  using assms by (simp add: SQLParseOperationAndTableNEW_def getTableNames_table_names Let_def split: list.split)

definition demo_sql :: sql_lib where
  "demo_sql = \<lparr>sql_Tokens = (\<lambda>q. [(T_UPDATE, ''update''), (T_ID, ''t''), (T_SET, ''set''), (T_ID, ''a''), (T_char 61, []), (T_other 1, ''1'')]),
     sql_Parse = (\<lambda>q. if q = ''update t set a = 1''
       then Some (R_struct ''Update'' [] [R_seq [R_interface ''TableExpr'' (R_struct ''AliasedTableExpr'' []
              [R_interface ''SimpleTableExpr'' (R_struct ''TableName'' [] [R_struct ''TableIdent'' ''t'' []])])]])
       else None)\<rparr>"

theorem parsed_sql_is_select_witness:
  "SQLParseOperationAndTableNEW demo_sql ''update t set a = 1'' = Some (''SELECT'', ''t'') \<and>
   SQLParseOperationAndTable demo_sql ''update t set a = 1'' = Some (''UPDATE'', ''t'')"
proof -
  have "sql_Parse demo_sql ''update t set a = 1'' \<noteq> None" by (simp add: demo_sql_def)
  then obtain stmt where p: "sql_Parse demo_sql ''update t set a = 1'' = Some stmt" by blast
  then have "table_names False stmt = [''t'']" by (auto simp: demo_sql_def)
  with parsed_sql_is_select [OF p] have "SQLParseOperationAndTableNEW demo_sql ''update t set a = 1'' = Some (''SELECT'', ''t'')"
    by simp
  moreover have "SQLParseOperationAndTable demo_sql ''update t set a = 1'' = Some (''UPDATE'', ''t'')"
    by (simp add: SQLParseOperationAndTable_def demo_sql_def sql_operation_def sql_name_def sql_init_def tokenIsDBOperation_def ToUpper_def upper_char_def Let_def char_of_def bit_0)
  ultimately show ?thesis by blast
qed

end
