(* ===== verification/RedCache.thy ===== *)
theory RedCache
  imports Pdata
begin

section \<open>Metric keys and dimension caches\<close>

text \<open>
  \<open>redmetricsconnector/internal/cache/{model,cache,bucket}.go\<close>: the reusable list of dimensions from which
  metric keys are built, the cache from keys to dimensions, and the ring of trace identifiers.

  The cache wraps \<open>simplelru\<close> of \<open>hashicorp/golang-lru\<close>, which is third-party code: its operations are
  a record \<open>lru_ops\<close> that every definition takes, and what the code relies on is the predicate
  \<open>lru_laws\<close> (documented behaviour: a lookup finds what was added last, an addition evicts at most one
  other entry and reports it).
\<close>

subsection \<open>\<open>ReusedKeyValue\<close>\<close>

definition metricKeySeparator :: char where
  "metricKeySeparator = CHR 0x00"

record reused_key_value =
  rk_maxAttribute :: int
  rk_keys :: "string list"
  rk_vals :: "string list"
  rk_size :: int

definition NewReusedKeyValue :: "int \<Rightarrow> reused_key_value" where
  "NewReusedKeyValue maxAttribute =
     \<lparr>rk_maxAttribute = maxAttribute, rk_keys = replicate (nat maxAttribute) [],
      rk_vals = replicate (nat maxAttribute) [], rk_size = 0\<rparr>"

definition rk_Reset :: "reused_key_value \<Rightarrow> reused_key_value" where
  "rk_Reset kv = kv\<lparr>rk_size := 0\<rparr>"

definition rk_Add :: "string \<Rightarrow> string \<Rightarrow> reused_key_value \<Rightarrow> reused_key_value" where
  "rk_Add key val kv =
     (if rk_size kv < rk_maxAttribute kv
      then kv\<lparr>rk_keys := (rk_keys kv)[nat (rk_size kv) := key],
              rk_vals := (rk_vals kv)[nat (rk_size kv) := val],
              rk_size := rk_size kv + 1\<rparr>
      else kv)"

fun join_vals :: "string list \<Rightarrow> string" where
  "join_vals [] = []"
| "join_vals [v] = v"
| "join_vals (v # vs) = v @ metricKeySeparator # join_vals vs"

definition rk_GetValue :: "reused_key_value \<Rightarrow> string" where
  "rk_GetValue kv = join_vals (take (nat (rk_size kv)) (rk_vals kv))"

definition rk_GetMap :: "reused_key_value \<Rightarrow> (string, string) gomap" where
  "rk_GetMap kv =
     fold (\<lambda>(k, v). map_store k v)
       (zip (take (nat (rk_size kv)) (rk_keys kv)) (take (nat (rk_size kv)) (rk_vals kv))) []"

text \<open>The abstract view: the list of pairs added since the last reset.\<close>

definition rk_inv :: "reused_key_value \<Rightarrow> bool" where
  "rk_inv kv \<longleftrightarrow> 0 \<le> rk_size kv \<and> rk_size kv \<le> rk_maxAttribute kv \<and>
     int (length (rk_keys kv)) = rk_maxAttribute kv \<and> int (length (rk_vals kv)) = rk_maxAttribute kv"

definition rk_items :: "reused_key_value \<Rightarrow> (string \<times> string) list" where
  "rk_items kv = zip (take (nat (rk_size kv)) (rk_keys kv)) (take (nat (rk_size kv)) (rk_vals kv))"

lemma take_update_Suc: "n < length xs \<Longrightarrow> take (Suc n) (xs[n := x]) = take n xs @ [x]"
  by (simp add: take_Suc_conv_app_nth)

lemma rk_Reset_items: "rk_inv kv \<Longrightarrow> rk_inv (rk_Reset kv) \<and> rk_items (rk_Reset kv) = []"
  by (simp add: rk_inv_def rk_items_def rk_Reset_def)

lemma rk_Add_items:
  assumes "rk_inv kv" "rk_size kv < rk_maxAttribute kv"
  shows "rk_inv (rk_Add k v kv) \<and> rk_items (rk_Add k v kv) = rk_items kv @ [(k, v)]"
proof -
  let ?n = "nat (rk_size kv)"
  have n: "?n < length (rk_keys kv)" "?n < length (rk_vals kv)" "nat (rk_size kv + 1) = Suc ?n"
    using assms by (auto simp: rk_inv_def)
  with assms show ?thesis
    by (simp add: rk_Add_def rk_inv_def rk_items_def take_update_Suc)
qed

lemma rk_Add_frame: "rk_maxAttribute (rk_Add k v kv) = rk_maxAttribute kv"
  by (simp add: rk_Add_def)

lemma rk_size_items: "rk_inv kv \<Longrightarrow> rk_size kv = int (length (rk_items kv))"
  by (auto simp: rk_inv_def rk_items_def min_def)

text \<open>A chain of additions after a reset.\<close>

definition rk_fill :: "(string \<times> string) list \<Rightarrow> reused_key_value \<Rightarrow> reused_key_value" where
  "rk_fill ps kv = fold (\<lambda>(k, v). rk_Add k v) ps (rk_Reset kv)"

lemma rk_fold_items:
  "rk_inv kv \<Longrightarrow> int (length (rk_items kv) + length ps) \<le> rk_maxAttribute kv \<Longrightarrow>
   rk_inv (fold (\<lambda>(k, v). rk_Add k v) ps kv) \<and> rk_items (fold (\<lambda>(k, v). rk_Add k v) ps kv) = rk_items kv @ ps \<and>
   rk_maxAttribute (fold (\<lambda>(k, v). rk_Add k v) ps kv) = rk_maxAttribute kv"
proof (induction ps arbitrary: kv)
  case Nil
  then show ?case by simp
next
  case (Cons p ps)
  have "rk_size kv < rk_maxAttribute kv" using Cons.prems rk_size_items [of kv] by simp
  with rk_Add_items [OF Cons.prems(1) this, of "fst p" "snd p"] Cons.IH [of "rk_Add (fst p) (snd p) kv"] Cons.prems(2)
  show ?case by (simp add: split_def rk_Add_frame)
qed

lemma rk_fill_items:
  assumes "rk_inv kv" "int (length ps) \<le> rk_maxAttribute kv"
  shows "rk_inv (rk_fill ps kv)" "rk_items (rk_fill ps kv) = ps" "rk_maxAttribute (rk_fill ps kv) = rk_maxAttribute kv"
  using rk_fold_items [of "rk_Reset kv" ps] rk_Reset_items [OF assms(1)] assms(2)
  by (simp_all add: rk_fill_def rk_Reset_def)

lemma rk_GetValue_items: "rk_inv kv \<Longrightarrow> rk_GetValue kv = join_vals (map snd (rk_items kv))"
  by (auto simp: rk_GetValue_def rk_items_def rk_inv_def intro!: arg_cong [where f = join_vals] map_snd_zip [symmetric])

lemma rk_GetMap_items: "rk_GetMap kv = fold (\<lambda>(k, v). map_store k v) (rk_items kv) []"
  by (simp add: rk_GetMap_def rk_items_def)

text \<open>Keys of the same number of values without the separator byte can be taken apart.\<close>

lemma join_vals_inj:
  "length xs = length ys \<Longrightarrow> \<forall>x \<in> set xs. metricKeySeparator \<notin> set x \<Longrightarrow> \<forall>y \<in> set ys. metricKeySeparator \<notin> set y \<Longrightarrow>
   join_vals xs = join_vals ys \<Longrightarrow> xs = ys"
proof (induction xs arbitrary: ys rule: join_vals.induct)
  case 1
  then show ?case by simp
next
  case (2 v)
  then show ?case by (cases ys) auto
next
  case (3 v w vs)
  then obtain v' w' vs' where ys: "ys = v' # w' # vs'" by (metis length_Suc_conv)
  with "3.prems" append_sep_inj [of metricKeySeparator v v' "join_vals (w # vs)" "join_vals (w' # vs')"]
  have "v = v'" "join_vals (w # vs) = join_vals (w' # vs')" by auto
  with "3.IH" [of "w' # vs'"] "3.prems" ys show ?case by simp
qed

subsection \<open>The dimension cache\<close>

record ('l, 'v) lru_ops =
  lru_New :: "int \<Rightarrow> 'l option"
  lru_Add :: "string \<Rightarrow> 'v \<Rightarrow> 'l \<Rightarrow> 'l \<times> (string \<times> 'v) option"
  lru_Get :: "string \<Rightarrow> 'l \<Rightarrow> 'l \<times> 'v option"
  lru_Contains :: "string \<Rightarrow> 'l \<Rightarrow> bool"
  lru_Len :: "'l \<Rightarrow> int"

text \<open>\<open>look\<close> is the content of the library's structure.\<close>

definition lru_laws :: "('l, 'v) lru_ops \<Rightarrow> ('l \<Rightarrow> string \<Rightarrow> 'v option) \<Rightarrow> bool" where
  "lru_laws ops look \<longleftrightarrow>
     (\<forall>n l. lru_New ops n = Some l \<longrightarrow> look l = (\<lambda>k. None)) \<and>
     (\<forall>k l. snd (lru_Get ops k l) = look l k \<and> look (fst (lru_Get ops k l)) = look l) \<and>
     (\<forall>k l. lru_Contains ops k l \<longleftrightarrow> look l k \<noteq> None) \<and>
     (\<forall>k v l. case lru_Add ops k v l of
                (l', None) \<Rightarrow> look l' = (look l)(k \<mapsto> v)
              | (l', Some (k', v')) \<Rightarrow>
                  k' \<noteq> k \<and> look l k' = Some v' \<and> look l' = ((look l)(k \<mapsto> v))(k' := None))"

record ('l, 'v) dim_cache =
  dc_lru :: 'l
  dc_evictedItems :: "(string, 'v) gomap"

definition NewCache :: "('l, 'v) lru_ops \<Rightarrow> int \<Rightarrow> ('l, 'v) dim_cache option" where
  "NewCache ops sz = map_option (\<lambda>l. \<lparr>dc_lru = l, dc_evictedItems = []\<rparr>) (lru_New ops sz)"

definition RemoveEvictedItems :: "('l, 'v) dim_cache \<Rightarrow> ('l, 'v) dim_cache" where
  "RemoveEvictedItems c = c\<lparr>dc_evictedItems := []\<rparr>"

text \<open>\<open>Add\<close>; the eviction callback stores the evicted entry. The result says whether one was evicted.\<close>

definition dc_Add :: "('l, 'v) lru_ops \<Rightarrow> string \<Rightarrow> 'v \<Rightarrow> ('l, 'v) dim_cache \<Rightarrow> ('l, 'v) dim_cache \<times> bool" where
  "dc_Add ops key val c =
     (case lru_Add ops key val (dc_lru c) of
        (l, None) \<Rightarrow> (c\<lparr>dc_lru := l\<rparr>, False)
      | (l, Some (k, v)) \<Rightarrow> (c\<lparr>dc_lru := l, dc_evictedItems := map_store k v (dc_evictedItems c)\<rparr>, True))"

definition dc_Get :: "('l, 'v) lru_ops \<Rightarrow> string \<Rightarrow> ('l, 'v) dim_cache \<Rightarrow> ('l, 'v) dim_cache \<times> 'v option" where
  "dc_Get ops key c =
     (case lru_Get ops key (dc_lru c) of
        (l, Some val) \<Rightarrow> (c\<lparr>dc_lru := l\<rparr>, Some val)
      | (l, None) \<Rightarrow>
          (let c1 = c\<lparr>dc_lru := l\<rparr> in
           case map_load (dc_evictedItems c1) key of
             Some val \<Rightarrow>
               (fst (dc_Add ops key val (c1\<lparr>dc_evictedItems := map_delete key (dc_evictedItems c1)\<rparr>)), Some val)
           | None \<Rightarrow> (c1, None)))"

definition dc_Contains :: "('l, 'v) lru_ops \<Rightarrow> string \<Rightarrow> ('l, 'v) dim_cache \<Rightarrow> bool" where
  "dc_Contains ops key c = lru_Contains ops key (dc_lru c)"

definition dc_Len :: "('l, 'v) lru_ops \<Rightarrow> ('l, 'v) dim_cache \<Rightarrow> int" where
  "dc_Len ops c = lru_Len ops (dc_lru c)"

text \<open>What can be retrieved: the library's content, else the evicted items.\<close>

definition dc_look :: "('l \<Rightarrow> string \<Rightarrow> 'v option) \<Rightarrow> ('l, 'v) dim_cache \<Rightarrow> string \<Rightarrow> 'v option" where
  "dc_look look c k = (case look (dc_lru c) k of Some v \<Rightarrow> Some v | None \<Rightarrow> map_load (dc_evictedItems c) k)"

lemma lru_law_Get:
  "lru_laws ops look \<Longrightarrow> lru_Get ops k l = (l', r) \<Longrightarrow> r = look l k \<and> look l' = look l"
  unfolding lru_laws_def by (elim conjE allE [of _ k] allE [of _ l]) simp

lemma lru_law_Add:
  "lru_laws ops look \<Longrightarrow> lru_Add ops k v l = (l', e) \<Longrightarrow>
   case e of None \<Rightarrow> look l' = (look l)(k \<mapsto> v)
   | Some (k', v') \<Rightarrow> k' \<noteq> k \<and> look l k' = Some v' \<and> look l' = ((look l)(k \<mapsto> v))(k' := None)"
  unfolding lru_laws_def by (elim conjE) (drule spec [of _ k], drule spec [of _ v], drule spec [of _ l], auto split: option.splits)

lemma dc_Add_look:
  assumes "lru_laws ops look"
  shows "dc_look look (fst (dc_Add ops k v c)) = (dc_look look c)(k \<mapsto> v)"
proof -
  obtain l e where a: "lru_Add ops k v (dc_lru c) = (l, e)" by (cases "lru_Add ops k v (dc_lru c)")
  note law = lru_law_Add [OF assms a]
  show ?thesis
  proof (cases e)
    case None
    with law a show ?thesis by (auto simp: dc_Add_def dc_look_def fun_eq_iff split: option.split)
  next
    case (Some p)
    obtain k' v' where p: "p = (k', v')" by (cases p)
    with law Some have "k' \<noteq> k" "look (dc_lru c) k' = Some v'" "look l = ((look (dc_lru c))(k \<mapsto> v))(k' := None)"
      by auto
    with a Some p show ?thesis by (auto simp: dc_Add_def dc_look_def fun_eq_iff split: option.split)
  qed
qed

lemma dc_Get_look:
  assumes "lru_laws ops look"
  shows "snd (dc_Get ops k c) = dc_look look c k" "dc_look look (fst (dc_Get ops k c)) = dc_look look c"
proof -
  obtain l r where g: "lru_Get ops k (dc_lru c) = (l, r)" by (cases "lru_Get ops k (dc_lru c)")
  then have l: "r = look (dc_lru c) k" "look l = look (dc_lru c)"
    using lru_law_Get [OF assms] by blast+
  show "snd (dc_Get ops k c) = dc_look look c k"
    using g l by (auto simp: dc_Get_def dc_look_def Let_def split: option.split)
  show "dc_look look (fst (dc_Get ops k c)) = dc_look look c"
  proof (cases "r = None \<and> map_load (dc_evictedItems c) k \<noteq> None")
    case False
    with g l show ?thesis by (auto simp: dc_Get_def dc_look_def Let_def fun_eq_iff split: option.split)
  next
    case True
    then obtain v where v: "map_load (dc_evictedItems c) k = Some v" by blast
    let ?c = "c\<lparr>dc_lru := l, dc_evictedItems := map_delete k (dc_evictedItems c)\<rparr>"
    have "dc_look look (fst (dc_Get ops k c)) = (dc_look look ?c)(k \<mapsto> v)"
      using True v g dc_Add_look [OF assms, of k v ?c] by (simp add: dc_Get_def Let_def)
    also have "\<dots> = dc_look look c"
      using True v l by (auto simp: dc_look_def fun_eq_iff split: option.split)
    finally show ?thesis .
  qed
qed

lemma dc_Remove_look: "dc_look look (RemoveEvictedItems c) k = look (dc_lru c) k"
  by (simp add: dc_look_def RemoveEvictedItems_def split: option.split)

lemma dc_Contains_look:
  "lru_laws ops look \<Longrightarrow> dc_Contains ops k c \<longleftrightarrow> look (dc_lru c) k \<noteq> None"
  by (simp add: dc_Contains_def lru_laws_def)

subsection \<open>The ring of trace identifiers\<close>

type_synonym batch = "trace_id list"

definition AddToBatch :: "trace_id \<Rightarrow> batch \<Rightarrow> batch" where
  "AddToBatch data b = b @ [data]"

definition PickBatch :: "batch \<Rightarrow> batch \<times> batch" where
  "PickBatch b = (b, [])"

record id_buckets =
  ib_buckets :: "batch list"
  ib_writeIndex :: int

definition NewBuckets :: "int \<Rightarrow> id_buckets" where
  "NewBuckets sz = \<lparr>ib_buckets = replicate (nat (sz + 1)) [], ib_writeIndex = sz\<rparr>"

definition CopyAndGetBatch :: "batch \<Rightarrow> id_buckets \<Rightarrow> (id_buckets \<times> batch) option" where
  "CopyAndGetBatch b ib =
     (if 0 \<le> ib_writeIndex ib \<and> ib_writeIndex ib < int (length (ib_buckets ib)) then
        (let bs = (ib_buckets ib)[nat (ib_writeIndex ib) := b];
             w = (if ib_writeIndex ib + 1 \<ge> int (length bs) then 0 else ib_writeIndex ib + 1)
         in Some (ib\<lparr>ib_buckets := bs[nat w := []], ib_writeIndex := w\<rparr>, bs ! nat w))
      else None)"

text \<open>The ring is a queue of fixed length: the buckets in the order in which they will come out.\<close>

definition ib_inv :: "id_buckets \<Rightarrow> bool" where
  "ib_inv ib \<longleftrightarrow> 0 \<le> ib_writeIndex ib \<and> ib_writeIndex ib < int (length (ib_buckets ib))"

definition ib_queue :: "id_buckets \<Rightarrow> batch list" where
  "ib_queue ib =
     map (\<lambda>j. ib_buckets ib ! ((nat (ib_writeIndex ib) + 1 + j) mod length (ib_buckets ib)))
       [0..<length (ib_buckets ib) - 1]"

lemma mod_wrap: "w < n \<Longrightarrow> a < n \<Longrightarrow> (w + a) mod n = (if w + a < n then w + a else w + a - n)" for w a n :: nat
  by (simp add: mod_if)

lemma ring_wrap:
  fixes w n :: nat
  assumes "w < n"
  shows "(if int w + 1 \<ge> int n then 0 else int w + 1) = int ((w + 1) mod n)"
  using assms by (cases "w + 1 = n") (auto simp: mod_if)

lemma CopyAndGetBatch_eq:
  assumes "ib_inv ib" and "n = length (ib_buckets ib)" "w = nat (ib_writeIndex ib)" "w' = (w + 1) mod n"
  shows "CopyAndGetBatch b ib = Some (ib\<lparr>ib_buckets := (ib_buckets ib)[w := b, w' := []], ib_writeIndex := int w'\<rparr>,
           (ib_buckets ib)[w := b] ! w')"
proof -
  have w: "w < n" "ib_writeIndex ib = int w" using assms by (auto simp: ib_inv_def)
  have "CopyAndGetBatch b ib =
    Some (ib\<lparr>ib_buckets := (ib_buckets ib)[w := b, nat (int w') := []], ib_writeIndex := int w'\<rparr>, (ib_buckets ib)[w := b] ! nat (int w'))"
    unfolding CopyAndGetBatch_def Let_def w(2) length_list_update assms(2) [symmetric] ring_wrap [OF w(1)] assms(4)
    using w(1) by simp
  then show ?thesis by (simp only: nat_int)
qed

lemma ring_step:
  assumes inv: "ib_inv ib"
  shows "\<exists>ib' out. CopyAndGetBatch b ib = Some (ib', out) \<and> ib_inv ib' \<and> out # ib_queue ib' = ib_queue ib @ [b]"
proof -
  define n where "n = length (ib_buckets ib)"
  define w where "w = nat (ib_writeIndex ib)"
  define w' where "w' = (w + 1) mod n"
  let ?ib = "ib\<lparr>ib_buckets := (ib_buckets ib)[w := b, w' := []], ib_writeIndex := int w'\<rparr>"
  let ?out = "(ib_buckets ib)[w := b] ! w'"
  have w: "w < n" using inv by (auto simp: ib_inv_def w_def n_def)
  then have w': "w' < n" unfolding w'_def by (intro mod_less_divisor) simp
  have eq: "CopyAndGetBatch b ib = Some (?ib, ?out)"
    by (rule CopyAndGetBatch_eq [OF inv n_def w_def w'_def])
  have q: "ib_queue ib = map (\<lambda>j. ib_buckets ib ! ((w + 1 + j) mod n)) [0..<n - 1]"
    by (simp add: ib_queue_def n_def w_def)
  have q': "ib_queue ?ib = map (\<lambda>j. (ib_buckets ib)[w := b, w' := []] ! ((w' + 1 + j) mod n)) [0..<n - 1]"
    by (simp add: ib_queue_def n_def)
  have "?out # ib_queue ?ib = ib_queue ib @ [b]"
  proof (rule nth_equalityI)
    show "length (?out # ib_queue ?ib) = length (ib_queue ib @ [b])" by (simp add: q q')
    fix i
    assume "i < length (?out # ib_queue ?ib)"
    then have i: "i < n" using w by (simp add: q')
    have cur: "(ib_queue ib @ [b]) ! i = (if i = n - 1 then b else ib_buckets ib ! ((w + 1 + i) mod n))"
    proof (cases "i = n - 1")
      case False
      then have "i < n - 1" using i by simp
      then show ?thesis using False by (simp add: q nth_append)
    qed (simp add: q nth_append)
    show "(?out # ib_queue ?ib) ! i = (ib_queue ib @ [b]) ! i"
    proof (cases i)
      case 0
      have lhs: "(?out # ib_queue ?ib) ! i = (if w' = w then b else ib_buckets ib ! w')"
        using 0 w w' by (simp add: nth_list_update n_def)
      have "w' = (w + 1 + i) mod n" using 0 by (simp add: w'_def)
      moreover have "w' = w \<longleftrightarrow> n = 1" using w by (auto simp: w'_def mod_if)
      ultimately show ?thesis unfolding lhs cur using 0 i by auto
    next
      case (Suc j)
      have idx: "(w' + 1 + j) mod n = (w + 1 + i) mod n"
        using mod_add_left_eq [of "w + 1" n "Suc j"] Suc by (simp add: w'_def ac_simps)
      let ?k = "(w + 1 + i) mod n"
      have k: "?k < n" using w by (intro mod_less_divisor) simp
      have "?k = (if w + 1 + i < n then w + 1 + i else if i = n - 1 then w else w + 1 + i - n)"
        using w i by (auto simp: mod_if)
      then have kw: "?k = w \<longleftrightarrow> i = n - 1" using w i by (auto split: if_splits)
      have "w' = (if w + 1 = n then 0 else w + 1)" using w by (simp add: w'_def mod_if)
      then have kw': "?k \<noteq> w'" using \<open>?k = _\<close> Suc w i by (auto split: if_splits)
      have "(?out # ib_queue ?ib) ! i = (ib_buckets ib)[w := b, w' := []] ! ?k"
        using Suc i idx nth_upt [of 0 j "n - 1"] by (simp add: q')
      also have "\<dots> = (if i = n - 1 then b else ib_buckets ib ! ?k)"
        using kw kw' k w by (cases "?k = w") (simp_all add: nth_list_update n_def [symmetric] eq_commute [of w])
      finally show ?thesis unfolding cur .
    qed
  qed
  moreover have "ib_inv ?ib" using w' by (simp add: ib_inv_def n_def)
  ultimately show ?thesis using eq by blast
qed

fun ring_run :: "batch list \<Rightarrow> id_buckets \<Rightarrow> (id_buckets \<times> batch list) option" where
  "ring_run [] ib = Some (ib, [])"
| "ring_run (b # bs) ib =
     do { (ib1, out) \<leftarrow> CopyAndGetBatch b ib; (ib2, outs) \<leftarrow> ring_run bs ib1; Some (ib2, out # outs) }"

lemma ring_run_queue:
  "ib_inv ib \<Longrightarrow> \<exists>ib' outs. ring_run bs ib = Some (ib', outs) \<and> ib_inv ib' \<and> outs @ ib_queue ib' = ib_queue ib @ bs"
proof (induction bs arbitrary: ib)
  case Nil
  then show ?case by simp
next
  case (Cons b bs)
  obtain ib1 out where 1: "CopyAndGetBatch b ib = Some (ib1, out)" "ib_inv ib1" "out # ib_queue ib1 = ib_queue ib @ [b]"
    using ring_step [OF Cons.prems] by blast
  obtain ib2 outs where 2: "ring_run bs ib1 = Some (ib2, outs)" "ib_inv ib2" "outs @ ib_queue ib2 = ib_queue ib1 @ bs"
    using Cons.IH [OF 1(2)] by blast
  have "(out # outs) @ ib_queue ib2 = ib_queue ib @ b # bs"
    using 1(3) 2(3) by (metis append.assoc append_Cons append_Nil)
  with 1 2 show ?case by auto
qed

lemma NewBuckets_queue:
  assumes "0 \<le> sz"
  shows "ib_inv (NewBuckets sz) \<and> ib_queue (NewBuckets sz) = replicate (nat sz) []"
proof -
  define n where "n = nat sz"
  then have n: "nat (sz + 1) = Suc n" "nat sz = n" "sz = int n" using assms by simp_all
  have m: "nat (int n + 1) = Suc n" by simp
  have "ib_queue (NewBuckets sz) = map (\<lambda>j. []) [0..<n]"
    unfolding ib_queue_def NewBuckets_def n(3) m
    by (intro map_cong refl) (simp_all add: nth_replicate del: replicate_Suc)
  then show ?thesis by (simp add: map_replicate_const n NewBuckets_def ib_inv_def)
qed

end
