(* ===== verification/KeyParser.thy ===== *)
theory KeyParser
  imports RedCache SqlPrune
begin

section \<open>Metric keys of database, HTTP, RPC and message calls\<close>

text \<open>
  \<open>redmetricsconnector/internal/parser/*.go\<close>. The parsers fill the shared \<open>ReusedKeyValue\<close> and return the key
  built from it; an empty key says that the span is not of the parser's kind. Reading an attribute as text
  (\<open>AsString\<close>) and the name of a span kind are functions of \<open>pdata\<close>; they are fields of \<open>red_env\<close>, with the
  node name and address of the process environment and the SQL library.
\<close>

record red_env =
  re_api :: pdata_api
  re_KindString :: "span_kind \<Rightarrow> string"
  re_sql :: sql_lib
  NodeName :: string
  NodeIp :: string

abbreviation Unknown :: string where "Unknown \<equiv> ''unknown''"

text \<open>\<open>getNodeName\<close> and \<open>getNodeIp\<close>: the environment variable, else the host name, else \<open>Unknown\<close>.\<close>

definition getNodeName :: "(string \<Rightarrow> string option) \<Rightarrow> string option \<Rightarrow> string" where
  "getNodeName lookupEnv hostname =
     (case lookupEnv ''MY_NODE_NAME'' of
        Some v \<Rightarrow> v
      | None \<Rightarrow> (case hostname of Some h \<Rightarrow> h | None \<Rightarrow> ''Unknown''))"

definition getNodeIp :: "(string \<Rightarrow> string option) \<Rightarrow> string" where
  "getNodeIp lookupEnv = (case lookupEnv ''MY_NODE_IP'' of Some v \<Rightarrow> v | None \<Rightarrow> ''Unknown'')"

subsection \<open>Keys\<close>

text \<open>The identity of the caller that every parser receives.\<close>

record caller =
  ca_pid :: string
  ca_containerId :: string
  ca_serviceName :: string
  ca_entryUrl :: string

definition BuildServerKey ::
  "red_env \<Rightarrow> reused_key_value \<Rightarrow> string \<Rightarrow> string \<Rightarrow> string \<Rightarrow> string \<Rightarrow> bool \<Rightarrow> bool \<Rightarrow> reused_key_value \<times> string" where
  "BuildServerKey env keyValue pid containerId serviceName name topSpan isError =
     (let kv = rk_fill [(''svc_name'', serviceName), (''content_key'', name), (''node_name'', NodeName env),
                        (''node_ip'', NodeIp env), (''pid'', pid), (''container_id'', containerId),
                        (''top_span'', format_bool topSpan), (''is_error'', format_bool isError)] keyValue
      in (kv, rk_GetValue kv))"

definition BuildExternalKey ::
  "red_env \<Rightarrow> reused_key_value \<Rightarrow> caller \<Rightarrow> string \<Rightarrow> string \<Rightarrow> string \<Rightarrow> bool \<Rightarrow> reused_key_value \<times> string" where
  "BuildExternalKey env keyValue ca name peer system isError =
     (let kv = rk_fill [(''svc_name'', ca_serviceName ca), (''content_key'', ca_entryUrl ca), (''node_name'', NodeName env),
                        (''node_ip'', NodeIp env), (''pid'', ca_pid ca), (''container_id'', ca_containerId ca),
                        (''name'', name), (''address'', peer), (''system'', system), (''is_error'', format_bool isError)] keyValue
      in (kv, rk_GetValue kv))"

definition buildDbKey ::
  "red_env \<Rightarrow> reused_key_value \<Rightarrow> caller \<Rightarrow> string \<Rightarrow> string \<Rightarrow> string \<Rightarrow> string \<Rightarrow> bool \<Rightarrow> reused_key_value \<times> string" where
  "buildDbKey env keyValue ca dbSystem dbName name dbUrl isError =
     (let kv = rk_fill [(''svc_name'', ca_serviceName ca), (''content_key'', ca_entryUrl ca), (''node_name'', NodeName env),
                        (''node_ip'', NodeIp env), (''pid'', ca_pid ca), (''container_id'', ca_containerId ca),
                        (''name'', name), (''db_system'', dbSystem), (''db_name'', dbName), (''db_url'', dbUrl),
                        (''is_error'', format_bool isError)] keyValue
      in (kv, rk_GetValue kv))"

definition buildMqKey ::
  "red_env \<Rightarrow> reused_key_value \<Rightarrow> caller \<Rightarrow> string \<Rightarrow> string \<Rightarrow> string \<Rightarrow> bool \<Rightarrow> string \<Rightarrow> reused_key_value \<times> string" where
  "buildMqKey env keyValue ca name peer mqSystem isError role =
     (let kv = rk_fill [(''svc_name'', ca_serviceName ca), (''content_key'', ca_entryUrl ca), (''node_name'', NodeName env),
                        (''node_ip'', NodeIp env), (''pid'', ca_pid ca), (''container_id'', ca_containerId ca),
                        (''name'', name), (''address'', peer), (''system'', mqSystem), (''role'', role),
                        (''is_error'', format_bool isError)] keyValue
      in (kv, rk_GetValue kv))"

subsection \<open>Attributes\<close>

definition getAttrValueWithDefault :: "red_env \<Rightarrow> attrs \<Rightarrow> string \<Rightarrow> string \<Rightarrow> string" where
  "getAttrValueWithDefault env attr key defaultValue =
     (case map_load attr key of Some v \<Rightarrow> Value_AsString (re_api env) v | None \<Rightarrow> defaultValue)"

text \<open>One alternative of \<open>GetClientPeer\<close>: address and, when present, port.\<close>

definition peer_at :: "red_env \<Rightarrow> attrs \<Rightarrow> string \<Rightarrow> string \<Rightarrow> string option" where
  "peer_at env attr addrKey portKey =
     (case map_load attr addrKey of
        None \<Rightarrow> None
      | Some addr \<Rightarrow>
          Some (case map_load attr portKey of
                  Some port \<Rightarrow> value_Str addr @ '':'' @ Value_AsString (re_api env) port
                | None \<Rightarrow> value_Str addr))"

definition GetClientPeer :: "red_env \<Rightarrow> attrs \<Rightarrow> string" where
  "GetClientPeer env attr =
     (case peer_at env attr ''net.sock.peer.addr'' ''net.sock.peer.port'' of Some p \<Rightarrow> p | None \<Rightarrow>
      (case peer_at env attr ''network.peer.address'' ''network.peer.port'' of Some p \<Rightarrow> p | None \<Rightarrow>
       (case peer_at env attr ''net.peer.name'' ''net.peer.port'' of Some p \<Rightarrow> p | None \<Rightarrow>
        (case peer_at env attr ''server.address'' ''server.port'' of Some p \<Rightarrow> p | None \<Rightarrow> []))))"

definition first_Str :: "attrs \<Rightarrow> string \<Rightarrow> string \<Rightarrow> string \<Rightarrow> string" where
  "first_Str attr key1 key2 dflt =
     (case map_load attr key1 of
        Some v \<Rightarrow> value_Str v
      | None \<Rightarrow> (case map_load attr key2 of Some v \<Rightarrow> value_Str v | None \<Rightarrow> dflt))"

definition getHttpMethod :: "attrs \<Rightarrow> string" where
  "getHttpMethod attr = first_Str attr ''http.method'' ''http.request.method'' []"

definition getHttpUrl :: "attrs \<Rightarrow> string" where
  "getHttpUrl attr = first_Str attr ''http.url'' ''url.full'' []"

definition getMessageDest :: "attrs \<Rightarrow> string \<Rightarrow> string" where
  "getMessageDest attr defaultValue = first_Str attr ''messaging.destination'' ''messaging.destination.name'' defaultValue"

definition span_error :: "span \<Rightarrow> bool" where
  "span_error sp \<longleftrightarrow> sp_StatusCode sp = StatusCodeError"

subsection \<open>The parsers\<close>

type_synonym parser = "red_env \<Rightarrow> caller \<Rightarrow> span \<Rightarrow> reused_key_value \<Rightarrow> (reused_key_value \<times> string) option"

text \<open>The name of a database call: \<open>operation db.table\<close>, else what the statement says, else the span name.\<close>

definition db_call_name :: "red_env \<Rightarrow> span \<Rightarrow> string \<Rightarrow> string \<Rightarrow> string option" where
  "db_call_name env sp dbSystem dbName =
     (let attr = sp_Attributes sp;
          qualified = (\<lambda>operation table. if dbName \<noteq> [] then operation @ '' '' @ dbName @ ''.'' @ table else operation @ '' '' @ table) in
      if dbSystem = ''redis'' \<or> dbSystem = ''memcached'' \<or> dbSystem = ''aerospike'' then Some (sp_Name sp)
      else do {
        name \<leftarrow>
          (case (map_load attr ''db.operation'', map_load attr ''db.sql.table'') of
             (Some dbOperate, Some dbTable) \<Rightarrow> Some (qualified (value_Str dbOperate) (value_Str dbTable))
           | _ \<Rightarrow>
               (case map_load attr ''db.statement'' of
                  None \<Rightarrow> Some []
                | Some dbStatement \<Rightarrow>
                    do {
                      (operationName, tableName) \<leftarrow> SQLParseOperationAndTableNEW (re_sql env) (value_Str dbStatement);
                      Some (if operationName \<noteq> [] then qualified operationName tableName else [])
                    }));
        Some (if name = [] then sp_Name sp else name)
      })"

definition DbParser_Parse :: parser where
  "DbParser_Parse env ca sp keyValue =
     (if sp_Kind sp \<noteq> SpanKindClient then Some (keyValue, [])
      else
        (case map_load (sp_Attributes sp) ''db.system'' of
           None \<Rightarrow> Some (keyValue, [])
         | Some dbSystemAttr \<Rightarrow>
             (let dbSystem = value_Str dbSystemAttr;
                  dbName = getAttrValueWithDefault env (sp_Attributes sp) ''db.name'' []
              in do {
                   name \<leftarrow> db_call_name env sp dbSystem dbName;
                   Some (buildDbKey env keyValue ca dbSystem dbName name (GetClientPeer env (sp_Attributes sp)) (span_error sp))
                 })))"

definition getTopUrl :: "string \<Rightarrow> string" where
  "getTopUrl url =
     (if url = [] then Unknown
      else
        (let urls = split_on (CHR ''/'') url in
         if length urls = 1 then url
         else if length urls \<ge> 3 \<and> has_suffix (urls ! 0) '':'' \<and> urls ! 1 = [] then
           (if length urls = 3 then ''/'' else ''/'' @ urls ! 3)
         else ''/'' @ urls ! 1))"

definition http_parse :: "string \<Rightarrow> string \<Rightarrow> string \<Rightarrow> string" where
  "http_parse urlParser httpMethod url =
     (if urlParser = ''topUrl'' then httpMethod @ '' '' @ getTopUrl url else httpMethod)"

definition HttpParser_Parse :: "string \<Rightarrow> parser" where
  "HttpParser_Parse urlParser env ca sp keyValue =
     (if sp_Kind sp \<noteq> SpanKindClient then Some (keyValue, [])
      else
        (let httpMethod = getHttpMethod (sp_Attributes sp) in
         if httpMethod = [] then Some (keyValue, [])
         else Some (BuildExternalKey env keyValue ca (http_parse urlParser httpMethod (getHttpUrl (sp_Attributes sp)))
                      (GetClientPeer env (sp_Attributes sp)) ''http'' (span_error sp))))"

definition RpcParser_Parse :: parser where
  "RpcParser_Parse env ca sp keyValue =
     (if sp_Kind sp \<noteq> SpanKindClient then Some (keyValue, [])
      else
        (case map_load (sp_Attributes sp) ''rpc.system'' of
           None \<Rightarrow> Some (keyValue, [])
         | Some rpcSystemAttr \<Rightarrow>
             Some (BuildExternalKey env keyValue ca (sp_Name sp) (GetClientPeer env (sp_Attributes sp))
                     (value_Str rpcSystemAttr) (span_error sp))))"

definition lower_char :: "char \<Rightarrow> char" where
  "lower_char c = (let n = of_char c :: nat in if 65 \<le> n \<and> n \<le> 90 then char_of (n + 32) else c)"

definition ToLower :: "string \<Rightarrow> string" where
  "ToLower s = map lower_char s"

definition MqParser_Parse :: parser where
  "MqParser_Parse env ca sp keyValue =
     (if sp_Kind sp \<noteq> SpanKindClient \<and> sp_Kind sp \<noteq> SpanKindProducer \<and> sp_Kind sp \<noteq> SpanKindConsumer then Some (keyValue, [])
      else
        (let build = (\<lambda>mqSystem.
               Some (buildMqKey env keyValue ca
                       (if sp_Kind sp = SpanKindClient then sp_Name sp else getMessageDest (sp_Attributes sp) Unknown)
                       (GetClientPeer env (sp_Attributes sp)) mqSystem (span_error sp) (ToLower (re_KindString env (sp_Kind sp)))))
         in case map_load (sp_Attributes sp) ''messaging.system'' of
              Some mqSystemAttr \<Rightarrow> build (value_Str mqSystemAttr)
            | None \<Rightarrow> if sp_Kind sp = SpanKindClient then Some (keyValue, []) else build Unknown))"

subsection \<open>Keys and the dimensions they stand for\<close>

lemma join_vals_seps:
  "xs \<noteq> [] \<Longrightarrow> \<forall>x \<in> set xs. metricKeySeparator \<notin> set x \<Longrightarrow> length (filter (\<lambda>c. c = metricKeySeparator) (join_vals xs)) = length xs - 1"
proof (induction xs rule: join_vals.induct)
  case (3 v w vs)
  have "filter (\<lambda>c. c = metricKeySeparator) v = []" using "3.prems" by (auto simp: filter_empty_conv)
  with 3 show ?case by simp
qed (auto simp: filter_empty_conv)

lemma join_vals_inj_nonempty:
  assumes "xs \<noteq> []" "ys \<noteq> []" "\<forall>x \<in> set xs. metricKeySeparator \<notin> set x" "\<forall>y \<in> set ys. metricKeySeparator \<notin> set y"
    and "join_vals xs = join_vals ys"
  shows "xs = ys"
proof (rule join_vals_inj [OF _ assms(3,4,5)])
  have "length xs - 1 = length ys - 1"
    using join_vals_seps [OF assms(1,3)] join_vals_seps [OF assms(2,4)] assms(5) by simp
  moreover have "0 < length xs" "0 < length ys" using assms(1,2) by simp_all
  ultimately show "length xs = length ys" by linarith
qed

lemma join_vals_nonempty: "length xs \<ge> 2 \<Longrightarrow> join_vals xs \<noteq> []"
  by (cases xs rule: join_vals.cases) auto

text \<open>What the connector needs of the shared key buffer: room for the longest key.\<close>

definition kv_ok :: "reused_key_value \<Rightarrow> bool" where
  "kv_ok kv \<longleftrightarrow> rk_inv kv \<and> 11 \<le> rk_maxAttribute kv"

lemma kv_ok_fill:
  assumes "kv_ok kv" "length ps \<le> 11"
  shows "kv_ok (rk_fill ps kv)" "rk_items (rk_fill ps kv) = ps" "rk_GetValue (rk_fill ps kv) = join_vals (map snd ps)"
proof -
  have "rk_inv kv" "int (length ps) \<le> rk_maxAttribute kv" using assms by (auto simp: kv_ok_def)
  note f = rk_fill_items [OF this]
  show "kv_ok (rk_fill ps kv)" "rk_items (rk_fill ps kv) = ps" using f assms(1) by (simp_all add: kv_ok_def)
  show "rk_GetValue (rk_fill ps kv) = join_vals (map snd ps)" using rk_GetValue_items [OF f(1)] f(2) by simp
qed

lemma NewReusedKeyValue_ok: "11 \<le> n \<Longrightarrow> kv_ok (NewReusedKeyValue n)"
  by (simp add: kv_ok_def rk_inv_def NewReusedKeyValue_def)

text \<open>The contract of the Go interface \<open>Parser\<close> towards the connector: parsing a span does not fail, keeps
  the buffer usable, and a key that is not empty is the one the buffer spells, so that the dimensions stored
  under a key are those of the span that produced it. \<open>items\<close> is what the implementation puts into the buffer.\<close>

locale metric_parser =
  fixes parse :: parser
    and items :: "red_env \<Rightarrow> caller \<Rightarrow> span \<Rightarrow> (string \<times> string) list"
  assumes parse_eq: "kv_ok kv \<Longrightarrow>
      parse env ca sp kv =
        Some (if items env ca sp = [] then (kv, []) else (rk_fill (items env ca sp) kv, join_vals (map snd (items env ca sp))))"
    and items_len: "items env ca sp = [] \<or> 10 \<le> length (items env ca sp) \<and> length (items env ca sp) \<le> 11"
begin

lemma parse_total:
  assumes "kv_ok kv"
  shows "\<exists>kv' key. parse env ca sp kv = Some (kv', key) \<and> kv_ok kv' \<and> (key \<noteq> [] \<longrightarrow> key = rk_GetValue kv') \<and>
           (key = [] \<longleftrightarrow> items env ca sp = [])"
proof (cases "items env ca sp = []")
  case True
  with parse_eq [OF assms] assms show ?thesis by simp
next
  case False
  with items_len have "10 \<le> length (items env ca sp)" "length (items env ca sp) \<le> 11" by blast+
  with False parse_eq [OF assms] kv_ok_fill [OF assms] join_vals_nonempty [of "map snd (items env ca sp)"]
  show ?thesis by simp
qed

lemma parse_dimensions:
  assumes "kv_ok kv" "parse env ca sp kv = Some (kv', key)" "key \<noteq> []"
  shows "rk_items kv' = items env ca sp" "key = join_vals (map snd (items env ca sp))"
  using assms parse_eq [OF assms(1), of env ca sp] items_len [of env ca sp] kv_ok_fill(2) [OF assms(1)] by (auto split: if_splits)

lemma keys_identify:
  assumes "kv_ok kv1" "kv_ok kv2" "parse env ca1 sp1 kv1 = Some (kv1', key)" "parse env ca2 sp2 kv2 = Some (kv2', key)" "key \<noteq> []"
    and "\<forall>i \<in> set (items env ca1 sp1). metricKeySeparator \<notin> set (snd i)" "\<forall>i \<in> set (items env ca2 sp2). metricKeySeparator \<notin> set (snd i)"
  shows "map snd (items env ca1 sp1) = map snd (items env ca2 sp2)"
proof (rule join_vals_inj_nonempty)
  note p = parse_dimensions [OF assms(1,3,5)] parse_dimensions [OF assms(2,4,5)]
  show "join_vals (map snd (items env ca1 sp1)) = join_vals (map snd (items env ca2 sp2))" using p(2,4) by simp
  show "map snd (items env ca1 sp1) \<noteq> []" "map snd (items env ca2 sp2) \<noteq> []" using p(2,4) assms(5) by auto
qed (use assms(6,7) in auto)

end

subsection \<open>The parsers meet the contract\<close>

definition caller_items :: "red_env \<Rightarrow> caller \<Rightarrow> (string \<times> string) list" where
  "caller_items env ca =
     [(''svc_name'', ca_serviceName ca), (''content_key'', ca_entryUrl ca), (''node_name'', NodeName env),
      (''node_ip'', NodeIp env), (''pid'', ca_pid ca), (''container_id'', ca_containerId ca)]"

definition db_items :: "red_env \<Rightarrow> caller \<Rightarrow> span \<Rightarrow> (string \<times> string) list" where
  "db_items env ca sp =
     (case (sp_Kind sp, map_load (sp_Attributes sp) ''db.system'') of
        (SpanKindClient, Some v) \<Rightarrow>
          (let dbName = getAttrValueWithDefault env (sp_Attributes sp) ''db.name'' [] in
           caller_items env ca @ [(''name'', the (db_call_name env sp (value_Str v) dbName)), (''db_system'', value_Str v),
             (''db_name'', dbName), (''db_url'', GetClientPeer env (sp_Attributes sp)), (''is_error'', format_bool (span_error sp))])
      | _ \<Rightarrow> [])"

definition external_items :: "red_env \<Rightarrow> caller \<Rightarrow> span \<Rightarrow> string \<Rightarrow> string \<Rightarrow> (string \<times> string) list" where
  "external_items env ca sp name system =
     caller_items env ca @ [(''name'', name), (''address'', GetClientPeer env (sp_Attributes sp)), (''system'', system),
       (''is_error'', format_bool (span_error sp))]"

definition http_items :: "string \<Rightarrow> red_env \<Rightarrow> caller \<Rightarrow> span \<Rightarrow> (string \<times> string) list" where
  "http_items urlParser env ca sp =
     (if sp_Kind sp = SpanKindClient \<and> getHttpMethod (sp_Attributes sp) \<noteq> []
      then external_items env ca sp (http_parse urlParser (getHttpMethod (sp_Attributes sp)) (getHttpUrl (sp_Attributes sp))) ''http''
      else [])"

definition rpc_items :: "red_env \<Rightarrow> caller \<Rightarrow> span \<Rightarrow> (string \<times> string) list" where
  "rpc_items env ca sp =
     (case (sp_Kind sp, map_load (sp_Attributes sp) ''rpc.system'') of
        (SpanKindClient, Some v) \<Rightarrow> external_items env ca sp (sp_Name sp) (value_Str v)
      | _ \<Rightarrow> [])"

definition mq_items :: "red_env \<Rightarrow> caller \<Rightarrow> span \<Rightarrow> (string \<times> string) list" where
  "mq_items env ca sp =
     (let sys = map_load (sp_Attributes sp) ''messaging.system'' in
      if sp_Kind sp = SpanKindProducer \<or> sp_Kind sp = SpanKindConsumer \<or> sp_Kind sp = SpanKindClient \<and> sys \<noteq> None
      then caller_items env ca @
        [(''name'', if sp_Kind sp = SpanKindClient then sp_Name sp else getMessageDest (sp_Attributes sp) Unknown),
         (''address'', GetClientPeer env (sp_Attributes sp)), (''system'', case sys of Some v \<Rightarrow> value_Str v | None \<Rightarrow> Unknown),
         (''role'', ToLower (re_KindString env (sp_Kind sp))), (''is_error'', format_bool (span_error sp))]
      else [])"

lemma db_call_name_total: "\<exists>name. db_call_name env sp dbSystem dbName = Some name"
proof -
  define f where "f q = the (SQLParseOperationAndTableNEW (re_sql env) q)" for q
  have "SQLParseOperationAndTableNEW (re_sql env) q = Some (f q)" for q
    using sql_loop_total [OF sql_init_inv, of "sql_Tokens (re_sql env) q"]
    by (auto simp: f_def SQLParseOperationAndTableNEW_def SQLParseOperationAndTable_def Let_def split: option.split)
  then show ?thesis
    by (auto simp: db_call_name_def Let_def split_def split: option.split)
qed

lemmas key_builders = BuildExternalKey_def buildDbKey_def buildMqKey_def Let_def external_items_def caller_items_def

interpretation db_parser: metric_parser DbParser_Parse db_items
proof unfold_locales
  fix kv env ca sp
  assume kv: "kv_ok kv"
  show "DbParser_Parse env ca sp kv =
      Some (if db_items env ca sp = [] then (kv, []) else (rk_fill (db_items env ca sp) kv, join_vals (map snd (db_items env ca sp))))"
  proof (cases "sp_Kind sp = SpanKindClient \<and> map_load (sp_Attributes sp) ''db.system'' \<noteq> None")
    case True
    then obtain v where v: "sp_Kind sp = SpanKindClient" "map_load (sp_Attributes sp) ''db.system'' = Some v" by blast
    obtain name where "db_call_name env sp (value_Str v) (getAttrValueWithDefault env (sp_Attributes sp) ''db.name'' []) = Some name"
      using db_call_name_total by blast
    with v kv show ?thesis by (simp add: DbParser_Parse_def db_items_def key_builders kv_ok_fill(3))
  next
    case False
    then show ?thesis by (auto simp: DbParser_Parse_def db_items_def split: span_kind.split)
  qed
qed (auto simp: db_items_def caller_items_def Let_def split: option.split span_kind.split)

interpretation http_parser: metric_parser "HttpParser_Parse urlParser" "http_items urlParser" for urlParser
  by unfold_locales (auto simp: HttpParser_Parse_def http_items_def key_builders kv_ok_fill(3))

interpretation rpc_parser: metric_parser RpcParser_Parse rpc_items
  by unfold_locales (auto simp: RpcParser_Parse_def rpc_items_def key_builders kv_ok_fill(3) split: option.split span_kind.split)

interpretation mq_parser: metric_parser MqParser_Parse mq_items
  by unfold_locales (auto simp: MqParser_Parse_def mq_items_def key_builders kv_ok_fill(3) split: option.split)

subsection \<open>Properties\<close>

lemma format_bool_inj: "format_bool a = format_bool b \<longleftrightarrow> a = b"
  by (simp add: format_bool_def)

lemma format_bool_sep: "metricKeySeparator \<notin> set (format_bool b)"
  by (simp add: format_bool_def metricKeySeparator_def)

text \<open>Strings without the separator byte.\<close>

definition sep_free :: "string list \<Rightarrow> bool" where
  "sep_free xs \<longleftrightarrow> (\<forall>x \<in> set xs. metricKeySeparator \<notin> set x)"

text \<open>C25: metric keys identify calls. Two external calls (HTTP, RPC or unknown) or two database calls whose
  dimensions contain no NUL byte get the same key only when all their dimensions agree, so that no histogram mixes
  two different calls; and an external call never shares its key with a database call.\<close>

theorem metric_keys_identify:
  assumes "kv_ok kv" "kv_ok kv'"
    and "sep_free [NodeName env, NodeIp env]"
    and "sep_free [ca_pid ca, ca_containerId ca, ca_serviceName ca, ca_entryUrl ca]"
    and "sep_free [ca_pid ca', ca_containerId ca', ca_serviceName ca', ca_entryUrl ca']"
    and "sep_free [n, p, s, d]" "sep_free [n', p', s', d']"
  shows "(snd (BuildExternalKey env kv ca n p s e) = snd (BuildExternalKey env kv' ca' n' p' s' e') \<longleftrightarrow>
            ca = ca' \<and> n = n' \<and> p = p' \<and> s = s' \<and> e = e') \<and>
         (snd (buildDbKey env kv ca s d n p e) = snd (buildDbKey env kv' ca' s' d' n' p' e') \<longleftrightarrow>
            ca = ca' \<and> n = n' \<and> p = p' \<and> s = s' \<and> d = d' \<and> e = e') \<and>
         snd (BuildExternalKey env kv ca n p s e) \<noteq> snd (buildDbKey env kv' ca' s' d' n' p' e')"
proof -
  let ?x = "\<lambda>ca n p s e. [ca_serviceName ca, ca_entryUrl ca, NodeName env, NodeIp env, ca_pid ca, ca_containerId ca, n, p, s, format_bool e]"
  let ?d = "\<lambda>ca n p s d e. [ca_serviceName ca, ca_entryUrl ca, NodeName env, NodeIp env, ca_pid ca, ca_containerId ca, n, s, d, p, format_bool e]"
  have keys: "snd (BuildExternalKey env k c n p s e) = join_vals (?x c n p s e)"
    "snd (buildDbKey env k c s d n p e) = join_vals (?d c n p s d e)" if "kv_ok k" for k c n p s d e
    using that by (simp_all add: key_builders kv_ok_fill(3))
  have free: "\<forall>v \<in> set (?x ca n p s e). metricKeySeparator \<notin> set v" "\<forall>v \<in> set (?x ca' n' p' s' e'). metricKeySeparator \<notin> set v"
    "\<forall>v \<in> set (?d ca n p s d e). metricKeySeparator \<notin> set v" "\<forall>v \<in> set (?d ca' n' p' s' d' e'). metricKeySeparator \<notin> set v"
    using assms(3-7) by (simp_all add: sep_free_def format_bool_sep)
  have ca: "ca = ca' \<longleftrightarrow> ca_pid ca = ca_pid ca' \<and> ca_containerId ca = ca_containerId ca' \<and> ca_serviceName ca = ca_serviceName ca' \<and>
      ca_entryUrl ca = ca_entryUrl ca'" by (cases ca; cases ca') auto
  have 1: "snd (BuildExternalKey env kv ca n p s e) = snd (BuildExternalKey env kv' ca' n' p' s' e') \<longleftrightarrow>
      ca = ca' \<and> n = n' \<and> p = p' \<and> s = s' \<and> e = e'"
    unfolding keys(1) [OF assms(1)] keys(1) [OF assms(2)] ca
    using join_vals_inj_nonempty [OF _ _ free(1,2)] format_bool_inj by auto
  have 2: "snd (buildDbKey env kv ca s d n p e) = snd (buildDbKey env kv' ca' s' d' n' p' e') \<longleftrightarrow>
      ca = ca' \<and> n = n' \<and> p = p' \<and> s = s' \<and> d = d' \<and> e = e'"
    unfolding keys(2) [OF assms(1)] keys(2) [OF assms(2)] ca
    using join_vals_inj_nonempty [OF _ _ free(3,4)] format_bool_inj by auto
  have 3: "snd (BuildExternalKey env kv ca n p s e) \<noteq> snd (buildDbKey env kv' ca' s' d' n' p' e')"
    unfolding keys(1) [OF assms(1)] keys(2) [OF assms(2)] using join_vals_inj_nonempty [OF _ _ free(1,4)] by auto
  from 1 2 3 show ?thesis by blast
qed

definition demo_env :: red_env where
  "demo_env = \<lparr>re_api = \<lparr>TraceID_IsEmpty = (\<lambda>t. False), TraceID_String = (\<lambda>t. []), SpanID_IsEmpty = (\<lambda>s. \<forall>b \<in> set s. b = 0),
       SpanID_String = (\<lambda>s. []), Value_AsString = value_Str\<rparr>,
     re_KindString = (\<lambda>k. ''Client''), re_sql = demo_sql, NodeName = ''node1'', NodeIp = ''10.0.0.1''\<rparr>"

definition demo_caller :: caller where
  "demo_caller = \<lparr>ca_pid = ''4'', ca_containerId = [], ca_serviceName = ''svc'', ca_entryUrl = ''/pay''\<rparr>"

theorem metric_keys_identify_witness:
  "snd (BuildExternalKey demo_env (NewReusedKeyValue 100) demo_caller ''GET'' ''a:1'' ''http'' False) \<noteq>
   snd (BuildExternalKey demo_env (NewReusedKeyValue 100) demo_caller ''GET'' ''b:1'' ''http'' False)"
proof -
  have "kv_ok (NewReusedKeyValue 100)" by (rule NewReusedKeyValue_ok) simp
  moreover have "sep_free [NodeName demo_env, NodeIp demo_env]"
    "sep_free [ca_pid demo_caller, ca_containerId demo_caller, ca_serviceName demo_caller, ca_entryUrl demo_caller]"
    "sep_free [''GET'', ''a:1'', ''http'', []]" "sep_free [''GET'', ''b:1'', ''http'', []]"
    by (simp_all add: sep_free_def demo_env_def demo_caller_def metricKeySeparator_def)
  ultimately show ?thesis
    using metric_keys_identify [of "NewReusedKeyValue 100" "NewReusedKeyValue 100" demo_env demo_caller demo_caller
        "''GET''" "''a:1''" "''http''" "[]" "''GET''" "''b:1''" "''http''" "[]" False False]
    by simp
qed

text \<open>the parsers are total and their keys spell the dimensions. For every span, database, HTTP, RPC and message
  parser each return; a key is returned exactly for the spans of the parser's kind, and it is the one that the buffer
  left for the dimension cache spells.\<close>

theorem parsers_total:
  assumes "kv_ok kv" "P \<in> {(DbParser_Parse, db_items), (HttpParser_Parse u, http_items u), (RpcParser_Parse, rpc_items), (MqParser_Parse, mq_items)}"
  shows "\<exists>kv' key. fst P env ca sp kv = Some (kv', key) \<and> kv_ok kv' \<and> (key = [] \<longleftrightarrow> snd P env ca sp = []) \<and>
           (key \<noteq> [] \<longrightarrow> rk_items kv' = snd P env ca sp \<and> key = rk_GetValue kv')"
proof -
  have "\<exists>kv' key. parse env ca sp kv = Some (kv', key) \<and> kv_ok kv' \<and> (key = [] \<longleftrightarrow> its env ca sp = []) \<and>
           (key \<noteq> [] \<longrightarrow> rk_items kv' = its env ca sp \<and> key = rk_GetValue kv')"
    if "metric_parser parse its" for parse its
  proof -
    note total = metric_parser.parse_total [OF that assms(1), of env ca sp]
    then obtain kv' key where p: "parse env ca sp kv = Some (kv', key)" "kv_ok kv'" "key \<noteq> [] \<longrightarrow> key = rk_GetValue kv'"
      "key = [] \<longleftrightarrow> its env ca sp = []" by blast
    with metric_parser.parse_dimensions(1) [OF that assms(1) p(1)] show ?thesis by blast
  qed
  with assms(2) db_parser.metric_parser_axioms http_parser.metric_parser_axioms [of u] rpc_parser.metric_parser_axioms
    mq_parser.metric_parser_axioms show ?thesis by auto
qed

definition demo_db_span :: span where
  "demo_db_span = zero_span\<lparr>sp_Kind := SpanKindClient, sp_Name := ''q'',
     sp_Attributes := [(''db.system'', ValueStr ''mysql''), (''db.operation'', ValueStr ''SELECT''), (''db.sql.table'', ValueStr ''t''),
                       (''db.name'', ValueStr ''shop'')]\<rparr>"

theorem parsers_total_witness:
  "\<exists>kv' key. DbParser_Parse demo_env demo_caller demo_db_span (NewReusedKeyValue 100) = Some (kv', key) \<and> key \<noteq> [] \<and>
     (''name'', ''SELECT shop.t'') \<in> set (rk_items kv') \<and> key = rk_GetValue kv'"
proof -
  have "db_items demo_env demo_caller demo_db_span \<noteq> []" "(''name'', ''SELECT shop.t'') \<in> set (db_items demo_env demo_caller demo_db_span)"
    by (simp_all add: db_items_def demo_db_span_def db_call_name_def getAttrValueWithDefault_def caller_items_def demo_env_def Let_def)
  with parsers_total [of "NewReusedKeyValue 100" "(DbParser_Parse, db_items)" "''''" demo_env demo_caller demo_db_span]
    NewReusedKeyValue_ok [of 100] show ?thesis by auto
qed

text \<open>grouping of HTTP calls by the first path segment. A full URL \<open>scheme://host/segment...\<close> is reduced to
  \<open>/segment\<close>, one without a path to \<open>/\<close>, and a relative path to its first segment.\<close>

theorem http_top_url:
  assumes "CHR ''/'' \<notin> set scheme" "CHR ''/'' \<notin> set host" "CHR ''/'' \<notin> set seg" "rest = [] \<or> hd rest = CHR ''/''"
  shows "getTopUrl (scheme @ ''://'' @ host @ ''/'' @ seg @ rest) = ''/'' @ seg \<and>
         getTopUrl (scheme @ ''://'' @ host) = ''/'' \<and> getTopUrl (''/'' @ seg @ rest) = ''/'' @ seg"
proof -
  have colon: "CHR ''/'' \<notin> set (scheme @ '':'')" using assms(1) by simp
  have seg: "\<exists>us. split_on (CHR ''/'') (seg @ rest) = seg # us"
    using assms(3,4) split_on_no_sep [of "CHR ''/''" seg] split_on_append [of "CHR ''/''" seg "tl rest"] by (cases rest) auto
  then obtain us where us: "split_on (CHR ''/'') (seg @ rest) = seg # us" by blast
  have 1: "split_on (CHR ''/'') (scheme @ ''://'' @ host @ ''/'' @ seg @ rest) = (scheme @ '':'') # [] # host # seg # us"
    using split_on_append [OF colon, of "''/'' @ host @ ''/'' @ seg @ rest"] split_on_append [OF assms(2), of "seg @ rest"] us by simp
  have 2: "split_on (CHR ''/'') (scheme @ ''://'' @ host) = [scheme @ '':'', [], host]"
    using split_on_append [OF colon, of "''/'' @ host"] split_on_no_sep [OF assms(2)] by simp
  have 3: "split_on (CHR ''/'') (''/'' @ seg @ rest) = [] # seg # us" using us by simp
  have t1: "getTopUrl (scheme @ ''://'' @ host @ ''/'' @ seg @ rest) = ''/'' @ seg"
    unfolding getTopUrl_def Let_def 1 by (simp add: has_suffix_def)
  have t2: "getTopUrl (scheme @ ''://'' @ host) = ''/''"
    unfolding getTopUrl_def Let_def 2 by (simp add: has_suffix_def)
  have t3: "getTopUrl (''/'' @ seg @ rest) = ''/'' @ seg"
    unfolding getTopUrl_def Let_def 3 by (simp add: has_suffix_def)
  from t1 t2 t3 show ?thesis by blast
qed

theorem http_top_url_witness:
  "getTopUrl ''http://shop:80/order/7'' = ''/order''"
  using http_top_url [of "''http''" "''shop:80''" "''order''" "''/7''"] by simp

end
