(* ===== verification/Skywalking.thy ===== *)
theory Skywalking
  imports SkyIds SkyComponents SqlPrune KeyParser
begin

section \<open>The Skywalking receiver: segments to traces\<close>

text \<open>
  \<open>skywalkingreceiver/internal/trace\<close>: the conversion of a segment into OTLP traces (\<open>skywalkingproto_to_traces.go\<close>), the table of
  components (\<open>componment_mapping.go\<close>), the pairing of Undertow segments (\<open>undertow_trace.go\<close>) and the handlers of
  \<open>tracing_report_service.go\<close>.

  Segments are the messages of the agent protocol, as plain data: \<open>None\<close> inside a list of spans, references, tags, logs or pairs is a
  nil pointer, which a JSON body can contain, and \<open>None\<close> for the list of spans or tags is a nil slice. The getters of the protocol
  accept a nil message, its fields do not. Enumerations of the protocol are open, hence the last
  constructor. Of the libraries, \<open>uuid.Parse\<close>, the name of a reference type and the SQL functions are fields of
  \<open>sw_lib\<close>. \<open>hex.Decode\<close> and \<open>strconv.Atoi\<close> are of Go's standard library and are modelled. \<open>None\<close> is a run-time panic.
\<close>

unbundle bit_operations_syntax

subsection \<open>Messages\<close>

datatype sw_span_type = SpanType_Entry | SpanType_Exit | SpanType_Local | SpanType_other int

datatype sw_span_layer =
  SpanLayer_Unknown | SpanLayer_Database | SpanLayer_RPCFramework | SpanLayer_Http | SpanLayer_MQ | SpanLayer_Cache
| SpanLayer_FAAS | SpanLayer_other int

record sw_ref =
  rf_RefType :: int
  rf_TraceId :: string
  rf_ParentTraceSegmentId :: string
  rf_ParentSpanId :: int
  rf_ParentService :: string
  rf_ParentServiceInstance :: string
  rf_ParentEndpoint :: string
  rf_NetworkAddressUsedAtPeer :: string

record sw_log =
  lg_Time :: int
  lg_Data :: "(string \<times> string) option list"

record sw_span =
  sw_SpanId :: int
  sw_ParentSpanId :: int
  sw_StartTime :: int
  sw_EndTime :: int
  sw_Refs :: "sw_ref option list"
  sw_OperationName :: string
  sw_Peer :: string
  sw_SpanType :: sw_span_type
  sw_SpanLayer :: sw_span_layer
  sw_ComponentId :: int
  sw_IsError :: bool
  sw_Tags :: "(string \<times> string) option list option"
  sw_Logs :: "sw_log option list"

record sw_segment =
  sg_TraceId :: string
  sg_TraceSegmentId :: string
  sg_Spans :: "sw_span option list option"
  sg_Service :: string
  sg_ServiceInstance :: string

record sw_lib =
  sl_uuid_Parse :: "string \<Rightarrow> u8 list option"
  sl_RefType_String :: "int \<Rightarrow> string"
  sl_sql :: sql_lib

subsection \<open>Attributes\<close>

definition PutStr :: "string \<Rightarrow> string \<Rightarrow> attrs \<Rightarrow> attrs" where
  "PutStr k v m = map_store k (ValueStr v) m"

definition PutInt :: "string \<Rightarrow> int \<Rightarrow> attrs \<Rightarrow> attrs" where
  "PutInt k v m = map_store k (ValueInt v) m"

definition swKvPairsToInternalAttributes :: "(string \<times> string) option list \<Rightarrow> attrs \<Rightarrow> attrs option" where
  "swKvPairsToInternalAttributes pairs dest = fold_opt (\<lambda>pair m. do { (k, v) \<leftarrow> pair; Some (PutStr k v m) }) pairs dest"

definition otSpanResourcesMapping :: "string \<Rightarrow> string option" where
  "otSpanResourcesMapping key =
     (if key = ''url'' then Some ''http.url'' else if key = ''status_code'' then Some ''http.status_code'' else None)"

definition otSpanTagsMapping :: "string \<Rightarrow> string option" where
  "otSpanTagsMapping key =
     (if key = ''url'' then Some ''http.url'' else if key = ''db.type'' then Some ''db.system''
      else if key = ''db.instance'' then Some ''db.name'' else if key = ''db.statement'' then Some ''db.statement'' else None)"

definition swTagsToInternalResource :: "sw_span option \<Rightarrow> attrs \<Rightarrow> attrs option" where
  "swTagsToInternalResource sp dest =
     (case sp of
        None \<Rightarrow> Some dest
      | Some s \<Rightarrow>
          (case sw_Tags s of
             None \<Rightarrow> Some []
           | Some tags \<Rightarrow>
               fold_opt (\<lambda>tag m. do { (k, v) \<leftarrow> tag; Some (case otSpanResourcesMapping k of Some otKey \<Rightarrow> PutStr otKey v m | None \<Rightarrow> m) }) tags []))"

text \<open>The three setters return whether the tag is still to be handled.\<close>

definition setCacheAttribute :: "string \<Rightarrow> string \<Rightarrow> sw_span_type \<Rightarrow> attrs \<Rightarrow> attrs \<times> bool" where
  "setCacheAttribute key val spanType dest =
     (if \<not> has_prefix key ''cache.'' then (dest, True)
      else
        (if spanType = SpanType_Local then PutStr key val dest
         else if key = ''cache.type'' then PutStr ''db.system'' (ToLower (GetServerName val)) dest
         else if key = ''cache.cmd'' then PutStr ''db.statement'' val dest
         else if key = ''cache.op'' then PutStr ''db.operation'' val dest
         else PutStr key val dest, False))"

definition setDbAttribute :: "sw_lib \<Rightarrow> string \<Rightarrow> string \<Rightarrow> attrs \<Rightarrow> (attrs \<times> bool) option" where
  "setDbAttribute lib key val dest =
     (if \<not> has_prefix key ''db.'' then Some (dest, True)
      else if key = ''db.type'' then Some (PutStr ''db.system'' (ToLower val) dest, False)
      else if key = ''db.instance'' then Some (PutStr ''db.name'' val dest, False)
      else if key = ''db.statement'' then
        (let dest1 = PutStr ''db.statement'' val dest in
         if val \<noteq> [] then
           do {
             (operation, table) \<leftarrow> SQLParseOperationAndTableNEW (sl_sql lib) val;
             Some (if operation \<noteq> [] then PutStr ''db.sql.table'' table (PutStr ''db.operation'' operation dest1) else dest1, False)
           }
         else Some (dest1, False))
      else Some (PutStr key val dest, False))"

definition setMqAttribute :: "string \<Rightarrow> string \<Rightarrow> attrs \<Rightarrow> attrs \<times> bool" where
  "setMqAttribute key val dest =
     (if \<not> has_prefix key ''mq.'' then (dest, True)
      else
        (if key = ''mq.queue'' then PutStr ''messaging.destination.name'' val dest
         else if key = ''mq.topic'' then
           (if map_load dest ''messaging.destination.name'' = None then PutStr ''messaging.destination.name'' val dest else dest)
         else if key = ''mq.broker'' then PutStr ''net.peer.name'' val dest
         else PutStr key val dest, False))"

definition swTag :: "sw_lib \<Rightarrow> sw_span_type \<Rightarrow> (string \<times> string) option \<Rightarrow> attrs \<Rightarrow> attrs option" where
  "swTag lib spanType tag dest =
     (case tag of None \<Rightarrow> None | Some (key, val) \<Rightarrow>
        let (d1, go1) = setCacheAttribute key val spanType dest in
        if \<not> go1 then Some d1
        else do {
          (d2, go2) \<leftarrow> setDbAttribute lib key val d1;
          (if \<not> go2 then Some d2
           else
             (let (d3, go3) = setMqAttribute key val d2 in
              if \<not> go3 then Some d3
              else Some (case otSpanTagsMapping key of Some otKey \<Rightarrow> PutStr otKey val d3 | None \<Rightarrow> PutStr key val d3)))
        })"

definition swToTags :: "sw_lib \<Rightarrow> sw_span \<Rightarrow> attrs \<Rightarrow> attrs option" where
  "swToTags lib s dest =
     (let dest1 = (if sw_SpanType s = SpanType_Exit
                   then (let d = PutStr ''net.peer.name'' (sw_Peer s) dest in
                         if sw_SpanLayer s = SpanLayer_RPCFramework then PutStr ''rpc.system'' (ToLower (GetComponent (sw_ComponentId s))) d else d)
                   else dest)
      in case sw_Tags s of
           None \<Rightarrow> Some dest1
         | Some tags \<Rightarrow>
             (let dest2 = (if sw_SpanLayer s = SpanLayer_MQ \<and> (sw_SpanType s = SpanType_Exit \<or> sw_SpanType s = SpanType_Entry)
                           then PutStr ''messaging.system'' (ToLower (GetComponent (sw_ComponentId s))) dest1 else dest1)
              in fold_opt (swTag lib (sw_SpanType s)) tags dest2))"

definition setSwSpanIDToAttributes :: "sw_span \<Rightarrow> attrs \<Rightarrow> attrs" where
  "setSwSpanIDToAttributes s dest =
     (let d = PutInt ''sw8.span_id'' (sw_SpanId s) dest in
      if sw_ParentSpanId s \<noteq> - 1 then PutInt ''sw8.parent_span_id'' (sw_ParentSpanId s) d else d)"

subsection \<open>Spans\<close>

definition setInternalSpanStatus :: "sw_span \<Rightarrow> status_code \<times> string" where
  "setInternalSpanStatus s = (if sw_IsError s then (StatusCodeError, ''ERROR'') else (StatusCodeOk, ''SUCCESS''))"

definition sw_kind :: "sw_span \<Rightarrow> span_kind" where
  "sw_kind s =
     (if sw_SpanLayer s = SpanLayer_MQ then
        (if sw_SpanType s = SpanType_Entry then SpanKindConsumer
         else if sw_SpanType s = SpanType_Exit then SpanKindProducer else SpanKindUnspecified)
      else if sw_SpanType s = SpanType_Exit then SpanKindClient
      else if sw_SpanType s = SpanType_Entry then SpanKindServer
      else if sw_SpanType s = SpanType_Local then SpanKindInternal
      else SpanKindUnspecified)"

fun map_option_list :: "('a \<Rightarrow> 'b option) \<Rightarrow> 'a list \<Rightarrow> 'b list option" where
  "map_option_list f [] = Some []"
| "map_option_list f (x # xs) = do { y \<leftarrow> f x; ys \<leftarrow> map_option_list f xs; Some (y # ys) }"

definition sw_event :: "sw_log option \<Rightarrow> span_event option" where
  "sw_event entry =
     do {
       attr \<leftarrow> swKvPairsToInternalAttributes (case entry of Some l \<Rightarrow> lg_Data l | None \<Rightarrow> []) [];
       Some \<lparr>ev_Name = ''logs'', ev_Timestamp = microsecondsToTimestamp (case entry of Some l \<Rightarrow> lg_Time l | None \<Rightarrow> 0), ev_Attributes = attr\<rparr>
     }"

definition swLogsToSpanEvents :: "sw_log option list \<Rightarrow> span_event list option" where
  "swLogsToSpanEvents logs = map_option_list sw_event logs"

definition sw_link :: "sw_lib \<Rightarrow> sw_ref option \<Rightarrow> span_link option" where
  "sw_link lib reference =
     do {
       ref \<leftarrow> reference;
       tid \<leftarrow> swTraceIDToTraceID (sl_uuid_Parse lib) (rf_TraceId ref);
       sid \<leftarrow> segmentIDToSpanID (rf_ParentTraceSegmentId ref) (word_of_int (rf_ParentSpanId ref));
       attr \<leftarrow> swKvPairsToInternalAttributes (map Some
               [(''parent.service'', rf_ParentService ref), (''parent.service.instance'', rf_ParentServiceInstance ref),
                (''parent.endpoint'', rf_ParentEndpoint ref), (''network.AddressUsedAtPeer'', rf_NetworkAddressUsedAtPeer ref),
                (''refType'', sl_RefType_String lib (rf_RefType ref)), (''sw8.trace_id'', rf_TraceId ref),
                (''sw8.parent_segment_id'', rf_ParentTraceSegmentId ref),
                (''sw8.parent_span_id'', dec_int (rf_ParentSpanId ref))]) [];
       Some \<lparr>ln_TraceID = tid, ln_SpanID = sid, ln_Attributes = attr\<rparr>
     }"

definition swReferencesToSpanLinks :: "sw_lib \<Rightarrow> sw_ref option list \<Rightarrow> span_link list option" where
  "swReferencesToSpanLinks lib refs = map_option_list (sw_link lib) refs"

definition sw_parent :: "string \<Rightarrow> sw_span \<Rightarrow> span_id option" where
  "sw_parent segmentID s =
     (if sw_ParentSpanId s \<noteq> - 1 then segmentIDToSpanID segmentID (word_of_int (sw_ParentSpanId s))
      else case sw_Refs s of
             [ref] \<Rightarrow>
               segmentIDToSpanID (case ref of Some r \<Rightarrow> rf_ParentTraceSegmentId r | None \<Rightarrow> [])
                 (word_of_int (case ref of Some r \<Rightarrow> rf_ParentSpanId r | None \<Rightarrow> 0))
           | _ \<Rightarrow> Some (replicate 8 0))"

definition swSpanToSpan :: "sw_lib \<Rightarrow> string \<Rightarrow> string \<Rightarrow> sw_span \<Rightarrow> span option" where
  "swSpanToSpan lib traceID segmentID s =
     do {
       tid \<leftarrow> swTraceIDToTraceID (sl_uuid_Parse lib) traceID;
       sid \<leftarrow> segmentIDToSpanID segmentID (word_of_int (sw_SpanId s));
       pid \<leftarrow> sw_parent segmentID s;
       attr \<leftarrow> swToTags lib s [];
       events \<leftarrow> swLogsToSpanEvents (sw_Logs s);
       links \<leftarrow> swReferencesToSpanLinks lib (sw_Refs s);
       Some \<lparr>sp_TraceID = tid, sp_SpanID = sid, sp_ParentSpanID = pid, sp_Name = sw_OperationName s, sp_Kind = sw_kind s,
             sp_StartTimestamp = microsecondsToTimestamp (sw_StartTime s), sp_EndTimestamp = microsecondsToTimestamp (sw_EndTime s),
             sp_Attributes = setSwSpanIDToAttributes s (PutStr ''sw8.segment_id'' segmentID attr),
             sp_StatusCode = fst (setInternalSpanStatus s), sp_StatusMessage = snd (setInternalSpanStatus s),
             sp_Events = events, sp_Links = links\<rparr>
     }"

definition swSpansToSpanSlice :: "sw_lib \<Rightarrow> string \<Rightarrow> string \<Rightarrow> sw_span option list \<Rightarrow> span list option" where
  "swSpansToSpanSlice lib traceID segmentID spans =
     map_option_list (swSpanToSpan lib traceID segmentID) (List.map_filter id spans)"

definition ProtoToTraces :: "sw_lib \<Rightarrow> sw_segment \<Rightarrow> int \<Rightarrow> string \<Rightarrow> traces option" where
  "ProtoToTraces lib seg pid containerId =
     (case sg_Spans seg of
        None \<Rightarrow> Some []
      | Some swSpans \<Rightarrow>
          do {
            rs0 \<leftarrow> fold_opt swTagsToInternalResource swSpans [];
            let rs1 = (if pid > 0 then PutInt KEY_PID pid rs0 else rs0);
            let rs2 = (if containerId \<noteq> [] then PutStr KEY_CONTAINERID containerId rs1 else rs1);
            let rs3 = PutStr ''sw8.trace_id'' (sg_TraceId seg) (PutStr ''service.instance.id'' (sg_ServiceInstance seg)
                       (PutStr AttributeServiceName (sg_Service seg) rs2));
            spans \<leftarrow> swSpansToSpanSlice lib (sg_TraceId seg) (sg_TraceSegmentId seg) swSpans;
            Some [\<lparr>rs_Resource = rs3, rs_ScopeSpans = [\<lparr>ss_Scope = [], ss_Spans = spans\<rparr>]\<rparr>]
          })"

subsection \<open>Undertow segments\<close>

record undertow_cache =
  un_ioTraceMap :: "(string, traces) gomap"
  un_routeUrlMap :: "(string, string) gomap"

text \<open>What the loop of \<open>CheckUndertow\<close> finds: Undertow at all, the parent segment, the route.\<close>

record undertow_scan =
  us_isUndertow :: bool
  us_routeUrl :: string
  us_parentSegmentId :: string

definition undertow_span :: "sw_span option \<Rightarrow> undertow_scan \<Rightarrow> undertow_scan option" where
  "undertow_span sp u =
     do {
       s \<leftarrow> sp;
       u1 \<leftarrow> (if sw_ComponentId s = 84 \<and> sw_SpanId s = 0 then
                 (if sw_OperationName s = ''UndertowDispatch'' then
                    (case sw_Refs s of
                       Some ref # _ \<Rightarrow> Some (u\<lparr>us_isUndertow := True, us_parentSegmentId := rf_ParentTraceSegmentId ref\<rparr>)
                     | _ \<Rightarrow> None)
                  else Some (u\<lparr>us_isUndertow := True\<rparr>))
               else Some u);
       Some (if sw_SpanType s = SpanType_Entry \<and> sw_ComponentId s = 14 then u1\<lparr>us_routeUrl := sw_OperationName s\<rparr> else u1)
     }"

text \<open>\<open>ResourceSpans().At(0).ScopeSpans().At(0).Spans().At(0).SetName(n)\<close>\<close>

definition set_first_name :: "string \<Rightarrow> traces \<Rightarrow> traces option" where
  "set_first_name n td =
     (case td of
        rs # rest \<Rightarrow>
          (case rs_ScopeSpans rs of
             ss # sss \<Rightarrow>
               (case ss_Spans ss of
                  sp # sps \<Rightarrow> Some (rs\<lparr>rs_ScopeSpans := ss\<lparr>ss_Spans := sp\<lparr>sp_Name := n\<rparr> # sps\<rparr> # sss\<rparr> # rest)
                | [] \<Rightarrow> None)
           | [] \<Rightarrow> None)
      | [] \<Rightarrow> None)"

definition first_spans :: "traces \<Rightarrow> span list option" where
  "first_spans td = (case td of rs # _ \<Rightarrow> (case rs_ScopeSpans rs of ss # _ \<Rightarrow> Some (ss_Spans ss) | _ \<Rightarrow> None) | _ \<Rightarrow> None)"

definition append_scope :: "span list \<Rightarrow> traces \<Rightarrow> traces option" where
  "append_scope sps td =
     (case td of rs # rest \<Rightarrow> Some (rs\<lparr>rs_ScopeSpans := rs_ScopeSpans rs @ [\<lparr>ss_Scope = [], ss_Spans = sps\<rparr>]\<rparr> # rest) | [] \<Rightarrow> None)"

definition undertow_key :: "string \<Rightarrow> string \<Rightarrow> string" where
  "undertow_key traceId segmentId = traceId @ ''-'' @ segmentId"

definition CheckUndertow :: "sw_segment \<Rightarrow> traces \<Rightarrow> undertow_cache \<Rightarrow> (undertow_cache \<times> traces option) option" where
  "CheckUndertow seg ptd c =
     do {
       u \<leftarrow> fold_opt undertow_span (case sg_Spans seg of Some sps \<Rightarrow> sps | None \<Rightarrow> [])
              \<lparr>us_isUndertow = False, us_routeUrl = [], us_parentSegmentId = []\<rparr>;
       (if \<not> us_isUndertow u then Some (c, Some ptd)
        else if us_routeUrl u = [] then
          (let key = undertow_key (sg_TraceId seg) (sg_TraceSegmentId seg) in
           case map_load (un_routeUrlMap c) key of
             Some cachedRouteUrl \<Rightarrow>
               do { ptd1 \<leftarrow> set_first_name cachedRouteUrl ptd;
                    Some (c\<lparr>un_routeUrlMap := map_delete key (un_routeUrlMap c)\<rparr>, Some ptd1) }
           | None \<Rightarrow> Some (c\<lparr>un_ioTraceMap := map_store key ptd (un_ioTraceMap c)\<rparr>, None))
        else
          (let key = undertow_key (sg_TraceId seg) (us_parentSegmentId u) in
           case map_load (un_ioTraceMap c) key of
             Some catchedTrace \<Rightarrow>
               do {
                 named \<leftarrow> set_first_name (us_routeUrl u) catchedTrace;
                 spans \<leftarrow> first_spans named;
                 ptd1 \<leftarrow> append_scope spans ptd;
                 Some (c\<lparr>un_ioTraceMap := map_delete key (un_ioTraceMap c)\<rparr>, Some ptd1)
               }
           | None \<Rightarrow> Some (c\<lparr>un_routeUrlMap := map_store key (us_routeUrl u) (un_routeUrlMap c)\<rparr>, Some ptd)))
     }"

subsection \<open>The receiver\<close>

text \<open>\<open>proc\<close> is what the \<open>fillproc\<close> extension answers for the peer of the request, if there is one; the last component
  of the result is what the next consumer received.\<close>

definition sw_consumeTraces ::
  "sw_lib \<Rightarrow> (int \<times> string) option \<Rightarrow> sw_segment option \<Rightarrow> undertow_cache \<Rightarrow> (undertow_cache \<times> traces option) option" where
  "sw_consumeTraces lib proc segment c =
     (case segment of
        None \<Rightarrow> Some (c, None)
      | Some seg \<Rightarrow>
          (let (pid, containerId) = (case proc of Some p \<Rightarrow> p | None \<Rightarrow> (0, [])) in
           do {
             ptd \<leftarrow> ProtoToTraces lib seg pid containerId;
             CheckUndertow seg ptd c
           }))"

text \<open>A received segment comes with the answer that the extension gives when it is handled: the extension is asked for each segment,
  and may have identified the peer since the last one.\<close>

type_synonym received_segment = "(int \<times> string) option \<times> sw_segment option"

text \<open>\<open>Collect\<close>: the segments of a stream up to its end, or up to the first error of the next consumer.\<close>

fun sw_Collect ::
  "sw_lib \<Rightarrow> (traces \<Rightarrow> bool) \<Rightarrow> received_segment list \<Rightarrow> undertow_cache \<Rightarrow> (undertow_cache \<times> traces list) option" where
  "sw_Collect lib next_err [] c = Some (c, [])"
| "sw_Collect lib next_err ((proc, seg) # segs) c =
     do {
       (c1, out) \<leftarrow> sw_consumeTraces lib proc seg c;
       (case out of
          None \<Rightarrow> sw_Collect lib next_err segs c1
        | Some td \<Rightarrow>
            if next_err td then Some (c1, [td])
            else do { (c2, tds) \<leftarrow> sw_Collect lib next_err segs c1; Some (c2, td # tds) })
     }"

text \<open>\<open>CollectInSync\<close> goes on after an error.\<close>

fun sw_CollectInSync ::
  "sw_lib \<Rightarrow> received_segment list \<Rightarrow> undertow_cache \<Rightarrow> (undertow_cache \<times> traces list) option" where
  "sw_CollectInSync lib [] c = Some (c, [])"
| "sw_CollectInSync lib ((proc, seg) # segs) c =
     do {
       (c1, out) \<leftarrow> sw_consumeTraces lib proc seg c;
       (c2, tds) \<leftarrow> sw_CollectInSync lib segs c1;
       Some (c2, (case out of None \<Rightarrow> tds | Some td \<Rightarrow> td # tds))
     }"

text \<open>
  \<open>HTTPHandler\<close>: a body that cannot be read is answered with 400; \<open>decode\<close> gives what \<open>json.Unmarshal\<close> leaves in \<open>data\<close>,
  whose error is printed only. \<open>consumeHttpTraces\<close> is \<open>consumeTraces\<close> with the addresses of the request; \<open>answer i\<close> is what the
  extension says for the \<open>i\<close>-th segment.
\<close>

definition sw_HTTPHandler ::
  "sw_lib \<Rightarrow> (nat \<Rightarrow> (int \<times> string) option) \<Rightarrow> (string \<Rightarrow> sw_segment option list) \<Rightarrow> string + string \<Rightarrow> undertow_cache \<Rightarrow>
   (undertow_cache \<times> traces list \<times> int) option" where
  "sw_HTTPHandler lib answer decode body c =
     (case body of
        Inl err \<Rightarrow> Some (c, [], 400)
      | Inr b \<Rightarrow>
          (let data = decode b in
           do { (c1, tds) \<leftarrow> sw_CollectInSync lib (zip (map answer [0..<length data]) data) c; Some (c1, tds, 200) }))"

subsection \<open>Conversion of a segment\<close>

definition sw_spans :: "sw_segment \<Rightarrow> sw_span list" where
  "sw_spans seg = (case sg_Spans seg of Some sps \<Rightarrow> List.map_filter id sps | None \<Rightarrow> [])"

lemma map_option_list_iff: "map_option_list f xs = Some ys \<longleftrightarrow> list_all2 (\<lambda>x y. f x = Some y) xs ys"
  by (induction xs arbitrary: ys) (auto simp: bind_eq_Some_conv list_all2_Cons1)

lemma map_option_list_total: "(\<And>x. x \<in> set xs \<Longrightarrow> f x \<noteq> None) \<Longrightarrow> map_option_list f xs \<noteq> None"
  by (induction xs) (auto simp: bind_eq_None_conv)

lemma ProtoToTraces_spans:
  assumes "ProtoToTraces lib seg pid cid = Some td"
  shows "list_all2 (\<lambda>s sp. swSpanToSpan lib (sg_TraceId seg) (sg_TraceSegmentId seg) s = Some sp) (sw_spans seg) (traces_spans td)"
  using assms
  by (auto simp: ProtoToTraces_def sw_spans_def swSpansToSpanSlice_def map_option_list_iff traces_spans_def rs_spans_def Let_def
      bind_eq_Some_conv split: option.splits)

text \<open>An identifier with exactly one dot, after 32 hexadecimal digits: \<open>swStringToUUID\<close> panics on it.\<close>

definition sw_id_panics :: "string \<Rightarrow> bool" where
  "sw_id_panics s \<longleftrightarrow> length s > 32 \<and> snd (hex_Decode (take 32 s)) \<and> s ! 32 = CHR ''.'' \<and> CHR ''.'' \<notin> set (drop 33 s)"

lemma segmentIDToSpanID_total: "\<not> sw_id_panics s \<Longrightarrow> segmentIDToSpanID s x \<noteq> None"
  using swStringToUUID_panics[of s x] by (auto simp: segmentIDToSpanID_def sw_id_panics_def)

lemma swTraceIDToTraceID_total: "length s \<le> 36 \<or> \<not> sw_id_panics s \<Longrightarrow> swTraceIDToTraceID p s \<noteq> None"
  using swStringToUUID_panics[of s 0] by (auto simp: swTraceIDToTraceID_def sw_id_panics_def)

lemma swTag_total: "swTag lib t (Some kv) d \<noteq> None"
proof -
  obtain k v where kv: "kv = (k, v)" by (cases kv)
  obtain d1 go1 where c: "setCacheAttribute k v t d = (d1, go1)" by (cases "setCacheAttribute k v t d")
  obtain operation table where q: "SQLParseOperationAndTableNEW (sl_sql lib) v = Some (operation, table)"
    using sql_summary_total[of "sl_sql lib" v] by blast
  have "setDbAttribute lib k v d1 \<noteq> None"
    by (simp add: setDbAttribute_def Let_def q del: not_None_eq)
  then obtain d2 go2 where b: "setDbAttribute lib k v d1 = Some (d2, go2)" by auto
  obtain d3 go3 where m: "setMqAttribute k v d2 = (d3, go3)" by (cases "setMqAttribute k v d2")
  show ?thesis by (simp add: swTag_def kv c b m)
qed

lemma fold_opt_total: "(\<And>x s. x \<in> set xs \<Longrightarrow> f x s \<noteq> None) \<Longrightarrow> fold_opt f xs s \<noteq> None"
  by (induction xs arbitrary: s) (auto simp: bind_eq_None_conv)

lemma fold_pointers_total: "None \<notin> set xs \<Longrightarrow> (\<And>x s. f (Some x) s \<noteq> None) \<Longrightarrow> fold_opt f xs s \<noteq> None"
  by (rule fold_opt_total) (metis option.exhaust)

text \<open>The pointers that are followed without a check.\<close>

definition sw_ref_ok :: "sw_ref option \<Rightarrow> bool" where
  "sw_ref_ok reference \<longleftrightarrow> (case reference of
     None \<Rightarrow> False
   | Some r \<Rightarrow> (length (rf_TraceId r) \<le> 36 \<or> \<not> sw_id_panics (rf_TraceId r)) \<and> \<not> sw_id_panics (rf_ParentTraceSegmentId r))"

definition sw_span_ok :: "sw_span \<Rightarrow> bool" where
  "sw_span_ok s \<longleftrightarrow> (\<forall>r\<in>set (sw_Refs s). sw_ref_ok r) \<and>
     (case sw_Tags s of Some tags \<Rightarrow> None \<notin> set tags | None \<Rightarrow> True) \<and>
     (\<forall>l\<in>set (sw_Logs s). case l of Some e \<Rightarrow> None \<notin> set (lg_Data e) | None \<Rightarrow> True)"

definition sw_convertible :: "sw_segment \<Rightarrow> bool" where
  "sw_convertible seg \<longleftrightarrow>
     (length (sg_TraceId seg) \<le> 36 \<or> \<not> sw_id_panics (sg_TraceId seg)) \<and> \<not> sw_id_panics (sg_TraceSegmentId seg) \<and>
     (\<forall>s\<in>set (sw_spans seg). sw_span_ok s)"

lemma swToTags_total: "sw_span_ok s \<Longrightarrow> swToTags lib s d \<noteq> None"
proof -
  assume s: "sw_span_ok s"
  have "fold_opt (swTag lib t) tags d' \<noteq> None" if "sw_Tags s = Some tags" for t tags d'
    using s that by (intro fold_pointers_total swTag_total) (simp add: sw_span_ok_def)
  then show ?thesis unfolding swToTags_def Let_def by (cases "sw_Tags s") (simp_all only: option.case option.distinct not_False_eq_True)
qed

lemma swKvPairs_total: "None \<notin> set pairs \<Longrightarrow> swKvPairsToInternalAttributes pairs d \<noteq> None"
  unfolding swKvPairsToInternalAttributes_def by (rule fold_pointers_total) (simp_all add: split_def)

lemma sw_event_total: "case l of Some e \<Rightarrow> None \<notin> set (lg_Data e) | None \<Rightarrow> True \<Longrightarrow> sw_event l \<noteq> None"
  using swKvPairs_total[of "case l of Some e \<Rightarrow> lg_Data e | None \<Rightarrow> []" "[]"]
  by (cases l) (auto simp: sw_event_def)

lemma swLogs_total: "sw_span_ok s \<Longrightarrow> swLogsToSpanEvents (sw_Logs s) \<noteq> None"
  unfolding swLogsToSpanEvents_def sw_span_ok_def by (intro map_option_list_total sw_event_total) blast

lemma swTagsToInternalResource_total: "(\<And>s. sp = Some s \<Longrightarrow> sw_span_ok s) \<Longrightarrow> swTagsToInternalResource sp d \<noteq> None"
  unfolding swTagsToInternalResource_def sw_span_ok_def
  by (cases sp; cases "sw_Tags (the sp)") (simp_all add: fold_pointers_total split_def del: not_None_eq)

lemma sw_link_total: "sw_ref_ok r \<Longrightarrow> sw_link lib r \<noteq> None"
  using segmentIDToSpanID_total swTraceIDToTraceID_total
  by (auto simp: sw_link_def sw_ref_ok_def bind_eq_None_conv swKvPairs_total simp del: not_None_eq split: option.splits)

lemma swSpanToSpan_total:
  assumes "length t \<le> 36 \<or> \<not> sw_id_panics t" "\<not> sw_id_panics g" "sw_span_ok s"
  shows "swSpanToSpan lib t g s \<noteq> None"
proof -
  have "swReferencesToSpanLinks lib (sw_Refs s) \<noteq> None"
    unfolding swReferencesToSpanLinks_def using assms(3) sw_link_total by (intro map_option_list_total) (auto simp: sw_span_ok_def)
  moreover have "sw_parent g s \<noteq> None"
    using assms segmentIDToSpanID_total by (auto simp: sw_parent_def sw_span_ok_def sw_ref_ok_def split: list.split option.splits)
  ultimately show ?thesis
    using assms segmentIDToSpanID_total swTraceIDToTraceID_total swToTags_total swLogs_total
    by (simp add: swSpanToSpan_def bind_eq_None_conv)
qed

lemma sw_spans_someD: "s \<in> set (sw_spans seg) \<Longrightarrow> \<exists>sps. sg_Spans seg = Some sps \<and> Some s \<in> set sps"
  by (cases "sg_Spans seg") (auto simp: sw_spans_def List.map_filter_def)

lemma ProtoToTraces_total: "sw_convertible seg \<Longrightarrow> ProtoToTraces lib seg pid cid \<noteq> None"
proof -
  assume safe: "sw_convertible seg"
  have "swSpansToSpanSlice lib (sg_TraceId seg) (sg_TraceSegmentId seg) sps \<noteq> None" if "sg_Spans seg = Some sps" for sps
    unfolding swSpansToSpanSlice_def
    using safe that by (intro map_option_list_total swSpanToSpan_total) (auto simp: sw_convertible_def sw_spans_def)
  moreover have "fold_opt swTagsToInternalResource sps [] \<noteq> None" if "sg_Spans seg = Some sps" for sps
    using safe that
    by (intro fold_opt_total swTagsToInternalResource_total) (force simp: sw_convertible_def sw_spans_def List.map_filter_def)
  ultimately show ?thesis
    by (auto simp: ProtoToTraces_def Let_def bind_eq_None_conv split: option.split)
qed

lemma swSpanToSpan_SpanID:
  "swSpanToSpan lib t g s = Some sp \<Longrightarrow> segmentIDToSpanID g (word_of_int (sw_SpanId s)) = Some (sp_SpanID sp)"
  by (auto simp: swSpanToSpan_def bind_eq_Some_conv)

lemma swSpanToSpan_ParentSpanID:
  "swSpanToSpan lib t g s = Some sp \<Longrightarrow> sw_ParentSpanId s \<noteq> - 1 \<Longrightarrow>
   segmentIDToSpanID g (word_of_int (sw_ParentSpanId s)) = Some (sp_ParentSpanID sp)"
  by (auto simp: swSpanToSpan_def sw_parent_def bind_eq_Some_conv)

abbreviation int32 :: "int \<Rightarrow> bool" where
  "int32 i \<equiv> - (2 ^ 31) \<le> i \<and> i < 2 ^ 31"

text \<open>C15: The span tree of a segment survives the conversion. Take a segment with a well-formed identifier (32 hexadecimal digits, or those with the two
  numbers), where no other identifier panics and no reference, tag or pair of a log is nil (\<open>sw_convertible\<close>), and whose spans have distinct
  numbers; all span numbers are of 32 bits, as in the protocol. It is converted without a panic, into as many spans with distinct identifiers;
  and for a span that has a parent in the segment, one whose parent number is not -1, a span of the segment is its parent afterwards exactly
  when it was before. The parent of a root span (parent number -1) is taken from its reference and is not part of the claim.\<close>

theorem segment_tree_preserved:
  assumes id: "sw_id_ok (sg_TraceSegmentId seg)" and safe: "sw_convertible seg"
    and ids: "distinct (map sw_SpanId (sw_spans seg))"
    and range: "\<forall>s\<in>set (sw_spans seg). int32 (sw_SpanId s) \<and> int32 (sw_ParentSpanId s)"
  shows "\<exists>td. ProtoToTraces lib seg pid cid = Some td \<and> length (traces_spans td) = length (sw_spans seg) \<and>
    distinct (map sp_SpanID (traces_spans td)) \<and>
    (\<forall>i<length (sw_spans seg). \<forall>j<length (sw_spans seg). sw_ParentSpanId (sw_spans seg ! i) \<noteq> - 1 \<longrightarrow>
       (sp_ParentSpanID (traces_spans td ! i) = sp_SpanID (traces_spans td ! j) \<longleftrightarrow>
        sw_ParentSpanId (sw_spans seg ! i) = sw_SpanId (sw_spans seg ! j)))"
proof -
  obtain td where td: "ProtoToTraces lib seg pid cid = Some td" using ProtoToTraces_total[OF safe] by blast
  note conv = ProtoToTraces_spans[OF td]
  let ?g = "sg_TraceSegmentId seg" and ?ss = "sw_spans seg" and ?os = "traces_spans td"
  have len: "length ?os = length ?ss" using conv by (simp add: list_all2_lengthD)
  have sid: "segmentIDToSpanID ?g (word_of_int (sw_SpanId (?ss ! i))) = Some (sp_SpanID (?os ! i))" if "i < length ?ss" for i
    using list_all2_nthD[OF conv that] by (rule swSpanToSpan_SpanID)
  have same: "x = y" if "int32 x" "int32 y" "segmentIDToSpanID ?g (word_of_int x) = segmentIDToSpanID ?g (word_of_int y)" for x y
    using segmentIDToSpanID_inj[OF id that(3)] that(1,2) int32_word_inj[of x y] by blast
  have r: "int32 (sw_SpanId (?ss ! i))" "int32 (sw_ParentSpanId (?ss ! i))" if "i < length ?ss" for i
    using range nth_mem[OF that] by blast+
  have "distinct (map sp_SpanID ?os)"
  proof (rule distinct_conv_nth[THEN iffD2], intro allI impI notI)
    fix i j assume ij: "i < length (map sp_SpanID ?os)" "j < length (map sp_SpanID ?os)" "i \<noteq> j"
      "map sp_SpanID ?os ! i = map sp_SpanID ?os ! j"
    then have "sw_SpanId (?ss ! i) = sw_SpanId (?ss ! j)"
      using same[OF r(1) r(1)] sid[of i] sid[of j] len by simp
    then show False using ids ij(1-3) len by (simp add: distinct_conv_nth)
  qed
  moreover have "sp_ParentSpanID (?os ! i) = sp_SpanID (?os ! j) \<longleftrightarrow> sw_ParentSpanId (?ss ! i) = sw_SpanId (?ss ! j)"
    if ij: "i < length ?ss" "j < length ?ss" and p: "sw_ParentSpanId (?ss ! i) \<noteq> - 1" for i j
    using swSpanToSpan_ParentSpanID[OF list_all2_nthD[OF conv ij(1)] p] sid[OF ij(2)] same[OF r(2)[OF ij(1)] r(1)[OF ij(2)]]
    by auto
  ultimately show ?thesis using td len by blast
qed

text \<open>Every span clears the resource attributes first: only the tags of the last one stay.\<close>

lemma resource_tags_of_last_span:
  "fold_opt swTagsToInternalResource (sps @ [Some s]) [] = Some rs \<Longrightarrow> swTagsToInternalResource (Some s) [] = Some rs"
  by (auto simp: fold_opt_append bind_eq_Some_conv swTagsToInternalResource_def)

subsection \<open>Undertow: no span is lost\<close>

text \<open>What the conversion yields for a segment with a span: one resource with one scope.\<close>

definition one_scope :: "traces \<Rightarrow> bool" where
  "one_scope td \<longleftrightarrow> (\<exists>rs ss sp sps. td = [rs] \<and> rs_ScopeSpans rs = [ss] \<and> ss_Spans ss = sp # sps)"

text \<open>The spans of a batch up to their names.\<close>

definition anon :: "span list \<Rightarrow> span multiset" where
  "anon sps = mset (map (\<lambda>sp. sp\<lparr>sp_Name := []\<rparr>) sps)"

definition held_spans :: "undertow_cache \<Rightarrow> span multiset" where
  "held_spans c = (\<Sum>(k, td)\<leftarrow>un_ioTraceMap c. anon (traces_spans td))"

definition undertow_inv :: "undertow_cache \<Rightarrow> bool" where
  "undertow_inv c \<longleftrightarrow> gomap_wf (un_ioTraceMap c) \<and> (\<forall>(k, td)\<in>set (un_ioTraceMap c). one_scope td)"

lemma anon_append [simp]: "anon (xs @ ys) = anon xs + anon ys"
  by (simp add: anon_def)

lemma set_first_name_one_scope:
  "one_scope td \<Longrightarrow>
   \<exists>td'. set_first_name n td = Some td' \<and> one_scope td' \<and> sp_Name (hd (traces_spans td')) = n \<and> anon (traces_spans td') = anon (traces_spans td)"
  by (auto simp: one_scope_def set_first_name_def traces_spans_def rs_spans_def anon_def)

lemma first_spans_one_scope: "one_scope td \<Longrightarrow> first_spans td = Some (traces_spans td)"
  by (auto simp: one_scope_def first_spans_def traces_spans_def rs_spans_def)

lemma append_scope_one_scope:
  "one_scope td \<Longrightarrow> \<exists>td'. append_scope sps td = Some td' \<and> traces_spans td' = traces_spans td @ sps"
  by (auto simp: one_scope_def append_scope_def traces_spans_def rs_spans_def)

lemma held_store:
  "map_load (un_ioTraceMap c) k = None \<Longrightarrow>
   held_spans (c\<lparr>un_ioTraceMap := map_store k td (un_ioTraceMap c)\<rparr>) = held_spans c + anon (traces_spans td)"
  by (simp add: held_spans_def map_store_absent)

lemma held_delete:
  "gomap_wf (un_ioTraceMap c) \<Longrightarrow> map_load (un_ioTraceMap c) k = Some td \<Longrightarrow>
   held_spans c = anon (traces_spans td) + held_spans (c\<lparr>un_ioTraceMap := map_delete k (un_ioTraceMap c)\<rparr>)"
  by (simp add: held_spans_def sum_delete[where f = "\<lambda>(k, td). anon (traces_spans td)"])

lemma held_route [simp]: "held_spans (c\<lparr>un_routeUrlMap := m\<rparr>) = held_spans c"
  by (simp add: held_spans_def)

lemma undertow_inv_route [simp]: "undertow_inv (c\<lparr>un_routeUrlMap := m\<rparr>) = undertow_inv c"
  by (simp add: undertow_inv_def)

lemma undertow_inv_store:
  "undertow_inv c \<Longrightarrow> one_scope td \<Longrightarrow> undertow_inv (c\<lparr>un_ioTraceMap := map_store k td (un_ioTraceMap c)\<rparr>)"
  using set_store_subset[of k td "un_ioTraceMap c"] by (auto simp: undertow_inv_def wf_store)

lemma undertow_inv_delete: "undertow_inv c \<Longrightarrow> undertow_inv (c\<lparr>un_ioTraceMap := map_delete k (un_ioTraceMap c)\<rparr>)"
  using set_delete_subset[of k "un_ioTraceMap c"] by (auto simp: undertow_inv_def wf_delete)

text \<open>The spans that \<open>CheckUndertow\<close> reads without a check: none is nil, and an \<open>UndertowDispatch\<close> names its parent segment.\<close>

definition undertow_safe :: "sw_segment \<Rightarrow> bool" where
  "undertow_safe seg \<longleftrightarrow>
     (\<forall>sp\<in>set (case sg_Spans seg of Some sps \<Rightarrow> sps | None \<Rightarrow> []).
        case sp of
          None \<Rightarrow> False
        | Some s \<Rightarrow> sw_ComponentId s = 84 \<and> sw_SpanId s = 0 \<and> sw_OperationName s = ''UndertowDispatch'' \<longrightarrow> (\<exists>r rs. sw_Refs s = Some r # rs))"

abbreviation undertow_scan_of :: "sw_segment \<Rightarrow> undertow_scan option" where
  "undertow_scan_of seg \<equiv>
     fold_opt undertow_span (case sg_Spans seg of Some sps \<Rightarrow> sps | None \<Rightarrow> [])
       \<lparr>us_isUndertow = False, us_routeUrl = [], us_parentSegmentId = []\<rparr>"

lemma undertow_span_total:
  "case sp of None \<Rightarrow> False
   | Some s \<Rightarrow> sw_ComponentId s = 84 \<and> sw_SpanId s = 0 \<and> sw_OperationName s = ''UndertowDispatch'' \<longrightarrow> (\<exists>r rs. sw_Refs s = Some r # rs) \<Longrightarrow>
   undertow_span sp u \<noteq> None"
  by (auto simp: undertow_span_def split: option.splits list.split)

lemma undertow_fold_total:
  "\<forall>sp\<in>set sps. case sp of None \<Rightarrow> False
     | Some s \<Rightarrow> sw_ComponentId s = 84 \<and> sw_SpanId s = 0 \<and> sw_OperationName s = ''UndertowDispatch'' \<longrightarrow> (\<exists>r rs. sw_Refs s = Some r # rs) \<Longrightarrow>
   \<exists>u'. fold_opt undertow_span sps u = Some u' \<and> (us_isUndertow u' \<longrightarrow> us_isUndertow u \<or> sps \<noteq> [])"
proof (induction sps arbitrary: u)
  case (Cons sp sps)
  obtain u1 where "undertow_span sp u = Some u1" using undertow_span_total[of sp u] Cons.prems by auto
  moreover obtain u' where "fold_opt undertow_span sps u1 = Some u'" using Cons.IH[of u1] Cons.prems by auto
  ultimately show ?case by simp
qed simp

lemma undertow_scan_total:
  "undertow_safe seg \<Longrightarrow> \<exists>u. undertow_scan_of seg = Some u \<and> (us_isUndertow u \<longrightarrow> sw_spans seg \<noteq> [])"
proof -
  assume safe: "undertow_safe seg"
  let ?sps = "case sg_Spans seg of Some sps \<Rightarrow> sps | None \<Rightarrow> []"
  have "\<exists>u. undertow_scan_of seg = Some u \<and> (us_isUndertow u \<longrightarrow> ?sps \<noteq> [])"
    using undertow_fold_total[OF safe[unfolded undertow_safe_def]] by fastforce
  moreover have "?sps \<noteq> [] \<Longrightarrow> sw_spans seg \<noteq> []"
    using safe by (cases ?sps) (auto simp: undertow_safe_def sw_spans_def List.map_filter_simps split: option.splits)
  ultimately show ?thesis by blast
qed

lemma ProtoToTraces_one_scope:
  assumes "ProtoToTraces lib seg pid cid = Some td" "sw_spans seg \<noteq> []"
  shows "one_scope td"
proof -
  have "traces_spans td \<noteq> []" using ProtoToTraces_spans[OF assms(1)] assms(2) by auto
  moreover obtain r sps where "td = [\<lparr>rs_Resource = r, rs_ScopeSpans = [\<lparr>ss_Scope = [], ss_Spans = sps\<rparr>]\<rparr>]"
    using assms by (auto simp: ProtoToTraces_def Let_def bind_eq_Some_conv sw_spans_def split: option.splits)
  ultimately show ?thesis
    by (cases sps) (auto simp: one_scope_def traces_spans_def rs_spans_def)
qed

text \<open>What one call forwards: nothing, or a batch.\<close>

definition out_spans :: "traces option \<Rightarrow> span multiset" where
  "out_spans out = (case out of None \<Rightarrow> {#} | Some td \<Rightarrow> anon (traces_spans td))"

lemma CheckUndertow_conserves:
  assumes inv: "undertow_inv c" and u: "undertow_scan_of seg = Some u" and one: "us_isUndertow u \<Longrightarrow> one_scope ptd"
    and fresh: "map_load (un_ioTraceMap c) (undertow_key (sg_TraceId seg) (sg_TraceSegmentId seg)) = None"
  shows "\<exists>c' out. CheckUndertow seg ptd c = Some (c', out) \<and> undertow_inv c' \<and>
    held_spans c' + out_spans out = held_spans c + anon (traces_spans ptd) \<and>
    dom (map_of (un_ioTraceMap c')) \<subseteq> insert (undertow_key (sg_TraceId seg) (sg_TraceSegmentId seg)) (dom (map_of (un_ioTraceMap c)))"
proof -
  let ?key = "undertow_key (sg_TraceId seg) (sg_TraceSegmentId seg)"
    and ?pkey = "undertow_key (sg_TraceId seg) (us_parentSegmentId u)"
  consider "\<not> us_isUndertow u" | (io) "us_isUndertow u" "us_routeUrl u = []" | (task) "us_isUndertow u" "us_routeUrl u \<noteq> []" by blast
  then show ?thesis
  proof cases
    case 1
    then show ?thesis using inv u by (auto simp: CheckUndertow_def out_spans_def)
  next
    case io
    obtain td' where "set_first_name n ptd = Some (td' n)" "anon (traces_spans (td' n)) = anon (traces_spans ptd)" for n
      using set_first_name_one_scope[OF one[OF io(1)]] by metis
    then show ?thesis
      using io inv u fresh one held_store[OF fresh, of ptd] undertow_inv_store
      by (cases "map_load (un_routeUrlMap c) ?key") (auto simp: CheckUndertow_def out_spans_def)
  next
    case task
    show ?thesis
    proof (cases "map_load (un_ioTraceMap c) ?pkey")
      case None
      then show ?thesis using task inv u by (auto simp: CheckUndertow_def out_spans_def)
    next
      case (Some cached)
      have "one_scope cached" using inv map_of_SomeD[OF Some] by (auto simp: undertow_inv_def)
      from set_first_name_one_scope[OF this, of "us_routeUrl u"] obtain named where
        n: "set_first_name (us_routeUrl u) cached = Some named" "one_scope named" "anon (traces_spans named) = anon (traces_spans cached)" by blast
      obtain ptd1 where p: "append_scope (traces_spans named) ptd = Some ptd1" "traces_spans ptd1 = traces_spans ptd @ traces_spans named"
        using append_scope_one_scope[OF one[OF task(1)]] by blast
      show ?thesis
        using task inv u Some n p held_delete[OF _ Some] undertow_inv_delete[OF inv] first_spans_one_scope[OF n(2)]
        by (auto simp: CheckUndertow_def out_spans_def undertow_inv_def split: if_splits)
    qed
  qed
qed

definition segment_keys :: "received_segment list \<Rightarrow> string list" where
  "segment_keys segs = map (\<lambda>seg. undertow_key (sg_TraceId seg) (sg_TraceSegmentId seg)) (List.map_filter snd segs)"

text \<open>What the segments of a request convert to.\<close>

fun converted_spans :: "sw_lib \<Rightarrow> received_segment list \<Rightarrow> span multiset" where
  "converted_spans lib [] = {#}"
| "converted_spans lib ((proc, seg) # segs) =
     (case seg of
        None \<Rightarrow> {#}
      | Some sg \<Rightarrow>
          (let (pid, cid) = (case proc of Some p \<Rightarrow> p | None \<Rightarrow> (0, [])) in anon (traces_spans (the (ProtoToTraces lib sg pid cid))))) +
     converted_spans lib segs"

lemma sw_consumeTraces_conserves:
  assumes inv: "undertow_inv c" and safe: "sw_convertible seg" "undertow_safe seg"
    and fresh: "map_load (un_ioTraceMap c) (undertow_key (sg_TraceId seg) (sg_TraceSegmentId seg)) = None"
  shows "\<exists>c' out. sw_consumeTraces lib proc (Some seg) c = Some (c', out) \<and> undertow_inv c' \<and>
    held_spans c' + out_spans out = held_spans c + converted_spans lib [(proc, Some seg)] \<and>
    dom (map_of (un_ioTraceMap c')) \<subseteq> insert (undertow_key (sg_TraceId seg) (sg_TraceSegmentId seg)) (dom (map_of (un_ioTraceMap c)))"
proof -
  obtain pid cid where pc: "(case proc of Some p \<Rightarrow> p | None \<Rightarrow> (0, [])) = (pid, cid)" by fastforce
  obtain td where td: "ProtoToTraces lib seg pid cid = Some td" using ProtoToTraces_total[OF safe(1)] by blast
  obtain u where u: "undertow_scan_of seg = Some u" "us_isUndertow u \<longrightarrow> sw_spans seg \<noteq> []"
    using undertow_scan_total[OF safe(2)] by blast
  show ?thesis
    using CheckUndertow_conserves[OF inv u(1) _ fresh, of td] ProtoToTraces_one_scope[OF td] u(2)
    by (simp add: sw_consumeTraces_def pc td)
qed

lemma sw_CollectInSync_conserves:
  assumes "undertow_inv c" "\<forall>proc seg. (proc, Some seg) \<in> set segs \<longrightarrow> sw_convertible seg \<and> undertow_safe seg"
    "distinct (segment_keys segs)" "\<forall>k\<in>set (segment_keys segs). map_load (un_ioTraceMap c) k = None"
  shows "\<exists>c' tds. sw_CollectInSync lib segs c = Some (c', tds) \<and> undertow_inv c' \<and>
    held_spans c' + (\<Sum>td\<leftarrow>tds. anon (traces_spans td)) = held_spans c + converted_spans lib segs"
  using assms
proof (induction segs arbitrary: c)
  case Nil
  then show ?case by simp
next
  case (Cons r segs)
  obtain proc sg where r: "r = (proc, sg)" by (cases r)
  show ?case
  proof (cases sg)
    case None
    then have keys: "segment_keys (r # segs) = segment_keys segs" by (simp add: r segment_keys_def List.map_filter_simps)
    from Cons.IH[of c] Cons.prems show ?thesis unfolding keys by (auto simp: None r sw_consumeTraces_def)
  next
    case (Some seg)
    let ?k = "undertow_key (sg_TraceId seg) (sg_TraceSegmentId seg)"
    have keys: "segment_keys (r # segs) = ?k # segment_keys segs"
      and conv: "converted_spans lib (r # segs) = converted_spans lib [r] + converted_spans lib segs"
      by (simp_all add: Some r segment_keys_def List.map_filter_simps)
    from Cons.prems Some keys obtain c1 out where
      1: "sw_consumeTraces lib proc sg c = Some (c1, out)" "undertow_inv c1"
         "held_spans c1 + out_spans out = held_spans c + converted_spans lib [r]"
         "dom (map_of (un_ioTraceMap c1)) \<subseteq> insert ?k (dom (map_of (un_ioTraceMap c)))"
      using sw_consumeTraces_conserves[of c seg lib proc] unfolding r Some by auto
    have "\<forall>k\<in>set (segment_keys segs). map_load (un_ioTraceMap c1) k = None"
      using Cons.prems(3,4) 1(4) by (auto simp: keys dom_def)
    with Cons.IH[OF 1(2)] Cons.prems keys obtain c2 tds where
      2: "sw_CollectInSync lib segs c1 = Some (c2, tds)" "undertow_inv c2"
         "held_spans c2 + (\<Sum>td\<leftarrow>tds. anon (traces_spans td)) = held_spans c1 + converted_spans lib segs"
      by auto
    have "held_spans c2 + (\<Sum>td\<leftarrow>(case out of None \<Rightarrow> tds | Some td \<Rightarrow> td # tds). anon (traces_spans td)) =
        held_spans c2 + (\<Sum>td\<leftarrow>tds. anon (traces_spans td)) + out_spans out"
      by (simp add: out_spans_def split: option.split)
    also have "\<dots> = held_spans c + converted_spans lib (r # segs)"
      unfolding 2(3) conv using 1(3) by (metis (no_types, lifting) add.assoc add.commute)
    finally show ?thesis using 1(1) 2(1,2) by (simp add: r)
  qed
qed

definition new_undertow_cache :: undertow_cache where
  "new_undertow_cache = \<lparr>un_ioTraceMap = [], un_routeUrlMap = []\<rparr>"

text \<open>C14: A fresh receiver loses no span. A request whose segments have distinct keys (trace and segment identifier), where no identifier panics
  (\<open>sw_convertible\<close>: trace, segment and reference identifiers; no nil reference, tag or pair of a log) and which \<open>CheckUndertow\<close> can read
  (\<open>undertow_safe\<close>: no nil span, and a root span \<open>UndertowDispatch\<close> of component 84 has a first reference), is handled without a panic, and each
  converted span is forwarded or waits in the Undertow cache, exactly once and unchanged but for its name.\<close>

theorem skywalking_spans_conserved:
  assumes "\<forall>proc seg. (proc, Some seg) \<in> set segs \<longrightarrow> sw_convertible seg \<and> undertow_safe seg" "distinct (segment_keys segs)"
  shows "\<exists>c tds. sw_CollectInSync lib segs new_undertow_cache = Some (c, tds) \<and>
    held_spans c + (\<Sum>td\<leftarrow>tds. anon (traces_spans td)) = converted_spans lib segs"
  using sw_CollectInSync_conserves[OF _ assms, of new_undertow_cache lib]
  by (auto simp: new_undertow_cache_def undertow_inv_def gomap_wf_def held_spans_def)

lemma delete_store_absent: "map_load m k = None \<Longrightarrow> map_delete k (map_store k v m) = m"
  using delete_absent[of m k] by (simp add: map_store_absent map_delete_def)

text \<open>The I/O segment and the task segment of an Undertow request may arrive in either order: the same spans are
  forwarded, the first span of the I/O segment carries the route of the task, and the cache is as before. The extension may give different
  answers for the two.\<close>

theorem undertow_order_irrelevant:
  assumes io: "undertow_scan_of io = Some ui" "us_isUndertow ui" "us_routeUrl ui = []"
    and task: "undertow_scan_of task = Some ut" "us_isUndertow ut" "us_routeUrl ut \<noteq> []"
      "us_parentSegmentId ut = sg_TraceSegmentId io" "sg_TraceId task = sg_TraceId io"
    and safe: "sw_convertible io" "undertow_safe io" "sw_convertible task" "undertow_safe task"
    and fresh: "map_load (un_ioTraceMap c) (undertow_key (sg_TraceId io) (sg_TraceSegmentId io)) = None"
      "map_load (un_routeUrlMap c) (undertow_key (sg_TraceId io) (sg_TraceSegmentId io)) = None"
  shows "\<exists>task_td io_td both. sw_CollectInSync lib [(answer_task, Some task), (answer_io, Some io)] c = Some (c, [task_td, io_td]) \<and>
    sw_CollectInSync lib [(answer_io, Some io), (answer_task, Some task)] c = Some (c, [both]) \<and>
    traces_spans both = traces_spans task_td @ traces_spans io_td \<and> sp_Name (hd (traces_spans io_td)) = us_routeUrl ut"
proof -
  obtain pid cid where pc: "(case answer_io of Some p \<Rightarrow> p | None \<Rightarrow> (0, [])) = (pid, cid)" by fastforce
  obtain pid' cid' where pc': "(case answer_task of Some p \<Rightarrow> p | None \<Rightarrow> (0, [])) = (pid', cid')" by fastforce
  obtain ti where ti: "ProtoToTraces lib io pid cid = Some ti" using ProtoToTraces_total[OF safe(1)] by blast
  obtain tt where tt: "ProtoToTraces lib task pid' cid' = Some tt" using ProtoToTraces_total[OF safe(3)] by blast
  have one: "one_scope ti" "one_scope tt"
    using undertow_scan_total[OF safe(2)] undertow_scan_total[OF safe(4)] io(1,2) task(1,2)
      ProtoToTraces_one_scope[OF ti] ProtoToTraces_one_scope[OF tt] by auto
  obtain ti' where ti': "set_first_name (us_routeUrl ut) ti = Some ti'" "one_scope ti'" "sp_Name (hd (traces_spans ti')) = us_routeUrl ut"
    using set_first_name_one_scope[OF one(1)] by blast
  obtain both where both: "append_scope (traces_spans ti') tt = Some both" "traces_spans both = traces_spans tt @ traces_spans ti'"
    using append_scope_one_scope[OF one(2)] by blast
  have "sw_CollectInSync lib [(answer_task, Some task), (answer_io, Some io)] c = Some (c, [tt, ti'])"
    using fresh io task ti'(1) by (simp add: sw_consumeTraces_def pc pc' ti tt CheckUndertow_def Let_def delete_store_absent)
  moreover have "sw_CollectInSync lib [(answer_io, Some io), (answer_task, Some task)] c = Some (c, [both])"
    using fresh io task ti'(1) both(1) first_spans_one_scope[OF ti'(2)]
    by (simp add: sw_consumeTraces_def pc pc' ti tt CheckUndertow_def Let_def delete_store_absent)
  ultimately show ?thesis using both(2) ti'(3) by blast
qed

subsection \<open>An Undertow request\<close>

definition demo_sw_lib :: sw_lib where
  "demo_sw_lib = \<lparr>sl_uuid_Parse = (\<lambda>s. None), sl_RefType_String = (\<lambda>t. ''CrossThread''), sl_sql = demo_sql\<rparr>"

definition demo_sw_span :: sw_span where
  "demo_sw_span = \<lparr>sw_SpanId = 0, sw_ParentSpanId = - 1, sw_StartTime = 1, sw_EndTime = 2, sw_Refs = [], sw_OperationName = ''GET:/x'',
     sw_Peer = [], sw_SpanType = SpanType_Entry, sw_SpanLayer = SpanLayer_Http, sw_ComponentId = 84, sw_IsError = False,
     sw_Tags = None, sw_Logs = []\<rparr>"

definition demo_io :: sw_segment where
  "demo_io = \<lparr>sg_TraceId = ''t'', sg_TraceSegmentId = ''000102030405060708090a0b0c0d0e0f.1.2'', sg_Spans = Some [Some demo_sw_span],
     sg_Service = ''svc'', sg_ServiceInstance = ''i''\<rparr>"

definition demo_task :: sw_segment where
  "demo_task = \<lparr>sg_TraceId = ''t'', sg_TraceSegmentId = ''000102030405060708090a0b0c0d0e0f.1.3'',
     sg_Spans = Some
       [Some (demo_sw_span\<lparr>sw_OperationName := ''UndertowDispatch'', sw_SpanType := SpanType_Local,
                sw_Refs := [Some \<lparr>rf_RefType = 1, rf_TraceId = ''t'', rf_ParentTraceSegmentId = ''000102030405060708090a0b0c0d0e0f.1.2'',
                             rf_ParentSpanId = 0, rf_ParentService = ''svc'', rf_ParentServiceInstance = ''i'',
                             rf_ParentEndpoint = ''e'', rf_NetworkAddressUsedAtPeer = ''''\<rparr>]\<rparr>),
        Some (demo_sw_span\<lparr>sw_SpanId := 1, sw_ParentSpanId := 0, sw_ComponentId := 14, sw_OperationName := ''GET:/users/{id}''\<rparr>)],
     sg_Service = ''svc'', sg_ServiceInstance = ''i''\<rparr>"

lemmas demo_sw_defs = demo_io_def demo_task_def demo_sw_span_def

lemma demo_sw_safe: "sw_convertible demo_io" "undertow_safe demo_io" "sw_convertible demo_task" "undertow_safe demo_task"
  by (simp_all add: demo_sw_defs sw_convertible_def undertow_safe_def sw_id_panics_def sw_span_ok_def sw_ref_ok_def sw_spans_def List.map_filter_simps)

theorem segment_tree_preserved_witness:
  "\<exists>td. ProtoToTraces demo_sw_lib demo_task 0 [] = Some td \<and> length (traces_spans td) = 2 \<and>
     distinct (map sp_SpanID (traces_spans td)) \<and> sp_ParentSpanID (traces_spans td ! 1) = sp_SpanID (traces_spans td ! 0)"
proof -
  have sps: "length (sw_spans demo_task) = 2" "sw_ParentSpanId (sw_spans demo_task ! 1) = 0" "sw_SpanId (sw_spans demo_task ! 0) = 0"
    by (simp_all add: demo_sw_defs sw_spans_def List.map_filter_simps)
  have ok: "sw_id_ok (sg_TraceSegmentId demo_task)" "distinct (map sw_SpanId (sw_spans demo_task))"
    "\<forall>s\<in>set (sw_spans demo_task). int32 (sw_SpanId s) \<and> int32 (sw_ParentSpanId s)"
    by (simp_all add: demo_sw_defs sw_spans_def List.map_filter_simps sw_id_ok_def sw_id_parts_def Let_def hex_digit_def Atoi_def)
  obtain td where "ProtoToTraces demo_sw_lib demo_task 0 [] = Some td" "length (traces_spans td) = 2"
    "distinct (map sp_SpanID (traces_spans td))" "sp_ParentSpanID (traces_spans td ! 1) = sp_SpanID (traces_spans td ! 0)"
    using segment_tree_preserved[OF ok(1) demo_sw_safe(3) ok(2,3), of demo_sw_lib 0 "[]"] sps by auto
  then show ?thesis by blast
qed

theorem skywalking_spans_conserved_witness:
  "\<exists>c tds. sw_CollectInSync demo_sw_lib [(None, Some demo_io), (None, None), (Some (7, ''c1''), Some demo_task)] new_undertow_cache = Some (c, tds) \<and>
     held_spans c + (\<Sum>td\<leftarrow>tds. anon (traces_spans td)) =
       converted_spans demo_sw_lib [(None, Some demo_io), (None, None), (Some (7, ''c1''), Some demo_task)]"
  by (rule skywalking_spans_conserved)
    (use demo_sw_safe in \<open>auto simp: segment_keys_def List.map_filter_simps undertow_key_def demo_sw_defs\<close>)

theorem undertow_order_irrelevant_witness:
  "\<exists>task_td io_td both. sw_CollectInSync demo_sw_lib [(Some (7, ''c1''), Some demo_task), (None, Some demo_io)] new_undertow_cache = Some (new_undertow_cache, [task_td, io_td]) \<and>
    sw_CollectInSync demo_sw_lib [(None, Some demo_io), (Some (7, ''c1''), Some demo_task)] new_undertow_cache = Some (new_undertow_cache, [both]) \<and>
    traces_spans both = traces_spans task_td @ traces_spans io_td \<and> sp_Name (hd (traces_spans io_td)) = ''GET:/users/{id}''"
proof -
  have io: "undertow_scan_of demo_io = Some \<lparr>us_isUndertow = True, us_routeUrl = [], us_parentSegmentId = []\<rparr>"
    and task: "undertow_scan_of demo_task = Some \<lparr>us_isUndertow = True, us_routeUrl = ''GET:/users/{id}'',
        us_parentSegmentId = ''000102030405060708090a0b0c0d0e0f.1.2''\<rparr>"
    by (simp_all add: demo_sw_defs undertow_span_def)
  show ?thesis
    using undertow_order_irrelevant[OF io _ _ task _ _ _ _ demo_sw_safe, of new_undertow_cache demo_sw_lib "Some (7, ''c1'')" None]
    by (simp add: demo_sw_defs new_undertow_cache_def)
qed

end
