(* ===== verification/SkyReceiver.thy ===== *)
theory SkyReceiver
  imports Skywalking OtlpServer
begin

section \<open>Life cycle of the Skywalking receiver\<close>

text \<open>
  \<open>receiver/skywalkingreceiver\<close>: configuration (\<open>config.go\<close>), factory (\<open>factory.go\<close>), starting and stopping (\<open>skywalking_receiver.go\<close>) and the
  management service (\<open>sw_management_service.go\<close>).

  As for the OTLP receiver, errors of sockets and server construction are arguments (\<open>host_env\<close>), servers are what is registered with them
  and \<open>sr_goroutines\<close> is the wait group. The trace receiver is \<open>None\<close> while no traces consumer is registered; otherwise it is
  its \<open>FillProcExtension\<close>, itself possibly nil. \<open>None\<close> as a result is a panic, or a wait that never ends.
\<close>

subsection \<open>Configuration\<close>

record sw_config =
  skc_GRPC :: "string option"
  skc_HTTP :: "string option"
  skc_ExtensionID :: "string option"

datatype sw_config_error = NoProtocol | GrpcEndpoint endpoint_error | HttpEndpoint endpoint_error | EmptyConfig | UnmarshalError

definition sw_Validate :: "sw_config \<Rightarrow> sw_config_error option" where
  "sw_Validate cfg =
     (if skc_GRPC cfg = None \<and> skc_HTTP cfg = None then Some NoProtocol
      else case (case skc_GRPC cfg of
                   Some endpoint \<Rightarrow> (case extractPortFromEndpoint endpoint of Inl err \<Rightarrow> Some (GrpcEndpoint err) | Inr _ \<Rightarrow> None)
                 | None \<Rightarrow> None) of
             Some err \<Rightarrow> Some err
           | None \<Rightarrow>
               (case skc_HTTP cfg of
                  Some endpoint \<Rightarrow> (case extractPortFromEndpoint endpoint of Inl err \<Rightarrow> Some (HttpEndpoint err) | Inr _ \<Rightarrow> None)
                | None \<Rightarrow> None))"

text \<open>\<open>decoded\<close> is the result of the generic decoding into the configuration, \<open>sub_ok\<close> whether the protocols are a map.\<close>

definition sw_Unmarshal :: "bool \<Rightarrow> sw_config option \<Rightarrow> bool \<Rightarrow> bool \<Rightarrow> bool \<Rightarrow> sw_config_error + sw_config" where
  "sw_Unmarshal no_keys decoded sub_ok grpcSet httpSet =
     (if no_keys then Inl EmptyConfig
      else case decoded of
             None \<Rightarrow> Inl UnmarshalError
           | Some cfg \<Rightarrow>
               if \<not> sub_ok then Inl UnmarshalError
               else
                 (let cfg1 = (if \<not> grpcSet then cfg\<lparr>skc_GRPC := None\<rparr> else cfg) in
                  Inr (if \<not> httpSet then cfg1\<lparr>skc_HTTP := None\<rparr> else cfg1)))"

definition defaultGRPCPort :: int where "defaultGRPCPort = 11800"
definition defaultHTTPPort :: int where "defaultHTTPPort = 12800"

definition sw_createDefaultConfig :: "bool \<Rightarrow> sw_config" where
  "sw_createDefaultConfig enabled =
     \<lparr>skc_GRPC = Some (EndpointForPort enabled defaultGRPCPort), skc_HTTP = Some (EndpointForPort enabled defaultHTTPPort),
      skc_ExtensionID = None\<rparr>"

record sw_configuration =
  CollectorHTTPPort :: int
  CollectorHTTPEndpoint :: string
  CollectorGRPCPort :: int
  CollectorGRPCEndpoint :: string
  ComponmentIdFillProc :: "string option"

definition createConfiguration :: "sw_config \<Rightarrow> sw_config_error + sw_configuration" where
  "createConfiguration rCfg =
     (let c0 = \<lparr>CollectorHTTPPort = 0, CollectorHTTPEndpoint = [], CollectorGRPCPort = 0, CollectorGRPCEndpoint = [],
                ComponmentIdFillProc = None\<rparr> in
      case (case skc_GRPC rCfg of
              Some e \<Rightarrow>
                (case extractPortFromEndpoint e of
                   Inl err \<Rightarrow> Inl (GrpcEndpoint err)
                 | Inr port \<Rightarrow> Inr (c0\<lparr>CollectorGRPCEndpoint := e, CollectorGRPCPort := port\<rparr>))
            | None \<Rightarrow> Inr c0) of
        Inl err \<Rightarrow> Inl err
      | Inr c1 \<Rightarrow>
          (case (case skc_HTTP rCfg of
                   Some e \<Rightarrow>
                     (case extractPortFromEndpoint e of
                        Inl err \<Rightarrow> Inl (HttpEndpoint err)
                      | Inr port \<Rightarrow> Inr (c1\<lparr>CollectorHTTPEndpoint := e, CollectorHTTPPort := port\<rparr>))
                 | None \<Rightarrow> Inr c1) of
             Inl err \<Rightarrow> Inl err
           | Inr c2 \<Rightarrow> Inr (c2\<lparr>ComponmentIdFillProc := skc_ExtensionID rCfg\<rparr>)))"

subsection \<open>The receiver\<close>

datatype sw_service =
  TraceSegmentReportService | JVMMetricReportService | ManagementService | ConfigurationDiscoveryService | EventService
| ProfileTask | MeterReportService | CLRMetricReportService | BrowserPerfService

record 'x sw_receiver =
  sr_config :: sw_configuration
  sr_grpc :: "sw_service list option"
  sr_grpcAddr :: "string option"
  sr_collectorServer :: "string list option"
  sr_goroutines :: "transport list"
  sr_traceReceiver :: "'x option option"
  sr_metricsReceiver :: bool

definition newSkywalkingReceiver :: "sw_configuration \<Rightarrow> 'x sw_receiver" where
  "newSkywalkingReceiver c =
     \<lparr>sr_config = c, sr_grpc = None, sr_grpcAddr = None, sr_collectorServer = None, sr_goroutines = [], sr_traceReceiver = None,
      sr_metricsReceiver = False\<rparr>"

text \<open>\<open>obs\<close> are the errors of \<open>NewObsReport\<close> in \<open>NewReceiver\<close>, which on an error returns nil.\<close>

definition sw_registerTraceConsumer :: "errs \<times> errs \<Rightarrow> 'x sw_receiver \<Rightarrow> 'x sw_receiver \<times> errs" where
  "sw_registerTraceConsumer obs sr =
     (let err = (if fst obs \<noteq> None then fst obs else snd obs) in
      if err \<noteq> None then (sr\<lparr>sr_traceReceiver := None\<rparr>, err) else (sr\<lparr>sr_traceReceiver := Some None\<rparr>, None))"

definition sw_registerMetricsConsumer :: "errs \<times> errs \<Rightarrow> 'x sw_receiver \<Rightarrow> 'x sw_receiver \<times> errs" where
  "sw_registerMetricsConsumer obs sr =
     (let err = (if fst obs \<noteq> None then fst obs else snd obs) in
      if err \<noteq> None then (sr\<lparr>sr_metricsReceiver := False\<rparr>, err) else (sr\<lparr>sr_metricsReceiver := True\<rparr>, None))"

definition collectorGRPCAddr :: "'x sw_receiver \<Rightarrow> string" where
  "collectorGRPCAddr sr = '':'' @ dec_int (CollectorGRPCPort (sr_config sr))"

definition collectorGRPCEnabled :: "'x sw_receiver \<Rightarrow> bool" where
  "collectorGRPCEnabled sr \<longleftrightarrow> CollectorGRPCPort (sr_config sr) > 0"

definition collectorHTTPEnabled :: "'x sw_receiver \<Rightarrow> bool" where
  "collectorHTTPEnabled sr \<longleftrightarrow> CollectorHTTPPort (sr_config sr) > 0"

definition start_http :: "'x host_env \<Rightarrow> 'x sw_receiver \<Rightarrow> 'x sw_receiver \<times> errs" where
  "start_http host sr =
     (case he_httpListen host of
        Some err \<Rightarrow> (sr, Some (''failed to bind to Collector address'' # err))
      | None \<Rightarrow>
          (case he_httpToServer host of
             Some err \<Rightarrow> (sr\<lparr>sr_collectorServer := None\<rparr>, Some err)
           | None \<Rightarrow> (sr\<lparr>sr_collectorServer := Some [''/v3/segments''], sr_goroutines := sr_goroutines sr @ [TransportHTTP]\<rparr>, None)))"

definition start_grpc :: "'x host_env \<Rightarrow> 'x sw_receiver \<Rightarrow> 'x sw_receiver \<times> errs" where
  "start_grpc host sr =
     (case he_grpcToServer host of
        Some err \<Rightarrow> (sr\<lparr>sr_grpc := None\<rparr>, Some (''failed to build the options for the Skywalking gRPC Collector'' # err))
      | None \<Rightarrow>
          (let sr1 = sr\<lparr>sr_grpc := Some []\<rparr>; gaddr = collectorGRPCAddr sr in
           case he_grpcListen host of
             Some err \<Rightarrow> (sr1, Some (''failed to bind to gRPC address'' # gaddr # err))
           | None \<Rightarrow>
               (let services =
                      (if sr_traceReceiver sr \<noteq> None then [TraceSegmentReportService] else []) @
                      (if sr_metricsReceiver sr then [JVMMetricReportService] else []) @
                      [ManagementService, ConfigurationDiscoveryService, EventService, ProfileTask, MeterReportService,
                       CLRMetricReportService, BrowserPerfService]
                in (sr1\<lparr>sr_grpc := Some services, sr_grpcAddr := Some gaddr, sr_goroutines := sr_goroutines sr1 @ [TransportGRPC]\<rparr>, None))))"

definition startCollector :: "'x host_env \<Rightarrow> 'x sw_receiver \<Rightarrow> 'x sw_receiver \<times> errs" where
  "startCollector host sr =
     (if \<not> collectorGRPCEnabled sr \<and> \<not> collectorHTTPEnabled sr then (sr, None)
      else
        (let (sr1, err) = (if collectorHTTPEnabled sr then start_http host sr else (sr, None)) in
         if err \<noteq> None then (sr1, err)
         else if collectorGRPCEnabled sr1 then start_grpc host sr1
         else (sr1, None)))"

text \<open>Writing the extension into the trace receiver dereferences it.\<close>

definition sw_Start :: "'x host_env \<Rightarrow> 'x sw_receiver \<Rightarrow> ('x sw_receiver \<times> errs) option" where
  "sw_Start host sr =
     (case ComponmentIdFillProc (sr_config sr) of
        Some i \<Rightarrow>
          (case map_load (he_extensions host) i of
             None \<Rightarrow> Some (sr, Some [''unknown fillProc'', i])
           | Some extension \<Rightarrow>
               do {
                 x \<leftarrow> extension;
                 _ \<leftarrow> sr_traceReceiver sr;
                 Some (startCollector host (sr\<lparr>sr_traceReceiver := Some (Some x)\<rparr>))
               })
      | None \<Rightarrow> Some (startCollector host sr))"

definition sw_Shutdown :: "'x host_env \<Rightarrow> 'x sw_receiver \<Rightarrow> ('x sw_receiver \<times> errs) option" where
  "sw_Shutdown host sr =
     (let errs = (if sr_collectorServer sr \<noteq> None then he_httpShutdown host else None);
          g1 = (if sr_collectorServer sr \<noteq> None then removeAll TransportHTTP (sr_goroutines sr) else sr_goroutines sr);
          g2 = (if sr_grpc sr \<noteq> None then removeAll TransportGRPC g1 else g1)
      in if g2 \<noteq> [] then None else Some (sr\<lparr>sr_goroutines := []\<rparr>, errs))"

subsection \<open>The management service\<close>

text \<open>\<open>ReportInstanceProperties\<close> and \<open>KeepAlive\<close> let the extension look up the peer, so that it is known when segments come.\<close>

definition ReportInstanceProperties ::
  "'s fill_proc_ops \<Rightarrow> (string \<times> string) option \<Rightarrow> 's option option \<Rightarrow> 's option option option" where
  "ReportInstanceProperties ops ctx traceReceiver =
     (case traceReceiver of
        Some (Some s) \<Rightarrow> do { (s1, _) \<leftarrow> fp_Match ops ctx s; Some (Some (Some s1)) }
      | _ \<Rightarrow> Some traceReceiver)"

definition KeepAlive ::
  "'s fill_proc_ops \<Rightarrow> (string \<times> string) option \<Rightarrow> 's option option \<Rightarrow> 's option option option" where
  "KeepAlive ops ctx traceReceiver =
     (case traceReceiver of
        Some (Some s) \<Rightarrow> do { (s1, _) \<leftarrow> fp_Match ops ctx s; Some (Some (Some s1)) }
      | _ \<Rightarrow> Some traceReceiver)"

subsection \<open>Factory\<close>

type_synonym 'x sw_receivers = "(nat, 'x sw_receiver) shared_components"

datatype sw_create_error = ConfigError sw_config_error | RegisterError "string list"

definition sw_create ::
  "('x sw_receiver \<Rightarrow> 'x sw_receiver \<times> errs) \<Rightarrow> nat \<Rightarrow> sw_config \<Rightarrow> 'x sw_receivers \<Rightarrow> (sw_create_error + nat) \<times> 'x sw_receivers" where
  "sw_create register key cfg receivers =
     (case createConfiguration cfg of
        Inl err \<Rightarrow> (Inl (ConfigError err), receivers)
      | Inr c \<Rightarrow>
          (let (p, m) = GetOrAdd key (newSkywalkingReceiver c) receivers;
               (sr, err) = register (shc_Unwrap p m);
               m1 = m\<lparr>shs_heap := (shs_heap m)[p := (shs_heap m ! p)\<lparr>shc_Component := sr\<rparr>]\<rparr>
           in case err of Some e \<Rightarrow> (Inl (RegisterError e), m1) | None \<Rightarrow> (Inr p, m1)))"

definition createTracesReceiver where "createTracesReceiver obs = sw_create (sw_registerTraceConsumer obs)"
definition createMetricsReceiver where "createMetricsReceiver obs = sw_create (sw_registerMetricsConsumer obs)"

subsection \<open>Starting and stopping\<close>

text \<open>What the servers should offer; the HTTP collector is started first.\<close>

definition sw_services :: "'x sw_receiver \<Rightarrow> sw_service list" where
  "sw_services sr =
     (if sr_traceReceiver sr \<noteq> None then [TraceSegmentReportService] else []) @ (if sr_metricsReceiver sr then [JVMMetricReportService] else []) @
     [ManagementService, ConfigurationDiscoveryService, EventService, ProfileTask, MeterReportService, CLRMetricReportService, BrowserPerfService]"

definition sw_enabled :: "'x sw_receiver \<Rightarrow> transport list" where
  "sw_enabled sr = (if collectorHTTPEnabled sr then [TransportHTTP] else []) @ (if collectorGRPCEnabled sr then [TransportGRPC] else [])"

definition sw_started :: "'x sw_receiver \<Rightarrow> 'x sw_receiver \<Rightarrow> errs \<Rightarrow> bool" where
  "sw_started sr sr' err \<longleftrightarrow>
     (if err = None then
        sr_goroutines sr' = sw_enabled sr \<and>
        (collectorGRPCEnabled sr \<longrightarrow> sr_grpc sr' = Some (sw_services sr)) \<and>
        (collectorHTTPEnabled sr \<longrightarrow> sr_collectorServer sr' = Some [''/v3/segments''])
      else \<exists>rest. sw_enabled sr = sr_goroutines sr' @ rest \<and> rest \<noteq> [])"

text \<open>The extension is known, of the right type, and there is a trace receiver to give it to.\<close>

definition sw_usable :: "'x host_env \<Rightarrow> 'x sw_receiver \<Rightarrow> bool" where
  "sw_usable host sr \<longleftrightarrow>
     (case ComponmentIdFillProc (sr_config sr) of
        Some i \<Rightarrow> (\<exists>x. map_load (he_extensions host) i = Some (Some x)) \<and> sr_traceReceiver sr \<noteq> None
      | None \<Rightarrow> True)"

lemma enabled_upd [simp]:
  "collectorGRPCEnabled (sr\<lparr>sr_grpc := a\<rparr>) = collectorGRPCEnabled sr" "collectorHTTPEnabled (sr\<lparr>sr_grpc := a\<rparr>) = collectorHTTPEnabled sr"
  "collectorGRPCEnabled (sr\<lparr>sr_collectorServer := b\<rparr>) = collectorGRPCEnabled sr"
  "collectorGRPCEnabled (sr\<lparr>sr_collectorServer := b, sr_goroutines := c\<rparr>) = collectorGRPCEnabled sr"
  "collectorGRPCEnabled (sr\<lparr>sr_traceReceiver := d\<rparr>) = collectorGRPCEnabled sr"
  "collectorHTTPEnabled (sr\<lparr>sr_traceReceiver := d\<rparr>) = collectorHTTPEnabled sr"
  by (simp_all add: collectorGRPCEnabled_def collectorHTTPEnabled_def)

lemma start_httpE:
  assumes "(sr', err) = start_http host sr"
  obtains "err = None" "sr' = sr\<lparr>sr_collectorServer := Some [''/v3/segments''], sr_goroutines := sr_goroutines sr @ [TransportHTTP]\<rparr>"
  | "err \<noteq> None" "sr_goroutines sr' = sr_goroutines sr"
  using assms by (auto simp: start_http_def split: option.splits)

lemma start_grpcE:
  assumes "(sr', err) = start_grpc host sr"
  obtains "err = None" "sr' = sr\<lparr>sr_grpc := Some (sw_services sr), sr_grpcAddr := Some (collectorGRPCAddr sr),
      sr_goroutines := sr_goroutines sr @ [TransportGRPC]\<rparr>"
  | "err \<noteq> None" "sr_goroutines sr' = sr_goroutines sr" "sr_collectorServer sr' = sr_collectorServer sr"
  using assms by (auto simp: start_grpc_def sw_services_def Let_def split: option.splits)

text \<open>Stopping returns when every running goroutine belongs to a server that is still known.\<close>

definition sw_stoppable :: "'x sw_receiver \<Rightarrow> bool" where
  "sw_stoppable sr \<longleftrightarrow> (TransportHTTP \<in> set (sr_goroutines sr) \<longrightarrow> sr_collectorServer sr \<noteq> None) \<and>
     (TransportGRPC \<in> set (sr_goroutines sr) \<longrightarrow> sr_grpc sr \<noteq> None)"

lemma no_member_Nil: "(\<And>x. x \<notin> set xs) \<Longrightarrow> xs = []"
  by (cases xs) auto

lemma sw_Shutdown_ok:
  assumes "sw_stoppable sr"
  shows "\<exists>e. sw_Shutdown host sr = Some (sr\<lparr>sr_goroutines := []\<rparr>, e)"
proof -
  let ?g1 = "if sr_collectorServer sr \<noteq> None then removeAll TransportHTTP (sr_goroutines sr) else sr_goroutines sr"
  let ?g2 = "if sr_grpc sr \<noteq> None then removeAll TransportGRPC ?g1 else ?g1"
  have "x \<notin> set ?g2" for x by (cases x) (use assms in \<open>auto simp: sw_stoppable_def\<close>)
  then have "?g2 = []" by (rule no_member_Nil)
  then show ?thesis by (simp only: sw_Shutdown_def Let_def) (simp only: if_False not_True_eq_False simp_thms, blast)
qed

lemma startCollector_result:
  assumes new: "sr_goroutines sr = []" and r: "startCollector host sr = (sr', err)"
  shows "sw_started sr sr' err" and "sw_stoppable sr'"
proof -
  consider (both) sr1 where "collectorGRPCEnabled sr" "collectorHTTPEnabled sr" "(sr1, None) = start_http host sr" "(sr', err) = start_grpc host sr1"
    | (grpc) "collectorGRPCEnabled sr" "\<not> collectorHTTPEnabled sr" "(sr', err) = start_grpc host sr"
    | (http) "collectorHTTPEnabled sr" "(sr', err) = start_http host sr" "err = None \<longrightarrow> \<not> collectorGRPCEnabled sr"
    | (none) "\<not> collectorGRPCEnabled sr" "\<not> collectorHTTPEnabled sr" "sr' = sr" "err = None"
  proof -
    obtain sr1 e1 where s1: "start_http host sr = (sr1, e1)" by fastforce
    from start_httpE [OF s1 [symmetric]] have "collectorGRPCEnabled sr1 = collectorGRPCEnabled sr" if "e1 = None"
      using that by cases (simp_all add: collectorGRPCEnabled_def)
    with r s1 that show ?thesis by (auto simp: startCollector_def split: if_splits)
  qed
  then have "sw_started sr sr' err \<and> sw_stoppable sr'"
  proof cases
    case both
    then have sr1: "sr1 = sr\<lparr>sr_collectorServer := Some [''/v3/segments''], sr_goroutines := [TransportHTTP]\<rparr>"
      using new by (auto elim: start_httpE)
    from both(4) show ?thesis
      by (cases rule: start_grpcE) (use both(1, 2) in \<open>auto simp: sr1 sw_started_def sw_enabled_def sw_stoppable_def sw_services_def\<close>)
  next
    case grpc
    from grpc(3) show ?thesis
      by (cases rule: start_grpcE) (use grpc(1, 2) new in \<open>auto simp: sw_started_def sw_enabled_def sw_stoppable_def\<close>)
  next
    case http
    from http(2) show ?thesis
      by (cases rule: start_httpE) (use http(1, 3) new in \<open>auto simp: sw_started_def sw_enabled_def sw_stoppable_def\<close>)
  next
    case none
    with new show ?thesis by (auto simp: sw_started_def sw_enabled_def sw_stoppable_def)
  qed
  then show "sw_started sr sr' err" and "sw_stoppable sr'" by auto
qed

lemma sw_Start_result:
  assumes new: "sr_goroutines sr = []" and ok: "sw_usable host sr"
  shows "\<exists>sr' err. sw_Start host sr = Some (sr', err) \<and> sw_started sr sr' err \<and>
    (\<exists>e. sw_Shutdown host sr' = Some (sr'\<lparr>sr_goroutines := []\<rparr>, e))"
proof (cases "ComponmentIdFillProc (sr_config sr)")
  case None
  obtain sr' err where r: "startCollector host sr = (sr', err)" by fastforce
  with None startCollector_result [OF new r] sw_Shutdown_ok [of sr' host] show ?thesis by (simp add: sw_Start_def)
next
  case (Some i)
  with ok obtain x t where x: "map_load (he_extensions host) i = Some (Some x)" "sr_traceReceiver sr = Some t"
    by (auto simp: sw_usable_def)
  let ?sr = "sr\<lparr>sr_traceReceiver := Some (Some x)\<rparr>"
  obtain sr' err where r: "startCollector host ?sr = (sr', err)" by fastforce
  have "sw_started ?sr sr' err = sw_started sr sr' err"
    by (simp add: sw_started_def sw_services_def sw_enabled_def x(2))
  with Some x r startCollector_result [OF _ r] new sw_Shutdown_ok [of sr' host] show ?thesis by (simp add: sw_Start_def)
qed

text \<open>Starting panics exactly when the configured extension exists but is not a \<open>FillProc\<close>, or exists while no traces pipeline uses
  the receiver: the extension is written into a trace receiver that was never created.\<close>

theorem sky_start_panics_iff:
  "sw_Start host sr = None \<longleftrightarrow>
     (\<exists>i ext. ComponmentIdFillProc (sr_config sr) = Some i \<and> map_load (he_extensions host) i = Some ext \<and>
        (ext = None \<or> sr_traceReceiver sr = None))"
  by (auto simp: sw_Start_def split: option.splits bind_splits)

subsection \<open>Configurations\<close>

text \<open>Validation and set-up agree: a configuration passes \<open>Validate\<close> exactly when it names a protocol and can be turned into the settings of the
  receiver, which then serves exactly the configured protocols, each on the port written in its endpoint.\<close>

theorem sky_validated_config:
  "sw_Validate cfg = None \<longleftrightarrow>
     (skc_GRPC cfg \<noteq> None \<or> skc_HTTP cfg \<noteq> None) \<and>
     (\<exists>c. createConfiguration cfg = Inr c \<and>
        (collectorGRPCEnabled (newSkywalkingReceiver c) \<longleftrightarrow> skc_GRPC cfg \<noteq> None) \<and>
        (collectorHTTPEnabled (newSkywalkingReceiver c) \<longleftrightarrow> skc_HTTP cfg \<noteq> None) \<and>
        (\<forall>e. skc_GRPC cfg = Some e \<longrightarrow> extractPortFromEndpoint e = Inr (CollectorGRPCPort c)) \<and>
        (\<forall>e. skc_HTTP cfg = Some e \<longrightarrow> extractPortFromEndpoint e = Inr (CollectorHTTPPort c)))"
  using extract_range
  by (fastforce simp: sw_Validate_def createConfiguration_def collectorGRPCEnabled_def collectorHTTPEnabled_def newSkywalkingReceiver_def
      Let_def split: option.splits sum.splits)

text \<open>The address the gRPC collector listens on has no host, whatever the endpoint says.\<close>

lemma sky_grpc_host_ignored:
  assumes "createConfiguration cfg = Inr c" "he_grpcToServer host = None" "he_grpcListen host = None"
  shows "sr_grpcAddr (fst (start_grpc host (newSkywalkingReceiver c))) = Some ('':'' @ dec_int (CollectorGRPCPort c))"
  using assms by (simp add: start_grpc_def collectorGRPCAddr_def newSkywalkingReceiver_def Let_def)

subsection \<open>One receiver for both signals\<close>

datatype sw_signal = SwTraces | SwMetrics

fun sw_create_of where
  "sw_create_of SwTraces = createTracesReceiver"
| "sw_create_of SwMetrics = createMetricsReceiver"

definition sw_create_all :: "nat \<Rightarrow> sw_config \<Rightarrow> sw_signal list \<Rightarrow> 'x sw_receivers \<Rightarrow> 'x sw_receivers" where
  "sw_create_all key cfg signals m = foldl (\<lambda>m sig. snd (sw_create_of sig (None, None) key cfg m)) m signals"

definition sw_receiver_for :: "sw_configuration \<Rightarrow> sw_signal set \<Rightarrow> 'x sw_receiver" where
  "sw_receiver_for c sigs = (newSkywalkingReceiver c)\<lparr>sr_traceReceiver := (if SwTraces \<in> sigs then Some None else None),
     sr_metricsReceiver := (SwMetrics \<in> sigs)\<rparr>"

definition sw_one_receiver :: "nat \<Rightarrow> sw_configuration \<Rightarrow> sw_signal set \<Rightarrow> 'x sw_receivers \<Rightarrow> bool" where
  "sw_one_receiver key c sigs m \<longleftrightarrow>
     m = \<lparr>shs_heap = [\<lparr>shc_Component = sw_receiver_for c sigs, shc_startOnce = False, shc_stopOnce = False, shc_key = key\<rparr>],
          shs_comps = [(key, 0)]\<rparr>"

lemma sw_create_step:
  assumes "createConfiguration cfg = Inr c"
  shows "sw_one_receiver key c {sig} (snd (sw_create_of sig (None, None) key cfg NewSharedComponents))"
    and "sw_one_receiver key c sigs m \<Longrightarrow> sw_one_receiver key c (insert sig sigs) (snd (sw_create_of sig (None, None) key cfg m))"
  by (cases sig; auto simp: assms sw_one_receiver_def createTracesReceiver_def createMetricsReceiver_def sw_create_def GetOrAdd_def
      NewSharedComponents_def sw_registerTraceConsumer_def sw_registerMetricsConsumer_def shc_Unwrap_def sw_receiver_for_def
      newSkywalkingReceiver_def map_store_def Let_def)+

lemma sw_create_all_one:
  assumes c: "createConfiguration cfg = Inr c"
  shows "signals \<noteq> [] \<Longrightarrow> sw_one_receiver key c (set signals) (sw_create_all key cfg signals NewSharedComponents)"
proof (induction signals rule: rev_induct)
  case (snoc sig signals)
  then show ?case
    using sw_create_step [OF c] by (cases "signals = []") (simp_all add: sw_create_all_def)
qed simp

text \<open>C31: From the factory to the end: the traces and the metrics pipeline of a configuration share one receiver, with the services of exactly the
  signals asked for. When the holders start and stop it, beginning with a start, in any number and order, nothing panics or
  hangs provided the extension can be used; the enabled collectors run until somebody stops the receiver, a start that fails leaves at most the
  HTTP collector running, and after a stop nothing runs and the configuration is free again.\<close>

theorem sky_receiver_lifecycle:
  fixes host :: "'x host_env"
  assumes cfg: "createConfiguration cfg = Inr c" and "signals \<noteq> []" "set es \<subseteq> {StartIt 0, StopIt 0}"
    and ok: "sw_usable host (sw_receiver_for c (set signals))"
  shows "\<exists>m sr1 err. shs_run (sw_Start host) (sw_Shutdown host) (StartIt 0 # es) (sw_create_all key cfg signals NewSharedComponents) = Some m \<and>
    sw_started (sw_receiver_for c (set signals)) sr1 err \<and>
    (if StopIt 0 \<in> set es then sr_goroutines (shc_Unwrap 0 m) = [] \<and> map_load (shs_comps m) key \<noteq> Some 0 else shc_Unwrap 0 m = sr1)"
proof -
  let ?m = "sw_create_all key cfg signals NewSharedComponents :: 'x sw_receivers" and ?sr = "sw_receiver_for c (set signals)"
  have one: "sw_one_receiver key c (set signals) ?m" using sw_create_all_one [OF cfg assms(2)] .
  then have m: "0 < length (shs_heap ?m)" "calls_done (shs_heap ?m ! 0) = []" "shc_Component (shs_heap ?m ! 0) = ?sr" "shs_inv ?m"
    by (auto simp: sw_one_receiver_def calls_done_def shs_inv_def gomap_wf_def)
  have "sr_goroutines ?sr = []" by (simp add: sw_receiver_for_def newSkywalkingReceiver_def)
  from sw_Start_result [OF this ok] obtain sr1 err e where
    s: "sw_Start host ?sr = Some (sr1, err)" "sw_started ?sr sr1 err" "sw_Shutdown host sr1 = Some (sr1\<lparr>sr_goroutines := []\<rparr>, e)" by blast
  have "sw_Start host (shc_Component (shs_heap ?m ! 0)) = Some (sr1, err)" using m(3) s(1) by simp
  from shs_single_run [where start = "sw_Start host" and stop = "sw_Shutdown host", OF m(1, 2) assms(3) this s(3)]
  obtain m' where m': "shs_run (sw_Start host) (sw_Shutdown host) (StartIt 0 # es) ?m = Some m'" "0 < length (shs_heap m')"
    "shc_Component (shs_heap m' ! 0) = (if StopIt 0 \<in> set es then sr1\<lparr>sr_goroutines := []\<rparr> else sr1)"
    "shc_stopOnce (shs_heap m' ! 0) \<longleftrightarrow> StopIt 0 \<in> set es" by blast
  let ?step = "shared_step (\<lambda>k v t. GetOrAdd k v) (shc_Start (sw_Start host)) (shc_Shutdown (sw_Shutdown host))"
  have "guarded shs_guard ?step xs s"
    if "set xs \<subseteq> {StartIt 0, StopIt 0}" "0 < length (shs_heap s)" for xs s
    using that
  proof (induction xs arbitrary: s)
    case (Cons x xs)
    have "0 < length (shs_heap s1)" if "?step x s = Some s1" for s1
      using shs_step_at [OF Cons.prems(2) that] by (simp add: seen_from_def)
    moreover have "shs_guard x s" using Cons.prems by auto
    ultimately show ?case using Cons.IH Cons.prems(1) by (auto simp del: shs_guard.simps split: option.splits)
  qed simp
  from plain.shared_run_inv [OF m(4) this m'(1)] assms(3) m(1) have "shs_inv m'" by auto
  then have "map_load (shs_comps m') key \<noteq> Some 0" if "StopIt 0 \<in> set es"
    using that m'(4) shs_invD [of m' key 0] by auto
  with m' s(2) show ?thesis by (auto simp: shc_Unwrap_def intro!: exI [of _ m'] exI [of _ sr1] exI [of _ err])
qed

text \<open>The default configuration listens on the default ports.\<close>

lemma sw_default_configuration:
  "createConfiguration (sw_createDefaultConfig enabled) =
     Inr \<lparr>CollectorHTTPPort = 12800, CollectorHTTPEndpoint = EndpointForPort enabled 12800, CollectorGRPCPort = 11800,
          CollectorGRPCEndpoint = EndpointForPort enabled 11800, ComponmentIdFillProc = None\<rparr>"
proof -
  have "extractPortFromEndpoint (EndpointForPort enabled p) = Inr p" if "1 \<le> p" "p \<le> 65535" for p
    using extract_plain [of "if enabled then ''localhost'' else ''0.0.0.0''" p] that by (cases enabled) (simp_all add: EndpointForPort_def)
  then show ?thesis by (simp add: createConfiguration_def sw_createDefaultConfig_def defaultGRPCPort_def defaultHTTPPort_def)
qed

theorem sky_receiver_lifecycle_witness:
  "\<exists>m. shs_run (sw_Start demo_host) (sw_Shutdown demo_host) [StartIt 0, StopIt 0, StartIt 0]
     (sw_create_all 3 (sw_createDefaultConfig False) [SwMetrics, SwTraces] NewSharedComponents) = Some m \<and>
   sr_goroutines (shc_Unwrap 0 m) = [] \<and> map_load (shs_comps m) 3 \<noteq> Some 0"
proof -
  have "sw_usable demo_host (sw_receiver_for c (set [SwMetrics, SwTraces]))" if "ComponmentIdFillProc c = None" for c
    using that by (simp add: sw_usable_def sw_receiver_for_def newSkywalkingReceiver_def)
  then show ?thesis
    using sky_receiver_lifecycle [OF sw_default_configuration, of "[SwMetrics, SwTraces]" "[StopIt 0, StartIt 0]" demo_host False 3] by fastforce
qed

end
