(* ===== verification/Pmetric.thy ===== *)
theory Pmetric
  imports Pdata
begin

section \<open>Metrics data\<close>

text \<open>
  OTLP metrics (\<open>pmetric.Metrics\<close>) as plain data, with the fields that the metrics receivers and the metadata processor read
  or write. Histogram, exponential histogram and summary points carry a rest \<open>'h\<close> that no code here looks at.

  A sample value is a \<open>float64\<close>: not a number, an infinity, or a rational.
\<close>

datatype float_value = NaN | Inf bool | Fin f64

datatype number_value = NumberEmpty | IntValue int | DoubleValue float_value

record number_point =
  np_Attributes :: attrs
  np_StartTimestamp :: u64
  np_Timestamp :: u64
  np_Value :: number_value

record 'h other_point =
  op_Attributes :: attrs
  op_rest :: 'h

datatype 'h metric_data =
  MetricEmpty
| MetricGauge "number_point list"
| MetricSum (ms_Cumulative: bool) (ms_Monotonic: bool) (ms_DataPoints: "number_point list")
| MetricHistogram "'h other_point list"
| MetricExponentialHistogram "'h other_point list"
| MetricSummary "'h other_point list"

record 'h pmetric =
  pm_Name :: string
  pm_Unit :: string
  pm_Data :: "'h metric_data"

record 'h scope_metrics =
  sm_ScopeName :: string
  sm_ScopeVersion :: string
  sm_Metrics :: "'h pmetric list"

record 'h resource_metrics =
  rm_Resource :: attrs
  rm_ScopeMetrics :: "'h scope_metrics list"

type_synonym 'h metrics = "'h resource_metrics list"

text \<open>\<open>AppendEmpty\<close> on the data points of a metric, with zero values.\<close>

definition empty_point :: number_point where
  "empty_point = \<lparr>np_Attributes = [], np_StartTimestamp = 0, np_Timestamp = 0, np_Value = NumberEmpty\<rparr>"

text \<open>Milliseconds since the epoch as a timestamp: 64-bit nanoseconds that wrap. This is \<open>NewTimestampFromTime(time.UnixMilli(ms))\<close>, and
  also \<open>Timestamp(ms * int64(time.Millisecond))\<close>.\<close>

definition millis_timestamp :: "int \<Rightarrow> u64" where
  "millis_timestamp ms = word_of_int (ms * 1000000)"

lemma unat_millis_timestamp:
  assumes "0 \<le> ms" "ms * 1000000 < 2 ^ 64"
  shows "uint (millis_timestamp ms) = ms * 1000000"
proof -
  have "uint (millis_timestamp ms) = (ms * 1000000) mod 2 ^ 64"
    unfolding millis_timestamp_def uint_word_of_int by simp
  then show ?thesis using assms by (simp only: mod_pos_pos_trivial)
qed

subsection \<open>Points of a metric\<close>

fun number_points :: "'h metric_data \<Rightarrow> number_point list" where
  "number_points (MetricGauge ps) = ps"
| "number_points (MetricSum c m ps) = ps"
| "number_points _ = []"

fun point_attrs :: "'h metric_data \<Rightarrow> attrs list" where
  "point_attrs MetricEmpty = []"
| "point_attrs (MetricGauge ps) = map np_Attributes ps"
| "point_attrs (MetricSum c m ps) = map np_Attributes ps"
| "point_attrs (MetricHistogram ps) = map op_Attributes ps"
| "point_attrs (MetricExponentialHistogram ps) = map op_Attributes ps"
| "point_attrs (MetricSummary ps) = map op_Attributes ps"

definition all_metrics :: "'h metrics \<Rightarrow> 'h pmetric list" where
  "all_metrics md = concat (map (\<lambda>rm. concat (map sm_Metrics (rm_ScopeMetrics rm))) md)"

text \<open>Attribute keys are unique in every point.\<close>

definition metrics_wf :: "'h metrics \<Rightarrow> bool" where
  "metrics_wf md \<longleftrightarrow> (\<forall>m \<in> set (all_metrics md). \<forall>a \<in> set (point_attrs (pm_Data m)). gomap_wf a)"

end
