(* ===== verification/SkyMetrics.thy ===== *)
theory SkyMetrics
  imports Pmetric
begin

section \<open>JVM metrics of Skywalking agents\<close>

text \<open>
  \<open>receiver/skywalkingreceiver/internal/metrics\<close>: \<open>SwMetricsToMetrics\<close> and the report service. Messages are third-party data, whose pointers may be
  nil (\<open>option\<close>); the texts of the enumerations are arguments. \<open>None\<close> is the panic of a nil pointer that is read.
\<close>

datatype pool_type = CODE_CACHE_USAGE | NEWGEN_USAGE | OLDGEN_USAGE | SURVIVOR_USAGE | PERMGEN_USAGE | METASPACE_USAGE | PoolType_other int

record jvm_gc =
  gc_Phase :: int
  gc_Count :: int
  gc_Time :: int

record jvm_pool =
  pool_Type :: pool_type
  pool_Init :: int
  pool_Max :: int
  pool_Used :: int
  pool_Committed :: int

record jvm_thread =
  th_LiveCount :: int
  th_DaemonCount :: int
  th_PeakCount :: int
  th_RunnableStateThreadCount :: int
  th_BlockedStateThreadCount :: int
  th_WaitingStateThreadCount :: int
  th_TimedWaitingStateThreadCount :: int

text \<open>The sections \<open>memory\<close> and \<open>clazz\<close> of the message are never read by the conversion.\<close>

record jvm_memory =
  mem_IsHeap :: bool
  mem_Init :: int
  mem_Max :: int
  mem_Used :: int
  mem_Committed :: int

record jvm_class =
  cl_LoadedClassCount :: int
  cl_TotalUnloadedClassCount :: int
  cl_TotalLoadedClassCount :: int

record jvm_metric =
  jm_Time :: int
  jm_Cpu :: "float_value option"
  jm_Memory :: "jvm_memory option list"
  jm_MemoryPool :: "jvm_pool option list"
  jm_Gc :: "jvm_gc option list"
  jm_Thread :: "jvm_thread option"
  jm_Clazz :: "jvm_class option"

record jvm_collection =
  jc_Metrics :: "jvm_metric option list"
  jc_Service :: string
  jc_ServiceInstance :: string

record enum_texts =
  phase_String :: "int \<Rightarrow> string"
  pool_String :: "pool_type \<Rightarrow> string"

definition put_str :: "string \<Rightarrow> string \<Rightarrow> attrs \<Rightarrow> attrs" where
  "put_str k v a = map_store k (ValueStr v) a"

definition fillNumberDataPointIntValue :: "int \<Rightarrow> int \<Rightarrow> attrs \<Rightarrow> number_point" where
  "fillNumberDataPointIntValue timestamp value a =
     empty_point\<lparr>np_Attributes := a, np_Timestamp := millis_timestamp timestamp, np_Value := IntValue value\<rparr>"

definition fillNumberDataPointDoubleValue :: "int \<Rightarrow> float_value \<Rightarrow> attrs \<Rightarrow> number_point" where
  "fillNumberDataPointDoubleValue timestamp value a =
     empty_point\<lparr>np_Attributes := a, np_Timestamp := millis_timestamp timestamp, np_Value := DoubleValue value\<rparr>"

definition gauge_metric :: "string \<Rightarrow> string \<Rightarrow> number_point list \<Rightarrow> 'h pmetric" where
  "gauge_metric name munit dps = \<lparr>pm_Name = name, pm_Unit = munit, pm_Data = MetricGauge dps\<rparr>"

text \<open>A loop over pointers: reading through nil panics.\<close>

fun each_ptr :: "('a \<Rightarrow> 'b) \<Rightarrow> 'a option list \<Rightarrow> 'b list option" where
  "each_ptr f [] = Some []"
| "each_ptr f (p # ps) = do { x \<leftarrow> p; ys \<leftarrow> each_ptr f ps; Some (f x # ys) }"

definition buildGCAttrs :: "enum_texts \<Rightarrow> jvm_gc \<Rightarrow> attrs" where
  "buildGCAttrs texts gc = put_str ''jvm.gc.name'' (phase_String texts (gc_Phase gc)) []"

definition gcMetricToMetrics :: "enum_texts \<Rightarrow> int \<Rightarrow> jvm_gc option list \<Rightarrow> 'h pmetric list option" where
  "gcMetricToMetrics texts timestamp gcList =
     do {
       counts \<leftarrow> each_ptr (\<lambda>gc. fillNumberDataPointIntValue timestamp (gc_Count gc) (buildGCAttrs texts gc)) gcList;
       times \<leftarrow> each_ptr (\<lambda>gc. fillNumberDataPointIntValue timestamp (gc_Time gc) (buildGCAttrs texts gc)) gcList;
       Some [gauge_metric ''sw.jvm.gc.count'' [] counts, gauge_metric ''sw.jvm.gc.duration'' ''ms'' times]
     }"

definition buildMemoryPoolAttrs :: "enum_texts \<Rightarrow> jvm_pool \<Rightarrow> attrs" where
  "buildMemoryPoolAttrs texts pool =
     (let memoryType =
            (if pool_Type pool \<in> {CODE_CACHE_USAGE, METASPACE_USAGE, PERMGEN_USAGE} then ''non_heap''
             else if pool_Type pool \<in> {NEWGEN_USAGE, OLDGEN_USAGE, SURVIVOR_USAGE} then ''heap'' else [])
      in put_str ''jvm.memory.type'' memoryType (put_str ''jvm.memory.pool.name'' (pool_String texts (pool_Type pool)) []))"

definition memoryPoolMetricToMetrics :: "enum_texts \<Rightarrow> int \<Rightarrow> jvm_pool option list \<Rightarrow> 'h pmetric list option" where
  "memoryPoolMetricToMetrics texts timestamp pools =
     (let pts = (\<lambda>value. each_ptr (\<lambda>pool. fillNumberDataPointIntValue timestamp (value pool) (buildMemoryPoolAttrs texts pool)) pools) in
      do {
        i \<leftarrow> pts pool_Init;
        u \<leftarrow> pts pool_Used;
        m \<leftarrow> pts pool_Max;
        c \<leftarrow> pts pool_Committed;
        Some [gauge_metric ''jvm.memory.init'' ''By'' i, gauge_metric ''jvm.memory.used'' ''By'' u,
              gauge_metric ''jvm.memory.max'' ''By'' m, gauge_metric ''jvm.memory.committed'' ''By'' c]
      })"

definition buildThreadTypeAttrs :: "string \<Rightarrow> attrs" where
  "buildThreadTypeAttrs typeValue =
     (let isDaemon = (typeValue = ''daemon'') in
      map_store ''thread.daemon'' (ValueBool isDaemon) (put_str ''thread.state'' typeValue []))"

definition threadMetricToMetrics :: "int \<Rightarrow> jvm_thread option \<Rightarrow> 'h pmetric list option" where
  "threadMetricToMetrics timestamp thread =
     do {
       t \<leftarrow> thread;
       let dp = (\<lambda>value typeValue. fillNumberDataPointIntValue timestamp value (buildThreadTypeAttrs typeValue));
       Some [gauge_metric ''jvm.thread.count'' ''{thread}''
         [dp (th_LiveCount t) ''live'', dp (th_DaemonCount t) ''daemon'', dp (th_PeakCount t) ''peak'',
          dp (th_RunnableStateThreadCount t) ''runnable'', dp (th_BlockedStateThreadCount t) ''blocked'',
          dp (th_WaitingStateThreadCount t) ''waiting'', dp (th_TimedWaitingStateThreadCount t) ''time_waiting'']]
     }"

definition cpuMetricToMetrics :: "int \<Rightarrow> float_value option \<Rightarrow> 'h pmetric list option" where
  "cpuMetricToMetrics timestamp cpu =
     do {
       usage \<leftarrow> cpu;
       Some [gauge_metric ''jvm.cpu.recent_utilization'' ''1'' [fillNumberDataPointDoubleValue timestamp usage []]]
     }"

definition jvmMetricToResourceMetrics :: "enum_texts \<Rightarrow> jvm_metric \<Rightarrow> 'h pmetric list option" where
  "jvmMetricToResourceMetrics texts jvmMetric =
     do {
       g \<leftarrow> gcMetricToMetrics texts (jm_Time jvmMetric) (jm_Gc jvmMetric);
       p \<leftarrow> memoryPoolMetricToMetrics texts (jm_Time jvmMetric) (jm_MemoryPool jvmMetric);
       t \<leftarrow> threadMetricToMetrics (jm_Time jvmMetric) (jm_Thread jvmMetric);
       c \<leftarrow> cpuMetricToMetrics (jm_Time jvmMetric) (jm_Cpu jvmMetric);
       Some (g @ p @ t @ c)
     }"

definition jvmMetricToResource :: "string \<Rightarrow> string \<Rightarrow> attrs \<Rightarrow> attrs" where
  "jvmMetricToResource serviceName serviceInstance a =
     put_str ''service.instance.id'' serviceInstance (put_str AttributeServiceName serviceName a)"

fun jvm_metrics_loop :: "enum_texts \<Rightarrow> jvm_collection \<Rightarrow> jvm_metric option list \<Rightarrow> 'h metrics option" where
  "jvm_metrics_loop texts collection [] = Some []"
| "jvm_metrics_loop texts collection (p # ps) =
     do {
       jvmMetric \<leftarrow> p;
       ms \<leftarrow> jvmMetricToResourceMetrics texts jvmMetric;
       rest \<leftarrow> jvm_metrics_loop texts collection ps;
       Some (\<lparr>rm_Resource = jvmMetricToResource (jc_Service collection) (jc_ServiceInstance collection) [],
              rm_ScopeMetrics = [\<lparr>sm_ScopeName = ''runtime_metrics'', sm_ScopeVersion = [], sm_Metrics = ms\<rparr>]\<rparr> # rest)
     }"

definition SwMetricsToMetrics :: "enum_texts \<Rightarrow> jvm_collection \<Rightarrow> 'h metrics option" where
  "SwMetricsToMetrics texts collection = jvm_metrics_loop texts collection (jc_Metrics collection)"

text \<open>The report service: what the next consumer gets, and the error of the answer.\<close>

definition sw_consumeMetrics :: "enum_texts \<Rightarrow> ('h metrics \<Rightarrow> 'e option) \<Rightarrow> jvm_collection option \<Rightarrow> ('h metrics option \<times> 'e option) option" where
  "sw_consumeMetrics texts nextConsumer collection =
     (case collection of
        None \<Rightarrow> Some (None, None)
      | Some c \<Rightarrow> do { pmd \<leftarrow> SwMetricsToMetrics texts c; Some (Some pmd, nextConsumer pmd) })"

subsection \<open>Properties\<close>

lemma each_ptr_iff: "each_ptr f ps = Some ys \<longleftrightarrow> None \<notin> set ps \<and> ys = map (f \<circ> the) ps"
proof (induction ps arbitrary: ys)
  case (Cons p ps)
  then show ?case by (cases p) (auto simp: bind_eq_Some_conv)
qed auto

lemma each_ptr_None: "each_ptr f ps = None \<longleftrightarrow> None \<in> set ps"
  using each_ptr_iff [of f ps] by (cases "each_ptr f ps") auto

text \<open>A JVM metric whose messages are all there.\<close>

definition jvm_complete :: "jvm_metric \<Rightarrow> bool" where
  "jvm_complete m \<longleftrightarrow> None \<notin> set (jm_Gc m) \<and> None \<notin> set (jm_MemoryPool m) \<and> jm_Thread m \<noteq> None \<and> jm_Cpu m \<noteq> None"

text \<open>The points a JVM metric should give, by metric name.\<close>

definition jvm_points :: "enum_texts \<Rightarrow> jvm_metric \<Rightarrow> (string \<times> (number_value \<times> attrs) list) list" where
  "jvm_points texts m =
     (let gcs = map the (jm_Gc m); pools = map the (jm_MemoryPool m); t = the (jm_Thread m);
          of_gc = (\<lambda>f. map (\<lambda>g. (IntValue (f g), buildGCAttrs texts g)) gcs);
          of_pool = (\<lambda>f. map (\<lambda>p. (IntValue (f p), buildMemoryPoolAttrs texts p)) pools);
          of_thread = (\<lambda>v s. (IntValue v, buildThreadTypeAttrs s))
      in [(''sw.jvm.gc.count'', of_gc gc_Count), (''sw.jvm.gc.duration'', of_gc gc_Time), (''jvm.memory.init'', of_pool pool_Init),
          (''jvm.memory.used'', of_pool pool_Used), (''jvm.memory.max'', of_pool pool_Max), (''jvm.memory.committed'', of_pool pool_Committed),
          (''jvm.thread.count'', [of_thread (th_LiveCount t) ''live'', of_thread (th_DaemonCount t) ''daemon'', of_thread (th_PeakCount t) ''peak'',
             of_thread (th_RunnableStateThreadCount t) ''runnable'', of_thread (th_BlockedStateThreadCount t) ''blocked'',
             of_thread (th_WaitingStateThreadCount t) ''waiting'', of_thread (th_TimedWaitingStateThreadCount t) ''time_waiting'']),
          (''jvm.cpu.recent_utilization'', [(DoubleValue (the (jm_Cpu m)), [])])])"

definition metric_points :: "'h pmetric \<Rightarrow> string \<times> (number_value \<times> attrs) list" where
  "metric_points m = (pm_Name m, map (\<lambda>p. (np_Value p, np_Attributes p)) (number_points (pm_Data m)))"

lemmas jvm_defs = jvmMetricToResourceMetrics_def gcMetricToMetrics_def memoryPoolMetricToMetrics_def threadMetricToMetrics_def cpuMetricToMetrics_def

lemma jvm_metric_None: "jvmMetricToResourceMetrics texts m = None \<longleftrightarrow> \<not> jvm_complete m"
proof (cases "None \<in> set (jm_Gc m)")
  case True
  then have "each_ptr f (jm_Gc m) = None" for f :: "jvm_gc \<Rightarrow> number_point" by (simp add: each_ptr_None)
  with True show ?thesis by (simp add: jvm_defs jvm_complete_def)
next
  case gc: False
  then have g: "each_ptr f (jm_Gc m) = Some (map (f \<circ> the) (jm_Gc m))" for f :: "jvm_gc \<Rightarrow> number_point" by (simp add: each_ptr_iff)
  show ?thesis
  proof (cases "None \<in> set (jm_MemoryPool m)")
    case True
    then have "each_ptr f (jm_MemoryPool m) = None" for f :: "jvm_pool \<Rightarrow> number_point" by (simp add: each_ptr_None)
    with True g show ?thesis by (simp add: jvm_defs jvm_complete_def Let_def)
  next
    case False
    then have "each_ptr f (jm_MemoryPool m) = Some (map (f \<circ> the) (jm_MemoryPool m))" for f :: "jvm_pool \<Rightarrow> number_point"
      by (simp add: each_ptr_iff)
    with False gc g show ?thesis
      by (cases "jm_Thread m"; cases "jm_Cpu m") (simp_all add: jvm_defs jvm_complete_def Let_def)
  qed
qed

lemma jvm_metric_points:
  assumes "jvm_complete m"
  shows "\<exists>ms. jvmMetricToResourceMetrics texts m = Some ms \<and> map metric_points ms = jvm_points texts m \<and>
    (\<forall>x \<in> set ms. \<forall>p \<in> set (number_points (pm_Data x)). np_Timestamp p = millis_timestamp (jm_Time m))"
proof -
  from assms have g: "each_ptr f (jm_Gc m) = Some (map (f \<circ> the) (jm_Gc m))"
    and p: "each_ptr h (jm_MemoryPool m) = Some (map (h \<circ> the) (jm_MemoryPool m))"
    for f :: "jvm_gc \<Rightarrow> number_point" and h :: "jvm_pool \<Rightarrow> number_point" by (simp_all add: jvm_complete_def each_ptr_iff)
  from assms obtain t c where "jm_Thread m = Some t" "jm_Cpu m = Some c" by (auto simp: jvm_complete_def)
  then show ?thesis
    by (auto simp: jvm_defs g p jvm_points_def metric_points_def gauge_metric_def fillNumberDataPointIntValue_def fillNumberDataPointDoubleValue_def
        empty_point_def Let_def comp_def)
qed

text \<open>The conversion panics exactly when a message of the collection is missing: an entry, a garbage collector, a memory pool, or the thread or
  CPU section of an entry, which the protocol does not require.\<close>

theorem jvm_metrics_panic_iff:
  "(SwMetricsToMetrics texts collection :: 'a metrics option) = None \<longleftrightarrow> (\<exists>p \<in> set (jc_Metrics collection). case p of None \<Rightarrow> True | Some m \<Rightarrow> \<not> jvm_complete m)"
proof -
  have "(jvm_metrics_loop texts collection ps :: 'a metrics option) = None \<longleftrightarrow> (\<exists>p \<in> set ps. case p of None \<Rightarrow> True | Some m \<Rightarrow> \<not> jvm_complete m)" for ps
  proof (induction ps)
    case (Cons p ps)
    then show ?case
    proof (cases p)
      case (Some m)
      with Cons jvm_metric_None [of texts m, where ?'a = 'a] show ?thesis
        by (cases "jvmMetricToResourceMetrics texts m :: 'a pmetric list option") (auto split: bind_splits)
    qed simp
  qed simp
  then show ?thesis by (simp add: SwMetricsToMetrics_def)
qed

definition jvm_reported :: "enum_texts \<Rightarrow> jvm_collection \<Rightarrow> jvm_metric option \<Rightarrow> 'h resource_metrics \<Rightarrow> bool" where
  "jvm_reported texts collection p rm \<longleftrightarrow>
     map_load (rm_Resource rm) AttributeServiceName = Some (ValueStr (jc_Service collection)) \<and>
     map_load (rm_Resource rm) ''service.instance.id'' = Some (ValueStr (jc_ServiceInstance collection)) \<and>
     (\<exists>ms. map sm_Metrics (rm_ScopeMetrics rm) = [ms] \<and> map metric_points ms = jvm_points texts (the p) \<and>
        (\<forall>x \<in> set ms. \<forall>q \<in> set (number_points (pm_Data x)). np_Timestamp q = millis_timestamp (jm_Time (the p))))"

text \<open>Two entries that differ in the unread sections only.\<close>

definition with_unread :: "(jvm_metric \<Rightarrow> jvm_memory option list) \<Rightarrow> (jvm_metric \<Rightarrow> jvm_class option) \<Rightarrow> jvm_collection \<Rightarrow> jvm_collection" where
  "with_unread f g c = c\<lparr>jc_Metrics := map (map_option (\<lambda>m. m\<lparr>jm_Memory := f m, jm_Clazz := g m\<rparr>)) (jc_Metrics c)\<rparr>"

lemma unread_sections: "SwMetricsToMetrics texts (with_unread f g collection) = SwMetricsToMetrics texts collection"
proof -
  have "jvm_metrics_loop texts (with_unread f g collection) (map (map_option (\<lambda>m. m\<lparr>jm_Memory := f m, jm_Clazz := g m\<rparr>)) ps) =
      jvm_metrics_loop texts collection ps" for ps
  proof (induction ps)
    case (Cons p ps)
    then show ?case by (cases p) (simp_all add: jvmMetricToResourceMetrics_def with_unread_def)
  qed simp
  then show ?thesis by (simp add: SwMetricsToMetrics_def with_unread_def)
qed

text \<open>C35: What arrives of an agent's report. For a collection without nil messages in the sections that are read (garbage collectors, memory pools, threads, CPU),
  there is one resource per entry, with the service and its instance, and for each entry the eight runtime metrics hold exactly the numbers of its garbage-collector,
  memory-pool, thread and CPU sections with their attributes, all with the time of the entry. The \<open>memory\<close> and \<open>clazz\<close> sections are dropped:
  whatever they hold, the result is the same.\<close>

theorem jvm_metrics_complete:
  assumes "\<forall>p \<in> set (jc_Metrics collection). \<exists>m. p = Some m \<and> jvm_complete m"
  shows "\<exists>md :: 'h metrics. SwMetricsToMetrics texts collection = Some md \<and> list_all2 (jvm_reported texts collection) (jc_Metrics collection) md \<and>
    (\<forall>f g. SwMetricsToMetrics texts (with_unread f g collection) = Some md)"
proof -
  have "\<exists>md :: 'h metrics. jvm_metrics_loop texts collection ps = Some md \<and> list_all2 (jvm_reported texts collection) ps md"
    if "\<forall>p \<in> set ps. \<exists>m. p = Some m \<and> jvm_complete m" for ps
    using that
  proof (induction ps)
    case (Cons p ps)
    then obtain m where m: "p = Some m" "jvm_complete m" by auto
    from jvm_metric_points [OF m(2), of texts] obtain ms :: "'h pmetric list" where ms: "jvmMetricToResourceMetrics texts m = Some ms"
      "map metric_points ms = jvm_points texts m" "\<forall>x \<in> set ms. \<forall>p \<in> set (number_points (pm_Data x)). np_Timestamp p = millis_timestamp (jm_Time m)"
      by blast
    from Cons show ?case by (auto simp: m(1) ms jvm_reported_def jvmMetricToResource_def put_str_def)
  qed simp
  with assms show ?thesis unfolding unread_sections by (auto simp: SwMetricsToMetrics_def)
qed

definition demo_texts :: enum_texts where
  "demo_texts = \<lparr>phase_String = (\<lambda>i. if i = 0 then ''NEW'' else ''OLD''), pool_String = (\<lambda>_. ''pool'')\<rparr>"

definition demo_jvm :: jvm_collection where
  "demo_jvm = \<lparr>jc_Metrics = [Some \<lparr>jm_Time = 5, jm_Cpu = Some (Fin (1/2)), jm_Memory = [], jm_MemoryPool = [], jm_Gc = [Some \<lparr>gc_Phase = 0, gc_Count = 3, gc_Time = 9\<rparr>],
      jm_Thread = Some \<lparr>th_LiveCount = 1, th_DaemonCount = 0, th_PeakCount = 1, th_RunnableStateThreadCount = 1, th_BlockedStateThreadCount = 0,
        th_WaitingStateThreadCount = 0, th_TimedWaitingStateThreadCount = 0\<rparr>, jm_Clazz = None\<rparr>], jc_Service = ''s'', jc_ServiceInstance = ''i''\<rparr>"

theorem jvm_metrics_complete_witness:
  "\<exists>rm :: unit resource_metrics. SwMetricsToMetrics demo_texts demo_jvm = Some [rm] \<and> map_load (rm_Resource rm) AttributeServiceName = Some (ValueStr ''s'')"
  using jvm_metrics_complete [of demo_jvm demo_texts] by (auto simp: demo_jvm_def jvm_complete_def list_all2_Cons1 jvm_reported_def)

end
