(* ===== verification/EntryUrl.thy ===== *)
theory EntryUrl
  imports RedCache
begin

section \<open>Matching exit spans with their entry span\<close>

text \<open>
  \<open>redmetricsconnector/internal/cache/entry_url_mapping.go\<close>: per trace, the names of the entry spans and the
  parents of the internal spans, from which the entry of an exit span (client, producer) is found by
  climbing; exit spans whose entry has not arrived yet wait in \<open>unMatchedSpans\<close>; a ring of trace
  identifiers ages the mappings.

  \<^item> \<open>GetEntrySpanName\<close> recurses along parents that arrive from outside, so it is a
    \<open>partial_function\<close>: a climb that never ends is \<open>None\<close>, and so is a batch that contains one.
  \<^item> \<open>cachedTraces\<close> holds pointers into \<open>entryUrlMap\<close>; it is the list of its keys here.
  \<^item> \<open>CleanUnMatchedSpans\<close> counts the expired spans without the lock and cuts the list under it: two
    definitions, so that another call can be placed between them.
\<close>

subsection \<open>The mapping of one trace\<close>

record entry_url_mapping =
  em_entrySpanNames :: "(span_id, string) gomap"
  em_pspanIds :: "(span_id, span_id) gomap"

definition newEntryUrlMapping :: entry_url_mapping where
  "newEntryUrlMapping = \<lparr>em_entrySpanNames = [], em_pspanIds = []\<rparr>"

definition AddMapping_span :: "span \<Rightarrow> entry_url_mapping \<Rightarrow> entry_url_mapping" where
  "AddMapping_span sp m =
     (if sp_Kind sp = SpanKindServer \<or> sp_Kind sp = SpanKindConsumer
      then m\<lparr>em_entrySpanNames := map_store (sp_SpanID sp) (sp_Name sp) (em_entrySpanNames m)\<rparr>
      else if sp_Kind sp \<noteq> SpanKindClient \<and> sp_Kind sp \<noteq> SpanKindProducer
      then m\<lparr>em_pspanIds := map_store (sp_SpanID sp) (sp_ParentSpanID sp) (em_pspanIds m)\<rparr>
      else m)"

definition AddMapping :: "span list \<Rightarrow> entry_url_mapping \<Rightarrow> entry_url_mapping" where
  "AddMapping spans m = fold AddMapping_span spans m"

partial_function (option) GetEntrySpanName :: "entry_url_mapping \<Rightarrow> span_id \<Rightarrow> string option" where
  "GetEntrySpanName m spanId =
     (case map_load (em_entrySpanNames m) spanId of
        Some url \<Rightarrow> Some url
      | None \<Rightarrow>
          (case map_load (em_pspanIds m) spanId of
             Some parent \<Rightarrow> GetEntrySpanName m parent
           | None \<Rightarrow> Some []))"

declare GetEntrySpanName.simps [code]

subsection \<open>Resource spans\<close>

record resource_span =
  rsp_ExpireTime :: int
  rsp_Pid :: string
  rsp_ContainerId :: string
  rsp_ServiceName :: string
  rsp_EntryUrl :: string
  rsp_Span :: span

definition NewResourceSpan :: "int \<Rightarrow> string \<Rightarrow> string \<Rightarrow> string \<Rightarrow> string \<Rightarrow> span \<Rightarrow> resource_span" where
  "NewResourceSpan t pid containerId serviceName entryUrl sp =
     \<lparr>rsp_ExpireTime = t, rsp_Pid = pid, rsp_ContainerId = containerId, rsp_ServiceName = serviceName,
      rsp_EntryUrl = entryUrl, rsp_Span = sp\<rparr>"

definition SetEntryUrl :: "string \<Rightarrow> resource_span \<Rightarrow> resource_span" where
  "SetEntryUrl entryUrl rsp = rsp\<lparr>rsp_EntryUrl := entryUrl\<rparr>"

text \<open>\<open>GetResourceAttribute\<close> returns pid, service name and container id; all empty when the pid or the service is missing.\<close>

definition GetResourceAttribute :: "resource_spans \<Rightarrow> string \<times> string \<times> string" where
  "GetResourceAttribute rss =
     (let pidIntValue = GetPid (rs_Resource rss) in
      if pidIntValue \<le> 0 then ([], [], [])
      else case map_load (rs_Resource rss) AttributeServiceName of
             None \<Rightarrow> ([], [], [])
           | Some serviceAttr \<Rightarrow>
               (let containerId = GetContainerId (rs_Resource rss) in
                (dec_int pidIntValue, value_Str serviceAttr,
                 if length containerId > 12 then take 12 containerId else containerId)))"

subsection \<open>The cache\<close>

record entry_url_cache =
  ec_entryUrlMap :: "(trace_id, entry_url_mapping) gomap"
  ec_unMatchedSpans :: "resource_span list"
  ec_idBatch :: batch
  ec_idBuckets :: id_buckets
  ec_expireUnMatcheTime :: int

datatype entry_cache_error = InvalidCacheEntryUrlTime int | InvalidUnmatchUrlExpireTime int

definition NewEntryUrlCache :: "int \<Rightarrow> int \<Rightarrow> entry_cache_error + entry_url_cache" where
  "NewEntryUrlCache cacheUrlTime expireTime =
     (if cacheUrlTime < 0 then Inl (InvalidCacheEntryUrlTime cacheUrlTime)
      else if expireTime < 0 then Inl (InvalidUnmatchUrlExpireTime expireTime)
      else Inr \<lparr>ec_entryUrlMap = [], ec_unMatchedSpans = [], ec_idBatch = [],
                ec_idBuckets = NewBuckets cacheUrlTime, ec_expireUnMatcheTime = expireTime\<rparr>)"

text \<open>The first loop of \<open>GetMatchedResourceSpans\<close>: record the groups of one resource.\<close>

definition record_group ::
  "trace_id \<times> span list \<Rightarrow> entry_url_cache \<times> trace_id list \<Rightarrow> entry_url_cache \<times> trace_id list" where
  "record_group g st =
     (case (g, st) of ((tid, spans), (cache, cachedTraces)) \<Rightarrow>
        (let (mapping, cache1) =
               (case map_load (ec_entryUrlMap cache) tid of
                  Some mapping \<Rightarrow> (mapping, cache)
                | None \<Rightarrow> (newEntryUrlMapping, cache\<lparr>ec_idBatch := AddToBatch tid (ec_idBatch cache)\<rparr>))
         in (cache1\<lparr>ec_entryUrlMap := map_store tid (AddMapping spans mapping) (ec_entryUrlMap cache1)\<rparr>,
             tid # cachedTraces)))"

definition record_traces :: "traces \<Rightarrow> entry_url_cache \<Rightarrow> entry_url_cache \<times> trace_id list" where
  "record_traces traces cache = fold (\<lambda>rss. fold record_group (groupSpansByTraceId rss)) traces (cache, [])"

text \<open>The second loop: waiting spans of the touched traces whose entry is now known leave the list.\<close>

fun match_waiting ::
  "(trace_id, entry_url_mapping) gomap \<Rightarrow> trace_id list \<Rightarrow> resource_span list \<Rightarrow> (resource_span list \<times> resource_span list) option" where
  "match_waiting urlMap cachedTraces [] = Some ([], [])"
| "match_waiting urlMap cachedTraces (w # ws) =
     (let sp = rsp_Span w in
      case (if sp_TraceID sp \<in> set cachedTraces then map_load urlMap (sp_TraceID sp) else None) of
        None \<Rightarrow>
          do { (waiting, result) \<leftarrow> match_waiting urlMap cachedTraces ws; Some (w # waiting, result) }
      | Some traceMapping \<Rightarrow>
          do {
            entryUrl \<leftarrow> GetEntrySpanName traceMapping (sp_ParentSpanID sp);
            (waiting, result) \<leftarrow> match_waiting urlMap cachedTraces ws;
            Some (if entryUrl \<noteq> [] then (waiting, SetEntryUrl entryUrl w # result) else (w # waiting, result))
          })"

text \<open>The third loop: one span of the batch.\<close>

definition match_span ::
  "pdata_api \<Rightarrow> int \<Rightarrow> string \<times> string \<times> string \<Rightarrow> (trace_id, entry_url_mapping) gomap \<Rightarrow> span \<Rightarrow>
   resource_span list \<times> resource_span list \<Rightarrow> (resource_span list \<times> resource_span list) option" where
  "match_span api expireTime attr urlMap sp st =
     (case (attr, st) of ((pid, serviceName, containerId), (waiting, result)) \<Rightarrow>
        let mk = (\<lambda>entryUrl. NewResourceSpan expireTime pid containerId serviceName entryUrl sp) in
        if sp_Kind sp = SpanKindClient \<or> sp_Kind sp = SpanKindProducer then
          (case map_load urlMap (sp_TraceID sp) of
             None \<Rightarrow> Some (waiting, result)
           | Some mapping \<Rightarrow>
               if SpanID_IsEmpty api (sp_ParentSpanID sp) then Some (waiting, result @ [mk (sp_Name sp)])
               else
                 do {
                   entryUrl \<leftarrow> GetEntrySpanName mapping (sp_ParentSpanID sp);
                   Some (if entryUrl = [] then (waiting @ [mk []], result) else (waiting, result @ [mk entryUrl]))
                 })
        else if sp_Kind sp = SpanKindConsumer \<or> sp_Kind sp = SpanKindServer then
          Some (waiting, result @ [mk (sp_Name sp)])
        else Some (waiting, result))"

definition match_resource ::
  "pdata_api \<Rightarrow> int \<Rightarrow> (trace_id, entry_url_mapping) gomap \<Rightarrow> resource_spans \<Rightarrow>
   resource_span list \<times> resource_span list \<Rightarrow> (resource_span list \<times> resource_span list) option" where
  "match_resource api expireTime urlMap rss st =
     (let attr = GetResourceAttribute rss in
      if fst attr = [] \<or> fst (snd attr) = [] then Some st
      else fold_opt (\<lambda>ils. fold_opt (match_span api expireTime attr urlMap) (ss_Spans ils)) (rs_ScopeSpans rss) st)"

definition GetMatchedResourceSpans ::
  "pdata_api \<Rightarrow> int \<Rightarrow> traces \<Rightarrow> entry_url_cache \<Rightarrow> (entry_url_cache \<times> resource_span list) option" where
  "GetMatchedResourceSpans api now traces cache =
     (let (cache1, cachedTraces) = record_traces traces cache;
          urlMap = ec_entryUrlMap cache1;
          expireTime = i64 (now + ec_expireUnMatcheTime cache1)
      in do {
           st \<leftarrow> match_waiting urlMap cachedTraces (ec_unMatchedSpans cache1);
           (waiting, result) \<leftarrow> fold_opt (match_resource api expireTime urlMap) traces st;
           Some (cache1\<lparr>ec_unMatchedSpans := waiting\<rparr>, result)
         })"

definition CleanExpireBuckets :: "entry_url_cache \<Rightarrow> entry_url_cache option" where
  "CleanExpireBuckets cache =
     (let (picked, rest) = PickBatch (ec_idBatch cache) in
      do {
        (ib, toCleanIds) \<leftarrow> CopyAndGetBatch picked (ec_idBuckets cache);
        Some (cache\<lparr>ec_idBatch := rest, ec_idBuckets := ib,
                    ec_entryUrlMap := fold map_delete toCleanIds (ec_entryUrlMap cache)\<rparr>)
      })"

definition CleanUnMatchedSpans_count :: "int \<Rightarrow> entry_url_cache \<Rightarrow> nat" where
  "CleanUnMatchedSpans_count now cache = length (takeWhile (\<lambda>w. rsp_ExpireTime w < now) (ec_unMatchedSpans cache))"

definition CleanUnMatchedSpans_cut :: "nat \<Rightarrow> entry_url_cache \<Rightarrow> entry_url_cache option" where
  "CleanUnMatchedSpans_cut expireIndex cache =
     (if expireIndex = 0 then Some cache
      else map_option (\<lambda>rest. cache\<lparr>ec_unMatchedSpans := rest\<rparr>) (slice_from (ec_unMatchedSpans cache) (int expireIndex)))"

definition CleanUnMatchedSpans :: "int \<Rightarrow> entry_url_cache \<Rightarrow> (entry_url_cache \<times> resource_span list) option" where
  "CleanUnMatchedSpans now cache =
     (let expireIndex = CleanUnMatchedSpans_count now cache in
      map_option (\<lambda>cache1. (cache1, take expireIndex (ec_unMatchedSpans cache)))
        (CleanUnMatchedSpans_cut expireIndex cache))"

subsection \<open>The climb to the entry span\<close>

fun climb :: "entry_url_mapping \<Rightarrow> nat \<Rightarrow> span_id \<Rightarrow> span_id option" where
  "climb m 0 s = Some s"
| "climb m (Suc n) s =
     (if map_load (em_entrySpanNames m) s \<noteq> None then None
      else case map_load (em_pspanIds m) s of None \<Rightarrow> None | Some p \<Rightarrow> climb m n p)"

definition entry_name :: "entry_url_mapping \<Rightarrow> span_id \<Rightarrow> string" where
  "entry_name m s = (case map_load (em_entrySpanNames m) s of Some u \<Rightarrow> u | None \<Rightarrow> [])"

lemma GetEntrySpanName_climb:
  "climb m n s = Some a \<Longrightarrow> climb m (Suc n) s = None \<Longrightarrow> GetEntrySpanName m s = Some (entry_name m a)"
proof (induction n arbitrary: s)
  case 0
  then show ?case by (subst GetEntrySpanName.simps) (auto simp: entry_name_def split: option.splits if_splits)
next
  case (Suc n)
  then obtain p where p: "map_load (em_entrySpanNames m) s = None" "map_load (em_pspanIds m) s = Some p" "climb m n p = Some a"
    by (auto split: if_splits option.splits)
  with Suc.prems(2) have "climb m (Suc n) p = None" by simp
  from Suc.IH [OF p(3) this] p show ?case by (subst GetEntrySpanName.simps) simp
qed

lemma GetEntrySpanName_returns:
  assumes "GetEntrySpanName m s = Some y"
  shows "\<exists>n. climb m n s = None"
  using assms
proof (rule GetEntrySpanName.raw_induct [rotated, where P = "\<lambda>m s y. \<exists>n. climb m n s = None"])
  fix f m s y
  assume IH: "\<And>m s y. f m s = Some y \<Longrightarrow> \<exists>n. climb m n s = None"
    and step: "(case map_load (em_entrySpanNames m) s of Some url \<Rightarrow> Some url
        | None \<Rightarrow> (case map_load (em_pspanIds m) s of Some parent \<Rightarrow> f m parent | None \<Rightarrow> Some [])) = Some y"
  show "\<exists>n. climb m n s = None"
  proof (cases "map_load (em_entrySpanNames m) s = None \<and> map_load (em_pspanIds m) s \<noteq> None")
    case True
    then obtain p where p: "map_load (em_pspanIds m) s = Some p" by blast
    with True step have "f m p = Some y" by simp
    then obtain n where "climb m n p = None" using IH by blast
    with True p have "climb m (Suc n) s = None" by simp
    then show ?thesis by blast
  next
    case False
    then have "climb m (Suc 0) s = None" by (auto split: option.split)
    then show ?thesis by blast
  qed
qed

lemma climb_last:
  assumes "climb m n s = None"
  shows "\<exists>k a. climb m k s = Some a \<and> climb m (Suc k) s = None"
proof -
  define l where "l = (LEAST i. climb m i s = None)"
  have l: "climb m l s = None" unfolding l_def using assms by (rule LeastI)
  then obtain k where k: "l = Suc k" by (cases l) auto
  then have "climb m k s \<noteq> None" unfolding l_def by (intro not_less_Least) auto
  with l k show ?thesis by blast
qed

lemma GetEntrySpanName_None_iff: "GetEntrySpanName m s = None \<longleftrightarrow> (\<forall>n. climb m n s \<noteq> None)"
  using GetEntrySpanName_returns climb_last GetEntrySpanName_climb by (metis option.exhaust option.simps(3))

text \<open>Parents that lie strictly higher (in any order) cannot be climbed for ever.\<close>

definition mapping_acyclic :: "(span_id \<Rightarrow> nat) \<Rightarrow> entry_url_mapping \<Rightarrow> bool" where
  "mapping_acyclic h m \<longleftrightarrow> (\<forall>s p. map_load (em_pspanIds m) s = Some p \<longrightarrow> h p < h s)"

lemma mapping_acyclicD: "mapping_acyclic h m \<Longrightarrow> map_load (em_pspanIds m) s = Some p \<Longrightarrow> h p < h s"
  by (simp add: mapping_acyclic_def)

lemma climb_height: "mapping_acyclic h m \<Longrightarrow> climb m n s = Some a \<Longrightarrow> h a + n \<le> h s"
proof (induction n arbitrary: s)
  case 0
  then show ?case by simp
next
  case (Suc n)
  then obtain p where p: "map_load (em_pspanIds m) s = Some p" "climb m n p = Some a"
    by (auto split: if_splits option.splits)
  with Suc.IH [OF Suc.prems(1) p(2)] mapping_acyclicD [OF Suc.prems(1) p(1)] show ?case by simp
qed

lemma GetEntrySpanName_total: "mapping_acyclic h m \<Longrightarrow> \<exists>y. GetEntrySpanName m s = Some y"
proof (rule ccontr)
  assume a: "mapping_acyclic h m" and "\<nexists>y. GetEntrySpanName m s = Some y"
  then have "GetEntrySpanName m s = None" by simp
  then have "climb m (Suc (h s)) s \<noteq> None" unfolding GetEntrySpanName_None_iff by (rule spec)
  with climb_height [OF a] show False by fastforce
qed

lemma AddMapping_acyclic:
  assumes "mapping_acyclic h m"
    and "\<And>sp. sp \<in> set spans \<Longrightarrow> sp_Kind sp \<notin> {SpanKindServer, SpanKindConsumer, SpanKindClient, SpanKindProducer} \<Longrightarrow>
           h (sp_ParentSpanID sp) < h (sp_SpanID sp)"
  shows "mapping_acyclic h (AddMapping spans m)"
  using assms
proof (induction spans arbitrary: m)
  case Nil
  then show ?case by (simp add: AddMapping_def)
next
  case (Cons sp spans)
  have "mapping_acyclic h (AddMapping_span sp m)"
    using Cons.prems(1) Cons.prems(2) [of sp] by (auto simp: AddMapping_span_def mapping_acyclic_def)
  with Cons show ?case by (simp add: AddMapping_def)
qed

subsection \<open>Recording the traces of a batch\<close>

lemma fold_concat_map: "fold (\<lambda>x. fold f (g x)) xs s = fold f (concat (map g xs)) s"
  by (induction xs arbitrary: s) auto

definition trace_groups :: "traces \<Rightarrow> (trace_id \<times> span list) list" where
  "trace_groups td = concat (map groupSpansByTraceId td)"

lemma record_traces_groups: "record_traces td c = fold record_group (trace_groups td) (c, [])"
  by (simp add: record_traces_def trace_groups_def fold_concat_map)

lemma trace_groups_ids: "fst ` set (trace_groups td) = sp_TraceID ` set (traces_spans td)"
proof -
  have "fst ` set (groupSpansByTraceId rs) = sp_TraceID ` set (rs_spans rs)" for rs
  proof -
    have "t \<in> fst ` set (groupSpansByTraceId rs) \<longleftrightarrow> t \<in> sp_TraceID ` set (rs_spans rs)" for t
      using group_load [of rs t]
      by (auto simp: dom_map_of_conv_image_fst [symmetric] dom_def Let_def filter_empty_conv split: if_splits)
    then show ?thesis by blast
  qed
  then show ?thesis by (auto simp: trace_groups_def traces_spans_def image_UN)
qed

lemma trace_groups_spans: "(t, g) \<in> set (trace_groups td) \<Longrightarrow> sp \<in> set g \<Longrightarrow> sp \<in> set (traces_spans td) \<and> sp_TraceID sp = t"
  by (auto simp: trace_groups_def traces_spans_def group_entry)

text \<open>One group: the frame, the domain, the identifier batch.\<close>

lemma record_group_cache:
  assumes "record_group (t, g) (c, cached) = (c', cached')"
  shows "ec_unMatchedSpans c' = ec_unMatchedSpans c" "ec_idBuckets c' = ec_idBuckets c"
    "ec_expireUnMatcheTime c' = ec_expireUnMatcheTime c" "cached' = t # cached"
    "ec_idBatch c' = ec_idBatch c @ (if map_load (ec_entryUrlMap c) t = None then [t] else [])"
    "ec_entryUrlMap c' = map_store t (AddMapping g (case map_load (ec_entryUrlMap c) t of Some m \<Rightarrow> m | None \<Rightarrow> newEntryUrlMapping))
       (ec_entryUrlMap c)"
  using assms by (auto simp: record_group_def Let_def AddToBatch_def split: option.splits)

lemma record_groups_frame:
  "fold record_group gs (c, cached) = (c', cached') \<Longrightarrow>
   ec_unMatchedSpans c' = ec_unMatchedSpans c \<and> ec_idBuckets c' = ec_idBuckets c \<and>
   ec_expireUnMatcheTime c' = ec_expireUnMatcheTime c \<and>
   dom (map_load (ec_entryUrlMap c')) = dom (map_load (ec_entryUrlMap c)) \<union> fst ` set gs \<and>
   set cached' = set cached \<union> fst ` set gs"
proof (induction gs arbitrary: c cached)
  case Nil
  then show ?case by simp
next
  case (Cons x gs)
  obtain t g where x: "x = (t, g)" by (cases x)
  obtain c1 k1 where s: "record_group (t, g) (c, cached) = (c1, k1)" by (cases "record_group (t, g) (c, cached)")
  from Cons.prems s x have f: "fold record_group gs (c1, k1) = (c', cached')" by simp
  show ?case
    using Cons.IH [OF f] record_group_cache [OF s] x by auto
qed

lemma record_traces_frame:
  assumes "record_traces td c = (c', cached)"
  shows "ec_unMatchedSpans c' = ec_unMatchedSpans c" "ec_idBuckets c' = ec_idBuckets c"
    "ec_expireUnMatcheTime c' = ec_expireUnMatcheTime c"
    "dom (map_load (ec_entryUrlMap c')) = dom (map_load (ec_entryUrlMap c)) \<union> sp_TraceID ` set (traces_spans td)"
    "set cached = sp_TraceID ` set (traces_spans td)"
  using assms record_groups_frame [of "trace_groups td" c "[]" c' cached]
  unfolding record_traces_groups trace_groups_ids by auto

text \<open>Acyclic parents, per trace, in the cache and in a batch.\<close>

definition cache_acyclic :: "(trace_id \<Rightarrow> span_id \<Rightarrow> nat) \<Rightarrow> entry_url_cache \<Rightarrow> bool" where
  "cache_acyclic h c \<longleftrightarrow> (\<forall>t m. map_load (ec_entryUrlMap c) t = Some m \<longrightarrow> mapping_acyclic (h t) m)"

definition batch_acyclic :: "(trace_id \<Rightarrow> span_id \<Rightarrow> nat) \<Rightarrow> traces \<Rightarrow> bool" where
  "batch_acyclic h td \<longleftrightarrow>
     (\<forall>sp \<in> set (traces_spans td).
        sp_Kind sp \<notin> {SpanKindServer, SpanKindConsumer, SpanKindClient, SpanKindProducer} \<longrightarrow>
        h (sp_TraceID sp) (sp_ParentSpanID sp) < h (sp_TraceID sp) (sp_SpanID sp))"

lemma record_groups_acyclic:
  assumes "cache_acyclic h c" "fold record_group gs (c, cached) = (c', cached')"
    and "\<And>t g sp. (t, g) \<in> set gs \<Longrightarrow> sp \<in> set g \<Longrightarrow>
           sp_Kind sp \<notin> {SpanKindServer, SpanKindConsumer, SpanKindClient, SpanKindProducer} \<Longrightarrow>
           h t (sp_ParentSpanID sp) < h t (sp_SpanID sp)"
  shows "cache_acyclic h c'"
  using assms
proof (induction gs arbitrary: c cached)
  case Nil
  then show ?case by simp
next
  case (Cons x gs)
  obtain t g where x: "x = (t, g)" by (cases x)
  obtain c1 k1 where s: "record_group (t, g) (c, cached) = (c1, k1)" by (cases "record_group (t, g) (c, cached)")
  have f: "fold record_group gs (c1, k1) = (c', cached')" using Cons.prems(2) s x by simp
  let ?m = "case map_load (ec_entryUrlMap c) t of Some m \<Rightarrow> m | None \<Rightarrow> newEntryUrlMapping"
  have "mapping_acyclic (h t) ?m"
    using Cons.prems(1) by (auto simp: cache_acyclic_def mapping_acyclic_def newEntryUrlMapping_def split: option.split)
  then have "mapping_acyclic (h t) (AddMapping g ?m)"
    using Cons.prems(3) [of t g] x by (intro AddMapping_acyclic) auto
  then have "cache_acyclic h c1"
    using Cons.prems(1) by (auto simp: cache_acyclic_def record_group_cache(6) [OF s])
  from Cons.IH [OF this f] Cons.prems(3) show ?case by (meson list.set_intros(2))
qed

lemma record_traces_acyclic:
  assumes "cache_acyclic h c" "batch_acyclic h td" "record_traces td c = (c', cached)"
  shows "cache_acyclic h c'"
proof (rule record_groups_acyclic [OF assms(1)])
  show "fold record_group (trace_groups td) (c, []) = (c', cached)" using assms(3) by (simp add: record_traces_groups)
  fix t g sp
  assume "(t, g) \<in> set (trace_groups td)" "sp \<in> set g"
    and k: "sp_Kind sp \<notin> {SpanKindServer, SpanKindConsumer, SpanKindClient, SpanKindProducer}"
  from trace_groups_spans [OF this(1,2)] k assms(2) show "h t (sp_ParentSpanID sp) < h t (sp_SpanID sp)"
    by (auto simp: batch_acyclic_def)
qed

subsection \<open>No span is lost or reported twice\<close>

abbreviation spans_of :: "resource_span list \<Rightarrow> span multiset" where
  "spans_of ws \<equiv> mset (map rsp_Span ws)"

definition urls_total :: "(trace_id, entry_url_mapping) gomap \<Rightarrow> bool" where
  "urls_total urlMap \<longleftrightarrow> (\<forall>t m s. map_load urlMap t = Some m \<longrightarrow> (\<exists>y. GetEntrySpanName m s = Some y))"

lemma urls_totalD: "urls_total urlMap \<Longrightarrow> map_load urlMap t = Some m \<Longrightarrow> \<exists>y. GetEntrySpanName m s = Some y"
  by (simp add: urls_total_def)

lemma cache_acyclic_total: "cache_acyclic h c \<Longrightarrow> urls_total (ec_entryUrlMap c)"
  unfolding cache_acyclic_def urls_total_def using GetEntrySpanName_total by blast

lemma match_waiting_accounted:
  assumes "urls_total urlMap"
  shows "\<exists>waiting result. match_waiting urlMap cached ws = Some (waiting, result) \<and>
           spans_of waiting + spans_of result = spans_of ws"
proof (induction ws)
  case Nil
  then show ?case by simp
next
  case (Cons w ws)
  then obtain waiting result where r: "match_waiting urlMap cached ws = Some (waiting, result)"
    "spans_of waiting + spans_of result = spans_of ws" by blast
  let ?m = "if sp_TraceID (rsp_Span w) \<in> set cached then map_load urlMap (sp_TraceID (rsp_Span w)) else None"
  show ?case
  proof (cases ?m)
    case None
    with r show ?thesis by (simp add: Let_def)
  next
    case (Some m)
    then have "map_load urlMap (sp_TraceID (rsp_Span w)) = Some m" by (simp split: if_splits)
    then obtain y where "GetEntrySpanName m (sp_ParentSpanID (rsp_Span w)) = Some y" using urls_totalD [OF assms] by blast
    with Some r show ?thesis by (cases "y = []") (auto simp: Let_def SetEntryUrl_def)
  qed
qed

definition reported_kind :: "span \<Rightarrow> bool" where
  "reported_kind sp \<longleftrightarrow> sp_Kind sp \<in> {SpanKindServer, SpanKindConsumer, SpanKindClient, SpanKindProducer}"

definition reported_resource :: "resource_spans \<Rightarrow> bool" where
  "reported_resource rss \<longleftrightarrow> fst (GetResourceAttribute rss) \<noteq> [] \<and> fst (snd (GetResourceAttribute rss)) \<noteq> []"

definition reported_spans :: "traces \<Rightarrow> span list" where
  "reported_spans td = concat (map (\<lambda>rss. filter reported_kind (rs_spans rss)) (filter reported_resource td))"

lemma match_span_accounted:
  assumes "urls_total urlMap"
    and "sp_TraceID sp \<in> dom (map_load urlMap)"
  shows "\<exists>waiting' result'. match_span api e attr urlMap sp (waiting, result) = Some (waiting', result') \<and>
           spans_of waiting' + spans_of result' = spans_of waiting + spans_of result + mset (filter reported_kind [sp])"
proof -
  obtain m where m: "map_load urlMap (sp_TraceID sp) = Some m" using assms(2) by blast
  with urls_totalD [OF assms(1)] obtain y where y: "GetEntrySpanName m (sp_ParentSpanID sp) = Some y" by blast
  obtain pid svc cid where a: "attr = (pid, svc, cid)" by (cases attr)
  show ?thesis
    by (cases "sp_Kind sp") (auto simp: match_span_def a m y Let_def NewResourceSpan_def reported_kind_def)
qed

lemma match_spans_accounted:
  assumes "urls_total urlMap"
    and "sp_TraceID ` set sps \<subseteq> dom (map_load urlMap)"
  shows "\<exists>waiting' result'. fold_opt (match_span api e attr urlMap) sps (waiting, result) = Some (waiting', result') \<and>
           spans_of waiting' + spans_of result' = spans_of waiting + spans_of result + mset (filter reported_kind sps)"
  using assms(2)
proof (induction sps arbitrary: waiting result)
  case Nil
  then show ?case by simp
next
  case (Cons sp sps)
  obtain w1 r1 where 1: "match_span api e attr urlMap sp (waiting, result) = Some (w1, r1)"
    "spans_of w1 + spans_of r1 = spans_of waiting + spans_of result + mset (filter reported_kind [sp])"
    using match_span_accounted [OF assms(1), of sp api e attr waiting result] Cons.prems by auto
  obtain w2 r2 where 2: "fold_opt (match_span api e attr urlMap) sps (w1, r1) = Some (w2, r2)"
    "spans_of w2 + spans_of r2 = spans_of w1 + spans_of r1 + mset (filter reported_kind sps)"
    using Cons.IH [of w1 r1] Cons.prems by auto
  have "spans_of w2 + spans_of r2 = spans_of waiting + spans_of result + mset (filter reported_kind (sp # sps))"
    unfolding 2(2) 1(2) by (simp add: ac_simps)
  with 1(1) 2(1) show ?case by auto
qed

lemma match_resources_accounted:
  assumes "urls_total urlMap"
    and "sp_TraceID ` set (traces_spans td) \<subseteq> dom (map_load urlMap)"
  shows "\<exists>waiting' result'. fold_opt (match_resource api e urlMap) td (waiting, result) = Some (waiting', result') \<and>
           spans_of waiting' + spans_of result' = spans_of waiting + spans_of result + mset (reported_spans td)"
  using assms(2)
proof (induction td arbitrary: waiting result)
  case Nil
  then show ?case by (simp add: reported_spans_def)
next
  case (Cons rss td)
  have sub: "sp_TraceID ` set (rs_spans rss) \<subseteq> dom (map_load urlMap)" "sp_TraceID ` set (traces_spans td) \<subseteq> dom (map_load urlMap)"
    using Cons.prems by (auto simp: traces_spans_def)
  have "\<exists>w1 r1. match_resource api e urlMap rss (waiting, result) = Some (w1, r1) \<and>
      spans_of w1 + spans_of r1 = spans_of waiting + spans_of result +
        mset (if reported_resource rss then filter reported_kind (rs_spans rss) else [])"
    using match_spans_accounted [OF assms(1) sub(1), of api e "GetResourceAttribute rss" waiting result]
    by (auto simp: match_resource_def reported_resource_def fold_opt_concat rs_spans_def Let_def)
  then obtain w1 r1 where 1: "match_resource api e urlMap rss (waiting, result) = Some (w1, r1)"
    "spans_of w1 + spans_of r1 = spans_of waiting + spans_of result +
        mset (if reported_resource rss then filter reported_kind (rs_spans rss) else [])" by blast
  obtain w2 r2 where 2: "fold_opt (match_resource api e urlMap) td (w1, r1) = Some (w2, r2)"
    "spans_of w2 + spans_of r2 = spans_of w1 + spans_of r1 + mset (reported_spans td)"
    using Cons.IH [OF sub(2)] by blast
  have "spans_of w2 + spans_of r2 = spans_of waiting + spans_of result + mset (reported_spans (rss # td))"
    unfolding 2(2) 1(2) by (simp add: reported_spans_def ac_simps)
  with 1(1) 2(1) show ?case by auto
qed

lemma GetMatched_accounted:
  assumes "cache_acyclic h c" "batch_acyclic h td"
  shows "\<exists>c' result. GetMatchedResourceSpans api now td c = Some (c', result) \<and> cache_acyclic h c' \<and>
           spans_of (ec_unMatchedSpans c') + spans_of result = spans_of (ec_unMatchedSpans c) + mset (reported_spans td)"
proof -
  obtain c1 cached where r: "record_traces td c = (c1, cached)" by (cases "record_traces td c")
  have ac: "cache_acyclic h c1" by (rule record_traces_acyclic [OF assms r])
  note tot = cache_acyclic_total [OF ac]
  note fr = record_traces_frame [OF r]
  obtain w1 r1 where 1: "match_waiting (ec_entryUrlMap c1) cached (ec_unMatchedSpans c1) = Some (w1, r1)"
    "spans_of w1 + spans_of r1 = spans_of (ec_unMatchedSpans c1)"
    using match_waiting_accounted [OF tot] by blast
  have sub: "sp_TraceID ` set (traces_spans td) \<subseteq> dom (map_load (ec_entryUrlMap c1))" by (simp add: fr(4))
  let ?e = "i64 (now + ec_expireUnMatcheTime c1)"
  obtain w2 r2 where 2: "fold_opt (match_resource api ?e (ec_entryUrlMap c1)) td (w1, r1) = Some (w2, r2)"
    "spans_of w2 + spans_of r2 = spans_of w1 + spans_of r1 + mset (reported_spans td)"
    using match_resources_accounted [OF tot sub] by blast
  have "GetMatchedResourceSpans api now td c = Some (c1\<lparr>ec_unMatchedSpans := w2\<rparr>, r2)"
    using r 1 2 by (simp add: GetMatchedResourceSpans_def)
  moreover have "cache_acyclic h (c1\<lparr>ec_unMatchedSpans := w2\<rparr>)" using ac by (simp add: cache_acyclic_def)
  ultimately show ?thesis using 1(2) 2(2) fr(1) by auto
qed

subsection \<open>The age of a mapping\<close>

text \<open>The batches of trace identifiers, oldest first; the last one is still being filled.\<close>

definition ec_ages :: "entry_url_cache \<Rightarrow> batch list" where
  "ec_ages c = ib_queue (ec_idBuckets c) @ [ec_idBatch c]"

text \<open>Every mapping has one age, and every aged identifier has a mapping.\<close>

definition ec_inv :: "nat \<Rightarrow> entry_url_cache \<Rightarrow> bool" where
  "ec_inv k c \<longleftrightarrow> ib_inv (ec_idBuckets c) \<and> length (ec_ages c) = Suc k \<and> distinct (concat (ec_ages c)) \<and>
     dom (map_load (ec_entryUrlMap c)) = set (concat (ec_ages c))"

lemma NewEntryUrlCache_inv: "NewEntryUrlCache k e = Inr c \<Longrightarrow> ec_inv (nat k) c"
  using NewBuckets_queue [of k] by (auto simp: NewEntryUrlCache_def ec_inv_def ec_ages_def split: if_splits)

lemma record_group_inv:
  assumes "record_group (t, g) (c, cached) = (c', cached')" "ec_inv k c"
  shows "ec_inv k c' \<and> ib_queue (ec_idBuckets c') = ib_queue (ec_idBuckets c) \<and> set (ec_idBatch c) \<subseteq> set (ec_idBatch c')"
proof -
  note r = record_group_cache [OF assms(1)]
  let ?new = "if map_load (ec_entryUrlMap c) t = None then [t] else []"
  have ages: "concat (ec_ages c') = concat (ec_ages c) @ ?new" "length (ec_ages c') = length (ec_ages c)"
    by (simp_all add: ec_ages_def r)
  have d: "dom (map_load (ec_entryUrlMap c')) = insert t (dom (map_load (ec_entryUrlMap c)))"
    unfolding r(6) by (rule dom_store)
  have dom: "dom (map_load (ec_entryUrlMap c)) = set (concat (ec_ages c))" using assms(2) by (simp add: ec_inv_def)
  then have t: "t \<in> set (concat (ec_ages c)) \<longleftrightarrow> map_load (ec_entryUrlMap c) t \<noteq> None" by blast
  have "dom (map_load (ec_entryUrlMap c')) = set (concat (ec_ages c'))"
    unfolding d dom ages using t by auto
  moreover have "distinct (concat (ec_ages c'))"
    unfolding ages(1) using assms(2) t by (auto simp: ec_inv_def simp del: set_concat)
  ultimately have "ec_inv k c'" using assms(2) ages(2) r(2) by (simp add: ec_inv_def)
  then show ?thesis by (simp add: r)
qed

lemma record_groups_inv:
  "fold record_group gs (c, cached) = (c', cached') \<Longrightarrow> ec_inv k c \<Longrightarrow>
   ec_inv k c' \<and> ib_queue (ec_idBuckets c') = ib_queue (ec_idBuckets c) \<and> set (ec_idBatch c) \<subseteq> set (ec_idBatch c')"
proof (induction gs arbitrary: c cached)
  case Nil
  then show ?case by simp
next
  case (Cons x gs)
  obtain t g where x: "x = (t, g)" by (cases x)
  obtain c1 k1 where s: "record_group (t, g) (c, cached) = (c1, k1)" by (cases "record_group (t, g) (c, cached)")
  with Cons.prems x have f: "fold record_group gs (c1, k1) = (c', cached')" by simp
  have "ec_inv k c1" using record_group_inv [OF s Cons.prems(2)] by blast
  with Cons.IH [OF f this] record_group_inv [OF s Cons.prems(2)] show ?case by auto
qed

lemma GetMatched_inv:
  assumes "GetMatchedResourceSpans api now td c = Some (c', result)" "ec_inv k c"
  shows "ec_inv k c'" "ib_queue (ec_idBuckets c') = ib_queue (ec_idBuckets c)" "set (ec_idBatch c) \<subseteq> set (ec_idBatch c')"
    "dom (map_load (ec_entryUrlMap c')) = dom (map_load (ec_entryUrlMap c)) \<union> sp_TraceID ` set (traces_spans td)"
proof -
  obtain c1 cached where r: "record_traces td c = (c1, cached)" by (cases "record_traces td c")
  have c': "c' = c1\<lparr>ec_unMatchedSpans := ec_unMatchedSpans c'\<rparr>"
    using assms(1) r by (auto simp: GetMatchedResourceSpans_def Let_def split: bind_splits)
  have i: "ec_inv k c1 \<and> ib_queue (ec_idBuckets c1) = ib_queue (ec_idBuckets c) \<and> set (ec_idBatch c) \<subseteq> set (ec_idBatch c1)"
    using r record_groups_inv [OF _ assms(2)] by (simp add: record_traces_groups)
  then have "ec_inv k c1" by blast
  then show "ec_inv k c'" by (subst c') (simp add: ec_inv_def ec_ages_def)
  show "ib_queue (ec_idBuckets c') = ib_queue (ec_idBuckets c)" using i by (subst c') simp
  show "set (ec_idBatch c) \<subseteq> set (ec_idBatch c')" using i by (subst c') simp
  show "dom (map_load (ec_entryUrlMap c')) = dom (map_load (ec_entryUrlMap c)) \<union> sp_TraceID ` set (traces_spans td)"
    using record_traces_frame(4) [OF r] by (subst c') simp
qed

lemma dom_fold_delete: "dom (map_load (fold map_delete ks m)) = dom (map_load m) - set ks"
  by (induction ks arbitrary: m) (auto simp: dom_def)

text \<open>A tick drops the oldest batch and opens a new one.\<close>

lemma CleanExpireBuckets_ages:
  assumes "ec_inv k c"
  shows "\<exists>c'. CleanExpireBuckets c = Some c' \<and> ec_inv k c' \<and> ec_ages c' = tl (ec_ages c) @ [[]] \<and>
           ec_unMatchedSpans c' = ec_unMatchedSpans c \<and>
           dom (map_load (ec_entryUrlMap c')) = dom (map_load (ec_entryUrlMap c)) - set (hd (ec_ages c))"
proof -
  have ib: "ib_inv (ec_idBuckets c)" using assms by (simp add: ec_inv_def)
  obtain ib' out where o: "CopyAndGetBatch (ec_idBatch c) (ec_idBuckets c) = Some (ib', out)" "ib_inv ib'"
    "out # ib_queue ib' = ec_ages c"
    using ring_step [OF ib, of "ec_idBatch c"] by (auto simp: ec_ages_def)
  define c' where "c' = c\<lparr>ec_idBatch := [], ec_idBuckets := ib',
                    ec_entryUrlMap := fold map_delete out (ec_entryUrlMap c)\<rparr>"
  have ages: "ec_ages c' = ib_queue ib' @ [[]]" by (simp add: c'_def ec_ages_def)
  have d: "dom (map_load (ec_entryUrlMap c')) = dom (map_load (ec_entryUrlMap c)) - set out"
    using dom_fold_delete [of out "ec_entryUrlMap c"] by (simp add: c'_def)
  have "ec_inv k c'"
    using assms o(2) unfolding ec_inv_def d ages o(3) [symmetric] by (auto simp: c'_def)
  moreover have "CleanExpireBuckets c = Some c'" using o by (simp add: CleanExpireBuckets_def PickBatch_def c'_def)
  ultimately show ?thesis
    using o(3) [symmetric] ages d by (auto simp: c'_def)
qed

datatype entry_event = Consume int traces | Tick

fun ec_step :: "pdata_api \<Rightarrow> entry_event \<Rightarrow> entry_url_cache \<Rightarrow> entry_url_cache option" where
  "ec_step api (Consume now td) c = map_option fst (GetMatchedResourceSpans api now td c)"
| "ec_step api Tick c = CleanExpireBuckets c"

abbreviation ec_run :: "pdata_api \<Rightarrow> entry_event list \<Rightarrow> entry_url_cache \<Rightarrow> entry_url_cache option" where
  "ec_run api \<equiv> fold_opt (ec_step api)"

definition ticks :: "entry_event list \<Rightarrow> nat" where
  "ticks evs = length (filter (\<lambda>e. e = Tick) evs)"

lemma ec_step_inv: "ec_step api e c = Some c' \<Longrightarrow> ec_inv k c \<Longrightarrow> ec_inv k c'"
  by (cases e) (use GetMatched_inv(1) CleanExpireBuckets_ages in \<open>fastforce+\<close>)

lemma ec_step_age:
  assumes s: "ec_step api e c = Some c'" and inv: "ec_inv k c"
    and p: "ticks [e] \<le> p" "p \<le> k" "t \<in> set (ec_ages c ! p)"
  shows "t \<in> set (ec_ages c' ! (p - ticks [e]))"
proof (cases e)
  case (Consume now td)
  with s obtain r where "GetMatchedResourceSpans api now td c = Some (c', r)" by auto
  note g = GetMatched_inv(2,3) [OF this inv]
  have "length (ib_queue (ec_idBuckets c)) = k" using inv by (simp add: ec_inv_def ec_ages_def)
  with p g Consume show ?thesis by (auto simp: ec_ages_def nth_append ticks_def split: if_splits)
next
  case Tick
  then have "ec_ages c' = tl (ec_ages c) @ [[]]" using s CleanExpireBuckets_ages [OF inv] by auto
  moreover have "length (ec_ages c) = Suc k" using inv by (simp add: ec_inv_def)
  ultimately show ?thesis using p Tick by (auto simp: ticks_def nth_append nth_tl)
qed

lemma ticks_Cons: "ticks (e # es) = ticks [e] + ticks es"
  by (simp add: ticks_def)

lemma ec_run_age:
  "ec_run api es c = Some c' \<Longrightarrow> ec_inv k c \<Longrightarrow> ticks es \<le> p \<Longrightarrow> p \<le> k \<Longrightarrow> t \<in> set (ec_ages c ! p) \<Longrightarrow>
   ec_inv k c' \<and> t \<in> set (ec_ages c' ! (p - ticks es))"
proof (induction es arbitrary: c p)
  case Nil
  then show ?case by (simp add: ticks_def)
next
  case (Cons e es)
  then obtain c1 where 1: "ec_step api e c = Some c1" "ec_run api es c1 = Some c'" by (auto split: bind_splits)
  have t: "ticks [e] \<le> p" "ticks es \<le> p - ticks [e]" "p - ticks [e] \<le> k" using Cons.prems(3,4) by (auto simp: ticks_Cons [of e es])
  have "t \<in> set (ec_ages c1 ! (p - ticks [e]))" by (rule ec_step_age [OF 1(1) Cons.prems(2) t(1) Cons.prems(4,5)])
  from Cons.IH [OF 1(2) ec_step_inv [OF 1(1) Cons.prems(2)] t(2,3) this] show ?case
    by (simp add: ticks_Cons [of e es])
qed

lemma ec_run_inv: "ec_run api es c = Some c' \<Longrightarrow> ec_inv k c \<Longrightarrow> ec_inv k c'"
  by (induction es arbitrary: c) (auto split: bind_splits dest: ec_step_inv)

subsection \<open>Properties\<close>

text \<open>C24: the search for the entry span of an exit span. \<open>GetEntrySpanName\<close> climbs the recorded parents and
  returns the name of the first entry span it meets, or the empty string when a parent is not recorded; it
  fails to return exactly when the climb can be continued for ever.\<close>

theorem entry_span_search:
  "(GetEntrySpanName m s = None \<longleftrightarrow> (\<forall>n. climb m n s \<noteq> None)) \<and>
   (\<forall>n a. climb m n s = Some a \<and> climb m (Suc n) s = None \<longrightarrow> GetEntrySpanName m s = Some (entry_name m a))"
  using GetEntrySpanName_None_iff GetEntrySpanName_climb by blast

definition demo_mapping :: entry_url_mapping where
  "demo_mapping = \<lparr>em_entrySpanNames = [([1], ''/pay'')], em_pspanIds = [([2], [1]), ([3], [2])]\<rparr>"

theorem entry_span_search_witness:
  "climb demo_mapping 2 [3] = Some [1] \<and> GetEntrySpanName demo_mapping [3] = Some ''/pay''"
proof -
  have "climb demo_mapping 2 [3] = Some [1]" "climb demo_mapping (Suc 2) [3] = None" "entry_name demo_mapping [1] = ''/pay''"
    by (simp_all add: demo_mapping_def entry_name_def numeral_2_eq_2)
  with conjunct2 [OF entry_span_search [of demo_mapping "[3]"]] show ?thesis by (metis (no_types))
qed

text \<open>C23: accounting of exit spans. When the parents of internal spans contain no cycle, \<open>GetMatchedResourceSpans\<close>
  returns, and the spans it reports together with those it keeps waiting are exactly the spans that were waiting
  before and the client, producer, server and consumer spans of the batch's identified resources: none is lost, none
  is reported twice.\<close>

theorem exit_spans_accounted:
  assumes "cache_acyclic h c" "batch_acyclic h td"
  shows "\<exists>c' result. GetMatchedResourceSpans api now td c = Some (c', result) \<and> cache_acyclic h c' \<and>
           mset (map rsp_Span (ec_unMatchedSpans c')) + mset (map rsp_Span result) =
           mset (map rsp_Span (ec_unMatchedSpans c)) + mset (reported_spans td)"
  by (rule GetMatched_accounted [OF assms])

definition demo_api :: pdata_api where
  "demo_api = \<lparr>TraceID_IsEmpty = (\<lambda>t. \<forall>b \<in> set t. b = 0), TraceID_String = (\<lambda>t. []), SpanID_IsEmpty = (\<lambda>s. \<forall>b \<in> set s. b = 0),
     SpanID_String = (\<lambda>s. []), Value_AsString = value_Str\<rparr>"

definition demo_span :: "u8 \<Rightarrow> u8 \<Rightarrow> span_kind \<Rightarrow> string \<Rightarrow> span" where
  "demo_span i p k nm = zero_span\<lparr>sp_TraceID := [7], sp_SpanID := [i], sp_ParentSpanID := [p], sp_Kind := k, sp_Name := nm\<rparr>"

definition demo_resource :: "span list \<Rightarrow> resource_spans" where
  "demo_resource sps =
     \<lparr>rs_Resource = [(KEY_PID, ValueInt 4), (AttributeServiceName, ValueStr ''svc'')], rs_ScopeSpans = [\<lparr>ss_Scope = [], ss_Spans = sps\<rparr>]\<rparr>"

definition demo_cache :: entry_url_cache where
  "demo_cache = \<lparr>ec_entryUrlMap = [], ec_unMatchedSpans = [], ec_idBatch = [], ec_idBuckets = NewBuckets 2, ec_expireUnMatcheTime = 60\<rparr>"

lemmas demo_defs = demo_api_def demo_span_def demo_resource_def demo_cache_def zero_span_def

theorem exit_spans_accounted_witness:
  "\<exists>c' result. GetMatchedResourceSpans demo_api 0
       [demo_resource [demo_span 1 0 SpanKindServer ''/pay'', demo_span 2 1 SpanKindInternal ''f'', demo_span 3 2 SpanKindClient ''GET'']]
       demo_cache = Some (c', result) \<and>
     mset (map rsp_Span (ec_unMatchedSpans c')) + mset (map rsp_Span result) =
       {#demo_span 1 0 SpanKindServer ''/pay'', demo_span 3 2 SpanKindClient ''GET''#}"
proof -
  let ?td = "[demo_resource [demo_span 1 0 SpanKindServer ''/pay'', demo_span 2 1 SpanKindInternal ''f'', demo_span 3 2 SpanKindClient ''GET'']]"
  have "cache_acyclic (\<lambda>t s. unat (hd s)) demo_cache" by (simp add: cache_acyclic_def demo_cache_def)
  moreover have "batch_acyclic (\<lambda>t s. unat (hd s)) ?td"
    by (simp add: batch_acyclic_def traces_spans_def rs_spans_def demo_defs)
  moreover have "reported_spans ?td = [demo_span 1 0 SpanKindServer ''/pay'', demo_span 3 2 SpanKindClient ''GET'']"
    by (simp add: reported_spans_def reported_resource_def reported_kind_def rs_spans_def GetResourceAttribute_def GetPid_def
        Let_def dec_int_def demo_defs)
  moreover have "ec_unMatchedSpans demo_cache = []" by (simp add: demo_cache_def)
  ultimately show ?thesis
    using exit_spans_accounted [of "\<lambda>t s. unat (hd s)" demo_cache ?td demo_api 0] by auto
qed

text \<open>a span that names itself as its parent. One batch with an internal span whose parent is its own identifier
  and a client span below it makes the matching recurse without end, whatever the library's identifiers look like, as
  long as that identifier is not the empty one.\<close>

theorem self_parent_never_returns:
  assumes "\<not> SpanID_IsEmpty api [9]"
  shows "GetMatchedResourceSpans api now [demo_resource [demo_span 9 9 SpanKindInternal ''f'', demo_span 3 9 SpanKindClient ''GET'']]
           demo_cache = None"
proof -
  have "climb \<lparr>em_entrySpanNames = [], em_pspanIds = [([9], [9])]\<rparr> n [9] \<noteq> None" for n
    by (induction n) auto
  then have "GetEntrySpanName \<lparr>em_entrySpanNames = [], em_pspanIds = [([9], [9])]\<rparr> [9] = None"
    by (simp only: GetEntrySpanName_None_iff) blast
  with assms show ?thesis
    by (simp add: GetMatchedResourceSpans_def record_traces_def record_group_def groupSpansByTraceId_def group_add_def Let_def
        AddMapping_def AddMapping_span_def newEntryUrlMapping_def map_store_def match_resource_def match_span_def
        GetResourceAttribute_def GetPid_def dec_int_def demo_defs)
qed

theorem self_parent_never_returns_witness:
  "GetMatchedResourceSpans demo_api 5 [demo_resource [demo_span 9 9 SpanKindInternal ''f'', demo_span 3 9 SpanKindClient ''GET'']]
     demo_cache = None"
  by (rule self_parent_never_returns) (simp add: demo_api_def)

text \<open>retention of the entry names. A trace first recorded by a batch stays known through the next
  \<open>cache_entry_url_time\<close> ticks, whatever batches arrive in between, and the tick after those forgets it.\<close>

theorem entry_url_retention:
  assumes "NewEntryUrlCache cacheUrlTime expireTime = Inr c0" "ec_run api es0 c0 = Some c1"
    and "t \<notin> dom (map_load (ec_entryUrlMap c1))" "t \<in> sp_TraceID ` set (traces_spans td)"
    and "ec_step api (Consume now td) c1 = Some c2" "ec_run api es c2 = Some c3" "ticks es \<le> nat cacheUrlTime"
  shows "t \<in> dom (map_load (ec_entryUrlMap c3)) \<and>
         (ticks es = nat cacheUrlTime \<longrightarrow> (\<exists>c4. ec_step api Tick c3 = Some c4 \<and> t \<notin> dom (map_load (ec_entryUrlMap c4))))"
proof -
  let ?k = "nat cacheUrlTime"
  have inv1: "ec_inv ?k c1" by (rule ec_run_inv [OF assms(2) NewEntryUrlCache_inv [OF assms(1)]])
  obtain r where m: "GetMatchedResourceSpans api now td c1 = Some (c2, r)" using assms(5) by auto
  note g = GetMatched_inv [OF m inv1]
  have "length (ib_queue (ec_idBuckets c2)) = ?k" using g(1) by (simp add: ec_inv_def ec_ages_def)
  then have last: "ec_ages c2 ! ?k = ec_idBatch c2" by (simp add: ec_ages_def nth_append)
  have dom_ages: "dom (map_load (ec_entryUrlMap c)) = set (concat (ec_ages c))" if "ec_inv ?k c" for c
    using that by (simp add: ec_inv_def)
  have "t \<in> set (concat (ec_ages c2))" "t \<notin> set (concat (ec_ages c1))"
    using g(4) assms(3,4) dom_ages [OF g(1)] dom_ages [OF inv1] by blast+
  then have "t \<in> set (ec_ages c2 ! ?k)" unfolding last by (auto simp: ec_ages_def g(2))
  from ec_run_age [OF assms(6) g(1) assms(7) order_refl this]
  have 3: "ec_inv ?k c3" "t \<in> set (ec_ages c3 ! (?k - ticks es))" by blast+
  have len: "length (ec_ages c3) = Suc ?k" using 3(1) by (simp add: ec_inv_def)
  have "t \<in> dom (map_load (ec_entryUrlMap c3))"
    unfolding dom_ages [OF 3(1)] using 3(2) len nth_mem [of "?k - ticks es" "ec_ages c3"] by auto
  moreover have "\<exists>c4. ec_step api Tick c3 = Some c4 \<and> t \<notin> dom (map_load (ec_entryUrlMap c4))" if "ticks es = ?k"
    using CleanExpireBuckets_ages [OF 3(1)] 3(2) that len hd_conv_nth [of "ec_ages c3"] by (cases "ec_ages c3") auto
  ultimately show ?thesis by blast
qed

theorem entry_url_retention_witness:
  "\<exists>c0 c2 c3 c4. NewEntryUrlCache 1 60 = Inr c0 \<and>
     ec_step demo_api (Consume 0 [demo_resource [demo_span 1 0 SpanKindServer ''/pay'']]) c0 = Some c2 \<and>
     ec_run demo_api [Tick] c2 = Some c3 \<and> [7] \<in> dom (map_load (ec_entryUrlMap c3)) \<and>
     ec_step demo_api Tick c3 = Some c4 \<and> [7] \<notin> dom (map_load (ec_entryUrlMap c4))"
proof -
  let ?td = "[demo_resource [demo_span 1 0 SpanKindServer ''/pay'']]"
  let ?m = "[([7], \<lparr>em_entrySpanNames = [([1], ''/pay'')], em_pspanIds = []\<rparr>)]"
  let ?c0 = "\<lparr>ec_entryUrlMap = [], ec_unMatchedSpans = [], ec_idBatch = [], ec_idBuckets = \<lparr>ib_buckets = [[], []], ib_writeIndex = 1\<rparr>,
               ec_expireUnMatcheTime = 60\<rparr>"
  let ?c2 = "?c0\<lparr>ec_entryUrlMap := ?m, ec_idBatch := [[7]]\<rparr>"
  let ?c3 = "?c0\<lparr>ec_entryUrlMap := ?m, ec_idBuckets := \<lparr>ib_buckets = [[], [[7]]], ib_writeIndex = 0\<rparr>\<rparr>"
  have 0: "NewEntryUrlCache 1 60 = Inr ?c0" by (simp add: NewEntryUrlCache_def NewBuckets_def numeral_2_eq_2)
  have 2: "ec_step demo_api (Consume 0 ?td) ?c0 = Some ?c2"
    by (simp add: GetMatchedResourceSpans_def record_traces_def record_group_def groupSpansByTraceId_def group_add_def Let_def
        AddMapping_def AddMapping_span_def newEntryUrlMapping_def map_store_def match_resource_def match_span_def AddToBatch_def
        GetResourceAttribute_def GetPid_def dec_int_def demo_defs)
  have 3: "ec_run demo_api [Tick] ?c2 = Some ?c3"
    by (simp add: CleanExpireBuckets_def PickBatch_def CopyAndGetBatch_def Let_def)
  have t: "[7] \<in> sp_TraceID ` set (traces_spans ?td)" by (simp add: traces_spans_def rs_spans_def demo_defs)
  have "[7] \<notin> dom (map_load (ec_entryUrlMap ?c0))" "ec_run demo_api [] ?c0 = Some ?c0" "ticks [Tick] \<le> nat 1" "ticks [Tick] = nat 1"
    by (simp_all add: ticks_def)
  from entry_url_retention [OF 0 this(2,1) t 2 3 this(3)] this(4) 0 2 3 show ?thesis by blast
qed

text \<open>The sequential behaviour of \<open>CleanUnMatchedSpans\<close>: the expired spans at the head leave, and with deadlines
  in order of arrival no expired span stays.\<close>

lemma CleanUnMatchedSpans_split:
  "\<exists>c'. CleanUnMatchedSpans now c = Some (c', takeWhile (\<lambda>w. rsp_ExpireTime w < now) (ec_unMatchedSpans c)) \<and>
        ec_unMatchedSpans c' = dropWhile (\<lambda>w. rsp_ExpireTime w < now) (ec_unMatchedSpans c) \<and>
        ec_entryUrlMap c' = ec_entryUrlMap c"
proof (cases "takeWhile (\<lambda>w. rsp_ExpireTime w < now) (ec_unMatchedSpans c)")
  case Nil
  then have "dropWhile (\<lambda>w. rsp_ExpireTime w < now) (ec_unMatchedSpans c) = ec_unMatchedSpans c"
    using takeWhile_dropWhile_id [of "\<lambda>w. rsp_ExpireTime w < now" "ec_unMatchedSpans c"] by simp
  with Nil show ?thesis by (simp add: CleanUnMatchedSpans_def CleanUnMatchedSpans_count_def CleanUnMatchedSpans_cut_def)
next
  case (Cons w ws)
  let ?n = "length (takeWhile (\<lambda>w. rsp_ExpireTime w < now) (ec_unMatchedSpans c))"
  have n: "?n \<noteq> 0" "?n \<le> length (ec_unMatchedSpans c)" using Cons by simp (rule length_takeWhile_le)
  have "slice_from (ec_unMatchedSpans c) (int ?n) = Some (dropWhile (\<lambda>w. rsp_ExpireTime w < now) (ec_unMatchedSpans c))"
    using n(2) by (simp add: slice_from_def dropWhile_eq_drop)
  with n(1) show ?thesis
    by (simp add: CleanUnMatchedSpans_def CleanUnMatchedSpans_count_def CleanUnMatchedSpans_cut_def Let_def takeWhile_eq_take [symmetric])
qed

lemma dropWhile_sorted_deadline:
  "sorted (map rsp_ExpireTime ws) \<Longrightarrow> w \<in> set (dropWhile (\<lambda>w. rsp_ExpireTime w < now) ws) \<Longrightarrow> now \<le> rsp_ExpireTime w"
  by (induction ws) (auto split: if_splits)

text \<open>expiry of waiting exit spans. \<open>CleanUnMatchedSpans\<close> never panics when nothing runs between its
  count and its cut; what it returns and what it keeps is the waiting list in order; all it returns has passed its
  deadline, and when deadlines are in order of arrival nothing it keeps has.\<close>

theorem expired_spans_leave:
  "\<exists>c' out. CleanUnMatchedSpans now c = Some (c', out) \<and> out @ ec_unMatchedSpans c' = ec_unMatchedSpans c \<and>
     (\<forall>w \<in> set out. rsp_ExpireTime w < now) \<and>
     (sorted (map rsp_ExpireTime (ec_unMatchedSpans c)) \<longrightarrow> (\<forall>w \<in> set (ec_unMatchedSpans c'). now \<le> rsp_ExpireTime w))"
  using CleanUnMatchedSpans_split [of now c] dropWhile_sorted_deadline by (fastforce dest: set_takeWhileD)

definition demo_waiting :: "int \<Rightarrow> resource_span" where
  "demo_waiting t = NewResourceSpan t ''4'' [] ''svc'' [] (demo_span 3 1 SpanKindClient ''GET'')"

theorem expired_spans_leave_witness:
  "\<exists>c' out. CleanUnMatchedSpans 100 (demo_cache\<lparr>ec_unMatchedSpans := [demo_waiting 60, demo_waiting 130]\<rparr>) = Some (c', out) \<and>
     out @ ec_unMatchedSpans c' = [demo_waiting 60, demo_waiting 130] \<and> (\<forall>w \<in> set (ec_unMatchedSpans c'). 100 \<le> rsp_ExpireTime w)"
  using expired_spans_leave [of 100 "demo_cache\<lparr>ec_unMatchedSpans := [demo_waiting 60, demo_waiting 130]\<rparr>"]
  by (simp add: demo_waiting_def NewResourceSpan_def) blast

text \<open>the race in \<open>CleanUnMatchedSpans\<close>. The number of expired spans is determined without the lock; when a batch
  that brings the missing entry span is consumed before the lock is taken, the list has become shorter than that number
  and the cut is out of range: the collector panics.\<close>

theorem clean_unmatched_race:
  "\<exists>c td c' result. CleanUnMatchedSpans_count 100 c = 1 \<and> GetMatchedResourceSpans demo_api 100 td c = Some (c', result) \<and>
     CleanUnMatchedSpans_cut 1 c' = None"
proof -
  let ?c = "demo_cache\<lparr>ec_unMatchedSpans := [demo_waiting 60]\<rparr>"
  let ?td = "[demo_resource [demo_span 1 0 SpanKindServer ''/pay'']]"
  have "CleanUnMatchedSpans_count 100 ?c = 1"
    by (simp add: CleanUnMatchedSpans_count_def demo_waiting_def NewResourceSpan_def)
  moreover have "GetEntrySpanName \<lparr>em_entrySpanNames = [([1], ''/pay'')], em_pspanIds = []\<rparr> [1] = Some ''/pay''"
    by (subst GetEntrySpanName.simps) simp
  then have "\<exists>c' result. GetMatchedResourceSpans demo_api 100 ?td ?c = Some (c', result) \<and> ec_unMatchedSpans c' = []"
    by (simp add: GetMatchedResourceSpans_def record_traces_def record_group_def groupSpansByTraceId_def group_add_def Let_def
        AddMapping_def AddMapping_span_def newEntryUrlMapping_def map_store_def match_resource_def match_span_def AddToBatch_def
        GetResourceAttribute_def GetPid_def dec_int_def demo_waiting_def NewResourceSpan_def demo_defs)
  then obtain c' result where m: "GetMatchedResourceSpans demo_api 100 ?td ?c = Some (c', result)" "ec_unMatchedSpans c' = []"
    by blast
  then have "CleanUnMatchedSpans_cut 1 c' = None" by (simp add: CleanUnMatchedSpans_cut_def slice_from_def)
  ultimately show ?thesis using m by blast
qed

end
