(* ===== verification/Histogram.thy ===== *)
theory Histogram
  imports Prelude
begin

section \<open>Latency histograms\<close>

text \<open>
  \<open>redmetricsconnector/internal/cache/{histogram,pm_histogram,vm_histogram}.go\<close>: the Go interface
  \<open>Histogram\<close> with its Prometheus implementation (given bounds, binary search) and its
  VictoriaMetrics implementation (log-spaced buckets, allocated per decade on demand).

  Floating-point arithmetic that rounds is not computed here: \<open>float_ops\<close> holds the operations the
  code uses (\<open>+\<close>, \<open>-\<close>, \<open>*\<close>, \<open>math.Log10\<close>, \<open>math.Pow10\<close>, \<open>fmt.Sprintf("%.3e")\<close> and the constant
  \<open>bucketMultiplier\<close>), and the statements about counts hold for all of them. \<open>fl_log10\<close> of zero is
  minus infinity, the value \<open>None\<close>. NaN is not a value of the model.

  The locale \<open>histogram\<close> is the contract of the interface towards the connector: every accepted update
  is counted once, and the buckets sum up to the count.
\<close>

record float_ops =
  fl_add :: "f64 \<Rightarrow> f64 \<Rightarrow> f64"
  fl_sub :: "f64 \<Rightarrow> f64 \<Rightarrow> f64"
  fl_mul :: "f64 \<Rightarrow> f64 \<Rightarrow> f64"
  fl_log10 :: "f64 \<Rightarrow> f64 option"
  fl_pow10 :: "int \<Rightarrow> f64"
  fl_bucketMultiplier :: f64
  fl_fmt3e :: "f64 \<Rightarrow> string"

datatype metrics_type = MetricsProm | MetricsVm

definition GetMetricsType :: "string \<Rightarrow> metrics_type" where
  "GetMetricsType metricsType = (if metricsType = ''prom'' then MetricsProm else MetricsVm)"

subsection \<open>The contract\<close>

locale histogram =
  fixes upd :: "f64 \<Rightarrow> 'h \<Rightarrow> 'h"
    and total :: "'h \<Rightarrow> u64"
    and bucket_total :: "'h \<Rightarrow> u64"
    and hist_ok :: "'h \<Rightarrow> bool"
    and accepts :: "f64 \<Rightarrow> bool"
  assumes upd_ok: "hist_ok h \<Longrightarrow> hist_ok (upd v h)"
    and upd_total: "hist_ok h \<Longrightarrow> total (upd v h) = total h + (if accepts v then 1 else 0)"
    and buckets_total: "hist_ok h \<Longrightarrow> bucket_total h = total h"
begin

lemma updates_ok: "hist_ok h \<Longrightarrow> hist_ok (fold upd vs h)"
  by (induction vs arbitrary: h) (auto simp: upd_ok)

lemma updates_counted:
  "hist_ok h \<Longrightarrow> total (fold upd vs h) = total h + of_nat (length (filter accepts vs))"
  by (induction vs arbitrary: h) (auto simp: upd_ok upd_total algebra_simps)

lemma updates_in_buckets:
  "hist_ok h \<Longrightarrow> bucket_total (fold upd vs h) = total h + of_nat (length (filter accepts vs))"
  by (simp add: updates_ok updates_counted buckets_total)

end

subsection \<open>\<open>PromHistogram\<close>\<close>

record prom_histogram =
  ph_count :: u64
  ph_sum :: f64
  ph_bucketCounts :: "u64 list"
  ph_latencyBounds :: "f64 list"

definition NewPromHistogram :: "f64 list \<Rightarrow> prom_histogram" where
  "NewPromHistogram latencyBounds =
     \<lparr>ph_count = 0, ph_sum = 0, ph_bucketCounts = replicate (length latencyBounds + 1) 0,
      ph_latencyBounds = latencyBounds\<rparr>"

text \<open>\<open>sort.Search\<close>: the loop \<open>for i < j\<close> with its midpoint; \<open>SearchFloat64s\<close> asks for \<open>a[h] >= x\<close>.\<close>

function sort_Search :: "(nat \<Rightarrow> bool) \<Rightarrow> nat \<Rightarrow> nat \<Rightarrow> nat" where
  "sort_Search f i j =
     (if i < j then
        let h = (i + j) div 2 in if \<not> f h then sort_Search f (h + 1) j else sort_Search f i h
      else i)"
  by pat_completeness auto
termination
  by (relation "measure (\<lambda>(f, i, j). j - i)") auto

declare sort_Search.simps [simp del]

definition SearchFloat64s :: "f64 list \<Rightarrow> f64 \<Rightarrow> nat" where
  "SearchFloat64s a x = sort_Search (\<lambda>h. a ! h \<ge> x) 0 (length a)"

definition prom_Update :: "float_ops \<Rightarrow> f64 \<Rightarrow> prom_histogram \<Rightarrow> prom_histogram" where
  "prom_Update fl v h =
     (let index = SearchFloat64s (ph_latencyBounds h) v in
      h\<lparr>ph_sum := fl_add fl (ph_sum h) v, ph_count := ph_count h + 1,
        ph_bucketCounts := (ph_bucketCounts h)[index := ph_bucketCounts h ! index + 1]\<rparr>)"

lemma sort_Search_bounds: "i \<le> j \<Longrightarrow> i \<le> sort_Search f i j \<and> sort_Search f i j \<le> j"
proof (induction f i j rule: sort_Search.induct)
  case (1 f i j)
  show ?case
  proof (cases "i < j")
    case True
    let ?h = "(i + j) div 2"
    have h: "i \<le> ?h" "?h + 1 \<le> j" using True by auto
    have "sort_Search f i j = (if f ?h then sort_Search f i ?h else sort_Search f (?h + 1) j)"
      using True by (subst sort_Search.simps) (simp add: Let_def)
    with "1.IH"(1) [OF True refl] "1.IH"(2) [OF True refl] h show ?thesis by (auto split: if_splits)
  next
    case False
    with 1 show ?thesis by (subst (1 2) sort_Search.simps) auto
  qed
qed

text \<open>For a monotone predicate the search finds the first index that satisfies it.\<close>

lemma sort_Search_first:
  assumes mono: "\<And>a b. a \<le> b \<Longrightarrow> b < n \<Longrightarrow> f a \<Longrightarrow> f b"
  shows "i \<le> j \<Longrightarrow> j \<le> n \<Longrightarrow> (\<forall>k < i. \<not> f k) \<Longrightarrow> (\<forall>k. j \<le> k \<and> k < n \<longrightarrow> f k) \<Longrightarrow>
    (\<forall>k < sort_Search f i j. \<not> f k) \<and> (\<forall>k. sort_Search f i j \<le> k \<and> k < n \<longrightarrow> f k)"
proof (induction "j - i" arbitrary: i j rule: less_induct)
  case less
  show ?case
  proof (cases "i < j")
    case False
    with less.prems have "sort_Search f i j = i" "i = j" by (simp_all add: sort_Search.simps)
    with less.prems show ?thesis by simp
  next
    case True
    let ?h = "(i + j) div 2"
    have h: "i \<le> ?h" "?h < j" "?h < n" using True less.prems(2) by auto
    have step: "sort_Search f i j = (if f ?h then sort_Search f i ?h else sort_Search f (?h + 1) j)"
      using True by (subst sort_Search.simps) (simp add: Let_def)
    show ?thesis
    proof (cases "f ?h")
      case fh: True
      have "\<forall>k. ?h \<le> k \<and> k < n \<longrightarrow> f k" using mono [of ?h] fh by blast
      moreover have "?h - i < j - i" "?h \<le> n" using h by linarith+
      ultimately have "(\<forall>k < sort_Search f i ?h. \<not> f k) \<and> (\<forall>k. sort_Search f i ?h \<le> k \<and> k < n \<longrightarrow> f k)"
        using less.prems(3) h(1) by (intro less.hyps)
      then show ?thesis unfolding step if_P [OF fh] .
    next
      case fh: False
      have "\<forall>k < ?h + 1. \<not> f k" using mono [of _ ?h] fh h(3) by (metis less_Suc_eq_le Suc_eq_plus1)
      moreover have "j - (?h + 1) < j - i" using h by linarith
      moreover have "?h + 1 \<le> j" using h by linarith
      ultimately have "(\<forall>k < sort_Search f (?h + 1) j. \<not> f k) \<and>
          (\<forall>k. sort_Search f (?h + 1) j \<le> k \<and> k < n \<longrightarrow> f k)"
        using less.prems(2,4) by (intro less.hyps)
      then show ?thesis unfolding step if_not_P [OF fh] .
    qed
  qed
qed

lemma SearchFloat64s_le: "SearchFloat64s a x \<le> length a"
  using sort_Search_bounds [of 0 "length a"] by (simp add: SearchFloat64s_def)

lemma SearchFloat64s_sorted:
  assumes "sorted a"
  shows "(\<forall>k < SearchFloat64s a x. a ! k < x) \<and> (\<forall>k. SearchFloat64s a x \<le> k \<and> k < length a \<longrightarrow> x \<le> a ! k)"
proof -
  have "(\<forall>k < SearchFloat64s a x. \<not> x \<le> a ! k) \<and> (\<forall>k. SearchFloat64s a x \<le> k \<and> k < length a \<longrightarrow> x \<le> a ! k)"
    unfolding SearchFloat64s_def
    by (rule sort_Search_first) (use assms in \<open>auto dest: sorted_nth_mono order_trans\<close>)
  then show ?thesis by (auto simp: not_le)
qed

definition prom_ok :: "prom_histogram \<Rightarrow> bool" where
  "prom_ok h \<longleftrightarrow> length (ph_bucketCounts h) = length (ph_latencyBounds h) + 1 \<and> sum_list (ph_bucketCounts h) = ph_count h"

lemma sum_list_incr: "i < length xs \<Longrightarrow> sum_list (xs[i := xs ! i + 1]) = sum_list xs + (1 :: u64)"
  by (induction xs arbitrary: i) (auto simp: algebra_simps split: nat.split)

lemma prom_Update_ok: "prom_ok h \<Longrightarrow> prom_ok (prom_Update fl v h)"
  using SearchFloat64s_le [of "ph_latencyBounds h" v]
  by (simp add: prom_ok_def prom_Update_def Let_def sum_list_incr)

interpretation prom: histogram "prom_Update fl" ph_count "\<lambda>h. sum_list (ph_bucketCounts h)" prom_ok "\<lambda>v. True" for fl
  by unfold_locales (simp_all add: prom_Update_ok, simp_all add: prom_Update_def prom_ok_def Let_def)

text \<open>The bucket a value belongs to: above the previous bound, not above its own.\<close>

definition in_bucket :: "f64 list \<Rightarrow> nat \<Rightarrow> f64 \<Rightarrow> bool" where
  "in_bucket bounds i v \<longleftrightarrow> (\<forall>k < i. bounds ! k < v) \<and> (\<forall>k. i \<le> k \<and> k < length bounds \<longrightarrow> v \<le> bounds ! k)"

lemma search_in_bucket:
  assumes "sorted bounds" "i \<le> length bounds"
  shows "SearchFloat64s bounds v = i \<longleftrightarrow> in_bucket bounds i v"
proof
  assume "SearchFloat64s bounds v = i"
  with SearchFloat64s_sorted [OF assms(1), of v] show "in_bucket bounds i v" by (simp add: in_bucket_def)
next
  let ?s = "SearchFloat64s bounds v"
  assume b: "in_bucket bounds i v"
  have s: "\<forall>k < ?s. bounds ! k < v" "\<forall>k. ?s \<le> k \<and> k < length bounds \<longrightarrow> v \<le> bounds ! k" "?s \<le> length bounds"
    using SearchFloat64s_sorted [OF assms(1), of v] SearchFloat64s_le by blast+
  show "?s = i"
  proof (rule linorder_cases [of ?s i])
    assume "?s < i"
    then have "bounds ! ?s < v" "v \<le> bounds ! ?s" using b s(2) assms(2) by (auto simp: in_bucket_def)
    then show ?thesis by simp
  next
    assume "i < ?s"
    then have "bounds ! i < v" "v \<le> bounds ! i" using b s(1,3) by (auto simp: in_bucket_def)
    then show ?thesis by simp
  qed
qed

lemma prom_updates_buckets:
  assumes "sorted (ph_latencyBounds h)" "prom_ok h" "i \<le> length (ph_latencyBounds h)"
  shows "ph_bucketCounts (fold (prom_Update fl) vs h) ! i =
           ph_bucketCounts h ! i + of_nat (length (filter (in_bucket (ph_latencyBounds h) i) vs))"
  using assms
proof (induction vs arbitrary: h)
  case Nil
  then show ?case by simp
next
  case (Cons v vs)
  let ?h = "prom_Update fl v h"
  have h: "ph_latencyBounds ?h = ph_latencyBounds h" "prom_ok ?h"
    using Cons.prems by (auto simp: prom_Update_ok) (simp add: prom_Update_def Let_def)
  have "ph_bucketCounts ?h ! i = ph_bucketCounts h ! i + (if in_bucket (ph_latencyBounds h) i v then 1 else 0)"
    using Cons.prems SearchFloat64s_le [of "ph_latencyBounds h" v]
    by (auto simp: prom_Update_def Let_def prom_ok_def nth_list_update search_in_bucket [symmetric])
  with Cons.IH [of ?h] Cons.prems h show ?case by (simp add: algebra_simps)
qed

subsection \<open>\<open>VmHistogram\<close>\<close>

abbreviation e10Min :: int where "e10Min \<equiv> - 9"
abbreviation e10Max :: int where "e10Max \<equiv> 18"
abbreviation bucketsPerDecimal :: nat where "bucketsPerDecimal \<equiv> 18"
abbreviation decimalBucketsCount :: nat where "decimalBucketsCount \<equiv> 27"
abbreviation bucketsCount :: nat where "bucketsCount \<equiv> 486"

record vm_histogram =
  vh_decimalBuckets :: "u64 list option list"
  vh_lower :: u64
  vh_upper :: u64
  vh_sum :: f64

definition NewVmHistogram :: vm_histogram where
  "NewVmHistogram =
     \<lparr>vh_decimalBuckets = replicate decimalBucketsCount None, vh_lower = 0, vh_upper = 0, vh_sum = 0\<rparr>"

definition vm_Reset :: "vm_histogram \<Rightarrow> vm_histogram" where
  "vm_Reset h =
     h\<lparr>vh_decimalBuckets := map (map_option (map (\<lambda>c. 0))) (vh_decimalBuckets h),
       vh_lower := 0, vh_upper := 0, vh_sum := 0\<rparr>"

text \<open>The counters of a decade, allocated when the first value falls into it.\<close>

definition vm_decade :: "u64 list option \<Rightarrow> u64 list" where
  "vm_decade db = (case db of None \<Rightarrow> replicate bucketsPerDecimal 0 | Some b \<Rightarrow> b)"

definition vm_Update :: "float_ops \<Rightarrow> f64 \<Rightarrow> vm_histogram \<Rightarrow> vm_histogram" where
  "vm_Update fl v h =
     (if v < 0 then h
      else
        (let h1 = h\<lparr>vh_sum := fl_add fl (vh_sum h) v\<rparr> in
         case fl_log10 fl v of
           None \<Rightarrow> h1\<lparr>vh_lower := vh_lower h1 + 1\<rparr>
         | Some l \<Rightarrow>
             (let bucketIdx = fl_mul fl (fl_sub fl l (of_int e10Min)) (of_nat bucketsPerDecimal) in
              if bucketIdx < 0 then h1\<lparr>vh_lower := vh_lower h1 + 1\<rparr>
              else if bucketIdx \<ge> of_nat bucketsCount then h1\<lparr>vh_upper := vh_upper h1 + 1\<rparr>
              else
                (let idx0 = nat \<lfloor>bucketIdx\<rfloor>;
                     idx = (if bucketIdx = of_nat idx0 \<and> idx0 > 0 then idx0 - 1 else idx0);
                     decimalBucketIdx = idx div bucketsPerDecimal;
                     offset = idx mod bucketsPerDecimal;
                     db = vm_decade (vh_decimalBuckets h1 ! decimalBucketIdx)
                 in h1\<lparr>vh_decimalBuckets :=
                         (vh_decimalBuckets h1)[decimalBucketIdx := Some (db[offset := db ! offset + 1])]\<rparr>))))"

text \<open>\<open>seconds\<close> is \<open>time.Since(startTime).Seconds()\<close>.\<close>

definition vm_UpdateDuration :: "float_ops \<Rightarrow> f64 \<Rightarrow> vm_histogram \<Rightarrow> vm_histogram" where
  "vm_UpdateDuration fl seconds h = vm_Update fl seconds h"

definition vm_Merge :: "float_ops \<Rightarrow> vm_histogram \<Rightarrow> vm_histogram \<Rightarrow> vm_histogram" where
  "vm_Merge fl src h =
     h\<lparr>vh_lower := vh_lower h + vh_lower src, vh_upper := vh_upper h + vh_upper src,
       vh_sum := fl_add fl (vh_sum h) (vh_sum src),
       vh_decimalBuckets :=
         map2 (\<lambda>dbDst dbSrc.
             case dbSrc of None \<Rightarrow> dbDst | Some s \<Rightarrow> Some (map2 (+) (vm_decade dbDst) s))
           (vh_decimalBuckets h) (vh_decimalBuckets src)\<rparr>"

text \<open>The printed bucket ranges, computed by one running product.\<close>

fun vm_ranges :: "float_ops \<Rightarrow> nat \<Rightarrow> f64 \<Rightarrow> string \<Rightarrow> string list" where
  "vm_ranges fl 0 v start = []"
| "vm_ranges fl (Suc n) v start =
     (let v' = fl_mul fl v (fl_bucketMultiplier fl); end' = fl_fmt3e fl v'
      in (start @ ''...'' @ end') # vm_ranges fl n v' end')"

definition initBucketRanges :: "float_ops \<Rightarrow> string list" where
  "initBucketRanges fl = vm_ranges fl bucketsCount (fl_pow10 fl e10Min) (fl_fmt3e fl (fl_pow10 fl e10Min))"

definition getVMRange :: "float_ops \<Rightarrow> nat \<Rightarrow> string" where
  "getVMRange fl bucketIdx = initBucketRanges fl ! bucketIdx"

definition lowerBucketRange :: "float_ops \<Rightarrow> string" where
  "lowerBucketRange fl = ''0...'' @ fl_fmt3e fl (fl_pow10 fl e10Min)"

definition upperBucketRange :: "float_ops \<Rightarrow> string" where
  "upperBucketRange fl = fl_fmt3e fl (fl_pow10 fl e10Max) @ ''...+Inf''"

text \<open>The calls of \<open>f\<close> that \<open>VisitNonZeroBuckets\<close> makes, in order.\<close>

definition VisitNonZeroBuckets :: "float_ops \<Rightarrow> vm_histogram \<Rightarrow> (string \<times> u64) list" where
  "VisitNonZeroBuckets fl h =
     (if vh_lower h > 0 then [(lowerBucketRange fl, vh_lower h)] else []) @
     concat (map (\<lambda>(d, db).
         case db of
           None \<Rightarrow> []
         | Some cs \<Rightarrow>
             map (\<lambda>(offset, cnt). (getVMRange fl (d * bucketsPerDecimal + offset), cnt))
               (filter (\<lambda>(offset, cnt). cnt > 0) (enumerate 0 cs)))
       (enumerate 0 (vh_decimalBuckets h))) @
     (if vh_upper h > 0 then [(upperBucketRange fl, vh_upper h)] else [])"

record vm_histogram_values =
  vv_buckets :: "(string, u64) gomap"
  vv_count :: u64
  vv_sum :: f64

definition vm_Read :: "float_ops \<Rightarrow> vm_histogram \<Rightarrow> vm_histogram_values" where
  "vm_Read fl h =
     (let vs = fold (\<lambda>(vmrange, cnt) vals.
                  vals\<lparr>vv_buckets := map_store vmrange cnt (vv_buckets vals), vv_count := vv_count vals + cnt\<rparr>)
                (VisitNonZeroBuckets fl h) \<lparr>vv_buckets = [], vv_count = 0, vv_sum = 0\<rparr>
      in if vv_count vs > 0 then vs\<lparr>vv_sum := vh_sum h\<rparr> else vs)"

text \<open>The type of the arrays, and the number of values in them.\<close>

definition vm_ok :: "vm_histogram \<Rightarrow> bool" where
  "vm_ok h \<longleftrightarrow> length (vh_decimalBuckets h) = decimalBucketsCount \<and>
     (\<forall>b. Some b \<in> set (vh_decimalBuckets h) \<longrightarrow> length b = bucketsPerDecimal)"

definition vm_cells :: "u64 list option list \<Rightarrow> u64" where
  "vm_cells dbs = sum_list (map (\<lambda>db. sum_list (vm_decade db)) dbs)"

definition vm_total :: "vm_histogram \<Rightarrow> u64" where
  "vm_total h = vh_lower h + vh_upper h + vm_cells (vh_decimalBuckets h)"

lemma sum_list_update:
  "i < length xs \<Longrightarrow> sum_list (map g (xs[i := y])) = sum_list (map g xs) - g (xs ! i) + (g y :: u64)"
  by (induction xs arbitrary: i) (auto simp: algebra_simps split: nat.split)

lemma vm_cells_incr:
  assumes "d < length dbs" "offset < length (vm_decade (dbs ! d))"
  shows "vm_cells (dbs[d := Some ((vm_decade (dbs ! d))[offset := vm_decade (dbs ! d) ! offset + 1])]) = vm_cells dbs + 1"
  using sum_list_update [OF assms(1), of "\<lambda>db. sum_list (vm_decade db)"
      "Some ((vm_decade (dbs ! d))[offset := vm_decade (dbs ! d) ! offset + 1])"] sum_list_incr [OF assms(2)]
  by (simp add: vm_cells_def vm_decade_def [of "Some x" for x])

lemma vm_decade_len: "vm_ok h \<Longrightarrow> d < decimalBucketsCount \<Longrightarrow> length (vm_decade (vh_decimalBuckets h ! d)) = bucketsPerDecimal"
  by (auto simp: vm_ok_def vm_decade_def split: option.split) (metis nth_mem)

lemma vm_index_bound: "\<lfloor>x :: f64\<rfloor> < int bucketsCount \<Longrightarrow> i \<le> nat \<lfloor>x\<rfloor> \<Longrightarrow> i div bucketsPerDecimal < decimalBucketsCount"
  by (rule less_mult_imp_div_less) linarith

text \<open>An update of a non-negative value goes into exactly one cell.\<close>

lemma vm_Update_cell:
  assumes "vm_ok h" "\<not> v < 0"
  shows "vm_ok (vm_Update fl v h) \<and> vm_total (vm_Update fl v h) = vm_total h + 1"
proof (cases "fl_log10 fl v")
  case None
  with assms show ?thesis by (simp add: vm_Update_def Let_def vm_ok_def vm_total_def)
next
  case (Some l)
  let ?x = "fl_mul fl (fl_sub fl l (of_int e10Min)) (of_nat bucketsPerDecimal)"
  consider "?x < 0" | "of_nat bucketsCount \<le> ?x" "\<not> ?x < 0" | "\<not> ?x < 0" "\<not> of_nat bucketsCount \<le> ?x" by blast
  then show ?thesis
  proof cases
    case 3
    let ?i0 = "nat \<lfloor>?x\<rfloor>"
    let ?i = "if ?x = of_nat ?i0 \<and> ?i0 > 0 then ?i0 - 1 else ?i0"
    let ?d = "?i div bucketsPerDecimal" and ?o = "?i mod bucketsPerDecimal"
    let ?b = "vm_decade (vh_decimalBuckets h ! ?d)"
    have u: "vm_Update fl v h = h\<lparr>vh_sum := fl_add fl (vh_sum h) v,
        vh_decimalBuckets := (vh_decimalBuckets h)[?d := Some (?b[?o := ?b ! ?o + 1])]\<rparr>"
      using 3 assms(2) Some by (simp add: vm_Update_def Let_def)
    have "\<lfloor>?x\<rfloor> < int bucketsCount" using 3(2) by (simp add: floor_less_iff)
    then have d: "?d < decimalBucketsCount" by (rule vm_index_bound) simp
    have len: "length ?b = bucketsPerDecimal" using vm_decade_len [OF assms(1) d] .
    have l: "length (vh_decimalBuckets h) = decimalBucketsCount" using assms(1) by (simp add: vm_ok_def)
    have "vm_cells ((vh_decimalBuckets h)[?d := Some (?b[?o := ?b ! ?o + 1])]) = vm_cells (vh_decimalBuckets h) + 1"
      using d len l by (intro vm_cells_incr) simp_all
    moreover have "vm_ok (vm_Update fl v h)"
      using assms(1) len l unfolding u vm_ok_def by (auto dest!: set_update_subset_insert [THEN subsetD])
    ultimately show ?thesis unfolding u by (simp add: vm_total_def)
  qed (use assms Some in \<open>simp_all add: vm_Update_def Let_def vm_ok_def vm_total_def\<close>)
qed

lemma sum_list_filter_pos: "sum_list (map snd (filter (\<lambda>(i, c). c > 0) xs)) = sum_list (map (snd :: nat \<times> u64 \<Rightarrow> u64) xs)"
  by (induction xs) (auto simp: word_gt_0)

lemma visit_total: "sum_list (map snd (VisitNonZeroBuckets fl h)) = vm_total h"
proof -
  have e: "sum_list (map snd (case db of None \<Rightarrow> []
         | Some cs \<Rightarrow> map (\<lambda>(offset, cnt). (getVMRange fl (d * bucketsPerDecimal + offset), cnt))
               (filter (\<lambda>(offset, cnt). cnt > 0) (enumerate 0 cs)))) = sum_list (vm_decade db)" for d db
    using sum_list_filter_pos [of "enumerate 0 (the db)"]
    by (auto simp: vm_decade_def split_def comp_def sum_list_replicate split: option.split)
  have "sum_list (map snd (concat (map (\<lambda>(d, db). case db of None \<Rightarrow> []
         | Some cs \<Rightarrow> map (\<lambda>(offset, cnt). (getVMRange fl (d * bucketsPerDecimal + offset), cnt))
               (filter (\<lambda>(offset, cnt). cnt > 0) (enumerate 0 cs))) (enumerate n dbs)))) = vm_cells dbs" for n dbs
    by (induction dbs arbitrary: n) (simp_all add: vm_cells_def e)
  then show ?thesis
    by (auto simp: VisitNonZeroBuckets_def vm_total_def word_gt_0)
qed

lemma read_fold_count:
  "vv_count (fold (\<lambda>(r, c) vals. vals\<lparr>vv_buckets := map_store r c (vv_buckets vals), vv_count := vv_count vals + c\<rparr>) xs vs) =
     vv_count vs + sum_list (map snd xs)"
  by (induction xs arbitrary: vs) (auto simp: algebra_simps)

lemma vm_Read_count: "vv_count (vm_Read fl h) = vm_total h"
  using visit_total [of fl h] by (simp add: vm_Read_def Let_def read_fold_count)

interpretation vm: histogram "vm_Update fl" "\<lambda>h. vv_count (vm_Read fl h)" vm_total vm_ok "\<lambda>v. \<not> v < 0" for fl
proof unfold_locales
  show "vm_ok (vm_Update fl v h)" if "vm_ok h" for h v
    using vm_Update_cell [OF that, of v fl] that by (cases "v < 0") (simp_all add: vm_Update_def)
  show "vv_count (vm_Read fl (vm_Update fl v h)) = vv_count (vm_Read fl h) + (if \<not> v < 0 then 1 else 0)"
    if "vm_ok h" for h v
    using vm_Update_cell [OF that, of v fl] by (cases "v < 0") (simp_all add: vm_Read_count vm_Update_def)
  show "vm_total h = vv_count (vm_Read fl h)" for h by (simp add: vm_Read_count)
qed

lemma vm_new_ok: "vm_ok NewVmHistogram" "vm_total NewVmHistogram = 0"
  by (simp_all add: vm_ok_def vm_total_def NewVmHistogram_def vm_cells_def vm_decade_def sum_list_replicate)

lemma sum_list_map2_plus:
  "length xs = length ys \<Longrightarrow> sum_list (map2 (+) xs ys) = sum_list xs + (sum_list ys :: u64)"
  by (induction xs ys rule: list_induct2) (auto simp: algebra_simps)

lemma vm_Merge_total:
  assumes "vm_ok h" "vm_ok src"
  shows "vm_total (vm_Merge fl src h) = vm_total h + vm_total src"
proof -
  have "vm_cells (map2 (\<lambda>dbDst dbSrc. case dbSrc of None \<Rightarrow> dbDst | Some s \<Rightarrow> Some (map2 (+) (vm_decade dbDst) s)) xs ys) =
      vm_cells xs + vm_cells ys"
    if "length xs = length ys" "\<forall>b. Some b \<in> set xs \<longrightarrow> length b = bucketsPerDecimal"
      "\<forall>b. Some b \<in> set ys \<longrightarrow> length b = bucketsPerDecimal" for xs ys
    using that
  proof (induction xs ys rule: list_induct2)
    case Nil
    then show ?case by (simp add: vm_cells_def)
  next
    case (Cons x xs y ys)
    then have l: "length (vm_decade x) = bucketsPerDecimal" by (auto simp: vm_decade_def split: option.split)
    show ?case
    proof (cases y)
      case None
      with Cons show ?thesis by (simp add: vm_cells_def vm_decade_def [of None] sum_list_replicate algebra_simps)
    next
      case (Some s)
      with Cons l show ?thesis
        by (simp add: vm_cells_def vm_decade_def [of "Some z" for z] sum_list_map2_plus algebra_simps)
    qed
  qed
  with assms show ?thesis by (simp add: vm_ok_def vm_total_def vm_Merge_def algebra_simps)
qed

subsection \<open>The interface\<close>

datatype histo = PromHisto prom_histogram | VmHisto vm_histogram

definition NewHistogram :: "metrics_type \<Rightarrow> f64 list \<Rightarrow> histo" where
  "NewHistogram metricType latencyBounds =
     (if metricType = MetricsProm then PromHisto (NewPromHistogram latencyBounds) else VmHisto NewVmHistogram)"

fun h_Update :: "float_ops \<Rightarrow> f64 \<Rightarrow> histo \<Rightarrow> histo" where
  "h_Update fl v (PromHisto h) = PromHisto (prom_Update fl v h)"
| "h_Update fl v (VmHisto h) = VmHisto (vm_Update fl v h)"

text \<open>\<open>Read\<close> followed by the getters; the getter of the other implementation panics.\<close>

fun h_GetCount :: "float_ops \<Rightarrow> histo \<Rightarrow> u64" where
  "h_GetCount fl (PromHisto h) = ph_count h"
| "h_GetCount fl (VmHisto h) = vv_count (vm_Read fl h)"

fun h_GetSum :: "float_ops \<Rightarrow> histo \<Rightarrow> f64" where
  "h_GetSum fl (PromHisto h) = ph_sum h"
| "h_GetSum fl (VmHisto h) = vv_sum (vm_Read fl h)"

fun h_GetBucketCounts :: "histo \<Rightarrow> u64 list option" where
  "h_GetBucketCounts (PromHisto h) = Some (ph_bucketCounts h)"
| "h_GetBucketCounts (VmHisto h) = None"

fun h_GetBuckets :: "float_ops \<Rightarrow> histo \<Rightarrow> (string, u64) gomap option" where
  "h_GetBuckets fl (PromHisto h) = None"
| "h_GetBuckets fl (VmHisto h) = Some (vv_buckets (vm_Read fl h))"

fun h_ok :: "histo \<Rightarrow> bool" where
  "h_ok (PromHisto h) = prom_ok h"
| "h_ok (VmHisto h) = vm_ok h"

fun h_bucket_total :: "histo \<Rightarrow> u64" where
  "h_bucket_total (PromHisto h) = sum_list (ph_bucketCounts h)"
| "h_bucket_total (VmHisto h) = vm_total h"

lemma prom_new_ok:
  "prom_ok (NewPromHistogram bounds)" "ph_count (NewPromHistogram bounds) = 0"
  "ph_latencyBounds (NewPromHistogram bounds) = bounds"
  by (simp_all add: NewPromHistogram_def prom_ok_def sum_list_replicate)

lemma NewHistogram_ok: "h_ok (NewHistogram mt bounds)" "h_GetCount fl (NewHistogram mt bounds) = 0"
  using vm_new_ok
  by (simp_all add: NewHistogram_def NewPromHistogram_def prom_ok_def sum_list_replicate vm_Read_count)

lemma fold_h_Update:
  "fold (h_Update fl) vs (PromHisto p) = PromHisto (fold (prom_Update fl) vs p)"
  "fold (h_Update fl) vs (VmHisto q) = VmHisto (fold (vm_Update fl) vs q)"
  by (induction vs arbitrary: p q) simp_all

subsection \<open>Properties\<close>

text \<open>C26: The Prometheus histogram counts every value in its own bucket. With sorted bounds, after any
  updates bucket \<open>i\<close> holds exactly the number of values above bound \<open>i - 1\<close> and not above bound \<open>i\<close>
  (the binary search is exact), modulo \<open>2 ^ 64\<close>.\<close>

theorem prom_buckets_exact:
  assumes "sorted bounds" "i \<le> length bounds"
  shows "ph_bucketCounts (fold (prom_Update fl) vs (NewPromHistogram bounds)) ! i =
           of_nat (length (filter (in_bucket bounds i) vs))"
proof -
  have "ph_bucketCounts (NewPromHistogram bounds) ! i = 0"
    using assms(2) by (simp only: NewPromHistogram_def prom_histogram.simps nth_replicate less_Suc_eq_le Suc_eq_plus1 [symmetric])
  then show ?thesis
    using prom_updates_buckets [of "NewPromHistogram bounds" i fl vs] assms
    by (simp add: prom_new_ok)
qed

definition demo_float :: float_ops where
  "demo_float = \<lparr>fl_add = (+), fl_sub = (-), fl_mul = (*), fl_log10 = (\<lambda>v. if v = 0 then None else Some 0),
     fl_pow10 = (\<lambda>i. if i < 0 then 1 / 10 ^ nat (- i) else 10 ^ nat i), fl_bucketMultiplier = 1, fl_fmt3e = (\<lambda>v. ''x'')\<rparr>"

theorem prom_buckets_exact_witness:
  "ph_bucketCounts (fold (prom_Update demo_float) [1, 5, 7, 20] (NewPromHistogram [5, 10])) ! 0 = 2"
proof -
  have b: "in_bucket [5, 10] 0 v \<longleftrightarrow> v \<le> 5" for v :: f64
    by (auto simp: in_bucket_def less_Suc_eq numeral_2_eq_2)
  show ?thesis
    using prom_buckets_exact [of "[5, 10]" 0 demo_float "[1, 5, 7, 20]"] by (simp add: b del: fold_simps)
qed

text \<open>C27: Both histogram implementations count every latency once. After any number of updates with
  non-negative values the reported count is the number of updates, and the buckets sum up to it, modulo
  \<open>2 ^ 64\<close> and whatever the floating-point operations return.\<close>

theorem histogram_counts_every_latency:
  assumes "list_all (\<lambda>v. 0 \<le> v) vs"
  shows "h_GetCount fl (fold (h_Update fl) vs (NewHistogram mt bounds)) = of_nat (length vs) \<and>
         h_bucket_total (fold (h_Update fl) vs (NewHistogram mt bounds)) = of_nat (length vs)"
proof (cases mt)
  case MetricsProm
  then show ?thesis
    by (simp add: NewHistogram_def fold_h_Update prom.updates_counted prom.updates_in_buckets prom_new_ok)
next
  case MetricsVm
  have f: "filter (\<lambda>v. \<not> v < 0) vs = vs"
    using assms by (auto simp: list_all_iff filter_id_conv not_less)
  show ?thesis
    using MetricsVm vm.updates_counted [OF vm_new_ok(1), of fl vs] vm.updates_in_buckets [OF vm_new_ok(1), of fl vs]
      vm_new_ok(2) f
    by (simp add: NewHistogram_def fold_h_Update vm_Read_count)
qed

theorem histogram_counts_every_latency_witness:
  "h_GetCount demo_float (fold (h_Update demo_float) [0, 3, 5] (NewHistogram MetricsVm [])) = 3 \<and>
   h_bucket_total (fold (h_Update demo_float) [0, 3, 5] (NewHistogram MetricsVm [])) = 3"
  using histogram_counts_every_latency [of "[0, 3, 5]" demo_float MetricsVm "[]"] by simp

end
