(* ===== verification/RedConnector.thy ===== *)
theory RedConnector
  imports EntryUrl KeyParser Histogram Ticker
begin

section \<open>The RED metrics connector\<close>

text \<open>
  \<open>redmetricsconnector/{config,factory,connector}.go\<close>. The four pairs of fields of \<open>connectorImp\<close> (histograms by key,
  dimensions by key) are four \<open>family\<close> records; the code that treats each pair the same way (lookup or add of the
  dimensions, update of the histogram) is \<open>observe\<close>. The library code the connector calls is collected in \<open>red_rt\<close>:
  attribute and SQL functions (\<open>rt_env\<close>), floating-point operations, the LRU cache, and \<open>int64(f)\<close>, whose result Go
  leaves open outside the range of the type.

  \<open>p.lock\<close> is taken per span and per export, so calls are steps on the state. A run-time panic, and a recursion that never
  returns, is \<open>None\<close>. What is handed to the next consumer is the result of \<open>exportMetrics\<close>.
\<close>

subsection \<open>Configuration\<close>

record red_config =
  rc_ServerEnabled :: bool
  rc_ExternalEnabled :: bool
  rc_DbEnabled :: bool
  rc_MqEnabled :: bool
  rc_ClientEntryUrlEnabled :: bool
  rc_CacheEntryUrlTime :: int
  rc_UnMatchUrlExpireTime :: int
  rc_DimensionsCacheSize :: int
  rc_MetricsFlushInterval :: int
  rc_MaxServicesToTrack :: int
  rc_MaxOperationsToTrackPerService :: int
  rc_HttpParser :: string
  rc_MetricsType :: string
  rc_LatencyHistogramBuckets :: "int list option"

definition red_createDefaultConfig :: red_config where
  "red_createDefaultConfig =
     \<lparr>rc_ServerEnabled = False, rc_ExternalEnabled = False, rc_DbEnabled = False, rc_MqEnabled = False,
      rc_ClientEntryUrlEnabled = False, rc_CacheEntryUrlTime = 0, rc_UnMatchUrlExpireTime = 60 * 1000000000,
      rc_DimensionsCacheSize = 1000, rc_MetricsFlushInterval = 60 * 1000000000, rc_MaxServicesToTrack = 256,
      rc_MaxOperationsToTrackPerService = 2048, rc_HttpParser = [], rc_MetricsType = [], rc_LatencyHistogramBuckets = None\<rparr>"

definition defaultLatencyHistogramBucketsMs :: "f64 list" where
  "defaultLatencyHistogramBucketsMs =
     [2000000, 4000000, 6000000, 8000000, 10000000, 50000000, 100000000, 200000000, 400000000, 800000000,
      1000000000, 1400000000, 2000000000, 5000000000, 10000000000, 15000000000, 30000000000]"

text \<open>\<open>float64(v.Nanoseconds())\<close> of a duration.\<close>

definition mapDurationsToNanos :: "int list \<Rightarrow> f64 list" where
  "mapDurationsToNanos vs = map (\<lambda>v. if v < 0 then - of_nat (round53 (nat (- v))) else of_nat (round53 (nat v))) vs"

subsection \<open>State\<close>

type_synonym dims = "(string, string) gomap"
type_synonym histograms = "(string, histo) gomap"

record 'l red_rt =
  rt_env :: red_env
  rt_float :: float_ops
  rt_int64 :: "f64 \<Rightarrow> int"
  rt_lru :: "('l, dims) lru_ops"

record 'l family =
  fm_histograms :: histograms
  fm_dimensions :: "('l, dims) dim_cache"

record 'l connector_imp =
  co_config :: red_config
  co_startTimestamp :: u64
  co_server :: "'l family"
  co_db :: "'l family"
  co_external :: "'l family"
  co_mq :: "'l family"
  co_bounds :: "f64 list"
  co_keyValue :: reused_key_value
  co_started :: bool
  co_shutdownOnce :: bool
  co_serviceToOperations :: "(string, string list) gomap"
  co_maxServices :: int
  co_maxOperations :: int
  co_metricsType :: metrics_type
  co_entryUrlCache :: "entry_url_cache option"
  co_cleanTicker :: policy_ticker

datatype red_error = InvalidCacheSize int | LruError | EntryUrlError entry_cache_error

definition newConnector :: "'l red_rt \<Rightarrow> u64 \<Rightarrow> red_config \<Rightarrow> red_error + 'l connector_imp" where
  "newConnector rt now cfg =
     (if rc_DimensionsCacheSize cfg \<le> 0 then Inl (InvalidCacheSize (rc_DimensionsCacheSize cfg))
      else
        (case NewCache (rt_lru rt) (rc_DimensionsCacheSize cfg) of
           None \<Rightarrow> Inl LruError
         | Some dc \<Rightarrow>
             (let bounds = (case rc_LatencyHistogramBuckets cfg of
                              None \<Rightarrow> defaultLatencyHistogramBucketsMs
                            | Some ds \<Rightarrow> mapDurationsToNanos ds);
                  fam = \<lparr>fm_histograms = [], fm_dimensions = dc\<rparr>;
                  connector =
                    \<lparr>co_config = cfg, co_startTimestamp = now, co_server = fam, co_db = fam, co_external = fam, co_mq = fam,
                     co_bounds = bounds, co_keyValue = NewReusedKeyValue 100, co_started = False, co_shutdownOnce = False,
                     co_serviceToOperations = [], co_maxServices = rc_MaxServicesToTrack cfg,
                     co_maxOperations = rc_MaxOperationsToTrackPerService cfg,
                     co_metricsType = GetMetricsType (rc_MetricsType cfg), co_entryUrlCache = None,
                     co_cleanTicker = NewPolicyTicker\<rparr>
              in if rc_ClientEntryUrlEnabled cfg then
                   (case NewEntryUrlCache (dur_seconds (rc_CacheEntryUrlTime cfg)) (dur_seconds (rc_UnMatchUrlExpireTime cfg)) of
                      Inl e \<Rightarrow> Inl (EntryUrlError e)
                    | Inr entryUrlCache \<Rightarrow> Inr (connector\<lparr>co_entryUrlCache := Some entryUrlCache\<rparr>))
                 else Inr connector)))"

definition red_Start :: "'l connector_imp \<Rightarrow> 'l connector_imp option" where
  "red_Start p =
     (let cfg = co_config p in
      if \<not> rc_ServerEnabled cfg \<and> \<not> rc_ExternalEnabled cfg \<and> \<not> rc_DbEnabled cfg \<and> \<not> rc_MqEnabled cfg then Some p
      else do {
        t \<leftarrow> (if rc_ClientEntryUrlEnabled cfg then pt_Start 1000000000 (co_cleanTicker p) else Some (co_cleanTicker p));
        Some (p\<lparr>co_cleanTicker := t, co_started := True\<rparr>)
      })"

definition red_Shutdown :: "'l connector_imp \<Rightarrow> 'l connector_imp option" where
  "red_Shutdown p = do {
     t \<leftarrow> (if rc_ClientEntryUrlEnabled (co_config p) then pt_Stop (co_cleanTicker p) else Some (co_cleanTicker p));
     Some (if co_shutdownOnce p then p\<lparr>co_cleanTicker := t\<rparr>
           else p\<lparr>co_cleanTicker := t, co_shutdownOnce := True, co_started := False\<rparr>)
   }"

subsection \<open>Aggregation\<close>

definition updateHistogram :: "float_ops \<Rightarrow> metrics_type \<Rightarrow> f64 list \<Rightarrow> string \<Rightarrow> f64 \<Rightarrow> histograms \<Rightarrow> histograms" where
  "updateHistogram fl metricsType bounds key latency histograms =
     (let histo = (case map_load histograms key of Some h \<Rightarrow> h | None \<Rightarrow> NewHistogram metricsType bounds) in
      map_store key (h_Update fl latency histo) histograms)"

definition observe :: "'l red_rt \<Rightarrow> 'l connector_imp \<Rightarrow> string \<Rightarrow> f64 \<Rightarrow> 'l family \<Rightarrow> 'l family" where
  "observe rt p key latency fam =
     (let (dc, found) = dc_Get (rt_lru rt) key (fm_dimensions fam);
          dc1 = (if found = None then fst (dc_Add (rt_lru rt) key (rk_GetMap (co_keyValue p)) dc) else dc)
      in fam\<lparr>fm_dimensions := dc1,
             fm_histograms := updateHistogram (rt_float rt) (co_metricsType p) (co_bounds p) key latency (fm_histograms fam)\<rparr>)"

text \<open>\<open>len(m[k])\<close> of a missing inner map is 0.\<close>

definition buildServerKey :: "'l red_rt \<Rightarrow> string \<Rightarrow> string \<Rightarrow> string \<Rightarrow> span \<Rightarrow> 'l connector_imp \<Rightarrow> 'l connector_imp \<times> string" where
  "buildServerKey rt pid containerId serviceName0 sp p =
     (let ops = (\<lambda>s. case map_load (co_serviceToOperations p) s of Some os \<Rightarrow> os | None \<Rightarrow> []);
          serviceName = (if int (length (co_serviceToOperations p)) > co_maxServices p then ''overflow_service'' else serviceName0);
          spanName = (if int (length (ops serviceName)) > co_maxOperations p then ''overflow_operation'' else sp_Name sp);
          p1 = p\<lparr>co_serviceToOperations := map_store serviceName (List.insert spanName (ops serviceName)) (co_serviceToOperations p)\<rparr>;
          (kv, key) = BuildServerKey (rt_env rt) (co_keyValue p1) pid containerId serviceName (sp_Name sp)
                        (SpanID_IsEmpty (re_api (rt_env rt)) (sp_ParentSpanID sp)) (span_error sp)
      in (p1\<lparr>co_keyValue := kv\<rparr>, key))"

definition aggregate_server :: "'l red_rt \<Rightarrow> caller \<Rightarrow> span \<Rightarrow> f64 \<Rightarrow> 'l connector_imp \<Rightarrow> 'l connector_imp" where
  "aggregate_server rt ca sp latency p =
     (if rc_ServerEnabled (co_config p) \<and> (sp_Kind sp = SpanKindServer \<or> sp_Kind sp = SpanKindConsumer) \<and>
         (case map_load (sp_Attributes sp) ''sw8.span_id'' of None \<Rightarrow> True | Some v \<Rightarrow> value_Int v = 0)
      then (let (p1, key) = buildServerKey rt (ca_pid ca) (ca_containerId ca) (ca_serviceName ca) sp p
            in p1\<lparr>co_server := observe rt p1 key latency (co_server p1)\<rparr>)
      else p)"

definition aggregate_db :: "'l red_rt \<Rightarrow> caller \<Rightarrow> span \<Rightarrow> f64 \<Rightarrow> 'l connector_imp \<Rightarrow> 'l connector_imp option" where
  "aggregate_db rt ca sp latency p =
     (if sp_Kind sp = SpanKindClient \<and> rc_DbEnabled (co_config p) then
        do {
          (kv, dbKey) \<leftarrow> DbParser_Parse (rt_env rt) ca sp (co_keyValue p);
          let p1 = p\<lparr>co_keyValue := kv\<rparr>;
          Some (if dbKey \<noteq> [] then p1\<lparr>co_db := observe rt p1 dbKey latency (co_db p1)\<rparr> else p1)
        }
      else Some p)"

text \<open>The key of an external call: HTTP, else RPC, else an unknown system unless the span is a database or message call.\<close>

definition external_key :: "string \<Rightarrow> parser" where
  "external_key urlParser env ca sp keyValue =
     do {
       (kv1, httpKey) \<leftarrow> HttpParser_Parse urlParser env ca sp keyValue;
       (if httpKey \<noteq> [] then Some (kv1, httpKey)
        else do {
          (kv2, rpcKey) \<leftarrow> RpcParser_Parse env ca sp kv1;
          (if rpcKey \<noteq> [] then Some (kv2, rpcKey)
           else if map_load (sp_Attributes sp) ''db.system'' = None \<and> map_load (sp_Attributes sp) ''messaging.system'' = None
           then Some (BuildExternalKey env kv2 ca (sp_Name sp) (GetClientPeer env (sp_Attributes sp)) ''unknown'' (span_error sp))
           else Some (kv2, []))
        })
     }"

definition aggregate_external :: "'l red_rt \<Rightarrow> caller \<Rightarrow> span \<Rightarrow> f64 \<Rightarrow> 'l connector_imp \<Rightarrow> 'l connector_imp option" where
  "aggregate_external rt ca sp latency p =
     (if sp_Kind sp = SpanKindClient \<and> rc_ExternalEnabled (co_config p) then
        do {
          (kv, externalKey) \<leftarrow> external_key (rc_HttpParser (co_config p)) (rt_env rt) ca sp (co_keyValue p);
          let p1 = p\<lparr>co_keyValue := kv\<rparr>;
          Some (if externalKey \<noteq> [] then p1\<lparr>co_external := observe rt p1 externalKey latency (co_external p1)\<rparr> else p1)
        }
      else Some p)"

definition aggregate_mq :: "'l red_rt \<Rightarrow> caller \<Rightarrow> span \<Rightarrow> f64 \<Rightarrow> 'l connector_imp \<Rightarrow> 'l connector_imp option" where
  "aggregate_mq rt ca sp latency p =
     (if rc_MqEnabled (co_config p) then
        do {
          (kv, mqKey) \<leftarrow> MqParser_Parse (rt_env rt) ca sp (co_keyValue p);
          let p1 = p\<lparr>co_keyValue := kv\<rparr>;
          Some (if mqKey \<noteq> [] then p1\<lparr>co_mq := observe rt p1 mqKey latency (co_mq p1)\<rparr> else p1)
        }
      else Some p)"

definition aggregateMetricsForSpan :: "'l red_rt \<Rightarrow> caller \<Rightarrow> span \<Rightarrow> 'l connector_imp \<Rightarrow> 'l connector_imp option" where
  "aggregateMetricsForSpan rt ca sp p =
     (if sp_EndTimestamp sp \<le> sp_StartTimestamp sp then Some p
      else
        (let latencyInNanoseconds = f64_of_u64 (sp_EndTimestamp sp - sp_StartTimestamp sp) in
         do {
           p2 \<leftarrow> aggregate_db rt ca sp latencyInNanoseconds (aggregate_server rt ca sp latencyInNanoseconds p);
           p3 \<leftarrow> aggregate_external rt ca sp latencyInNanoseconds p2;
           aggregate_mq rt ca sp latencyInNanoseconds p3
         }))"

subsection \<open>Incoming traces\<close>

definition caller_of :: "resource_span \<Rightarrow> string \<Rightarrow> caller" where
  "caller_of w entryUrl =
     \<lparr>ca_pid = rsp_Pid w, ca_containerId = rsp_ContainerId w, ca_serviceName = rsp_ServiceName w, ca_entryUrl = entryUrl\<rparr>"

definition consume_plain :: "'l red_rt \<Rightarrow> resource_spans \<Rightarrow> 'l connector_imp \<Rightarrow> 'l connector_imp option" where
  "consume_plain rt rss p =
     (case GetResourceAttribute rss of (pid, serviceName, containerId) \<Rightarrow>
        if pid = [] \<or> serviceName = [] then Some p
        else
          (let ca = \<lparr>ca_pid = pid, ca_containerId = containerId, ca_serviceName = serviceName, ca_entryUrl = []\<rparr> in
           fold_opt (\<lambda>ils. fold_opt (aggregateMetricsForSpan rt ca) (ss_Spans ils)) (rs_ScopeSpans rss) p))"

definition red_ConsumeTraces :: "'l red_rt \<Rightarrow> int \<Rightarrow> traces \<Rightarrow> 'l connector_imp \<Rightarrow> 'l connector_imp option" where
  "red_ConsumeTraces rt now td p =
     (case co_entryUrlCache p of
        Some cache \<Rightarrow>
          do {
            (cache1, matched) \<leftarrow> GetMatchedResourceSpans (re_api (rt_env rt)) now td cache;
            fold_opt (\<lambda>w. aggregateMetricsForSpan rt (caller_of w (rsp_EntryUrl w)) (rsp_Span w)) matched
              (p\<lparr>co_entryUrlCache := Some cache1\<rparr>)
          }
      | None \<Rightarrow> fold_opt (consume_plain rt) td p)"

text \<open>The handler of the one-second ticker; it is only installed when there is an entry cache.\<close>

definition cleanUnMatcheOnTick :: "'l red_rt \<Rightarrow> int \<Rightarrow> 'l connector_imp \<Rightarrow> 'l connector_imp option" where
  "cleanUnMatcheOnTick rt now p =
     do {
       cache \<leftarrow> co_entryUrlCache p;
       cache1 \<leftarrow> CleanExpireBuckets cache;
       (cache2, expired) \<leftarrow> CleanUnMatchedSpans now cache1;
       fold_opt (\<lambda>w. aggregateMetricsForSpan rt (caller_of w ''_unknown_'') (rsp_Span w)) expired
         (p\<lparr>co_entryUrlCache := Some cache2\<rparr>)
     }"

subsection \<open>Export\<close>

record hist_point =
  hp_StartTimestamp :: u64
  hp_Timestamp :: u64
  hp_ExplicitBounds :: "f64 list"
  hp_BucketCounts :: "u64 list"
  hp_Count :: u64
  hp_Sum :: f64
  hp_Attributes :: dims

record gauge_point =
  gp_Timestamp :: u64
  gp_IntValue :: int
  gp_Attributes :: dims

datatype metric = HistogramMetric string "hist_point list" | GaugeMetric string "gauge_point list"

text \<open>The error of a collection is the key that has no dimensions. The cache moves on with each lookup.\<close>

fun collectPromLatencyMetrics ::
  "'l red_rt \<Rightarrow> u64 \<Rightarrow> 'l connector_imp \<Rightarrow> histograms \<Rightarrow> ('l, dims) dim_cache \<Rightarrow> (('l, dims) dim_cache \<times> (string + hist_point list)) option" where
  "collectPromLatencyMetrics rt now p [] dc = Some (dc, Inr [])"
| "collectPromLatencyMetrics rt now p ((key, hist) # hs) dc =
     (case dc_Get (rt_lru rt) key dc of
        (dc1, None) \<Rightarrow> Some (dc1, Inl key)
      | (dc1, Some dimensions) \<Rightarrow>
          do {
            counts \<leftarrow> h_GetBucketCounts hist;
            (dc2, rest) \<leftarrow> collectPromLatencyMetrics rt now p hs dc1;
            Some (dc2, map_sum id ((#) \<lparr>hp_StartTimestamp = co_startTimestamp p, hp_Timestamp = now, hp_ExplicitBounds = co_bounds p,
                    hp_BucketCounts = counts, hp_Count = h_GetCount (rt_float rt) hist, hp_Sum = h_GetSum (rt_float rt) hist,
                    hp_Attributes = dimensions\<rparr>) rest)
          })"

text \<open>The three gauges of one key: buckets, count, sum.\<close>

definition vm_points :: "'l red_rt \<Rightarrow> u64 \<Rightarrow> histo \<Rightarrow> dims \<Rightarrow> (string, u64) gomap \<Rightarrow> gauge_point list \<times> gauge_point list \<times> gauge_point list" where
  "vm_points rt now hist dimensions buckets =
     (let cnt = h_GetCount (rt_float rt) hist in
      (map (\<lambda>(bucket, c). \<lparr>gp_Timestamp = now, gp_IntValue = sint c, gp_Attributes = map_store ''vmrange'' bucket dimensions\<rparr>) buckets,
       if cnt > 0 then [\<lparr>gp_Timestamp = now, gp_IntValue = sint cnt, gp_Attributes = dimensions\<rparr>] else [],
       if cnt > 0 then [\<lparr>gp_Timestamp = now, gp_IntValue = rt_int64 rt (h_GetSum (rt_float rt) hist), gp_Attributes = dimensions\<rparr>] else []))"

fun collectVmLatencyMetrics ::
  "'l red_rt \<Rightarrow> u64 \<Rightarrow> histograms \<Rightarrow> ('l, dims) dim_cache \<Rightarrow>
   (('l, dims) dim_cache \<times> (string + gauge_point list \<times> gauge_point list \<times> gauge_point list)) option" where
  "collectVmLatencyMetrics rt now [] dc = Some (dc, Inr ([], [], []))"
| "collectVmLatencyMetrics rt now ((key, hist) # hs) dc =
     (case dc_Get (rt_lru rt) key dc of
        (dc1, None) \<Rightarrow> Some (dc1, Inl key)
      | (dc1, Some dimensions) \<Rightarrow>
          do {
            buckets \<leftarrow> h_GetBuckets (rt_float rt) hist;
            (dc2, rest) \<leftarrow> collectVmLatencyMetrics rt now hs dc1;
            (let (b, c, s) = vm_points rt now hist dimensions buckets in
             Some (dc2, map_sum id (\<lambda>(bs, cs, ss). (b @ bs, c @ cs, s @ ss)) rest))
          })"

definition collectLatencyMetrics ::
  "'l red_rt \<Rightarrow> u64 \<Rightarrow> 'l connector_imp \<Rightarrow> string \<Rightarrow> 'l family \<Rightarrow> ('l family \<times> (string + metric list)) option" where
  "collectLatencyMetrics rt now p prefix fam =
     (if fm_histograms fam = [] then Some (fam, Inr [])
      else if co_metricsType p = MetricsProm then
        map_option (\<lambda>(dc, r). (fam\<lparr>fm_dimensions := dc\<rparr>, map_sum id (\<lambda>pts. [HistogramMetric prefix pts]) r))
          (collectPromLatencyMetrics rt now p (fm_histograms fam) (fm_dimensions fam))
      else
        map_option (\<lambda>(dc, r). (fam\<lparr>fm_dimensions := dc\<rparr>,
            map_sum id (\<lambda>(b, c, s). [GaugeMetric (prefix @ ''_bucket'') b, GaugeMetric (prefix @ ''_count'') c, GaugeMetric (prefix @ ''_sum'') s]) r))
          (collectVmLatencyMetrics rt now (fm_histograms fam) (fm_dimensions fam)))"

definition evict :: "'l family \<Rightarrow> 'l family" where
  "evict fam = fam\<lparr>fm_dimensions := RemoveEvictedItems (fm_dimensions fam)\<rparr>"

text \<open>The loop that deletes the histograms of keys that a cache no longer contains.\<close>

definition prune :: "'l red_rt \<Rightarrow> ('l, dims) dim_cache \<Rightarrow> 'l family \<Rightarrow> 'l family" where
  "prune rt dc fam = fam\<lparr>fm_histograms := map_keep (\<lambda>key h. dc_Contains (rt_lru rt) key dc) (fm_histograms fam)\<rparr>"

definition cleanup :: "'l red_rt \<Rightarrow> 'l connector_imp \<Rightarrow> 'l connector_imp" where
  "cleanup rt p =
     (let s = evict (co_server p); d = evict (co_db p); e = evict (co_external p); m = evict (co_mq p) in
      p\<lparr>co_server := prune rt (fm_dimensions s) s,
        co_db := prune rt (fm_dimensions d) d,
        co_external := prune rt (fm_dimensions d) e,
        co_mq := prune rt (fm_dimensions m) m\<rparr>)"

text \<open>The four collections in order; the first error ends \<open>buildMetrics\<close> before the clean-up.\<close>

definition buildMetrics :: "'l red_rt \<Rightarrow> u64 \<Rightarrow> 'l connector_imp \<Rightarrow> ('l connector_imp \<times> (string + metric list)) option" where
  "buildMetrics rt now p =
     do {
       (s, rs) \<leftarrow> collectLatencyMetrics rt now p ''kindling_span_trace_duration_nanoseconds'' (co_server p);
       let p = p\<lparr>co_server := s\<rparr>;
       case rs of Inl e \<Rightarrow> Some (p, Inl e) | Inr ms \<Rightarrow> do {
         (d, rd) \<leftarrow> collectLatencyMetrics rt now p ''kindling_db_duration_nanoseconds'' (co_db p);
         let p = p\<lparr>co_db := d\<rparr>;
         case rd of Inl e \<Rightarrow> Some (p, Inl e) | Inr md \<Rightarrow> do {
           (x, rx) \<leftarrow> collectLatencyMetrics rt now p ''kindling_external_duration_nanoseconds'' (co_external p);
           let p = p\<lparr>co_external := x\<rparr>;
           case rx of Inl e \<Rightarrow> Some (p, Inl e) | Inr mx \<Rightarrow> do {
             (q, rq) \<leftarrow> collectLatencyMetrics rt now p ''kindling_mq_duration_nanoseconds'' (co_mq p);
             let p = p\<lparr>co_mq := q\<rparr>;
             case rq of Inl e \<Rightarrow> Some (p, Inl e)
             | Inr mq \<Rightarrow> Some (cleanup rt p, Inr (ms @ md @ mx @ mq))
           }
         }
       }
     }"

text \<open>\<open>exportMetrics\<close> logs an error of \<open>buildMetrics\<close> and still calls the consumer, with the zero value
  \<open>pmetric.Metrics{}\<close>: the result \<open>None\<close> inside.\<close>

definition exportMetrics :: "'l red_rt \<Rightarrow> u64 \<Rightarrow> 'l connector_imp \<Rightarrow> ('l connector_imp \<times> metric list option) option" where
  "exportMetrics rt now p =
     map_option (\<lambda>(p1, r). (p1, case r of Inl e \<Rightarrow> None | Inr ms \<Rightarrow> Some ms)) (buildMetrics rt now p)"

subsection \<open>The invariant of a family\<close>

text \<open>Every histogram is of the configured kind and consistent, and its key still has dimensions.\<close>

definition histo_kind :: "metrics_type \<Rightarrow> histo \<Rightarrow> bool" where
  "histo_kind mt h \<longleftrightarrow> (case h of PromHisto _ \<Rightarrow> mt = MetricsProm | VmHisto _ \<Rightarrow> mt = MetricsVm)"

definition fam_ok :: "('l \<Rightarrow> string \<Rightarrow> dims option) \<Rightarrow> metrics_type \<Rightarrow> 'l family \<Rightarrow> bool" where
  "fam_ok look mt fam \<longleftrightarrow> gomap_wf (fm_histograms fam) \<and>
     (\<forall>key h. map_load (fm_histograms fam) key = Some h \<longrightarrow>
        h_ok h \<and> histo_kind mt h \<and> dc_look look (fm_dimensions fam) key \<noteq> None)"

definition fam_total :: "float_ops \<Rightarrow> 'l family \<Rightarrow> u64" where
  "fam_total fl fam = sum_list (map (\<lambda>(k, h). h_GetCount fl h) (fm_histograms fam))"

lemma h_Update_ok: "h_ok h \<Longrightarrow> h_ok (h_Update fl v h)"
  by (cases h) (simp_all add: prom.upd_ok vm.upd_ok)

lemma h_Update_count: "h_ok h \<Longrightarrow> 0 \<le> v \<Longrightarrow> h_GetCount fl (h_Update fl v h) = h_GetCount fl h + 1"
  by (cases h) (simp_all add: prom.upd_total vm.upd_total not_less)

lemma h_Update_kind: "histo_kind mt (h_Update fl v h) = histo_kind mt h"
  by (cases h) (simp_all add: histo_kind_def)

lemma NewHistogram_kind: "histo_kind mt (NewHistogram mt bounds)"
  by (cases mt) (simp_all add: histo_kind_def NewHistogram_def)

lemma sum_list_store:
  fixes f :: "'v \<Rightarrow> u64"
  assumes "gomap_wf m"
  shows "sum_list (map (\<lambda>(k, h). f h) (map_store k v m)) =
         sum_list (map (\<lambda>(k, h). f h) m) + f v - (case map_load m k of Some w \<Rightarrow> f w | None \<Rightarrow> 0)"
  using assms
proof (induction m)
  case Nil
  then show ?case by (simp add: map_store_def)
next
  case (Cons x m)
  then have m: "gomap_wf m" "map_load m (fst x) = None" by (auto simp: gomap_wf_def map_of_eq_None_iff)
  show ?case
    using Cons.IH [OF m(1)] m(2) by (cases x) (auto simp: map_store_def split: option.split)
qed

lemma updateHistogram_load:
  "map_load (updateHistogram fl mt bounds key v hs) j =
     (if j = key then Some (h_Update fl v (case map_load hs key of Some h \<Rightarrow> h | None \<Rightarrow> NewHistogram mt bounds)) else map_load hs j)"
  by (simp add: updateHistogram_def Let_def)

lemma observe_look:
  assumes "lru_laws (rt_lru rt) look"
  shows "dc_look look (fm_dimensions (observe rt p key v fam)) =
     (case dc_look look (fm_dimensions fam) key of
        Some d \<Rightarrow> dc_look look (fm_dimensions fam)
      | None \<Rightarrow> (dc_look look (fm_dimensions fam))(key \<mapsto> rk_GetMap (co_keyValue p)))"
  using dc_Get_look [OF assms, of key "fm_dimensions fam"] dc_Add_look [OF assms]
  by (cases "dc_Get (rt_lru rt) key (fm_dimensions fam)") (auto simp: observe_def Let_def split: option.split)

lemma observe_histograms:
  "fm_histograms (observe rt p key v fam) =
     updateHistogram (rt_float rt) (co_metricsType p) (co_bounds p) key v (fm_histograms fam)"
  by (simp add: observe_def Let_def split: prod.split)

lemma observe_ok:
  assumes "lru_laws (rt_lru rt) look" "fam_ok look (co_metricsType p) fam"
  shows "fam_ok look (co_metricsType p) (observe rt p key v fam)"
proof -
  have "gomap_wf (fm_histograms (observe rt p key v fam))"
    using assms(2) by (simp add: observe_histograms updateHistogram_def Let_def fam_ok_def wf_store)
  moreover have "h_ok h \<and> histo_kind (co_metricsType p) h \<and> dc_look look (fm_dimensions (observe rt p key v fam)) j \<noteq> None"
    if "map_load (fm_histograms (observe rt p key v fam)) j = Some h" for j h
    using that assms(2)
    by (auto simp: observe_histograms updateHistogram_load fam_ok_def observe_look [OF assms(1)] h_Update_ok h_Update_kind
        NewHistogram_ok NewHistogram_kind split: if_splits option.splits)
  ultimately show ?thesis by (simp add: fam_ok_def)
qed

lemma observe_total:
  assumes "fam_ok look (co_metricsType p) fam" "0 \<le> v"
  shows "fam_total (rt_float rt) (observe rt p key v fam) = fam_total (rt_float rt) fam + 1"
proof -
  let ?h = "case map_load (fm_histograms fam) key of Some h \<Rightarrow> h | None \<Rightarrow> NewHistogram (co_metricsType p) (co_bounds p)"
  have "gomap_wf (fm_histograms fam)" "h_ok ?h" using assms(1) by (auto simp: fam_ok_def NewHistogram_ok split: option.split)
  then show ?thesis
    using h_Update_count [OF _ assms(2), of ?h "rt_float rt"]
    by (simp add: fam_total_def observe_histograms updateHistogram_def Let_def sum_list_store NewHistogram_ok split: option.split)
qed

subsection \<open>The invariant of the connector\<close>

text \<open>A key of arity \<open>n\<close> joins \<open>n\<close> values without the separator byte.\<close>

definition key_arity :: "nat \<Rightarrow> string \<Rightarrow> bool" where
  "key_arity n key \<longleftrightarrow> (\<exists>xs. length xs = n \<and> sep_free xs \<and> key = join_vals xs)"

lemma key_arity_unique: "key_arity m key \<Longrightarrow> key_arity n key \<Longrightarrow> 0 < m \<Longrightarrow> 0 < n \<Longrightarrow> m = n"
  unfolding key_arity_def sep_free_def using join_vals_inj_nonempty by (metis length_greater_0_conv)

definition conn_inv :: "('l \<Rightarrow> string \<Rightarrow> dims option) \<Rightarrow> 'l connector_imp \<Rightarrow> bool" where
  "conn_inv look p \<longleftrightarrow> kv_ok (co_keyValue p) \<and>
     fam_ok look (co_metricsType p) (co_server p) \<and> fam_ok look (co_metricsType p) (co_db p) \<and>
     fam_ok look (co_metricsType p) (co_external p) \<and> fam_ok look (co_metricsType p) (co_mq p)"

definition keys_apart :: "('l \<Rightarrow> string \<Rightarrow> dims option) \<Rightarrow> 'l connector_imp \<Rightarrow> bool" where
  "keys_apart look p \<longleftrightarrow>
     (\<forall>key. dc_look look (fm_dimensions (co_db p)) key \<noteq> None \<longrightarrow> key_arity 11 key) \<and>
     (\<forall>key. map_load (fm_histograms (co_external p)) key \<noteq> None \<longrightarrow> key_arity 10 key)"

text \<open>The data of a call is free of NUL bytes.\<close>

definition clean_call :: "red_env \<Rightarrow> caller \<Rightarrow> span \<Rightarrow> bool" where
  "clean_call env ca sp \<longleftrightarrow>
     sep_free (map snd (db_items env ca sp)) \<and> sep_free (map snd (external_items env ca sp (sp_Name sp) ''unknown'')) \<and>
     (\<forall>u. sep_free (map snd (http_items u env ca sp))) \<and> sep_free (map snd (rpc_items env ca sp))"

lemma f64_of_u64_nonneg: "0 \<le> f64_of_u64 w"
  by (simp add: f64_of_u64_def)

definition server_counts :: "red_config \<Rightarrow> span \<Rightarrow> bool" where
  "server_counts cfg sp \<longleftrightarrow> rc_ServerEnabled cfg \<and> (sp_Kind sp = SpanKindServer \<or> sp_Kind sp = SpanKindConsumer) \<and>
     (case map_load (sp_Attributes sp) ''sw8.span_id'' of None \<Rightarrow> True | Some v \<Rightarrow> value_Int v = 0)"

lemma buildServerKey_frame:
  assumes "buildServerKey rt pid cid svc sp p = (p1, key)" "kv_ok (co_keyValue p)"
  shows "kv_ok (co_keyValue p1)" "co_server p1 = co_server p" "co_db p1 = co_db p" "co_external p1 = co_external p"
    "co_mq p1 = co_mq p" "co_metricsType p1 = co_metricsType p" "co_config p1 = co_config p" "co_bounds p1 = co_bounds p"
    "co_entryUrlCache p1 = co_entryUrlCache p"
  using assms by (auto simp: buildServerKey_def BuildServerKey_def Let_def kv_ok_fill)

lemma aggregate_server_step:
  assumes "lru_laws (rt_lru rt) look" "conn_inv look p" "0 \<le> v"
  shows "conn_inv look (aggregate_server rt ca sp v p)"
    "fam_total (rt_float rt) (co_server (aggregate_server rt ca sp v p)) =
       fam_total (rt_float rt) (co_server p) + (if server_counts (co_config p) sp then 1 else 0)"
    "co_db (aggregate_server rt ca sp v p) = co_db p" "co_external (aggregate_server rt ca sp v p) = co_external p"
    "co_mq (aggregate_server rt ca sp v p) = co_mq p" "co_config (aggregate_server rt ca sp v p) = co_config p"
    "co_metricsType (aggregate_server rt ca sp v p) = co_metricsType p"
proof -
  obtain p1 key where b: "buildServerKey rt (ca_pid ca) (ca_containerId ca) (ca_serviceName ca) sp p = (p1, key)"
    by (cases "buildServerKey rt (ca_pid ca) (ca_containerId ca) (ca_serviceName ca) sp p")
  have kv: "kv_ok (co_keyValue p)" using assms(2) by (simp add: conn_inv_def)
  note fr = buildServerKey_frame [OF b kv]
  have ok: "fam_ok look (co_metricsType p1) (co_server p)" using assms(2) by (simp add: conn_inv_def fr)
  have eq: "aggregate_server rt ca sp v p =
      (if server_counts (co_config p) sp then p1\<lparr>co_server := observe rt p1 key v (co_server p)\<rparr> else p)"
    unfolding aggregate_server_def server_counts_def b by (auto simp: fr)
  show "conn_inv look (aggregate_server rt ca sp v p)"
    using assms(2) observe_ok [OF assms(1) ok, of key v] fr(1) by (simp add: eq conn_inv_def fr)
  show "fam_total (rt_float rt) (co_server (aggregate_server rt ca sp v p)) =
       fam_total (rt_float rt) (co_server p) + (if server_counts (co_config p) sp then 1 else 0)"
    using observe_total [OF ok assms(3)] by (simp add: eq)
  show "co_db (aggregate_server rt ca sp v p) = co_db p" "co_external (aggregate_server rt ca sp v p) = co_external p"
    "co_mq (aggregate_server rt ca sp v p) = co_mq p" "co_config (aggregate_server rt ca sp v p) = co_config p"
    "co_metricsType (aggregate_server rt ca sp v p) = co_metricsType p"
    by (simp_all add: eq fr)
qed

text \<open>The key of an external call is a parser again: the combination of two parsers and the fallback.\<close>

definition unknown_items :: "red_env \<Rightarrow> caller \<Rightarrow> span \<Rightarrow> (string \<times> string) list" where
  "unknown_items env ca sp =
     (if map_load (sp_Attributes sp) ''db.system'' = None \<and> map_load (sp_Attributes sp) ''messaging.system'' = None
      then external_items env ca sp (sp_Name sp) ''unknown'' else [])"

definition external_call_items :: "string \<Rightarrow> red_env \<Rightarrow> caller \<Rightarrow> span \<Rightarrow> (string \<times> string) list" where
  "external_call_items u env ca sp =
     (if http_items u env ca sp \<noteq> [] then http_items u env ca sp
      else if rpc_items env ca sp \<noteq> [] then rpc_items env ca sp else unknown_items env ca sp)"

lemma external_items_len: "length (external_items env ca sp n s) = 10"
  by (simp add: external_items_def caller_items_def)

lemma items_arity:
  "http_items u env ca sp \<noteq> [] \<Longrightarrow> length (http_items u env ca sp) = 10"
  "rpc_items env ca sp \<noteq> [] \<Longrightarrow> length (rpc_items env ca sp) = 10"
  "external_call_items u env ca sp \<noteq> [] \<Longrightarrow> length (external_call_items u env ca sp) = 10"
  "db_items env ca sp \<noteq> [] \<Longrightarrow> length (db_items env ca sp) = 11"
  by (auto simp: external_call_items_def unknown_items_def http_items_def rpc_items_def db_items_def external_items_len caller_items_def Let_def
      split: if_splits span_kind.splits option.splits)

lemma clean_external: "clean_call env ca sp \<Longrightarrow> sep_free (map snd (external_call_items u env ca sp))"
  by (auto simp: clean_call_def external_call_items_def unknown_items_def sep_free_def)

lemma join_items_nonempty:
  assumes "its \<noteq> [] \<Longrightarrow> length its = 10"
  shows "join_vals (map snd its) = [] \<longleftrightarrow> its = []"
  using assms join_vals_nonempty [of "map snd its"] by (cases "its = []") auto

interpretation external_parser: metric_parser "external_key u" "external_call_items u" for u
proof unfold_locales
  fix kv env ca sp
  assume kv: "kv_ok kv"
  have h: "HttpParser_Parse u env ca sp kv = Some (if http_items u env ca sp = [] then (kv, [])
        else (rk_fill (http_items u env ca sp) kv, join_vals (map snd (http_items u env ca sp))))"
    by (rule http_parser.parse_eq [OF kv])
  have r: "RpcParser_Parse env ca sp kv = Some (if rpc_items env ca sp = [] then (kv, [])
        else (rk_fill (rpc_items env ca sp) kv, join_vals (map snd (rpc_items env ca sp))))"
    by (rule rpc_parser.parse_eq [OF kv])
  have b: "BuildExternalKey env kv ca (sp_Name sp) (GetClientPeer env (sp_Attributes sp)) ''unknown'' (span_error sp) =
      (rk_fill (external_items env ca sp (sp_Name sp) ''unknown'') kv, join_vals (map snd (external_items env ca sp (sp_Name sp) ''unknown'')))"
    using kv by (simp add: key_builders kv_ok_fill(3))
  have e: "external_items env ca sp (sp_Name sp) ''unknown'' \<noteq> []" by (simp add: external_items_def)
  show "external_key u env ca sp kv = Some (if external_call_items u env ca sp = [] then (kv, [])
      else (rk_fill (external_call_items u env ca sp) kv, join_vals (map snd (external_call_items u env ca sp))))"
    using h r b e join_items_nonempty [OF items_arity(1)] join_items_nonempty [OF items_arity(2)]
    by (cases "http_items u env ca sp = []"; cases "rpc_items env ca sp = []")
      (simp_all add: external_key_def external_call_items_def unknown_items_def)
next
  fix env ca sp
  show "external_call_items u env ca sp = [] \<or> 10 \<le> length (external_call_items u env ca sp) \<and> length (external_call_items u env ca sp) \<le> 11"
    using items_arity(3) [of u env ca sp] by fastforce
qed

subsection \<open>One call\<close>

text \<open>What a parser and \<open>observe\<close> do together, for any implementation of the parser interface.\<close>

context metric_parser
begin

lemma parsed_observe:
  assumes "lru_laws (rt_lru rt) look" "kv_ok (co_keyValue p)" "fam_ok look (co_metricsType p) fam" "0 \<le> v"
  shows "\<exists>kv' key. parse env ca sp (co_keyValue p) = Some (kv', key) \<and> kv_ok kv' \<and> (key = [] \<longleftrightarrow> items env ca sp = []) \<and>
           (key \<noteq> [] \<longrightarrow> key = join_vals (map snd (items env ca sp))) \<and>
           fam_ok look (co_metricsType p) (observe rt (p\<lparr>co_keyValue := kv'\<rparr>) key v fam) \<and>
           fam_total (rt_float rt) (observe rt (p\<lparr>co_keyValue := kv'\<rparr>) key v fam) = fam_total (rt_float rt) fam + 1"
proof -
  obtain kv' key where p: "parse env ca sp (co_keyValue p) = Some (kv', key)" "kv_ok kv'" "key = [] \<longleftrightarrow> items env ca sp = []"
    using parse_total [OF assms(2)] by blast
  let ?p = "p\<lparr>co_keyValue := kv'\<rparr>"
  have "fam_ok look (co_metricsType ?p) fam" using assms(3) by simp
  from observe_ok [OF assms(1) this, of key v] observe_total [OF this assms(4), of rt key]
    parse_dimensions(2) [OF assms(2) p(1)] p show ?thesis by auto
qed

end

lemma observe_keys:
  assumes "lru_laws (rt_lru rt) look"
  shows "dc_look look (fm_dimensions (observe rt p key v fam)) j \<noteq> None \<longleftrightarrow> j = key \<or> dc_look look (fm_dimensions fam) j \<noteq> None"
    "map_load (fm_histograms (observe rt p key v fam)) j \<noteq> None \<longleftrightarrow> j = key \<or> map_load (fm_histograms fam) j \<noteq> None"
  by (auto simp: observe_look [OF assms] observe_histograms updateHistogram_load split: option.splits)

lemma keys_apart_db:
  assumes "lru_laws (rt_lru rt) look" "keys_apart look p" "key_arity 11 key"
  shows "keys_apart look (p\<lparr>co_keyValue := kv, co_db := observe rt q key v (co_db p)\<rparr>)"
  using assms(2,3) unfolding keys_apart_def by (simp add: observe_keys(1) [OF assms(1)] del: not_None_eq)

lemma keys_apart_external:
  assumes "lru_laws (rt_lru rt) look" "keys_apart look p" "key_arity 10 key"
  shows "keys_apart look (p\<lparr>co_keyValue := kv, co_external := observe rt q key v (co_external p)\<rparr>)"
  using assms(2,3) unfolding keys_apart_def by (simp add: observe_keys(2) [OF assms(1)] del: not_None_eq)

lemma keys_apart_kv: "keys_apart look (p\<lparr>co_keyValue := kv\<rparr>) = keys_apart look p"
  by (simp add: keys_apart_def)

lemma key_arityI: "length its = n \<Longrightarrow> sep_free (map snd its) \<Longrightarrow> key_arity n (join_vals (map snd its))"
  by (auto simp: key_arity_def intro!: exI [of _ "map snd its"])

text \<open>Fields that aggregation does not touch.\<close>

definition same_setup :: "'l connector_imp \<Rightarrow> 'l connector_imp \<Rightarrow> bool" where
  "same_setup p q \<longleftrightarrow> co_config p = co_config q \<and> co_metricsType p = co_metricsType q"

definition db_counts :: "red_env \<Rightarrow> red_config \<Rightarrow> caller \<Rightarrow> span \<Rightarrow> bool" where
  "db_counts env cfg ca sp \<longleftrightarrow> sp_Kind sp = SpanKindClient \<and> rc_DbEnabled cfg \<and> db_items env ca sp \<noteq> []"

definition external_counts :: "red_env \<Rightarrow> red_config \<Rightarrow> caller \<Rightarrow> span \<Rightarrow> bool" where
  "external_counts env cfg ca sp \<longleftrightarrow> sp_Kind sp = SpanKindClient \<and> rc_ExternalEnabled cfg \<and> external_call_items (rc_HttpParser cfg) env ca sp \<noteq> []"

definition mq_counts :: "red_env \<Rightarrow> red_config \<Rightarrow> caller \<Rightarrow> span \<Rightarrow> bool" where
  "mq_counts env cfg ca sp \<longleftrightarrow> rc_MqEnabled cfg \<and> mq_items env ca sp \<noteq> []"

lemma aggregate_db_step:
  assumes laws: "lru_laws (rt_lru rt) look" and inv: "conn_inv look p" and v: "0 \<le> v"
  shows "\<exists>p'. aggregate_db rt ca sp v p = Some p' \<and> conn_inv look p' \<and> same_setup p' p \<and>
      co_server p' = co_server p \<and> co_external p' = co_external p \<and> co_mq p' = co_mq p \<and>
      fam_total (rt_float rt) (co_db p') = fam_total (rt_float rt) (co_db p) + (if db_counts (rt_env rt) (co_config p) ca sp then 1 else 0) \<and>
      (clean_call (rt_env rt) ca sp \<longrightarrow> keys_apart look p \<longrightarrow> keys_apart look p')"
proof (cases "sp_Kind sp = SpanKindClient \<and> rc_DbEnabled (co_config p)")
  case False
  then show ?thesis using inv by (auto simp: aggregate_db_def same_setup_def db_counts_def)
next
  case True
  have i: "kv_ok (co_keyValue p)" "fam_ok look (co_metricsType p) (co_db p)" using inv by (simp_all add: conn_inv_def)
  obtain kv' key where k: "DbParser_Parse (rt_env rt) ca sp (co_keyValue p) = Some (kv', key)" "kv_ok kv'"
    "key = [] \<longleftrightarrow> db_items (rt_env rt) ca sp = []" "key \<noteq> [] \<longrightarrow> key = join_vals (map snd (db_items (rt_env rt) ca sp))"
    "fam_ok look (co_metricsType p) (observe rt (p\<lparr>co_keyValue := kv'\<rparr>) key v (co_db p))"
    "fam_total (rt_float rt) (observe rt (p\<lparr>co_keyValue := kv'\<rparr>) key v (co_db p)) = fam_total (rt_float rt) (co_db p) + 1"
    using db_parser.parsed_observe [OF laws i v, of "rt_env rt" ca sp] by blast
  have "key \<noteq> [] \<longrightarrow> clean_call (rt_env rt) ca sp \<longrightarrow> key_arity 11 key"
    using k(3,4) items_arity(4) key_arityI clean_call_def by metis
  then show ?thesis
    using True k inv
    by (auto simp: aggregate_db_def conn_inv_def same_setup_def db_counts_def Let_def keys_apart_kv keys_apart_db [OF laws])
qed

lemma aggregate_external_step:
  assumes laws: "lru_laws (rt_lru rt) look" and inv: "conn_inv look p" and v: "0 \<le> v"
  shows "\<exists>p'. aggregate_external rt ca sp v p = Some p' \<and> conn_inv look p' \<and> same_setup p' p \<and>
      co_server p' = co_server p \<and> co_db p' = co_db p \<and> co_mq p' = co_mq p \<and>
      fam_total (rt_float rt) (co_external p') =
        fam_total (rt_float rt) (co_external p) + (if external_counts (rt_env rt) (co_config p) ca sp then 1 else 0) \<and>
      (clean_call (rt_env rt) ca sp \<longrightarrow> keys_apart look p \<longrightarrow> keys_apart look p')"
proof (cases "sp_Kind sp = SpanKindClient \<and> rc_ExternalEnabled (co_config p)")
  case False
  then show ?thesis using inv by (auto simp: aggregate_external_def same_setup_def external_counts_def)
next
  case True
  let ?u = "rc_HttpParser (co_config p)"
  have i: "kv_ok (co_keyValue p)" "fam_ok look (co_metricsType p) (co_external p)" using inv by (simp_all add: conn_inv_def)
  obtain kv' key where k: "external_key ?u (rt_env rt) ca sp (co_keyValue p) = Some (kv', key)" "kv_ok kv'"
    "key = [] \<longleftrightarrow> external_call_items ?u (rt_env rt) ca sp = []" "key \<noteq> [] \<longrightarrow> key = join_vals (map snd (external_call_items ?u (rt_env rt) ca sp))"
    "fam_ok look (co_metricsType p) (observe rt (p\<lparr>co_keyValue := kv'\<rparr>) key v (co_external p))"
    "fam_total (rt_float rt) (observe rt (p\<lparr>co_keyValue := kv'\<rparr>) key v (co_external p)) = fam_total (rt_float rt) (co_external p) + 1"
    using external_parser.parsed_observe [OF laws i v, of ?u "rt_env rt" ca sp] by blast
  have "key \<noteq> [] \<longrightarrow> clean_call (rt_env rt) ca sp \<longrightarrow> key_arity 10 key"
    using k(3,4) items_arity(3) key_arityI clean_external by metis
  then show ?thesis
    using True k inv
    by (auto simp: aggregate_external_def conn_inv_def same_setup_def external_counts_def Let_def keys_apart_kv keys_apart_external [OF laws])
qed

lemma aggregate_mq_step:
  assumes laws: "lru_laws (rt_lru rt) look" and inv: "conn_inv look p" and v: "0 \<le> v"
  shows "\<exists>p'. aggregate_mq rt ca sp v p = Some p' \<and> conn_inv look p' \<and> same_setup p' p \<and>
      co_server p' = co_server p \<and> co_db p' = co_db p \<and> co_external p' = co_external p \<and>
      fam_total (rt_float rt) (co_mq p') = fam_total (rt_float rt) (co_mq p) + (if mq_counts (rt_env rt) (co_config p) ca sp then 1 else 0)"
proof (cases "rc_MqEnabled (co_config p)")
  case False
  then show ?thesis using inv by (auto simp: aggregate_mq_def same_setup_def mq_counts_def)
next
  case True
  have i: "kv_ok (co_keyValue p)" "fam_ok look (co_metricsType p) (co_mq p)" using inv by (simp_all add: conn_inv_def)
  obtain kv' key where k: "MqParser_Parse (rt_env rt) ca sp (co_keyValue p) = Some (kv', key)" "kv_ok kv'"
    "key = [] \<longleftrightarrow> mq_items (rt_env rt) ca sp = []"
    "fam_ok look (co_metricsType p) (observe rt (p\<lparr>co_keyValue := kv'\<rparr>) key v (co_mq p))"
    "fam_total (rt_float rt) (observe rt (p\<lparr>co_keyValue := kv'\<rparr>) key v (co_mq p)) = fam_total (rt_float rt) (co_mq p) + 1"
    using mq_parser.parsed_observe [OF laws i v, of "rt_env rt" ca sp] by blast
  then show ?thesis
    using True inv by (auto simp: aggregate_mq_def conn_inv_def same_setup_def mq_counts_def Let_def)
qed

lemma aggregate_step:
  assumes laws: "lru_laws (rt_lru rt) look" and inv: "conn_inv look p" and t: "sp_StartTimestamp sp < sp_EndTimestamp sp"
  shows "\<exists>p'. aggregateMetricsForSpan rt ca sp p = Some p' \<and> conn_inv look p' \<and> same_setup p' p \<and>
      fam_total (rt_float rt) (co_server p') = fam_total (rt_float rt) (co_server p) + (if server_counts (co_config p) sp then 1 else 0) \<and>
      fam_total (rt_float rt) (co_db p') = fam_total (rt_float rt) (co_db p) + (if db_counts (rt_env rt) (co_config p) ca sp then 1 else 0) \<and>
      fam_total (rt_float rt) (co_external p') =
        fam_total (rt_float rt) (co_external p) + (if external_counts (rt_env rt) (co_config p) ca sp then 1 else 0) \<and>
      fam_total (rt_float rt) (co_mq p') = fam_total (rt_float rt) (co_mq p) + (if mq_counts (rt_env rt) (co_config p) ca sp then 1 else 0) \<and>
      (clean_call (rt_env rt) ca sp \<longrightarrow> keys_apart look p \<longrightarrow> keys_apart look p')"
proof -
  let ?v = "f64_of_u64 (sp_EndTimestamp sp - sp_StartTimestamp sp)"
  let ?p1 = "aggregate_server rt ca sp ?v p"
  have v: "0 \<le> ?v" by (rule f64_of_u64_nonneg)
  note 1 = aggregate_server_step [OF laws inv v, of ca sp]
  have k1: "keys_apart look p \<Longrightarrow> keys_apart look ?p1" by (simp add: keys_apart_def 1)
  obtain p2 where 2: "aggregate_db rt ca sp ?v ?p1 = Some p2" "conn_inv look p2" "same_setup p2 ?p1"
      "co_server p2 = co_server ?p1" "co_external p2 = co_external ?p1" "co_mq p2 = co_mq ?p1"
      "fam_total (rt_float rt) (co_db p2) = fam_total (rt_float rt) (co_db ?p1) + (if db_counts (rt_env rt) (co_config ?p1) ca sp then 1 else 0)"
      "clean_call (rt_env rt) ca sp \<longrightarrow> keys_apart look ?p1 \<longrightarrow> keys_apart look p2"
    using aggregate_db_step [OF laws 1(1) v, of ca sp] by blast
  obtain p3 where 3: "aggregate_external rt ca sp ?v p2 = Some p3" "conn_inv look p3" "same_setup p3 p2"
      "co_server p3 = co_server p2" "co_db p3 = co_db p2" "co_mq p3 = co_mq p2"
      "fam_total (rt_float rt) (co_external p3) = fam_total (rt_float rt) (co_external p2) + (if external_counts (rt_env rt) (co_config p2) ca sp then 1 else 0)"
      "clean_call (rt_env rt) ca sp \<longrightarrow> keys_apart look p2 \<longrightarrow> keys_apart look p3"
    using aggregate_external_step [OF laws 2(2) v, of ca sp] by blast
  obtain p4 where 4: "aggregate_mq rt ca sp ?v p3 = Some p4" "conn_inv look p4" "same_setup p4 p3"
      "co_server p4 = co_server p3" "co_db p4 = co_db p3" "co_external p4 = co_external p3"
      "fam_total (rt_float rt) (co_mq p4) = fam_total (rt_float rt) (co_mq p3) + (if mq_counts (rt_env rt) (co_config p3) ca sp then 1 else 0)"
    using aggregate_mq_step [OF laws 3(2) v, of ca sp] by blast
  have cfg: "co_config ?p1 = co_config p" "co_config p2 = co_config p" "co_config p3 = co_config p"
    using 1(6) 2(3) 3(3) by (simp_all add: same_setup_def)
  have "aggregateMetricsForSpan rt ca sp p = Some p4"
    using t 2(1) 3(1) 4(1) by (simp add: aggregateMetricsForSpan_def Let_def not_le)
  moreover have "same_setup p4 p" using 1(6,7) 2(3) 3(3) 4(3) by (simp add: same_setup_def)
  moreover have "keys_apart look p4 = keys_apart look p3" by (simp add: keys_apart_def 4(5,6))
  ultimately show ?thesis
    using 4 3 2 1(2-5) k1 cfg by auto
qed

lemma aggregate_early: "\<not> sp_StartTimestamp sp < sp_EndTimestamp sp \<Longrightarrow> aggregateMetricsForSpan rt ca sp p = Some p"
  by (simp add: aggregateMetricsForSpan_def not_less)

subsection \<open>Export\<close>

lemma collectProm_ok:
  assumes "lru_laws (rt_lru rt) look"
  shows "(\<forall>(k, h) \<in> set hs. histo_kind MetricsProm h \<and> dc_look look dc k \<noteq> None) \<Longrightarrow>
   \<exists>dc' pts. collectPromLatencyMetrics rt now p hs dc = Some (dc', Inr pts) \<and> dc_look look dc' = dc_look look dc \<and>
     map hp_Count pts = map (\<lambda>(k, h). h_GetCount (rt_float rt) h) hs \<and>
     map (\<lambda>pt. Some (hp_Attributes pt)) pts = map (\<lambda>(k, h). dc_look look dc k) hs"
proof (induction hs arbitrary: dc)
  case Nil
  then show ?case by simp
next
  case (Cons x hs)
  obtain k h where x: "x = (k, h)" by (cases x)
  obtain dc1 r where g: "dc_Get (rt_lru rt) k dc = (dc1, r)" by (cases "dc_Get (rt_lru rt) k dc")
  have r: "r = dc_look look dc k" "dc_look look dc1 = dc_look look dc"
    using dc_Get_look [OF assms, of k dc] g by simp_all
  obtain d where d: "r = Some d" using Cons.prems x r(1) by auto
  obtain ph where h: "h = PromHisto ph" using Cons.prems x by (cases h) (auto simp: histo_kind_def)
  obtain dc2 pts where i: "collectPromLatencyMetrics rt now p hs dc1 = Some (dc2, Inr pts)" "dc_look look dc2 = dc_look look dc1"
    "map hp_Count pts = map (\<lambda>(k, h). h_GetCount (rt_float rt) h) hs" "map (\<lambda>pt. Some (hp_Attributes pt)) pts = map (\<lambda>(k, h). dc_look look dc1 k) hs"
    using Cons.IH [of dc1] Cons.prems r(2) by auto
  have g': "dc_Get (rt_lru rt) k dc = (dc1, Some d)" "dc_look look dc k = Some d" using g d r(1) by simp_all
  show ?case using i r(2) by (simp add: x g' h)
qed

lemma collectVm_ok:
  assumes "lru_laws (rt_lru rt) look"
  shows "(\<forall>(k, h) \<in> set hs. histo_kind MetricsVm h \<and> dc_look look dc k \<noteq> None) \<Longrightarrow>
   \<exists>dc' b c s. collectVmLatencyMetrics rt now hs dc = Some (dc', Inr (b, c, s)) \<and> dc_look look dc' = dc_look look dc \<and>
     map gp_IntValue c = map sint (filter (\<lambda>n. n > 0) (map (\<lambda>(k, h). h_GetCount (rt_float rt) h) hs))"
proof (induction hs arbitrary: dc)
  case Nil
  then show ?case by simp
next
  case (Cons x hs)
  obtain k h where x: "x = (k, h)" by (cases x)
  obtain dc1 r where g: "dc_Get (rt_lru rt) k dc = (dc1, r)" by (cases "dc_Get (rt_lru rt) k dc")
  have r: "r = dc_look look dc k" "dc_look look dc1 = dc_look look dc"
    using dc_Get_look [OF assms, of k dc] g by simp_all
  obtain d where d: "r = Some d" using Cons.prems x r(1) by auto
  obtain vh where h: "h = VmHisto vh" using Cons.prems x by (cases h) (auto simp: histo_kind_def)
  obtain dc2 b c s where i: "collectVmLatencyMetrics rt now hs dc1 = Some (dc2, Inr (b, c, s))" "dc_look look dc2 = dc_look look dc1"
    "map gp_IntValue c = map sint (filter (\<lambda>n. n > 0) (map (\<lambda>(k, h). h_GetCount (rt_float rt) h) hs))"
    using Cons.IH [of dc1] Cons.prems r(2) by auto
  have g': "dc_Get (rt_lru rt) k dc = (dc1, Some d)" "dc_look look dc k = Some d" using g d r(1) by simp_all
  show ?case using i r(2) by (simp add: x g' h vm_points_def Let_def)
qed

text \<open>What an export says of a family: the counts of its histograms, in both formats.\<close>

definition exported_counts :: "string \<Rightarrow> metric list \<Rightarrow> int list" where
  "exported_counts prefix ms =
     concat (map (\<lambda>m. case m of HistogramMetric n pts \<Rightarrow> if n = prefix then map (\<lambda>pt. sint (hp_Count pt)) pts else []
                       | GaugeMetric n pts \<Rightarrow> if n = prefix @ ''_count'' then map gp_IntValue pts else []) ms)"

lemma fam_ok_entries:
  "fam_ok look mt fam \<Longrightarrow> (k, h) \<in> set (fm_histograms fam) \<Longrightarrow> h_ok h \<and> histo_kind mt h \<and> dc_look look (fm_dimensions fam) k \<noteq> None"
  using wf_load_iff [of "fm_histograms fam" k h] by (auto simp: fam_ok_def)

lemma collect_ok:
  assumes "lru_laws (rt_lru rt) look" "fam_ok look (co_metricsType p) fam"
  shows "\<exists>dc ms. collectLatencyMetrics rt now p prefix fam = Some (fam\<lparr>fm_dimensions := dc\<rparr>, Inr ms) \<and>
           dc_look look dc = dc_look look (fm_dimensions fam) \<and>
           filter (\<lambda>n. n \<noteq> 0) (exported_counts prefix ms) =
             map sint (filter (\<lambda>n. n \<noteq> 0) (map (\<lambda>(k, h). h_GetCount (rt_float rt) h) (fm_histograms fam)))"
proof (cases "fm_histograms fam = []")
  case True
  then show ?thesis by (auto simp: collectLatencyMetrics_def exported_counts_def intro!: exI [of _ "fm_dimensions fam"])
next
  case False
  let ?cs = "map (\<lambda>(k, h). h_GetCount (rt_float rt) h) (fm_histograms fam)"
  have nz: "filter (\<lambda>n. n \<noteq> 0) (map sint xs) = map sint (filter (\<lambda>n. n \<noteq> 0) xs)" for xs :: "u64 list"
    by (induction xs) (auto simp: signed_eq_0_iff)
  have pos: "filter (\<lambda>n. n > 0) xs = filter (\<lambda>n. n \<noteq> 0) xs" for xs :: "u64 list"
    by (rule filter_cong) (auto simp: word_gt_0)
  show ?thesis
  proof (cases "co_metricsType p")
    case MetricsProm
    then have "\<forall>(k, h) \<in> set (fm_histograms fam). histo_kind MetricsProm h \<and> dc_look look (fm_dimensions fam) k \<noteq> None"
      using fam_ok_entries [OF assms(2)] by auto
    from collectProm_ok [OF assms(1) this, of now p] obtain dc pts where
      c: "collectPromLatencyMetrics rt now p (fm_histograms fam) (fm_dimensions fam) = Some (dc, Inr pts)"
        "dc_look look dc = dc_look look (fm_dimensions fam)" "map hp_Count pts = ?cs" by blast
    have "map (\<lambda>pt. sint (hp_Count pt)) pts = map sint ?cs" unfolding c(3) [symmetric] by simp
    then have "filter (\<lambda>n. n \<noteq> 0) (exported_counts prefix [HistogramMetric prefix pts]) = map sint (filter (\<lambda>n. n \<noteq> 0) ?cs)"
      by (simp add: exported_counts_def nz del: map_map)
    with c(1,2) False MetricsProm show ?thesis by (simp add: collectLatencyMetrics_def) blast
  next
    case MetricsVm
    then have "\<forall>(k, h) \<in> set (fm_histograms fam). histo_kind MetricsVm h \<and> dc_look look (fm_dimensions fam) k \<noteq> None"
      using fam_ok_entries [OF assms(2)] by auto
    from collectVm_ok [OF assms(1) this, of now] obtain dc b c s where
      c: "collectVmLatencyMetrics rt now (fm_histograms fam) (fm_dimensions fam) = Some (dc, Inr (b, c, s))"
        "dc_look look dc = dc_look look (fm_dimensions fam)" "map gp_IntValue c = map sint (filter (\<lambda>n. n > 0) ?cs)" by blast
    let ?ms = "[GaugeMetric (prefix @ ''_bucket'') b, GaugeMetric (prefix @ ''_count'') c, GaugeMetric (prefix @ ''_sum'') s]"
    have "filter (\<lambda>n. n \<noteq> 0) (exported_counts prefix ?ms) = map sint (filter (\<lambda>n. n \<noteq> 0) ?cs)"
      by (simp add: exported_counts_def c(3) pos nz del: map_map)
    with c(1,2) False MetricsVm show ?thesis by (simp add: collectLatencyMetrics_def) blast
  qed
qed

lemma exported_append: "exported_counts q (xs @ ys) = exported_counts q xs @ exported_counts q ys"
  by (simp add: exported_counts_def)

lemma map_sum_Inr_iff: "map_sum id f r = Inr y \<longleftrightarrow> (\<exists>x. r = Inr x \<and> y = f x)"
  by (cases r) auto

lemma collect_other:
  assumes "collectLatencyMetrics rt now p prefix fam = Some (fam', Inr ms)"
    and "q \<noteq> prefix" "prefix @ ''_bucket'' \<noteq> q @ ''_count''" "prefix @ ''_sum'' \<noteq> q @ ''_count''"
  shows "exported_counts q ms = []"
  using assms
  by (auto simp: collectLatencyMetrics_def exported_counts_def map_sum_Inr_iff split: if_splits)

lemma fam_ok_dims: "fam_ok look mt fam \<Longrightarrow> dc_look look dc = dc_look look (fm_dimensions fam) \<Longrightarrow> fam_ok look mt (fam\<lparr>fm_dimensions := dc\<rparr>)"
  by (simp add: fam_ok_def)

lemma prune_load:
  "gomap_wf (fm_histograms fam) \<Longrightarrow>
   map_load (fm_histograms (prune rt dc (evict fam))) key = (if dc_Contains (rt_lru rt) key dc then map_load (fm_histograms fam) key else None)"
  by (simp add: prune_def evict_def load_keep split: option.split)

lemma prune_own_ok:
  assumes "lru_laws (rt_lru rt) look" "fam_ok look mt fam"
  shows "fam_ok look mt (prune rt (fm_dimensions (evict fam)) (evict fam))"
proof -
  have wf: "gomap_wf (fm_histograms fam)" using assms(2) by (simp add: fam_ok_def)
  then have "gomap_wf (fm_histograms (prune rt (fm_dimensions (evict fam)) (evict fam)))"
    by (simp add: prune_def evict_def wf_keep)
  moreover have "dc_Contains (rt_lru rt) key (fm_dimensions (evict fam)) \<longleftrightarrow>
      dc_look look (fm_dimensions (prune rt (fm_dimensions (evict fam)) (evict fam))) key \<noteq> None" for key
    by (simp add: dc_Contains_look [OF assms(1)] prune_def evict_def dc_Remove_look RemoveEvictedItems_def dc_look_def split: option.split)
  ultimately show ?thesis
    using assms(2) by (auto simp: fam_ok_def prune_load [OF wf] split: if_splits)
qed

text \<open>The clean-up of the external family uses the cache of the database family, whose keys are of another arity.\<close>

lemma external_pruned:
  assumes "lru_laws (rt_lru rt) look" "keys_apart look p" "gomap_wf (fm_histograms (co_external p))"
  shows "fm_histograms (co_external (cleanup rt p)) = []"
proof -
  have "map_load (fm_histograms (co_external (cleanup rt p))) key = None" for key
  proof (cases "dc_Contains (rt_lru rt) key (fm_dimensions (evict (co_db p)))")
    case True
    then have "dc_look look (fm_dimensions (co_db p)) key \<noteq> None"
      by (auto simp: dc_Contains_look [OF assms(1)] evict_def RemoveEvictedItems_def dc_look_def split: option.split)
    then have "\<not> key_arity 10 key" using assms(2) key_arity_unique [of 11 key 10] by (auto simp: keys_apart_def)
    then have "map_load (fm_histograms (co_external p)) key = None"
      using assms(2) unfolding keys_apart_def by blast
    then show ?thesis by (simp add: cleanup_def Let_def prune_load [OF assms(3)])
  next
    case False
    then show ?thesis by (simp add: cleanup_def Let_def prune_load [OF assms(3)])
  qed
  then have "map_load (fm_histograms (co_external (cleanup rt p))) = Map.empty" by (rule ext)
  then show ?thesis by (simp only: map_of_eq_empty_iff)
qed

lemma cleanup_ok:
  assumes "lru_laws (rt_lru rt) look" "conn_inv look p" "keys_apart look p"
  shows "conn_inv look (cleanup rt p)" "keys_apart look (cleanup rt p)"
proof -
  have wf: "gomap_wf (fm_histograms (co_external p))" using assms(2) by (simp add: conn_inv_def fam_ok_def)
  note ext = external_pruned [OF assms(1,3) wf]
  have "fam_ok look (co_metricsType p) (co_external (cleanup rt p))" by (simp add: fam_ok_def ext)
  with assms(2) prune_own_ok [OF assms(1)] show "conn_inv look (cleanup rt p)"
    by (simp add: conn_inv_def) (simp add: cleanup_def Let_def)
  have "dc_look look (fm_dimensions (co_db (cleanup rt p))) key \<noteq> None \<Longrightarrow> dc_look look (fm_dimensions (co_db p)) key \<noteq> None" for key
    by (auto simp: cleanup_def Let_def prune_def evict_def RemoveEvictedItems_def dc_look_def split: option.splits)
  with assms(3) ext show "keys_apart look (cleanup rt p)" by (auto simp: keys_apart_def)
qed

definition live_counts :: "float_ops \<Rightarrow> 'l family \<Rightarrow> int list" where
  "live_counts fl fam = map sint (filter (\<lambda>n. n \<noteq> 0) (map (\<lambda>(k, h). h_GetCount fl h) (fm_histograms fam)))"

lemma export_step:
  assumes laws: "lru_laws (rt_lru rt) look" and inv: "conn_inv look p" and ka: "keys_apart look p"
  shows "\<exists>p1 ms. exportMetrics rt now p = Some (cleanup rt p1, Some ms) \<and> conn_inv look p1 \<and> keys_apart look p1 \<and> same_setup p1 p \<and>
      fm_histograms (co_server p1) = fm_histograms (co_server p) \<and> fm_histograms (co_external p1) = fm_histograms (co_external p) \<and>
      filter (\<lambda>n. n \<noteq> 0) (exported_counts ''kindling_span_trace_duration_nanoseconds'' ms) = live_counts (rt_float rt) (co_server p) \<and>
      filter (\<lambda>n. n \<noteq> 0) (exported_counts ''kindling_db_duration_nanoseconds'' ms) = live_counts (rt_float rt) (co_db p) \<and>
      filter (\<lambda>n. n \<noteq> 0) (exported_counts ''kindling_external_duration_nanoseconds'' ms) = live_counts (rt_float rt) (co_external p) \<and>
      filter (\<lambda>n. n \<noteq> 0) (exported_counts ''kindling_mq_duration_nanoseconds'' ms) = live_counts (rt_float rt) (co_mq p)"
proof -
  note ok = collect_ok [OF laws, folded live_counts_def]
  have f: "fam_ok look (co_metricsType p) (co_server p)" "fam_ok look (co_metricsType p) (co_db p)"
    "fam_ok look (co_metricsType p) (co_external p)" "fam_ok look (co_metricsType p) (co_mq p)"
    using inv by (simp_all add: conn_inv_def)
  obtain ds ms where s: "collectLatencyMetrics rt now p ''kindling_span_trace_duration_nanoseconds'' (co_server p) =
      Some ((co_server p)\<lparr>fm_dimensions := ds\<rparr>, Inr ms)" "dc_look look ds = dc_look look (fm_dimensions (co_server p))"
      "filter (\<lambda>n. n \<noteq> 0) (exported_counts ''kindling_span_trace_duration_nanoseconds'' ms) = live_counts (rt_float rt) (co_server p)"
    using ok [OF f(1)] by blast
  define ps where "ps = p\<lparr>co_server := (co_server p)\<lparr>fm_dimensions := ds\<rparr>\<rparr>"
  have "fam_ok look (co_metricsType ps) (co_db p)" using f(2) by (simp add: ps_def)
  then obtain dd md where d: "collectLatencyMetrics rt now ps ''kindling_db_duration_nanoseconds'' (co_db p) =
      Some ((co_db p)\<lparr>fm_dimensions := dd\<rparr>, Inr md)" "dc_look look dd = dc_look look (fm_dimensions (co_db p))"
      "filter (\<lambda>n. n \<noteq> 0) (exported_counts ''kindling_db_duration_nanoseconds'' md) = live_counts (rt_float rt) (co_db p)"
    using ok by blast
  define pd where "pd = ps\<lparr>co_db := (co_db p)\<lparr>fm_dimensions := dd\<rparr>\<rparr>"
  have "fam_ok look (co_metricsType pd) (co_external p)" using f(3) by (simp add: pd_def ps_def)
  then obtain dx mx where x: "collectLatencyMetrics rt now pd ''kindling_external_duration_nanoseconds'' (co_external p) =
      Some ((co_external p)\<lparr>fm_dimensions := dx\<rparr>, Inr mx)" "dc_look look dx = dc_look look (fm_dimensions (co_external p))"
      "filter (\<lambda>n. n \<noteq> 0) (exported_counts ''kindling_external_duration_nanoseconds'' mx) = live_counts (rt_float rt) (co_external p)"
    using ok by blast
  define px where "px = pd\<lparr>co_external := (co_external p)\<lparr>fm_dimensions := dx\<rparr>\<rparr>"
  have "fam_ok look (co_metricsType px) (co_mq p)" using f(4) by (simp add: px_def pd_def ps_def)
  then obtain dq mq where q: "collectLatencyMetrics rt now px ''kindling_mq_duration_nanoseconds'' (co_mq p) =
      Some ((co_mq p)\<lparr>fm_dimensions := dq\<rparr>, Inr mq)" "dc_look look dq = dc_look look (fm_dimensions (co_mq p))"
      "filter (\<lambda>n. n \<noteq> 0) (exported_counts ''kindling_mq_duration_nanoseconds'' mq) = live_counts (rt_float rt) (co_mq p)"
    using ok by blast
  define pq where "pq = px\<lparr>co_mq := (co_mq p)\<lparr>fm_dimensions := dq\<rparr>\<rparr>"
  note defs = pq_def px_def pd_def ps_def
  have "exportMetrics rt now p = Some (cleanup rt pq, Some (ms @ md @ mx @ mq))"
    using s(1) d(1) x(1) q(1)
    by (simp add: exportMetrics_def buildMetrics_def Let_def ps_def [symmetric] pd_def [symmetric] px_def [symmetric] pq_def [symmetric])
      (simp add: defs)
  moreover have "conn_inv look pq" using inv f s(2) d(2) x(2) q(2) by (simp add: conn_inv_def fam_ok_dims defs)
  moreover have "keys_apart look pq" using ka d(2) by (simp add: keys_apart_def defs)
  moreover have "same_setup pq p" "fm_histograms (co_server pq) = fm_histograms (co_server p)"
    "fm_histograms (co_external pq) = fm_histograms (co_external p)" by (simp_all add: same_setup_def defs)
  ultimately show ?thesis
    using s(3) d(3) x(3) q(3) by (simp add: exported_append collect_other [OF s(1)] collect_other [OF d(1)] collect_other [OF x(1)] collect_other [OF q(1)]) blast
qed

subsection \<open>Runs\<close>

text \<open>Incoming traces and expired exit spans are sequences of calls of \<open>aggregateMetricsForSpan\<close>.\<close>

definition aggregate_calls :: "'l red_rt \<Rightarrow> (caller \<times> span) list \<Rightarrow> 'l connector_imp \<Rightarrow> 'l connector_imp option" where
  "aggregate_calls rt = fold_opt (\<lambda>(ca, sp). aggregateMetricsForSpan rt ca sp)"

definition plain_calls :: "traces \<Rightarrow> (caller \<times> span) list" where
  "plain_calls td =
     concat (map (\<lambda>rss. case GetResourceAttribute rss of (pid, serviceName, containerId) \<Rightarrow>
       if pid = [] \<or> serviceName = [] then []
       else map (Pair \<lparr>ca_pid = pid, ca_containerId = containerId, ca_serviceName = serviceName, ca_entryUrl = []\<rparr>) (rs_spans rss)) td)"

lemma fold_opt_map: "fold_opt f (map g xs) s = fold_opt (\<lambda>x. f (g x)) xs s"
  by (induction xs arbitrary: s) (auto split: bind_split)

lemma consume_plain_calls:
  "consume_plain rt rss p = aggregate_calls rt (plain_calls [rss]) p"
  by (simp add: consume_plain_def aggregate_calls_def plain_calls_def fold_opt_map fold_opt_concat rs_spans_def Let_def split: prod.split)

lemma consume_without_cache:
  "co_entryUrlCache p = None \<Longrightarrow> red_ConsumeTraces rt now td p = aggregate_calls rt (plain_calls td) p"
proof -
  have "fold_opt (consume_plain rt) td p = aggregate_calls rt (plain_calls td) p" for p
  proof (induction td arbitrary: p)
    case Nil
    then show ?case by (simp add: plain_calls_def aggregate_calls_def)
  next
    case (Cons rss td)
    have "plain_calls (rss # td) = plain_calls [rss] @ plain_calls td" by (simp add: plain_calls_def)
    then show ?case
      using Cons by (auto simp: consume_plain_calls aggregate_calls_def fold_opt_append split: bind_split)
  qed
  then show "co_entryUrlCache p = None \<Longrightarrow> red_ConsumeTraces rt now td p = aggregate_calls rt (plain_calls td) p"
    by (simp add: red_ConsumeTraces_def)
qed

lemma consume_with_cache:
  "co_entryUrlCache p = Some c \<Longrightarrow> GetMatchedResourceSpans (re_api (rt_env rt)) now td c = Some (c1, matched) \<Longrightarrow>
   red_ConsumeTraces rt now td p =
     aggregate_calls rt (map (\<lambda>w. (caller_of w (rsp_EntryUrl w), rsp_Span w)) matched) (p\<lparr>co_entryUrlCache := Some c1\<rparr>)"
  by (simp add: red_ConsumeTraces_def aggregate_calls_def fold_opt_map)

datatype red_event = Calls "(caller \<times> span) list" | Export u64

fun red_step :: "'l red_rt \<Rightarrow> red_event \<Rightarrow> 'l connector_imp \<Rightarrow> 'l connector_imp option" where
  "red_step rt (Calls cs) p = aggregate_calls rt cs p"
| "red_step rt (Export now) p = map_option fst (exportMetrics rt now p)"

fun clean_event :: "red_env \<Rightarrow> red_event \<Rightarrow> bool" where
  "clean_event env (Calls cs) \<longleftrightarrow> (\<forall>(ca, sp) \<in> set cs. clean_call env ca sp)"
| "clean_event env (Export now) \<longleftrightarrow> True"

lemma new_connector_inv:
  assumes "lru_laws (rt_lru rt) look" "newConnector rt now cfg = Inr p"
  shows "conn_inv look p" "keys_apart look p" "co_config p = cfg"
proof -
  obtain l where l: "lru_New (rt_lru rt) (rc_DimensionsCacheSize cfg) = Some l"
    using assms(2) by (auto simp: newConnector_def NewCache_def split: if_splits option.splits)
  then have "look l = (\<lambda>k. None)" using assms(1) by (auto simp: lru_laws_def)
  with assms(2) l show "conn_inv look p" "keys_apart look p" "co_config p = cfg"
    by (auto simp: newConnector_def NewCache_def conn_inv_def keys_apart_def fam_ok_def NewReusedKeyValue_ok dc_look_def Let_def
        split: if_splits option.splits sum.splits)
qed

lemma calls_step:
  assumes "lru_laws (rt_lru rt) look"
  shows "conn_inv look p \<Longrightarrow> keys_apart look p \<Longrightarrow> \<forall>(ca, sp) \<in> set cs. clean_call (rt_env rt) ca sp \<Longrightarrow>
    \<exists>p'. aggregate_calls rt cs p = Some p' \<and> conn_inv look p' \<and> keys_apart look p'"
proof (induction cs arbitrary: p)
  case Nil
  then show ?case by (simp add: aggregate_calls_def)
next
  case (Cons c cs)
  obtain ca sp where c: "c = (ca, sp)" by (cases c)
  have "\<exists>p1. aggregateMetricsForSpan rt ca sp p = Some p1 \<and> conn_inv look p1 \<and> keys_apart look p1"
    using aggregate_step [OF assms Cons.prems(1), of sp ca] aggregate_early [of sp rt ca p] Cons.prems c
    by (cases "sp_StartTimestamp sp < sp_EndTimestamp sp") auto
  then obtain p1 where p1: "aggregateMetricsForSpan rt ca sp p = Some p1" "conn_inv look p1" "keys_apart look p1" by blast
  with Cons.IH [OF p1(2,3)] Cons.prems c show ?case by (simp add: aggregate_calls_def)
qed

lemma run_inv:
  assumes "lru_laws (rt_lru rt) look"
  shows "conn_inv look p \<Longrightarrow> keys_apart look p \<Longrightarrow> \<forall>e \<in> set es. clean_event (rt_env rt) e \<Longrightarrow>
    \<exists>p'. fold_opt (red_step rt) es p = Some p' \<and> conn_inv look p' \<and> keys_apart look p'"
proof (induction es arbitrary: p)
  case Nil
  then show ?case by simp
next
  case (Cons e es)
  have "\<exists>p1. red_step rt e p = Some p1 \<and> conn_inv look p1 \<and> keys_apart look p1"
  proof (cases e)
    case (Calls cs)
    then show ?thesis using calls_step [OF assms Cons.prems(1,2), of cs] Cons.prems(3) by simp
  next
    case (Export now)
    then show ?thesis using export_step [OF assms Cons.prems(1,2), of now] cleanup_ok [OF assms] by auto
  qed
  then obtain p1 where p1: "red_step rt e p = Some p1" "conn_inv look p1" "keys_apart look p1" by blast
  with Cons.IH [OF p1(2,3)] Cons.prems show ?case by simp
qed

subsection \<open>Properties\<close>

subsubsection \<open>A concrete instance\<close>

text \<open>A library cache that never evicts, a configuration with two families enabled, an HTTP client span.\<close>

definition demo_lru :: "((string, dims) gomap, dims) lru_ops" where
  "demo_lru = \<lparr>lru_New = (\<lambda>n. if n \<le> 0 then None else Some []), lru_Add = (\<lambda>k v l. (map_store k v l, None)),
     lru_Get = (\<lambda>k l. (l, map_load l k)), lru_Contains = (\<lambda>k l. map_load l k \<noteq> None), lru_Len = (\<lambda>l. int (length l))\<rparr>"

definition demo_rt :: "(string, dims) gomap red_rt" where
  "demo_rt = \<lparr>rt_env = demo_env, rt_float = demo_float, rt_int64 = (\<lambda>f. \<lfloor>f\<rfloor>), rt_lru = demo_lru\<rparr>"

definition demo_red_config :: red_config where
  "demo_red_config = red_createDefaultConfig\<lparr>rc_ServerEnabled := True, rc_ExternalEnabled := True\<rparr>"

definition demo_red_span :: span where
  "demo_red_span = zero_span\<lparr>sp_Kind := SpanKindClient, sp_Name := ''GET'', sp_EndTimestamp := 5, sp_Attributes := [(''http.method'', ValueStr ''GET'')]\<rparr>"

lemma demo_laws: "lru_laws (rt_lru demo_rt) map_load"
  by (auto simp: lru_laws_def demo_rt_def demo_lru_def fun_eq_iff)

lemma demo_connector: "\<exists>p. newConnector demo_rt 0 demo_red_config = Inr p"
  by (simp add: newConnector_def NewCache_def demo_rt_def demo_lru_def demo_red_config_def red_createDefaultConfig_def Let_def)

lemma demo_red_items:
  "db_items demo_env demo_caller demo_red_span = []" "rpc_items demo_env demo_caller demo_red_span = []"
  "mq_items demo_env demo_caller demo_red_span = []"
  "http_items u demo_env demo_caller demo_red_span = external_items demo_env demo_caller demo_red_span (http_parse u ''GET'' []) ''http''"
  by (simp_all add: db_items_def rpc_items_def mq_items_def http_items_def demo_red_span_def getHttpMethod_def getHttpUrl_def first_Str_def)

lemma demo_red_counts:
  "\<not> db_counts demo_env demo_red_config demo_caller demo_red_span" "external_counts demo_env demo_red_config demo_caller demo_red_span"
  by (simp_all add: db_counts_def external_counts_def demo_red_items external_call_items_def external_items_def caller_items_def)
    (simp_all add: demo_red_span_def demo_red_config_def)

lemma demo_red_clean: "clean_call demo_env demo_caller demo_red_span"
proof -
  have "metricKeySeparator \<notin> set (http_parse u ''GET'' [])" for u
    by (simp add: http_parse_def getTopUrl_def metricKeySeparator_def)
  then show ?thesis
    by (simp add: clean_call_def demo_red_items sep_free_def external_items_def caller_items_def format_bool_sep)
      (simp add: demo_env_def demo_caller_def demo_red_span_def GetClientPeer_def peer_at_def metricKeySeparator_def)
qed

text \<open>C5: each span is counted once in each family it belongs to. A span that ends after it starts adds one to the
  total count of the server, database, external and message families exactly when the configuration and the
  span's kind and attributes say so, and nothing else; the connector does not panic and its invariant is kept.\<close>

theorem span_counted_per_family:
  assumes "lru_laws (rt_lru rt) look" "conn_inv look p" "sp_StartTimestamp sp < sp_EndTimestamp sp"
  shows "\<exists>p'. aggregateMetricsForSpan rt ca sp p = Some p' \<and> conn_inv look p' \<and>
      fam_total (rt_float rt) (co_server p') = fam_total (rt_float rt) (co_server p) + (if server_counts (co_config p) sp then 1 else 0) \<and>
      fam_total (rt_float rt) (co_db p') = fam_total (rt_float rt) (co_db p) + (if db_counts (rt_env rt) (co_config p) ca sp then 1 else 0) \<and>
      fam_total (rt_float rt) (co_external p') =
        fam_total (rt_float rt) (co_external p) + (if external_counts (rt_env rt) (co_config p) ca sp then 1 else 0) \<and>
      fam_total (rt_float rt) (co_mq p') = fam_total (rt_float rt) (co_mq p) + (if mq_counts (rt_env rt) (co_config p) ca sp then 1 else 0)"
  using aggregate_step [OF assms] by blast

theorem span_counted_per_family_witness:
  "\<exists>p p'. newConnector demo_rt 0 demo_red_config = Inr p \<and> aggregateMetricsForSpan demo_rt demo_caller demo_red_span p = Some p' \<and>
     fam_total demo_float (co_external p') = fam_total demo_float (co_external p) + 1 \<and>
     fam_total demo_float (co_db p') = fam_total demo_float (co_db p)"
proof -
  obtain p where p: "newConnector demo_rt 0 demo_red_config = Inr p" using demo_connector by blast
  note inv = new_connector_inv [OF demo_laws p]
  have "sp_StartTimestamp demo_red_span < sp_EndTimestamp demo_red_span" by (simp add: demo_red_span_def zero_span_def)
  from span_counted_per_family [OF demo_laws inv(1) this, of demo_caller] p inv(3) demo_red_counts show ?thesis
    by (auto simp: demo_rt_def)
qed

text \<open>C4: exports are complete. From a new connector, through any sequence of calls whose data contain no NUL byte
  and of exports, nothing panics; an export never misses the dimensions of a histogram, and for each of the
  four families the non-zero counts it reports are those of the live histograms, in order.\<close>

theorem exports_are_complete:
  assumes "lru_laws (rt_lru rt) look" "newConnector rt t0 cfg = Inr p0" "\<forall>e \<in> set es. clean_event (rt_env rt) e"
  shows "\<exists>p p' ms. fold_opt (red_step rt) es p0 = Some p \<and> exportMetrics rt now p = Some (p', Some ms) \<and>
      filter (\<lambda>n. n \<noteq> 0) (exported_counts ''kindling_span_trace_duration_nanoseconds'' ms) = live_counts (rt_float rt) (co_server p) \<and>
      filter (\<lambda>n. n \<noteq> 0) (exported_counts ''kindling_db_duration_nanoseconds'' ms) = live_counts (rt_float rt) (co_db p) \<and>
      filter (\<lambda>n. n \<noteq> 0) (exported_counts ''kindling_external_duration_nanoseconds'' ms) = live_counts (rt_float rt) (co_external p) \<and>
      filter (\<lambda>n. n \<noteq> 0) (exported_counts ''kindling_mq_duration_nanoseconds'' ms) = live_counts (rt_float rt) (co_mq p)"
proof -
  obtain p where p: "fold_opt (red_step rt) es p0 = Some p" "conn_inv look p" "keys_apart look p"
    using run_inv [OF assms(1) new_connector_inv(1,2) [OF assms(1,2)] assms(3)] by blast
  with export_step [OF assms(1) p(2,3), of now] show ?thesis by blast
qed

theorem exports_are_complete_witness:
  "\<exists>p p' ms. fold_opt (red_step demo_rt) [Calls [(demo_caller, demo_red_span)], Export 10, Calls [(demo_caller, demo_red_span)]]
        (projr (newConnector demo_rt 0 demo_red_config)) = Some p \<and> exportMetrics demo_rt 20 p = Some (p', Some ms) \<and>
     filter (\<lambda>n. n \<noteq> 0) (exported_counts ''kindling_external_duration_nanoseconds'' ms) = live_counts demo_float (co_external p)"
proof -
  obtain p where p: "newConnector demo_rt 0 demo_red_config = Inr p" using demo_connector by blast
  have "\<forall>e \<in> set [Calls [(demo_caller, demo_red_span)], Export 10, Calls [(demo_caller, demo_red_span)]]. clean_event (rt_env demo_rt) e"
    using demo_red_clean by (simp add: demo_rt_def)
  from exports_are_complete [OF demo_laws p this, of 20] p show ?thesis by (auto simp: demo_rt_def)
qed

text \<open>the histograms of external calls restart at every export. An export keeps the histogram of a server key
  whose dimensions are still cached, and with it the cumulative count; the histograms of external calls are
  all deleted, because they are looked up in the database cache, even those whose dimensions are still cached.\<close>

theorem external_histograms_restart:
  assumes "lru_laws (rt_lru rt) look" "conn_inv look p" "keys_apart look p" "exportMetrics rt now p = Some (p', r)"
  shows "fm_histograms (co_external p') = [] \<and>
         map_load (fm_histograms (co_server p')) key =
           (if dc_Contains (rt_lru rt) key (fm_dimensions (co_server p')) then map_load (fm_histograms (co_server p)) key else None)"
proof
  obtain p1 ms where e: "exportMetrics rt now p = Some (cleanup rt p1, Some ms)" "conn_inv look p1" "keys_apart look p1"
    "fm_histograms (co_server p1) = fm_histograms (co_server p)"
    using export_step [OF assms(1-3), of now] by blast
  then have p': "p' = cleanup rt p1" using assms(4) by simp
  have wf: "gomap_wf (fm_histograms (co_external p1))" using e(2) by (simp add: conn_inv_def fam_ok_def)
  show "fm_histograms (co_external p') = []" unfolding p' by (rule external_pruned [OF assms(1) e(3) wf])
next
  obtain p1 ms where e: "exportMetrics rt now p = Some (cleanup rt p1, Some ms)" "conn_inv look p1" "keys_apart look p1"
    "fm_histograms (co_server p1) = fm_histograms (co_server p)"
    using export_step [OF assms(1-3), of now] by blast
  then have p': "p' = cleanup rt p1" using assms(4) by simp
  have wf: "gomap_wf (fm_histograms (co_server p1))" using e(2) by (simp add: conn_inv_def fam_ok_def)
  have "fm_dimensions (co_server p') = fm_dimensions (evict (co_server p1))" by (simp add: p' cleanup_def Let_def prune_def)
  then show "map_load (fm_histograms (co_server p')) key =
           (if dc_Contains (rt_lru rt) key (fm_dimensions (co_server p')) then map_load (fm_histograms (co_server p)) key else None)"
    using prune_load [OF wf] e(4) by (simp add: p' cleanup_def Let_def)
qed

theorem external_histograms_restart_witness:
  "\<exists>p p' r. newConnector demo_rt 0 demo_red_config = Inr p \<and> exportMetrics demo_rt 10 p = Some (p', r) \<and> fm_histograms (co_external p') = []"
proof -
  obtain p where p: "newConnector demo_rt 0 demo_red_config = Inr p" using demo_connector by blast
  note inv = new_connector_inv(1,2) [OF demo_laws p]
  obtain p' r where "exportMetrics demo_rt 10 p = Some (p', r)" using export_step [OF demo_laws inv, of 10] by blast
  with external_histograms_restart [OF demo_laws inv this] p show ?thesis by blast
qed

definition tracking_ok :: "'l connector_imp \<Rightarrow> bool" where
  "tracking_ok p \<longleftrightarrow>
     int (length (co_serviceToOperations p)) \<le>
       co_maxServices p + 1 + (if map_load (co_serviceToOperations p) ''overflow_service'' \<noteq> None then 1 else 0) \<and>
     (\<forall>s os. map_load (co_serviceToOperations p) s = Some os \<longrightarrow>
        int (length os) \<le> co_maxOperations p + 1 + (if ''overflow_operation'' \<in> set os then 1 else 0))"

text \<open>the services and operations the connector tracks are bounded: never more than the configured maxima plus
  two each, the two being the entry that hit the limit and the overflow name.\<close>

theorem tracked_operations_bounded:
  assumes "tracking_ok p" "buildServerKey rt pid cid svc sp p = (p', key)" "-1 \<le> co_maxOperations p"
  shows "tracking_ok p' \<and> int (length (co_serviceToOperations p')) \<le> co_maxServices p' + 2 \<and>
         (\<forall>s os. map_load (co_serviceToOperations p') s = Some os \<longrightarrow> int (length os) \<le> co_maxOperations p' + 2)"
proof -
  let ?sto = "co_serviceToOperations p"
  let ?ops = "\<lambda>s. case map_load ?sto s of Some os \<Rightarrow> os | None \<Rightarrow> []"
  define s1 where "s1 = (if int (length ?sto) > co_maxServices p then ''overflow_service'' else svc)"
  define o1 where "o1 = (if int (length (?ops s1)) > co_maxOperations p then ''overflow_operation'' else sp_Name sp)"
  have p': "co_serviceToOperations p' = map_store s1 (List.insert o1 (?ops s1)) ?sto"
    "co_maxServices p' = co_maxServices p" "co_maxOperations p' = co_maxOperations p"
    using assms(2) by (auto simp: buildServerKey_def Let_def s1_def o1_def split: prod.splits)
  have "int (length (?ops s1)) \<le> co_maxOperations p + 1 + (if ''overflow_operation'' \<in> set (?ops s1) then 1 else 0)"
  proof (cases "map_load ?sto s1")
    case None
    then show ?thesis using assms(3) by simp
  next
    case (Some os)
    with assms(1) have "int (length os) \<le> co_maxOperations p + 1 + (if ''overflow_operation'' \<in> set os then 1 else 0)"
      unfolding tracking_ok_def by blast
    with Some show ?thesis by simp
  qed
  then have o: "int (length (List.insert o1 (?ops s1))) \<le> co_maxOperations p + 1 + (if ''overflow_operation'' \<in> set (List.insert o1 (?ops s1)) then 1 else 0)"
    by (auto simp: o1_def List.insert_def split: if_splits)
  have "int (length (co_serviceToOperations p')) \<le>
      co_maxServices p + 1 + (if map_load (co_serviceToOperations p') ''overflow_service'' \<noteq> None then 1 else 0)"
    using assms(1) unfolding p' length_store by (auto simp: tracking_ok_def s1_def split: if_splits)
  with o assms(1) have t: "tracking_ok p'" by (auto simp: tracking_ok_def p' split: if_splits)
  then have l: "int (length (co_serviceToOperations p')) \<le> co_maxServices p' + 2" by (auto simp: tracking_ok_def split: if_splits)
  have "int (length os) \<le> co_maxOperations p' + 2" if "map_load (co_serviceToOperations p') s = Some os" for s os
  proof -
    from t that have "int (length os) \<le> co_maxOperations p' + 1 + (if ''overflow_operation'' \<in> set os then 1 else 0)"
      unfolding tracking_ok_def by blast
    then show ?thesis by (simp split: if_splits)
  qed
  with t l show ?thesis by blast
qed

theorem tracked_operations_bounded_witness:
  "\<exists>p. newConnector demo_rt 0 demo_red_config = Inr p \<and>
     int (length (co_serviceToOperations (fst (buildServerKey demo_rt ''4'' [] ''svc'' demo_red_span p)))) \<le> 256 + 2"
proof -
  obtain p where p: "newConnector demo_rt 0 demo_red_config = Inr p" using demo_connector by blast
  then have m: "co_serviceToOperations p = []" "co_maxServices p = 256" "co_maxOperations p = 2048"
    by (auto simp: newConnector_def NewCache_def demo_rt_def demo_lru_def demo_red_config_def red_createDefaultConfig_def Let_def)
  obtain p' key where b: "buildServerKey demo_rt ''4'' [] ''svc'' demo_red_span p = (p', key)" by fastforce
  have "tracking_ok p" by (simp add: tracking_ok_def m)
  moreover have "co_maxServices p' = 256" using b m by (auto simp: buildServerKey_def Let_def split: prod.splits)
  ultimately show ?thesis using tracked_operations_bounded [OF _ b] p b m by auto
qed

text \<open>The overflow name replaces an operation in the tracking table only: the key is built from the span name.\<close>

lemma overflow_operation_not_in_key:
  "snd (buildServerKey rt pid cid svc sp p) =
     snd (BuildServerKey (rt_env rt) (co_keyValue p) pid cid
            (if int (length (co_serviceToOperations p)) > co_maxServices p then ''overflow_service'' else svc) (sp_Name sp)
            (SpanID_IsEmpty (re_api (rt_env rt)) (sp_ParentSpanID sp)) (span_error sp))"
  by (simp add: buildServerKey_def Let_def split: prod.split)

end
