(* ===== verification/TraceBlock.thy ===== *)
theory TraceBlock
  imports Pdata
begin

section \<open>The trace-block processor\<close>

text \<open>
  \<open>traceblockprocessor/{config,factory,processor}.go\<close>: spans of traces that have been alive for longer
  than a threshold are dropped. Times and durations are nanoseconds. Each call of \<open>shouldDrop\<close> reads
  the clock; in a batch the \<open>n\<close>-th span processed reads \<open>clock n\<close>.
\<close>

record tb_config =
  tbc_IdleTTL :: int
  tbc_BlockThreshold :: int
  tbc_BlockedIdleTTL :: int

definition Validate :: "tb_config \<Rightarrow> string option" where
  "Validate cfg =
     (if tbc_IdleTTL cfg \<le> 0 then Some ''idle_ttl must be greater than 0''
      else if tbc_BlockThreshold cfg \<le> 0 then Some ''block_threshold must be greater than 0''
      else if tbc_BlockedIdleTTL cfg \<le> 0 then Some ''blocked_idle_ttl must be greater than 0''
      else if tbc_BlockedIdleTTL cfg \<le> tbc_IdleTTL cfg
      then Some ''blocked_idle_ttl should be greater than idle_ttl to ensure blocking logic works properly''
      else if tbc_BlockThreshold cfg \<le> tbc_IdleTTL cfg
      then Some ''block_threshold should be greater than idle_ttl to ensure blocking logic works properly''
      else None)"

abbreviation minute :: int where "minute \<equiv> 60000000000"

definition createDefaultConfig :: tb_config where
  "createDefaultConfig =
     \<lparr>tbc_IdleTTL = 5 * minute, tbc_BlockThreshold = 30 * minute, tbc_BlockedIdleTTL = 10 * minute\<rparr>"

record trace_state =
  ts_firstSeen :: int
  ts_lastSeen :: int
  ts_isBlocked :: bool

text \<open>A channel is nil, open or closed; closing a nil or closed channel panics.\<close>

datatype chan_state = ChanNil | ChanOpen | ChanClosed

text \<open>The two statistics at the end, \<open>int64\<close> in the source, are unbounded here: they wrap in the code after \<open>2 ^ 63\<close> spans.\<close>

record trace_block_processor =
  tbp_traces :: "(string, trace_state) gomap"
  tbp_stopOnce :: bool
  tbp_startOnce :: bool
  tbp_stopCh :: chan_state
  tbp_idleTTL :: int
  tbp_blockedIdleTTL :: int
  tbp_blockThreshold :: int
  tbp_receivedSpans :: int
  tbp_droppedSpans :: int

definition newTraceBlockProcessor :: "tb_config \<Rightarrow> string + trace_block_processor" where
  "newTraceBlockProcessor cfg =
     (case Validate cfg of
        Some err \<Rightarrow> Inl err
      | None \<Rightarrow> Inr \<lparr>tbp_traces = [], tbp_stopOnce = False, tbp_startOnce = False, tbp_stopCh = ChanNil,
                     tbp_idleTTL = tbc_IdleTTL cfg, tbp_blockedIdleTTL = tbc_BlockedIdleTTL cfg,
                     tbp_blockThreshold = tbc_BlockThreshold cfg,
                     tbp_receivedSpans = 0, tbp_droppedSpans = 0\<rparr>)"

text \<open>
  \<open>Start\<close> opens both channels and starts the minute task, which closes \<open>doneCh\<close> when \<open>stopCh\<close> is
  closed. \<open>Shutdown\<close> waits for that: \<open>None\<close> is a wait that never ends.
\<close>

definition tbp_Start :: "trace_block_processor \<Rightarrow> trace_block_processor" where
  "tbp_Start p = (if tbp_startOnce p then p else p\<lparr>tbp_startOnce := True, tbp_stopCh := ChanOpen\<rparr>)"

definition tbp_Shutdown :: "trace_block_processor \<Rightarrow> trace_block_processor option" where
  "tbp_Shutdown p =
     (let p1 = (if tbp_stopOnce p then p
                else if tbp_stopCh p \<noteq> ChanNil then p\<lparr>tbp_stopOnce := True, tbp_stopCh := ChanClosed\<rparr>
                else p\<lparr>tbp_stopOnce := True\<rparr>)
      in if tbp_stopCh p1 = ChanOpen then None else Some p1)"

definition shouldDrop ::
  "pdata_api \<Rightarrow> int \<Rightarrow> trace_id \<Rightarrow> trace_block_processor \<Rightarrow> trace_block_processor \<times> bool" where
  "shouldDrop api now traceID p =
     (let key = TraceID_String api traceID in
      if key = [] then (p, False)
      else case map_load (tbp_traces p) key of
             None \<Rightarrow>
               (p\<lparr>tbp_traces :=
                    map_store key \<lparr>ts_firstSeen = now, ts_lastSeen = now, ts_isBlocked = False\<rparr> (tbp_traces p)\<rparr>, False)
           | Some state \<Rightarrow>
               (let state1 = state\<lparr>ts_lastSeen := now\<rparr>;
                    state2 = (if \<not> ts_isBlocked state1 \<and> now - ts_firstSeen state1 \<ge> tbp_blockThreshold p
                              then state1\<lparr>ts_isBlocked := True\<rparr> else state1)
                in (p\<lparr>tbp_traces := map_store key state2 (tbp_traces p)\<rparr>, ts_isBlocked state2)))"

definition cleanExpired :: "int \<Rightarrow> trace_block_processor \<Rightarrow> trace_block_processor" where
  "cleanExpired now p =
     p\<lparr>tbp_traces :=
         map_keep (\<lambda>traceID state.
             \<not> now - ts_lastSeen state \<ge> (if ts_isBlocked state then tbp_blockedIdleTTL p else tbp_idleTTL p))
           (tbp_traces p)\<rparr>"

text \<open>\<open>reportStats\<close> returns the logged numbers: received, dropped and the drop rate in percent.\<close>

definition reportStats :: "trace_block_processor \<Rightarrow> trace_block_processor \<times> (int \<times> int \<times> f64) option" where
  "reportStats p =
     (let received = tbp_receivedSpans p; dropped = tbp_droppedSpans p in
      (p\<lparr>tbp_receivedSpans := 0, tbp_droppedSpans := 0\<rparr>,
       if received > 0
       then Some (received, dropped, if dropped > 0 then of_int dropped / of_int received * 100 else 0)
       else None))"

text \<open>The three nested \<open>RemoveIf\<close> loops; \<open>n\<close> is \<open>totalSpans\<close>, the spans seen so far.\<close>

fun filter_spans ::
  "pdata_api \<Rightarrow> (nat \<Rightarrow> int) \<Rightarrow> span list \<Rightarrow> nat \<times> trace_block_processor \<Rightarrow>
     (nat \<times> trace_block_processor) \<times> span list" where
  "filter_spans api clock [] st = (st, [])"
| "filter_spans api clock (sp # spans) (n, p) =
     (let (p1, dropit) = (if TraceID_IsEmpty api (sp_TraceID sp) then (p, False)
                          else shouldDrop api (clock n) (sp_TraceID sp) p);
          (st, kept) = filter_spans api clock spans (Suc n, p1)
      in (st, if dropit then kept else sp # kept))"

fun filter_scopes ::
  "pdata_api \<Rightarrow> (nat \<Rightarrow> int) \<Rightarrow> scope_spans list \<Rightarrow> nat \<times> trace_block_processor \<Rightarrow>
     (nat \<times> trace_block_processor) \<times> scope_spans list" where
  "filter_scopes api clock [] st = (st, [])"
| "filter_scopes api clock (ss # sss) st =
     (let (st1, spans) = filter_spans api clock (ss_Spans ss) st;
          (st2, kept) = filter_scopes api clock sss st1
      in (st2, if spans = [] then kept else ss\<lparr>ss_Spans := spans\<rparr> # kept))"

fun filter_resources ::
  "pdata_api \<Rightarrow> (nat \<Rightarrow> int) \<Rightarrow> traces \<Rightarrow> nat \<times> trace_block_processor \<Rightarrow>
     (nat \<times> trace_block_processor) \<times> traces" where
  "filter_resources api clock [] st = (st, [])"
| "filter_resources api clock (r # rs) st =
     (let (st1, scopes) = filter_scopes api clock (rs_ScopeSpans r) st;
          (st2, kept) = filter_resources api clock rs st1
      in (st2, if scopes = [] then kept else r\<lparr>rs_ScopeSpans := scopes\<rparr> # kept))"

text \<open>\<open>ConsumeTraces\<close>: the state, the batch handed to the next consumer if any, and the error returned.\<close>

definition tbp_ConsumeTraces ::
  "pdata_api \<Rightarrow> (traces \<Rightarrow> string option) \<Rightarrow> (nat \<Rightarrow> int) \<Rightarrow> traces \<Rightarrow> trace_block_processor \<Rightarrow>
     trace_block_processor \<times> traces option \<times> string option" where
  "tbp_ConsumeTraces api next_err clock td p =
     (let ((totalSpans, p1), td1) = filter_resources api clock td (0, p);
          remainingSpans = int (length (traces_spans td1));
          droppedInBatch = int totalSpans - remainingSpans;
          p2 = p1\<lparr>tbp_receivedSpans := tbp_receivedSpans p1 + int totalSpans,
                  tbp_droppedSpans := tbp_droppedSpans p1 + droppedInBatch\<rparr>
      in if length td1 = 0 then (p2, None, None) else (p2, Some td1, next_err td1))"

text \<open>The minute task.\<close>

definition runMinuteTask_tick :: "int \<Rightarrow> trace_block_processor \<Rightarrow> trace_block_processor \<times> (int \<times> int \<times> f64) option" where
  "runMinuteTask_tick now p = reportStats (cleanExpired now p)"

subsection \<open>Batches as sequences of decisions\<close>

text \<open>The decision for one span and for a list of them: \<open>True\<close> where the span is dropped.\<close>

definition drop_span ::
  "pdata_api \<Rightarrow> int \<Rightarrow> span \<Rightarrow> trace_block_processor \<Rightarrow> trace_block_processor \<times> bool" where
  "drop_span api now sp p =
     (if TraceID_IsEmpty api (sp_TraceID sp) then (p, False) else shouldDrop api now (sp_TraceID sp) p)"

fun decisions ::
  "pdata_api \<Rightarrow> (nat \<Rightarrow> int) \<Rightarrow> nat \<Rightarrow> span list \<Rightarrow> trace_block_processor \<Rightarrow> trace_block_processor \<times> (span \<times> bool) list" where
  "decisions api clock n [] p = (p, [])"
| "decisions api clock n (sp # sps) p =
     (case drop_span api (clock n) sp p of (p1, d) \<Rightarrow>
      case decisions api clock (Suc n) sps p1 of (p2, ds) \<Rightarrow> (p2, (sp, d) # ds))"

abbreviation kept_spans :: "(span \<times> bool) list \<Rightarrow> span list" where
  "kept_spans ds \<equiv> map fst (filter (\<lambda>(s, d). \<not> d) ds)"

lemma decisions_append:
  "decisions api clock n (xs @ ys) p =
     (let (p1, d1) = decisions api clock n xs p; (p2, d2) = decisions api clock (n + length xs) ys p1 in (p2, d1 @ d2))"
  by (induction xs arbitrary: n p) (auto simp: split_def Let_def)

lemma decisions_spans: "map fst (snd (decisions api clock n sps p)) = sps"
  by (induction sps arbitrary: n p) (auto simp: split_def)

lemma decisions_counts:
  "tbp_receivedSpans (fst (decisions api clock n sps p)) = tbp_receivedSpans p"
  "tbp_droppedSpans (fst (decisions api clock n sps p)) = tbp_droppedSpans p"
  by (induction sps arbitrary: n p) (simp_all add: split_def drop_span_def shouldDrop_def Let_def split: option.split)

lemma filter_spans_eq:
  "filter_spans api clock sps (n, p) =
     (let (p', ds) = decisions api clock n sps p in ((n + length sps, p'), kept_spans ds))"
  by (induction sps arbitrary: n p) (auto simp: split_def Let_def drop_span_def)

text \<open>The nested loops keep exactly the spans of the flat list that are not dropped.\<close>

lemma filter_scopes_eq:
  "fst (filter_scopes api clock sss (n, p)) =
     (n + length (concat (map ss_Spans sss)), fst (decisions api clock n (concat (map ss_Spans sss)) p)) \<and>
   concat (map ss_Spans (snd (filter_scopes api clock sss (n, p)))) =
     kept_spans (snd (decisions api clock n (concat (map ss_Spans sss)) p)) \<and>
   (\<forall>ss \<in> set (snd (filter_scopes api clock sss (n, p))). ss_Spans ss \<noteq> [])"
proof (induction sss arbitrary: n p)
  case Nil
  then show ?case by simp
next
  case (Cons ss sss)
  show ?case
    using Cons.IH [of "n + length (ss_Spans ss)" "fst (decisions api clock n (ss_Spans ss) p)"]
    by (auto simp: filter_spans_eq decisions_append split_def Let_def)
qed

lemma filter_resources_eq:
  "fst (filter_resources api clock td (n, p)) =
     (n + length (traces_spans td), fst (decisions api clock n (traces_spans td) p)) \<and>
   traces_spans (snd (filter_resources api clock td (n, p))) =
     kept_spans (snd (decisions api clock n (traces_spans td) p)) \<and>
   (\<forall>r \<in> set (snd (filter_resources api clock td (n, p))). rs_ScopeSpans r \<noteq> [] \<and>
      (\<forall>ss \<in> set (rs_ScopeSpans r). ss_Spans ss \<noteq> []))"
proof (induction td arbitrary: n p)
  case Nil
  then show ?case by (simp add: traces_spans_def)
next
  case (Cons r td)
  let ?s = "filter_scopes api clock (rs_ScopeSpans r) (n, p)"
  have s: "?s = ((n + length (rs_spans r), fst (decisions api clock n (rs_spans r) p)), snd ?s)"
    "concat (map ss_Spans (snd ?s)) = kept_spans (snd (decisions api clock n (rs_spans r) p))"
    "\<forall>ss \<in> set (snd ?s). ss_Spans ss \<noteq> []"
    using filter_scopes_eq [of api clock "rs_ScopeSpans r" n p]
    by (auto simp: rs_spans_def prod_eq_iff)
  let ?r = "filter_resources api clock td (n + length (rs_spans r), fst (decisions api clock n (rs_spans r) p))"
  have f: "filter_resources api clock (r # td) (n, p) =
      (fst ?r, if snd ?s = [] then snd ?r else r\<lparr>rs_ScopeSpans := snd ?s\<rparr> # snd ?r)"
    by (subst filter_resources.simps, subst s(1)) (simp add: split_def Let_def)
  show ?case
    using Cons.IH [of "n + length (rs_spans r)" "fst (decisions api clock n (rs_spans r) p)"] s(2,3)
    unfolding f by (auto simp: traces_spans_def rs_spans_def [of "r\<lparr>rs_ScopeSpans := x\<rparr>" for x] decisions_append
        split_def Let_def)
qed

subsection \<open>Spans and minute ticks over time\<close>

datatype tb_event = TbSpan int span | TbClean int

fun tb_run ::
  "pdata_api \<Rightarrow> tb_event list \<Rightarrow> trace_block_processor \<Rightarrow> trace_block_processor \<times> (int \<times> span \<times> bool) list" where
  "tb_run api [] p = (p, [])"
| "tb_run api (TbSpan t sp # es) p =
     (case drop_span api t sp p of (p1, d) \<Rightarrow> case tb_run api es p1 of (p2, ds) \<Rightarrow> (p2, (t, sp, d) # ds))"
| "tb_run api (TbClean t # es) p = tb_run api es (cleanExpired t p)"

definition tb_key :: "pdata_api \<Rightarrow> span \<Rightarrow> string" where
  "tb_key api sp = TraceID_String api (sp_TraceID sp)"

text \<open>
  What the table says about a trace is backed by its spans: \<open>H\<close> holds the times and keys of the spans
  seen so far.
\<close>

definition tb_backed :: "(int \<times> string) set \<Rightarrow> trace_block_processor \<Rightarrow> bool" where
  "tb_backed H p \<longleftrightarrow> gomap_wf (tbp_traces p) \<and>
     (\<forall>k st. map_load (tbp_traces p) k = Some st \<longrightarrow>
        (ts_firstSeen st, k) \<in> H \<and>
        (ts_isBlocked st \<longrightarrow> (\<exists>t. (t, k) \<in> H \<and> t - ts_firstSeen st \<ge> tbp_blockThreshold p)))"

definition lived :: "(int \<times> string) set \<Rightarrow> string \<Rightarrow> int \<Rightarrow> bool" where
  "lived H k d \<longleftrightarrow> (\<exists>t0 t1. (t0, k) \<in> H \<and> (t1, k) \<in> H \<and> t1 - t0 \<ge> d)"

lemma lived_mono: "lived H k d \<Longrightarrow> H \<subseteq> H' \<Longrightarrow> lived H' k d"
  unfolding lived_def by blast

lemma drop_span_config: "tbp_blockThreshold (fst (drop_span api t sp p)) = tbp_blockThreshold p"
  "tbp_blockedIdleTTL (fst (drop_span api t sp p)) = tbp_blockedIdleTTL p"
  by (simp_all add: drop_span_def shouldDrop_def Let_def split: option.split)

lemma drop_span_backed:
  assumes "tb_backed H p"
  shows "tb_backed (insert (t, tb_key api sp) H) (fst (drop_span api t sp p))"
    and "snd (drop_span api t sp p) \<Longrightarrow> lived (insert (t, tb_key api sp) H) (tb_key api sp) (tbp_blockThreshold p)"
proof -
  let ?k = "tb_key api sp"
  show "tb_backed (insert (t, ?k) H) (fst (drop_span api t sp p))"
    using assms
    by (fastforce simp: tb_backed_def drop_span_def shouldDrop_def Let_def tb_key_def intro: wf_store
        split: option.splits if_splits)
  assume "snd (drop_span api t sp p)"
  then obtain st where "map_load (tbp_traces p) ?k = Some st"
      "ts_isBlocked st \<or> t - ts_firstSeen st \<ge> tbp_blockThreshold p"
    by (auto simp: drop_span_def shouldDrop_def Let_def tb_key_def split: option.splits if_splits)
  with assms show "lived (insert (t, ?k) H) ?k (tbp_blockThreshold p)"
    unfolding tb_backed_def lived_def by blast
qed

lemma cleanExpired_backed: "tb_backed H p \<Longrightarrow> tb_backed H (cleanExpired t p)"
  by (auto simp: tb_backed_def cleanExpired_def load_keep wf_keep split: option.splits if_splits)

fun span_times :: "pdata_api \<Rightarrow> tb_event list \<Rightarrow> (int \<times> string) set" where
  "span_times api [] = {}"
| "span_times api (TbSpan t sp # es) = insert (t, tb_key api sp) (span_times api es)"
| "span_times api (TbClean t # es) = span_times api es"

lemma tb_run_backed:
  "tb_backed H p \<Longrightarrow> (t, sp, True) \<in> set (snd (tb_run api es p)) \<Longrightarrow>
   lived (H \<union> span_times api es) (tb_key api sp) (tbp_blockThreshold p)"
proof (induction es arbitrary: H p)
  case Nil
  then show ?case by simp
next
  case (Cons e es)
  show ?case
  proof (cases e)
    case (TbSpan t' sp')
    let ?H = "insert (t', tb_key api sp') H"
    note b = drop_span_backed [OF Cons.prems(1), where t = t' and api = api and sp = sp']
    from Cons.prems(2) TbSpan consider "snd (drop_span api t' sp' p)" "sp' = sp"
      | "(t, sp, True) \<in> set (snd (tb_run api es (fst (drop_span api t' sp' p))))"
      by (auto simp: split_def)
    then show ?thesis
    proof cases
      case 1
      with b(2) TbSpan show ?thesis by (auto elim: lived_mono)
    next
      case 2
      from Cons.IH [OF b(1) this] TbSpan show ?thesis by (simp add: drop_span_config)
    qed
  next
    case (TbClean t')
    with Cons.IH [OF cleanExpired_backed [OF Cons.prems(1), of t']] Cons.prems(2) show ?thesis
      by (simp add: cleanExpired_def)
  qed
qed

text \<open>No clean-up finds the trace idle for as long as the blocked time to live.\<close>

fun never_idle :: "pdata_api \<Rightarrow> string \<Rightarrow> int \<Rightarrow> int \<Rightarrow> tb_event list \<Rightarrow> bool" where
  "never_idle api k ttl seen [] = True"
| "never_idle api k ttl seen (TbSpan t sp # es) = never_idle api k ttl (if tb_key api sp = k then t else seen) es"
| "never_idle api k ttl seen (TbClean t # es) = (t - seen < ttl \<and> never_idle api k ttl seen es)"

definition blocked_since :: "string \<Rightarrow> int \<Rightarrow> trace_block_processor \<Rightarrow> bool" where
  "blocked_since k seen p \<longleftrightarrow> gomap_wf (tbp_traces p) \<and>
     (\<exists>st. map_load (tbp_traces p) k = Some st \<and> ts_isBlocked st \<and> ts_lastSeen st = seen)"

lemma blocked_drop_span:
  assumes "blocked_since k seen p" "\<not> TraceID_IsEmpty api (sp_TraceID sp)" "tb_key api sp \<noteq> []"
  shows "blocked_since k (if tb_key api sp = k then t else seen) (fst (drop_span api t sp p))"
    and "tb_key api sp = k \<Longrightarrow> snd (drop_span api t sp p)"
  using assms
  by (auto simp: blocked_since_def drop_span_def shouldDrop_def tb_key_def Let_def wf_store split: option.splits if_splits)

lemma blocked_run:
  "blocked_since k seen p \<Longrightarrow> never_idle api k (tbp_blockedIdleTTL p) seen es \<Longrightarrow>
   (\<And>t sp. TbSpan t sp \<in> set es \<Longrightarrow> \<not> TraceID_IsEmpty api (sp_TraceID sp) \<and> tb_key api sp \<noteq> []) \<Longrightarrow>
   (t, sp, d) \<in> set (snd (tb_run api es p)) \<Longrightarrow> tb_key api sp = k \<Longrightarrow> d"
proof (induction es arbitrary: seen p)
  case Nil
  then show ?case by simp
next
  case (Cons e es)
  show ?case
  proof (cases e)
    case (TbSpan t' sp')
    with Cons.prems have ne: "\<not> TraceID_IsEmpty api (sp_TraceID sp')" "tb_key api sp' \<noteq> []" by auto
    note b = blocked_drop_span [OF Cons.prems(1) ne, of t']
    have "d" if "(t, sp, d) \<in> set (snd (tb_run api es (fst (drop_span api t' sp' p))))"
      by (rule Cons.IH [OF b(1) _ _ that Cons.prems(5)]) (use Cons.prems TbSpan in \<open>auto simp: drop_span_config\<close>)
    with b(2) Cons.prems(4,5) TbSpan show ?thesis by (auto simp: split_def)
  next
    case (TbClean t')
    have "blocked_since k seen (cleanExpired t' p)"
      using Cons.prems(1,2) TbClean by (auto simp: blocked_since_def cleanExpired_def load_keep wf_keep)
    with Cons.IH [of seen "cleanExpired t' p"] Cons.prems TbClean show ?thesis
      by (auto simp: cleanExpired_def)
  qed
qed

subsection \<open>Properties\<close>

text \<open>C21: A batch is filtered exactly. The three nested in-place \<open>RemoveIf\<close> loops keep, in order, precisely the
  spans of the flat sequence that are not dropped; the batch is forwarded if and only if a span is left,
  the error returned is that of the next consumer, and the statistics grow by the spans received and by
  the spans removed.\<close>

theorem batch_filtered_exactly:
  "case tbp_ConsumeTraces api next_err clock td p of (p', out, err) \<Rightarrow>
     (let spans = traces_spans td; kept = kept_spans (snd (decisions api clock 0 spans p)) in
      (case out of None \<Rightarrow> [] | Some td' \<Rightarrow> traces_spans td') = kept \<and>
      (out = None \<longleftrightarrow> kept = []) \<and>
      err = (case out of None \<Rightarrow> None | Some td' \<Rightarrow> next_err td') \<and>
      tbp_traces p' = tbp_traces (fst (decisions api clock 0 spans p)) \<and>
      tbp_receivedSpans p' = tbp_receivedSpans p + int (length spans) \<and>
      tbp_droppedSpans p' = tbp_droppedSpans p + (int (length spans) - int (length kept)))"
proof -
  let ?r = "filter_resources api clock td (0, p)"
  have r: "?r = ((length (traces_spans td), fst (decisions api clock 0 (traces_spans td) p)), snd ?r)"
    and kept: "traces_spans (snd ?r) = kept_spans (snd (decisions api clock 0 (traces_spans td) p))"
    and ne: "\<forall>r \<in> set (snd ?r). rs_ScopeSpans r \<noteq> [] \<and> (\<forall>ss \<in> set (rs_ScopeSpans r). ss_Spans ss \<noteq> [])"
    using filter_resources_eq [of api clock td 0 p] by (auto simp: prod_eq_iff)
  have "snd ?r = [] \<longleftrightarrow> traces_spans (snd ?r) = []"
    using ne by (cases "snd ?r") (auto simp: traces_spans_def rs_spans_def)
  with kept show ?thesis
    unfolding tbp_ConsumeTraces_def by (subst r) (auto simp: Let_def split_def decisions_counts)
qed

text \<open>C22: Only long-lived traces are blocked. In any sequence of spans and minute ticks from a new processor,
  a span is dropped only if two spans of its trace lie at least the block threshold apart.\<close>

theorem only_long_traces_dropped:
  assumes "newTraceBlockProcessor cfg = Inr p" "(t, sp, True) \<in> set (snd (tb_run api es p))"
  shows "lived (span_times api es) (tb_key api sp) (tbc_BlockThreshold cfg)"
proof -
  have "tb_backed {} p" "tbp_blockThreshold p = tbc_BlockThreshold cfg"
    using assms(1) by (auto simp: newTraceBlockProcessor_def tb_backed_def split: option.splits)
  with tb_run_backed [OF _ assms(2), of "{}"] show ?thesis by simp
qed

definition tb_demo_api :: pdata_api where
  "tb_demo_api = \<lparr>TraceID_IsEmpty = (\<lambda>t. t = replicate 16 0), TraceID_String = (\<lambda>t. if t = replicate 16 0 then [] else ''k''),
     SpanID_IsEmpty = (\<lambda>t. t = replicate 8 0), SpanID_String = (\<lambda>t. []), Value_AsString = value_Str\<rparr>"

definition tb_demo_span :: span where
  "tb_demo_span = zero_span\<lparr>sp_TraceID := replicate 16 1\<rparr>"

definition tb_demo_proc :: trace_block_processor where
  "tb_demo_proc = \<lparr>tbp_traces = [], tbp_stopOnce = False, tbp_startOnce = False, tbp_stopCh = ChanNil,
     tbp_idleTTL = 5 * minute, tbp_blockedIdleTTL = 10 * minute, tbp_blockThreshold = 30 * minute,
     tbp_receivedSpans = 0, tbp_droppedSpans = 0\<rparr>"

lemma tb_demo_new: "newTraceBlockProcessor createDefaultConfig = Inr tb_demo_proc"
  by (simp add: newTraceBlockProcessor_def createDefaultConfig_def Validate_def tb_demo_proc_def)

lemma tb_demo_key: "TraceID_String tb_demo_api (sp_TraceID tb_demo_span) = ''k''"
  "\<not> TraceID_IsEmpty tb_demo_api (sp_TraceID tb_demo_span)"
  by (simp_all add: tb_demo_api_def tb_demo_span_def replicate_eq_replicate)

theorem only_long_traces_dropped_witness:
  "(31 * minute, tb_demo_span, True) \<in>
     set (snd (tb_run tb_demo_api [TbSpan 0 tb_demo_span, TbSpan (31 * minute) tb_demo_span] tb_demo_proc)) \<and>
   lived (span_times tb_demo_api [TbSpan 0 tb_demo_span, TbSpan (31 * minute) tb_demo_span]) ''k'' (30 * minute)"
proof -
  have d: "(31 * minute, tb_demo_span, True) \<in>
     set (snd (tb_run tb_demo_api [TbSpan 0 tb_demo_span, TbSpan (31 * minute) tb_demo_span] tb_demo_proc))"
    by (simp add: drop_span_def shouldDrop_def tb_demo_key tb_demo_proc_def Let_def)
  from only_long_traces_dropped [OF tb_demo_new this] d show ?thesis
    by (simp add: tb_key_def tb_demo_key createDefaultConfig_def)
qed

text \<open>A blocked trace stays blocked. From a state in which a trace is blocked, every later span of it is
  dropped, as long as no minute tick finds it idle for the blocked time to live.\<close>

theorem blocked_trace_stays_blocked:
  assumes "blocked_since k seen p" "never_idle api k (tbp_blockedIdleTTL p) seen es"
    and "\<forall>t sp. TbSpan t sp \<in> set es \<longrightarrow> \<not> TraceID_IsEmpty api (sp_TraceID sp) \<and> tb_key api sp \<noteq> []"
    and "(t, sp, d) \<in> set (snd (tb_run api es p))" "tb_key api sp = k"
  shows "d"
  using blocked_run [OF assms(1,2) _ assms(4,5)] assms(3) by blast

theorem blocked_trace_stays_blocked_witness:
  "\<exists>d. (39 * minute, tb_demo_span, d) \<in> set (snd (tb_run tb_demo_api [TbClean (32 * minute), TbSpan (39 * minute) tb_demo_span]
     (tb_demo_proc\<lparr>tbp_traces := [(''k'', \<lparr>ts_firstSeen = 0, ts_lastSeen = 31 * minute, ts_isBlocked = True\<rparr>)]\<rparr>))) \<and> d"
proof -
  let ?p = "tb_demo_proc\<lparr>tbp_traces := [(''k'', \<lparr>ts_firstSeen = 0, ts_lastSeen = 31 * minute, ts_isBlocked = True\<rparr>)]\<rparr>"
  let ?es = "[TbClean (32 * minute), TbSpan (39 * minute) tb_demo_span]"
  have b: "blocked_since ''k'' (31 * minute) ?p" by (simp add: blocked_since_def gomap_wf_def)
  have n: "never_idle tb_demo_api ''k'' (tbp_blockedIdleTTL ?p) (31 * minute) ?es"
    by (simp add: tb_demo_proc_def)
  have e: "\<forall>t sp. TbSpan t sp \<in> set ?es \<longrightarrow>
      \<not> TraceID_IsEmpty tb_demo_api (sp_TraceID sp) \<and> tb_key tb_demo_api sp \<noteq> []"
    by (simp add: tb_key_def tb_demo_key)
  obtain d where d: "(39 * minute, tb_demo_span, d) \<in> set (snd (tb_run tb_demo_api ?es ?p))"
    by (auto simp: split_def)
  have k: "tb_key tb_demo_api tb_demo_span = ''k''" by (simp add: tb_key_def tb_demo_key)
  from blocked_trace_stays_blocked [OF b n e d k] d show ?thesis by blast
qed

text \<open>A processor is built exactly for configurations in which the idle time is positive and shorter than
  both the block threshold and the blocked idle time; the defaults are such a configuration.\<close>

theorem tb_config_accepted:
  "((\<exists>p. newTraceBlockProcessor cfg = Inr p) \<longleftrightarrow>
      0 < tbc_IdleTTL cfg \<and> tbc_IdleTTL cfg < tbc_BlockThreshold cfg \<and> tbc_IdleTTL cfg < tbc_BlockedIdleTTL cfg) \<and>
   (\<exists>p. newTraceBlockProcessor createDefaultConfig = Inr p)"
  using tb_demo_new by (auto simp: newTraceBlockProcessor_def Validate_def)

end
