(* ===== verification/PromWrite.thy ===== *)
theory PromWrite
  imports Pmetric
begin

section \<open>Prometheus remote write: translation\<close>

text \<open>
  \<open>receiver/prometheusremotewritereceiver/prometheus_to_otel.go\<close> and \<open>internal/prometheus_spec_utils.go\<close>: a write request becomes OTLP metrics.

  The message types of \<open>prompb\<close> are plain data; exemplars and native histograms, which are copied but never read, are left out. The order in which
  the partitions are visited is that of a Go map: \<open>range_order\<close> is any rearrangement of its entries. The conversion of a \<open>float64\<close> that does not fit
  into an \<open>int64\<close> is left open by Go: \<open>conv\<close> is what the hardware gives.
\<close>

type_synonym prom_label = "string \<times> string"

record prom_sample =
  sa_Value :: float_value
  sa_Timestamp :: int

record time_series =
  ts_Labels :: "prom_label list"
  ts_Samples :: "prom_sample list"

record write_request =
  wr_Timeseries :: "time_series list"
  wr_Metadata :: nat

datatype prom_type = MT_UNKNOWN | MT_COUNTER | MT_GAUGE | MT_HISTOGRAM | MT_GAUGEHISTOGRAM | MT_SUMMARY | MT_INFO | MT_STATESET

datatype prw_error = MissingNameLabel | NoSamplesFor string

record prom_metric_data =
  md_MetricName :: string
  md_Labels :: "prom_label list"
  md_Samples :: "prom_sample list"

record prw_parser =
  totalNans :: int
  totalInvalidRequests :: int
  totalBadMetrics :: int

subsection \<open>Names and types\<close>

fun getLabelValue :: "prom_label list \<Rightarrow> string \<Rightarrow> string option" where
  "getLabelValue [] name = None"
| "getLabelValue (label # labels) name = (if fst label = name then Some (snd label) else getLabelValue labels name)"

definition ExtractMetricNameLabel :: "prom_label list \<Rightarrow> string \<times> prw_error option" where
  "ExtractMetricNameLabel labels =
     (case getLabelValue labels ''__name__'' of
        None \<Rightarrow> ([], Some MissingNameLabel)
      | Some metricName \<Rightarrow> (metricName, None))"

definition DetermineMetricTypeByConvention :: "string \<Rightarrow> prom_label list \<Rightarrow> prom_type" where
  "DetermineMetricTypeByConvention metricName labels =
     (let hasLe = getLabelValue labels ''le'' \<noteq> None; hasQuantile = getLabelValue labels ''quantile'' \<noteq> None;
          hasMetricName = getLabelValue labels metricName \<noteq> None
      in if hasLe \<and> (has_suffix metricName ''_gsum'' \<or> has_suffix metricName ''_gcount'') then MT_GAUGEHISTOGRAM
         else if hasLe then MT_HISTOGRAM
         else if hasQuantile then MT_SUMMARY
         else if hasMetricName then MT_STATESET
         else if has_suffix metricName ''_total'' \<or> has_suffix metricName ''_count'' \<or> has_suffix metricName ''_counter'' \<or>
                 has_suffix metricName ''_created'' then MT_COUNTER
         else if has_suffix metricName ''_bucket'' then MT_HISTOGRAM
         else if has_suffix metricName ''_info'' then MT_INFO
         else MT_GAUGE)"

subsection \<open>Partitions\<close>

definition newPrometheusRemoteOtelParser :: prw_parser where
  "newPrometheusRemoteOtelParser = \<lparr>totalNans = 0, totalInvalidRequests = 0, totalBadMetrics = 0\<rparr>"

type_synonym partitions = "(prom_type, prom_metric_data list) gomap"

definition partition_series :: "partitions \<times> prw_error list \<times> prw_parser \<Rightarrow> time_series \<Rightarrow> partitions \<times> prw_error list \<times> prw_parser" where
  "partition_series st ts =
     (case st of (partitions, translationErrors, prwParser) \<Rightarrow>
      let (metricName, err) = ExtractMetricNameLabel (ts_Labels ts);
          errs1 = translationErrors @ (case err of Some e \<Rightarrow> [e] | None \<Rightarrow> []);
          metricType = DetermineMetricTypeByConvention metricName (ts_Labels ts);
          md = \<lparr>md_MetricName = metricName, md_Labels = ts_Labels ts, md_Samples = ts_Samples ts\<rparr>;
          (errs2, parser1) =
            (if length (md_Samples md) < 1
             then (errs1 @ [NoSamplesFor metricName], prwParser\<lparr>totalInvalidRequests := i64 (totalInvalidRequests prwParser + 1)\<rparr>)
             else (errs1, prwParser));
          old = (case map_load partitions metricType of Some mds \<Rightarrow> mds | None \<Rightarrow> [])
      in (map_store metricType (old @ [md]) partitions, errs2, parser1))"

definition partitionWriteRequest :: "prw_parser \<Rightarrow> write_request \<Rightarrow> partitions \<times> prw_error list \<times> prw_parser" where
  "partitionWriteRequest prwParser writeReq = foldl partition_series ([], [], prwParser) (wr_Timeseries writeReq)"

subsection \<open>Values, times and attributes\<close>

definition int64_of :: "(float_value \<Rightarrow> int) \<Rightarrow> float_value \<Rightarrow> int" where
  "int64_of conv v =
     (case v of
        Fin r \<Rightarrow>
          (let t = (if r < 0 then \<lceil>r\<rceil> else \<lfloor>r\<rfloor>) in if - (2 ^ 63) \<le> t \<and> t < 2 ^ 63 then t else conv v)
      | _ \<Rightarrow> conv v)"

definition float64_of :: "int \<Rightarrow> float_value" where
  "float64_of i = Fin (of_int (sgn i * int (round53 (nat \<bar>i\<bar>))))"

definition setFloatOrInt :: "(float_value \<Rightarrow> int) \<Rightarrow> float_value \<Rightarrow> number_point \<Rightarrow> number_point" where
  "setFloatOrInt conv v dp =
     (if v = NaN then dp
      else if float64_of (int64_of conv v) = v then dp\<lparr>np_Value := IntValue (int64_of conv v)\<rparr>
      else dp\<lparr>np_Value := DoubleValue v\<rparr>)"

definition prometheusToOtelTimestamp :: "int \<Rightarrow> u64" where
  "prometheusToOtelTimestamp ts = word_of_int (ts * 1000000)"

definition setAttributes :: "prom_label list \<Rightarrow> number_point \<Rightarrow> number_point" where
  "setAttributes labels dp =
     dp\<lparr>np_Attributes := foldl (\<lambda>a l. if fst l \<noteq> ''__name__'' then map_store (fst l) (ValueStr (snd l)) a else a) (np_Attributes dp) labels\<rparr>"

definition sample_point :: "(float_value \<Rightarrow> int) \<Rightarrow> prom_label list \<Rightarrow> prom_sample \<Rightarrow> number_point" where
  "sample_point conv labels sample =
     setAttributes labels (setFloatOrInt conv (sa_Value sample)
       (empty_point\<lparr>np_Timestamp := prometheusToOtelTimestamp (sa_Timestamp sample), np_StartTimestamp := prometheusToOtelTimestamp (sa_Timestamp sample)\<rparr>))"

fun add_samples :: "(float_value \<Rightarrow> int) \<Rightarrow> prom_label list \<Rightarrow> prom_sample list \<Rightarrow> prw_parser \<Rightarrow> number_point list \<times> prw_parser" where
  "add_samples conv labels [] p = ([], p)"
| "add_samples conv labels (sample # samples) p =
     (if sa_Value sample = NaN then add_samples conv labels samples (p\<lparr>totalNans := i64 (totalNans p + 1)\<rparr>)
      else let (dps, p1) = add_samples conv labels samples p in (sample_point conv labels sample # dps, p1))"

subsection \<open>Metrics\<close>

definition scaffoldNewMetric :: "string \<Rightarrow> 'h metric_data \<Rightarrow> 'h pmetric" where
  "scaffoldNewMetric name d = \<lparr>pm_Name = name, pm_Unit = [], pm_Data = d\<rparr>"

fun addGaugeMetrics :: "(float_value \<Rightarrow> int) \<Rightarrow> prom_metric_data list \<Rightarrow> 'h pmetric list \<times> prw_parser \<Rightarrow> 'h pmetric list \<times> prw_parser" where
  "addGaugeMetrics conv [] st = st"
| "addGaugeMetrics conv (m # ms) st =
     (let (ilm, p) = st in
      if md_MetricName m = [] then addGaugeMetrics conv ms (ilm, p\<lparr>totalBadMetrics := i64 (totalBadMetrics p + 1)\<rparr>)
      else let (dps, p1) = add_samples conv (md_Labels m) (md_Samples m) p
           in addGaugeMetrics conv ms (ilm @ [scaffoldNewMetric (md_MetricName m) (MetricGauge dps)], p1))"

fun addCounterMetrics :: "(float_value \<Rightarrow> int) \<Rightarrow> prom_metric_data list \<Rightarrow> 'h pmetric list \<times> prw_parser \<Rightarrow> 'h pmetric list \<times> prw_parser" where
  "addCounterMetrics conv [] st = st"
| "addCounterMetrics conv (m # ms) st =
     (let (ilm, p) = st in
      if md_MetricName m = [] then addCounterMetrics conv ms (ilm, p\<lparr>totalBadMetrics := i64 (totalBadMetrics p + 1)\<rparr>)
      else let (dps, p1) = add_samples conv (md_Labels m) (md_Samples m) p
           in addCounterMetrics conv ms (ilm @ [scaffoldNewMetric (md_MetricName m) (MetricSum True True dps)], p1))"

definition addMetrics :: "(float_value \<Rightarrow> int) \<Rightarrow> prom_type \<times> prom_metric_data list \<Rightarrow> 'h pmetric list \<times> prw_parser \<Rightarrow> 'h pmetric list \<times> prw_parser" where
  "addMetrics conv part st =
     (case part of (metricType, ms) \<Rightarrow>
        if metricType \<in> {MT_COUNTER, MT_HISTOGRAM, MT_GAUGEHISTOGRAM} then addCounterMetrics conv ms st else addGaugeMetrics conv ms st)"

definition transformPrometheusRemoteWriteToOtel ::
  "(float_value \<Rightarrow> int) \<Rightarrow> (partitions \<Rightarrow> partitions) \<Rightarrow> partitions \<Rightarrow> prw_parser \<Rightarrow> 'h pmetric list \<times> prw_parser" where
  "transformPrometheusRemoteWriteToOtel conv range_order parsed prwParser =
     foldl (\<lambda>st part. addMetrics conv part st) ([], prwParser) (range_order parsed)"

definition getSampleTimestampBounds :: "prom_sample list \<Rightarrow> int \<times> int" where
  "getSampleTimestampBounds samples =
     (if length samples < 1 then (- 1, - 1)
      else foldl (\<lambda>(mn, mx) sample. (if mn > sa_Timestamp sample then sa_Timestamp sample else mn,
                                     if mx < sa_Timestamp sample then sa_Timestamp sample else mx))
             (2 ^ 63 - 1, - (2 ^ 63)) samples)"

definition getWriteRequestTimestampBounds :: "write_request \<Rightarrow> int \<times> int" where
  "getWriteRequestTimestampBounds request =
     foldl (\<lambda>(mn, mx) ts. let (sampleMin, sampleMax) = getSampleTimestampBounds (ts_Samples ts) in
              (if sampleMin < mn then sampleMin else mn, if sampleMax > mx then sampleMax else mx))
       (2 ^ 63 - 1, - (2 ^ 63)) (wr_Timeseries request)"

definition total_metric :: "string \<Rightarrow> int \<Rightarrow> int \<Rightarrow> int \<Rightarrow> 'h pmetric" where
  "total_metric name v start_ms end_ms =
     \<lparr>pm_Name = name, pm_Unit = [],
      pm_Data = MetricSum True True
        [empty_point\<lparr>np_Value := IntValue v, np_StartTimestamp := millis_timestamp start_ms, np_Timestamp := millis_timestamp end_ms\<rparr>]\<rparr>"

definition addBadRequests where
  "addBadRequests prwParser start_ms end_ms ilm = ilm @ [total_metric ''prometheus.invalid_requests'' (totalInvalidRequests prwParser) start_ms end_ms]"

definition addNanDataPoints where
  "addNanDataPoints prwParser start_ms end_ms ilm = ilm @ [total_metric ''prometheus.total_NAN_samples'' (totalNans prwParser) start_ms end_ms]"

definition addMetricsWithMissingName where
  "addMetricsWithMissingName prwParser start_ms end_ms ilm = ilm @ [total_metric ''prometheus.total_bad_datapoints'' (totalBadMetrics prwParser) start_ms end_ms]"

definition fromPrometheusWriteRequestMetrics ::
  "(float_value \<Rightarrow> int) \<Rightarrow> (partitions \<Rightarrow> partitions) \<Rightarrow> write_request \<Rightarrow> prw_parser \<Rightarrow> 'h metrics \<times> prw_error list \<times> prw_parser" where
  "fromPrometheusWriteRequestMetrics conv range_order request prwParser =
     (let (parts, errs, p1) = partitionWriteRequest prwParser request;
          (ms, p2) = transformPrometheusRemoteWriteToOtel conv range_order parts p1;
          (startTime, endTime) = getWriteRequestTimestampBounds request;
          ms1 = addMetricsWithMissingName p2 startTime endTime (addNanDataPoints p2 startTime endTime (addBadRequests p2 startTime endTime ms))
      in ([\<lparr>rm_Resource = [], rm_ScopeMetrics = [\<lparr>sm_ScopeName = ''otelcol/signalfxgatewayprometheusremotewrite'', sm_ScopeVersion = ''0.1'', sm_Metrics = ms1\<rparr>]\<rparr>],
          errs, p2))"

subsection \<open>Families\<close>

text \<open>Gauges and counters differ only in the kind of metric they build.\<close>

fun add_family :: "(number_point list \<Rightarrow> 'h metric_data) \<Rightarrow> (float_value \<Rightarrow> int) \<Rightarrow> prom_metric_data list \<Rightarrow> 'h pmetric list \<times> prw_parser \<Rightarrow> 'h pmetric list \<times> prw_parser" where
  "add_family mk conv [] st = st"
| "add_family mk conv (m # ms) st =
     (let (ilm, p) = st in
      if md_MetricName m = [] then add_family mk conv ms (ilm, p\<lparr>totalBadMetrics := i64 (totalBadMetrics p + 1)\<rparr>)
      else let (dps, p1) = add_samples conv (md_Labels m) (md_Samples m) p
           in add_family mk conv ms (ilm @ [scaffoldNewMetric (md_MetricName m) (mk dps)], p1))"

lemma addGauge_family: "addGaugeMetrics conv ms st = add_family MetricGauge conv ms st"
  by (induction conv ms st rule: addGaugeMetrics.induct) (auto split: prod.splits)

lemma addCounter_family: "addCounterMetrics conv ms st = add_family (MetricSum True True) conv ms st"
  by (induction conv ms st rule: addCounterMetrics.induct) (auto split: prod.splits)

definition family_kind :: "prom_type \<Rightarrow> number_point list \<Rightarrow> 'h metric_data" where
  "family_kind t = (if t \<in> {MT_COUNTER, MT_HISTOGRAM, MT_GAUGEHISTOGRAM} then MetricSum True True else MetricGauge)"

lemma addMetrics_family: "addMetrics conv (t, ms) st = add_family (family_kind t) conv ms st"
  by (simp add: addMetrics_def family_kind_def addGauge_family addCounter_family)

definition nan_count :: "prom_metric_data \<Rightarrow> nat" where
  "nan_count m = (if md_MetricName m = [] then 0 else length (filter (\<lambda>s. sa_Value s = NaN) (md_Samples m)))"

definition md_points :: "(float_value \<Rightarrow> int) \<Rightarrow> prom_metric_data \<Rightarrow> number_point list" where
  "md_points conv m = map (sample_point conv (md_Labels m)) (filter (\<lambda>s. sa_Value s \<noteq> NaN) (md_Samples m))"

text \<open>Counters of a parser are 64-bit; counting \<open>n\<close> events adds \<open>n\<close>, with wrap-around.\<close>

definition counted :: "nat \<Rightarrow> nat \<Rightarrow> nat \<Rightarrow> prw_parser \<Rightarrow> prw_parser" where
  "counted nans invalid bad p =
     p\<lparr>totalNans := i64 (totalNans p + int nans), totalInvalidRequests := i64 (totalInvalidRequests p + int invalid),
       totalBadMetrics := i64 (totalBadMetrics p + int bad)\<rparr>"

definition parser_ok :: "prw_parser \<Rightarrow> bool" where
  "parser_ok p \<longleftrightarrow> i64 (totalNans p) = totalNans p \<and> i64 (totalInvalidRequests p) = totalInvalidRequests p \<and> i64 (totalBadMetrics p) = totalBadMetrics p"

lemma i64_add: "i64 (i64 x + y) = i64 (x + y)"
  by (metis i64_def signed_take_bit_add signed_take_bit_signed_take_bit min.idem)

lemma i64_i64: "i64 (i64 x) = i64 x"
  using i64_add [of x 0] by simp

lemma counted_ok [simp]: "parser_ok (counted a b c p)"
  by (simp add: parser_ok_def counted_def i64_i64)

lemma counted_0 [simp]: "parser_ok p \<Longrightarrow> counted 0 0 0 p = p"
  by (simp add: parser_ok_def counted_def)

lemma counted_add: "counted a b c (counted x y z p) = counted (x + a) (y + b) (z + c) p"
  by (simp add: counted_def i64_add add.assoc)

lemma counted_nan: "parser_ok p \<Longrightarrow> p\<lparr>totalNans := i64 (totalNans p + 1)\<rparr> = counted 1 0 0 p"
  and counted_invalid: "parser_ok p \<Longrightarrow> p\<lparr>totalInvalidRequests := i64 (totalInvalidRequests p + 1)\<rparr> = counted 0 1 0 p"
  and counted_bad: "parser_ok p \<Longrightarrow> p\<lparr>totalBadMetrics := i64 (totalBadMetrics p + 1)\<rparr> = counted 0 0 1 p"
  by (simp_all add: parser_ok_def counted_def)

lemma add_samples_eq:
  "parser_ok p \<Longrightarrow> add_samples conv labels samples p =
     (map (sample_point conv labels) (filter (\<lambda>s. sa_Value s \<noteq> NaN) samples), counted (length (filter (\<lambda>s. sa_Value s = NaN) samples)) 0 0 p)"
  by (induction samples arbitrary: p) (simp_all add: counted_nan counted_add Let_def)

lemma add_family_eq:
  "parser_ok p \<Longrightarrow> add_family mk conv ms (ilm, p) =
     (ilm @ map (\<lambda>m. scaffoldNewMetric (md_MetricName m) (mk (md_points conv m))) (filter (\<lambda>m. md_MetricName m \<noteq> []) ms),
      counted (sum_list (map nan_count ms)) 0 (length (filter (\<lambda>m. md_MetricName m = []) ms)) p)"
  by (induction ms arbitrary: ilm p) (simp_all add: add_samples_eq counted_bad counted_add nan_count_def md_points_def Let_def)

text \<open>The metrics of a list of partitions, in their order.\<close>

definition part_metrics :: "(float_value \<Rightarrow> int) \<Rightarrow> prom_type \<times> prom_metric_data list \<Rightarrow> 'h pmetric list" where
  "part_metrics conv part =
     map (\<lambda>m. scaffoldNewMetric (md_MetricName m) (family_kind (fst part) (md_points conv m))) (filter (\<lambda>m. md_MetricName m \<noteq> []) (snd part))"

lemma foldl_addMetrics:
  "parser_ok p \<Longrightarrow> foldl (\<lambda>st part. addMetrics conv part st) (ilm, p) parts =
     (ilm @ concat (map (part_metrics conv) parts),
      counted (sum_list (map nan_count (concat (map snd parts)))) 0 (length (filter (\<lambda>m. md_MetricName m = []) (concat (map snd parts)))) p)"
proof (induction parts arbitrary: ilm p)
  case (Cons part parts)
  then show ?case
    by (cases part) (simp add: addMetrics_family add_family_eq part_metrics_def counted_add)
qed simp

subsection \<open>Partitioning\<close>

definition series_data :: "time_series \<Rightarrow> prom_metric_data" where
  "series_data ts = \<lparr>md_MetricName = fst (ExtractMetricNameLabel (ts_Labels ts)), md_Labels = ts_Labels ts, md_Samples = ts_Samples ts\<rparr>"

definition series_errors :: "time_series \<Rightarrow> prw_error list" where
  "series_errors ts = (case snd (ExtractMetricNameLabel (ts_Labels ts)) of Some e \<Rightarrow> [e] | None \<Rightarrow> []) @
     (if ts_Samples ts = [] then [NoSamplesFor (fst (ExtractMetricNameLabel (ts_Labels ts)))] else [])"

definition series_type :: "time_series \<Rightarrow> prom_type" where
  "series_type ts = DetermineMetricTypeByConvention (fst (ExtractMetricNameLabel (ts_Labels ts))) (ts_Labels ts)"

lemma partition_series_eq:
  "parser_ok p \<Longrightarrow> partition_series (parts, errs, p) ts =
     (map_store (series_type ts) ((case map_load parts (series_type ts) of None \<Rightarrow> [] | Some mds \<Rightarrow> mds) @ [series_data ts]) parts,
      errs @ series_errors ts, counted 0 (if ts_Samples ts = [] then 1 else 0) 0 p)"
  by (auto simp: partition_series_def series_type_def series_data_def series_errors_def counted_invalid Let_def split: prod.splits option.splits)

text \<open>Every partition holds data of its own type.\<close>

definition md_type :: "prom_metric_data \<Rightarrow> prom_type" where
  "md_type m = DetermineMetricTypeByConvention (md_MetricName m) (md_Labels m)"

definition parts_typed :: "partitions \<Rightarrow> bool" where
  "parts_typed parts \<longleftrightarrow> (\<forall>(t, mds) \<in> set parts. \<forall>m \<in> set mds. md_type m = t)"

lemma md_type_series [simp]: "md_type (series_data ts) = series_type ts"
  by (simp add: md_type_def series_data_def series_type_def)

lemma parts_typed_store:
  assumes "parts_typed parts" "gomap_wf parts"
  shows "parts_typed (map_store (series_type ts) ((case map_load parts (series_type ts) of None \<Rightarrow> [] | Some mds \<Rightarrow> mds) @ [series_data ts]) parts)"
proof -
  have "md_type m = series_type ts"
    if "m \<in> set ((case map_load parts (series_type ts) of None \<Rightarrow> [] | Some mds \<Rightarrow> mds) @ [series_data ts])" for m
    using that assms(1) by (cases "map_load parts (series_type ts)") (auto simp: parts_typed_def dest!: map_of_SomeD)
  with assms(1) show ?thesis
    unfolding parts_typed_def using set_store_subset [of "series_type ts" _ parts] by blast
qed

lemma partition_fold:
  "gomap_wf parts \<Longrightarrow> parts_typed parts \<Longrightarrow> parser_ok p \<Longrightarrow>
   \<exists>parts'. foldl partition_series (parts, errs, p) tss =
       (parts', errs @ concat (map series_errors tss), counted 0 (length (filter (\<lambda>ts. ts_Samples ts = []) tss)) 0 p) \<and>
     parts_typed parts' \<and> mset (concat (map snd parts')) = mset (concat (map snd parts)) + mset (map series_data tss)"
proof (induction tss arbitrary: parts errs p)
  case (Cons ts tss)
  let ?parts = "map_store (series_type ts) ((case map_load parts (series_type ts) of None \<Rightarrow> [] | Some mds \<Rightarrow> mds) @ [series_data ts]) parts"
  from Cons.IH [of ?parts "counted 0 (if ts_Samples ts = [] then 1 else 0) 0 p" "errs @ series_errors ts"] Cons.prems
  show ?case
    using mset_concat_store [OF Cons.prems(1), of "series_type ts" "series_data ts"] parts_typed_store [OF Cons.prems(2, 1), of ts]
    by (auto simp: partition_series_eq counted_add wf_store)
qed simp

subsection \<open>The metrics of a request\<close>

definition md_metric :: "(float_value \<Rightarrow> int) \<Rightarrow> prom_metric_data \<Rightarrow> 'h pmetric" where
  "md_metric conv m = scaffoldNewMetric (md_MetricName m) (family_kind (md_type m) (md_points conv m))"

definition named :: "time_series \<Rightarrow> bool" where
  "named ts \<longleftrightarrow> (\<exists>name. getLabelValue (ts_Labels ts) ''__name__'' = Some name \<and> name \<noteq> [])"

text \<open>The metric a series stands for: a cumulative monotonic sum for counters and histograms, a gauge otherwise, with one point per sample that is a number.\<close>

definition series_metric :: "(float_value \<Rightarrow> int) \<Rightarrow> time_series \<Rightarrow> 'h pmetric" where
  "series_metric conv ts = md_metric conv (series_data ts)"

lemma series_named: "md_MetricName (series_data ts) \<noteq> [] \<longleftrightarrow> named ts"
  by (auto simp: series_data_def named_def ExtractMetricNameLabel_def split: option.splits)

lemma part_metrics_typed:
  "\<forall>m \<in> set mds. md_type m = t \<Longrightarrow> part_metrics conv (t, mds) = map (md_metric conv) (filter (\<lambda>m. md_MetricName m \<noteq> []) mds)"
  by (auto simp: part_metrics_def md_metric_def)

lemma parts_metrics:
  "parts_typed parts \<Longrightarrow> concat (map (part_metrics conv) parts) = map (md_metric conv) (filter (\<lambda>m. md_MetricName m \<noteq> []) (concat (map snd parts)))"
proof (induction parts)
  case (Cons part parts)
  obtain t mds where part: "part = (t, mds)" by fastforce
  with Cons.prems have "\<forall>m \<in> set mds. md_type m = t" by (simp add: parts_typed_def)
  from part_metrics_typed [OF this] Cons show ?case by (simp add: part parts_typed_def)
qed simp

text \<open>A rearrangement of the entries of a map.\<close>

definition range_ok :: "(partitions \<Rightarrow> partitions) \<Rightarrow> bool" where
  "range_ok range_order \<longleftrightarrow> (\<forall>m. mset (range_order m) = mset m)"

lemma range_concat:
  assumes "range_ok r"
  shows "mset (concat (map snd (r m))) = mset (concat (map snd m))"
proof -
  have "mset (concat (map snd xs)) = (\<Sum>x \<in># mset xs. mset (snd x))" for xs :: partitions
    by (induction xs) auto
  with assms show ?thesis by (simp add: range_ok_def)
qed

lemma sum_list_mset_cong: "mset xs = mset ys \<Longrightarrow> sum_list (map f xs) = (sum_list (map f ys) :: nat)"
  by (metis mset_map sum_mset_sum_list)

lemma length_filter_mset_cong: "mset xs = mset ys \<Longrightarrow> length (filter P xs) = length (filter P ys)"
  by (metis mset_filter size_mset)

definition req_nans :: "write_request \<Rightarrow> nat" where
  "req_nans req = sum_list (map (\<lambda>ts. length (filter (\<lambda>s. sa_Value s = NaN) (ts_Samples ts))) (filter named (wr_Timeseries req)))"

definition totals :: "prw_parser \<Rightarrow> int \<times> int \<Rightarrow> 'h pmetric list" where
  "totals p bounds =
     [total_metric ''prometheus.invalid_requests'' (totalInvalidRequests p) (fst bounds) (snd bounds),
      total_metric ''prometheus.total_NAN_samples'' (totalNans p) (fst bounds) (snd bounds),
      total_metric ''prometheus.total_bad_datapoints'' (totalBadMetrics p) (fst bounds) (snd bounds)]"

lemma nan_sum: "sum_list (map (nan_count \<circ> series_data) tss) = sum_list (map (\<lambda>ts. length (filter (\<lambda>s. sa_Value s = NaN) (ts_Samples ts))) (filter named tss))"
  by (induction tss) (auto simp: nan_count_def series_named [symmetric], simp_all add: series_data_def)

lemma translation:
  assumes "parser_ok p" "range_ok range_order"
  shows "\<exists>ms. fromPrometheusWriteRequestMetrics conv range_order req p =
      ([\<lparr>rm_Resource = [], rm_ScopeMetrics = [\<lparr>sm_ScopeName = ''otelcol/signalfxgatewayprometheusremotewrite'', sm_ScopeVersion = ''0.1'',
         sm_Metrics = ms @ totals (counted (req_nans req) (length (filter (\<lambda>ts. ts_Samples ts = []) (wr_Timeseries req)))
            (length (filter (\<lambda>ts. \<not> named ts) (wr_Timeseries req))) p) (getWriteRequestTimestampBounds req)\<rparr>]\<rparr>],
       concat (map series_errors (wr_Timeseries req)),
       counted (req_nans req) (length (filter (\<lambda>ts. ts_Samples ts = []) (wr_Timeseries req))) (length (filter (\<lambda>ts. \<not> named ts) (wr_Timeseries req))) p) \<and>
    mset ms = mset (map (series_metric conv) (filter named (wr_Timeseries req)))"
proof -
  let ?tss = "wr_Timeseries req"
  let ?inv = "length (filter (\<lambda>ts. ts_Samples ts = []) ?tss)"
  have "parts_typed []" by (simp add: parts_typed_def)
  from partition_fold [OF wf_Nil this assms(1), of "[]" ?tss] obtain parts where
    parts: "partitionWriteRequest p req = (parts, concat (map series_errors ?tss), counted 0 ?inv 0 p)" "parts_typed parts"
      "mset (concat (map snd parts)) = mset (map series_data ?tss)"
    by (auto simp: partitionWriteRequest_def)
  let ?mds = "concat (map snd (range_order parts))"
  have mds: "mset ?mds = mset (map series_data ?tss)" using range_concat [OF assms(2), of parts] parts(3) by simp
  have "set (range_order parts) = set parts" using assms(2) by (metis range_ok_def set_mset_mset)
  with parts(2) have typed: "parts_typed (range_order parts)" by (simp add: parts_typed_def)
  let ?ms = "map (md_metric conv) (filter (\<lambda>m. md_MetricName m \<noteq> []) ?mds) :: 'a pmetric list"
  have nans: "sum_list (map nan_count ?mds) = req_nans req"
    using sum_list_mset_cong [OF mds, of nan_count] by (simp add: req_nans_def nan_sum)
  have bad: "length (filter (\<lambda>m. md_MetricName m = []) ?mds) = length (filter (\<lambda>ts. \<not> named ts) ?tss)"
    using length_filter_mset_cong [OF mds, of "\<lambda>m. md_MetricName m = []"] by (simp add: filter_map comp_def series_named [symmetric])
  have "transformPrometheusRemoteWriteToOtel conv range_order parts (counted 0 ?inv 0 p) =
      (?ms, counted (req_nans req) ?inv (length (filter (\<lambda>ts. \<not> named ts) ?tss)) p)"
    using foldl_addMetrics [of "counted 0 ?inv 0 p" conv "[]" "range_order parts"]
    by (simp add: transformPrometheusRemoteWriteToOtel_def parts_metrics [OF typed] nans bad counted_add)
  moreover have "mset ?ms = mset (map (series_metric conv) (filter named ?tss))"
  proof -
    have "mset ?ms = image_mset (md_metric conv) (filter_mset (\<lambda>m. md_MetricName m \<noteq> []) (mset ?mds))"
      by (simp only: mset_map mset_filter)
    also have "\<dots> = mset (map (md_metric conv) (filter (\<lambda>m. md_MetricName m \<noteq> []) (map series_data ?tss)))"
      by (simp only: mds mset_map [symmetric] mset_filter [symmetric])
    also have "\<dots> = mset (map (series_metric conv) (filter named ?tss))"
      by (simp only: filter_map comp_def series_named map_map series_metric_def [abs_def])
    finally show ?thesis .
  qed
  ultimately show ?thesis
    by (intro exI [of _ ?ms])
      (auto simp: fromPrometheusWriteRequestMetrics_def parts(1) totals_def addBadRequests_def addNanDataPoints_def addMetricsWithMissingName_def
        Let_def split: prod.splits)
qed

subsection \<open>Values\<close>

text \<open>On amd64 the conversion instruction gives the smallest integer for every value that does not fit.\<close>

definition cvttsd2sq :: "float_value \<Rightarrow> int" where
  "cvttsd2sq v = - (2 ^ 63)"

lemma float64_of_small: "\<bar>i\<bar> < 2 ^ 53 \<Longrightarrow> float64_of i = Fin (of_int i)"
proof -
  assume "\<bar>i\<bar> < 2 ^ 53"
  then have "nat \<bar>i\<bar> < 2 ^ 53" by (simp add: nat_less_iff)
  then have "round53 (nat \<bar>i\<bar>) = nat \<bar>i\<bar>" by (simp only: round53_def if_True)
  then show ?thesis by (simp add: float64_of_def sgn_mult_abs)
qed

lemma bit_len_exp: "bit_len (2 ^ k) = Suc k"
proof (induction k)
  case 0
  show ?case by (simp add: bit_len.simps)
next
  case (Suc k)
  have "bit_len (2 ^ Suc k) = Suc (bit_len (2 ^ Suc k div 2))" by (subst bit_len.simps) simp
  with Suc show ?case by simp
qed

lemma float64_of_min: "float64_of (- (2 ^ 63)) = Fin (of_int (- (2 ^ 63)))"
proof -
  have "round53 (2 ^ 63) = 2 ^ 63" using bit_len_exp [of 63] by (simp add: round53_def Let_def)
  moreover have "nat \<bar>- (2 ^ 63) :: int\<bar> = 2 ^ 63" by simp
  ultimately show ?thesis by (simp add: float64_of_def)
qed

definition trunc :: "f64 \<Rightarrow> int" where
  "trunc r = (if r < 0 then \<lceil>r\<rceil> else \<lfloor>r\<rfloor>)"

lemma trunc_of_int [simp]: "trunc (of_int i) = i"
  by (simp add: trunc_def)

lemma int64_of_Fin: "int64_of conv (Fin r) = (if - (2 ^ 63) \<le> trunc r \<and> trunc r < 2 ^ 63 then trunc r else conv (Fin r))"
  by (simp add: int64_of_def trunc_def Let_def)

lemma float64_of_eq: "float64_of i = Fin r \<Longrightarrow> \<exists>z. r = of_int z"
  by (simp only: float64_of_def float_value.inject) blast

text \<open>A value that survives the round trip through \<open>int64\<close> is that integer.\<close>

lemma int64_roundtrip:
  assumes "float64_of (int64_of cvttsd2sq v) = v"
  shows "v = Fin (of_int (int64_of cvttsd2sq v)) \<and> - (2 ^ 63) \<le> int64_of cvttsd2sq v \<and> int64_of cvttsd2sq v < 2 ^ 63"
proof -
  from assms obtain r where v: "v = Fin r" by (cases v) (simp_all add: float64_of_def)
  from assms v float64_of_eq [of "int64_of cvttsd2sq v" r] obtain z where z: "r = of_int z" by auto
  show ?thesis
  proof (cases "- (2 ^ 63) \<le> z \<and> z < 2 ^ 63")
    case True
    then show ?thesis by (simp add: v z int64_of_Fin)
  next
    case False
    then have "int64_of cvttsd2sq v = - (2 ^ 63)" by (simp only: v z int64_of_Fin trunc_of_int if_False cvttsd2sq_def)
    with assms have "v = Fin (of_int (- (2 ^ 63)))" by (metis float64_of_min)
    with False show ?thesis by (simp add: v z)
  qed
qed

lemma setFloatOrInt_frame [simp]:
  "np_Attributes (setFloatOrInt conv v dp) = np_Attributes dp" "np_Timestamp (setFloatOrInt conv v dp) = np_Timestamp dp"
  "np_StartTimestamp (setFloatOrInt conv v dp) = np_StartTimestamp dp"
  by (simp_all add: setFloatOrInt_def)

lemma setFloatOrInt_value:
  "v \<noteq> NaN \<Longrightarrow> np_Value (setFloatOrInt conv v dp) = IntValue (int64_of conv v) \<or> np_Value (setFloatOrInt conv v dp) = DoubleValue v"
  by (simp add: setFloatOrInt_def)

text \<open>The attributes of a point: every label but the name, the last of equal ones.\<close>

lemma set_attrs_load:
  "map_load (foldl (\<lambda>a l. if fst l \<noteq> ''__name__'' then map_store (fst l) (ValueStr (snd l)) a else a) a labels) k =
     (case map_of (rev (filter (\<lambda>l. fst l \<noteq> ''__name__'') labels)) k of Some v \<Rightarrow> Some (ValueStr v) | None \<Rightarrow> map_load a k)"
  by (induction labels rule: rev_induct) (auto split: option.splits)

lemma set_attrs_wf:
  "gomap_wf a \<Longrightarrow> gomap_wf (foldl (\<lambda>a l. if fst l \<noteq> ''__name__'' then map_store (fst l) (ValueStr (snd l)) a else a) a labels)"
  by (induction labels arbitrary: a) (auto simp: wf_store)

lemma sample_point_attrs:
  "map_load (np_Attributes (sample_point conv labels s)) k =
     map_option ValueStr (map_of (rev (filter (\<lambda>l. fst l \<noteq> ''__name__'') labels)) k)"
  "gomap_wf (np_Attributes (sample_point conv labels s))"
  by (simp_all add: sample_point_def setAttributes_def empty_point_def set_attrs_load set_attrs_wf split: option.splits)

lemma sample_point_times:
  "np_Timestamp (sample_point conv labels s) = millis_timestamp (sa_Timestamp s)"
  "np_StartTimestamp (sample_point conv labels s) = millis_timestamp (sa_Timestamp s)"
  by (simp_all add: sample_point_def setAttributes_def prometheusToOtelTimestamp_def millis_timestamp_def)

lemma sample_point_value [simp]:
  "np_Value (sample_point conv labels s) = np_Value (setFloatOrInt conv (sa_Value s) empty_point)"
  by (simp add: sample_point_def setAttributes_def setFloatOrInt_def empty_point_def)

subsection \<open>Properties\<close>

text \<open>C36: Translation of a write request, accepted afterwards or not, by a parser whose totals are numbers of 64 bits. Besides the three totals of the receiver there is exactly one
  metric for every series with a name label that is not empty, whatever the order in which the Go map of the partitions is visited: its points are the samples of the
  series that are numbers. The totals count, in 64 bits: as NaN samples those of the named series only; as bad datapoints the series without a name; as invalid
  requests the series without samples. An error is returned exactly when some series has no name label or no sample; a missing name label is thus an
  error that counts as a bad datapoint and not as an invalid request, other than the README says of errors in general.\<close>

theorem prw_series_translated:
  fixes md :: "'h metrics"
  assumes "parser_ok p" "range_ok range_order" "fromPrometheusWriteRequestMetrics conv range_order req p = (md, errs, p')"
  shows "(\<exists>ms. all_metrics md = ms @ totals p' (getWriteRequestTimestampBounds req) \<and>
      mset ms = mset (map (series_metric conv) (filter named (wr_Timeseries req)))) \<and>
    p' = counted (req_nans req) (length (filter (\<lambda>ts. ts_Samples ts = []) (wr_Timeseries req))) (length (filter (\<lambda>ts. \<not> named ts) (wr_Timeseries req))) p \<and>
    (errs = [] \<longleftrightarrow> (\<forall>ts \<in> set (wr_Timeseries req). getLabelValue (ts_Labels ts) ''__name__'' \<noteq> None \<and> ts_Samples ts \<noteq> []))"
proof -
  have "series_errors ts = [] \<longleftrightarrow> getLabelValue (ts_Labels ts) ''__name__'' \<noteq> None \<and> ts_Samples ts \<noteq> []" for ts
    by (auto simp: series_errors_def ExtractMetricNameLabel_def split: option.splits)
  then show ?thesis
    using translation [OF assms(1, 2), of conv req, where ?'a = 'h] assms(3) by (auto simp: all_metrics_def)
qed

text \<open>C37: Every translated request is well typed, accepted or not: each metric has a name and is a gauge or a cumulative monotonic sum; each of its points has a
  value that is a number, and unique attribute keys without the reserved name label.\<close>

theorem prw_output_typed:
  fixes md :: "'h metrics"
  assumes "parser_ok p" "range_ok range_order" "fromPrometheusWriteRequestMetrics conv range_order req p = (md, errs, p')" "m \<in> set (all_metrics md)"
  shows "pm_Name m \<noteq> [] \<and> (\<exists>ps. pm_Data m = MetricGauge ps \<or> pm_Data m = MetricSum True True ps) \<and>
    (\<forall>q \<in> set (number_points (pm_Data m)). np_Value q \<noteq> NumberEmpty \<and> np_Value q \<noteq> DoubleValue NaN \<and>
       gomap_wf (np_Attributes q) \<and> map_load (np_Attributes q) ''__name__'' = None)"
proof -
  from translation [OF assms(1, 2), of conv req, where ?'a = 'h] assms(3, 4)
  obtain ms where "m \<in> set ms \<union> set (totals p' (getWriteRequestTimestampBounds req))"
    and ms: "mset ms = mset (map (series_metric conv) (filter named (wr_Timeseries req)))" by (auto simp: all_metrics_def)
  moreover have "set ms = series_metric conv ` set (filter named (wr_Timeseries req))" using ms by (metis set_map set_mset_mset)
  ultimately consider ts where "named ts" "m = series_metric conv ts" | "m \<in> set (totals p' (getWriteRequestTimestampBounds req))" by auto
  then show ?thesis
  proof cases
    case (1 ts)
    have "map_of (rev (filter (\<lambda>l. fst l \<noteq> ''__name__'') labels)) ''__name__'' = None" for labels :: "prom_label list"
      by (auto simp: map_of_eq_None_iff)
    then have "np_Value q \<noteq> NumberEmpty \<and> np_Value q \<noteq> DoubleValue NaN \<and> gomap_wf (np_Attributes q) \<and> map_load (np_Attributes q) ''__name__'' = None"
      if "q \<in> set (md_points conv (series_data ts))" for q
      using that setFloatOrInt_value [of _ conv empty_point] by (fastforce simp: md_points_def sample_point_attrs)
    moreover have "pm_Name m \<noteq> []" using 1 series_named [of ts] by (simp add: series_metric_def md_metric_def scaffoldNewMetric_def)
    ultimately show ?thesis
      by (auto simp: 1(2) series_metric_def md_metric_def scaffoldNewMetric_def family_kind_def)
  next
    case 2
    then show ?thesis by (auto simp: totals_def total_metric_def empty_point_def)
  qed
qed

text \<open>C38: Values are kept exactly (on amd64): a sample that is a number becomes an integer point only if it is that integer, and then it fits 64 bits; otherwise
  it becomes a double point of the same value. Integers up to 53 bits always become integer points.\<close>

theorem prw_values_exact:
  assumes "v \<noteq> NaN"
  shows "(case np_Value (setFloatOrInt cvttsd2sq v dp) of
        IntValue i \<Rightarrow> v = Fin (of_int i) \<and> - (2 ^ 63) \<le> i \<and> i < 2 ^ 63
      | DoubleValue w \<Rightarrow> w = v
      | NumberEmpty \<Rightarrow> False) \<and>
    (\<forall>i. v = Fin (of_int i) \<and> \<bar>i\<bar> < 2 ^ 53 \<longrightarrow> np_Value (setFloatOrInt cvttsd2sq v dp) = IntValue i)"
proof -
  have "np_Value (setFloatOrInt cvttsd2sq v dp) = IntValue i" if "v = Fin (of_int i)" "\<bar>i\<bar> < 2 ^ 53" for i
  proof -
    have "- (2 ^ 63) \<le> i \<and> i < 2 ^ 63" using that(2) by auto
    then have "int64_of cvttsd2sq v = i" by (simp only: that(1) int64_of_Fin trunc_of_int if_True simp_thms)
    with that float64_of_small [OF that(2)] show ?thesis by (simp add: setFloatOrInt_def)
  qed
  moreover have "case np_Value (setFloatOrInt cvttsd2sq v dp) of IntValue i \<Rightarrow> v = Fin (of_int i) \<and> - (2 ^ 63) \<le> i \<and> i < 2 ^ 63
      | DoubleValue w \<Rightarrow> w = v | NumberEmpty \<Rightarrow> False"
    using assms int64_roundtrip [of v] by (simp add: setFloatOrInt_def)
  ultimately show ?thesis by blast
qed

subsection \<open>Times of the totals\<close>

definition req_times :: "write_request \<Rightarrow> int set" where
  "req_times req = (\<Union>ts \<in> set (wr_Timeseries req). sa_Timestamp ` set (ts_Samples ts))"

lemma bounds_fold:
  "foldl (\<lambda>(mn, mx) s. (if mn > f s then f s else mn, if mx < g s then g s else mx)) (a, b) xs =
     (Min (insert a (f ` set xs)), Max (insert (b :: int) (g ` set xs)))"
proof (induction xs arbitrary: a b)
  case (Cons x xs)
  have "(if a > f x then f x else a) = min a (f x)" "(if b < g x then g x else b) = max b (g x)" by auto
  then have "foldl (\<lambda>(mn, mx) s. (if mn > f s then f s else mn, if mx < g s then g s else mx)) (a, b) (x # xs) =
      (Min (insert (min a (f x)) (f ` set xs)), Max (insert (max b (g x)) (g ` set xs)))"
    by (simp add: Cons.IH)
  moreover have "Min (insert (min a (f x)) (f ` set xs)) = Min (insert a (f ` set (x # xs)))"
    "Max (insert (max b (g x)) (g ` set xs)) = Max (insert b (g ` set (x # xs)))"
    by (cases "xs = []"; simp add: min.assoc max.assoc)+
  ultimately show ?case by simp
qed simp

lemma Min_absorb:
  assumes "finite S" "S \<noteq> {}" "\<forall>x \<in> S. x \<le> (a :: int)"
  shows "Min (insert a S) = Min S"
proof -
  have "Min S \<le> a" using Min_in [OF assms(1, 2)] assms(3) by blast
  then show ?thesis using Min_insert [OF assms(1, 2), of a] by (metis min.absorb2)
qed

lemma Max_absorb:
  assumes "finite S" "S \<noteq> {}" "\<forall>x \<in> S. (a :: int) \<le> x"
  shows "Max (insert a S) = Max S"
proof -
  have "a \<le> Max S" using Max_in [OF assms(1, 2)] assms(3) by blast
  then show ?thesis using Max_insert [OF assms(1, 2), of a] by (metis max.absorb2)
qed

definition times_ok :: "write_request \<Rightarrow> bool" where
  "times_ok req \<longleftrightarrow> (\<forall>t \<in> req_times req. - (2 ^ 63) \<le> t \<and> t < 2 ^ 63)"

lemma sample_bounds:
  assumes "samples \<noteq> []" "\<forall>s \<in> set samples. - (2 ^ 63) \<le> sa_Timestamp s \<and> sa_Timestamp s < 2 ^ 63"
  shows "getSampleTimestampBounds samples = (Min (sa_Timestamp ` set samples), Max (sa_Timestamp ` set samples))"
proof -
  have "Min (insert (2 ^ 63 - 1) (sa_Timestamp ` set samples)) = Min (sa_Timestamp ` set samples)"
    using assms by (intro Min_absorb) auto
  moreover have "Max (insert (- (2 ^ 63)) (sa_Timestamp ` set samples)) = Max (sa_Timestamp ` set samples)"
    using assms by (intro Max_absorb) auto
  ultimately show ?thesis using assms(1) bounds_fold [of sa_Timestamp sa_Timestamp "2 ^ 63 - 1" "- (2 ^ 63)" samples]
    by (simp add: getSampleTimestampBounds_def)
qed

lemma Min_Union:
  assumes "finite I" "I \<noteq> {}" "\<forall>i \<in> I. finite (S i) \<and> S i \<noteq> {}"
  shows "Min ((\<lambda>i. Min (S i :: int set)) ` I) = Min (\<Union>i \<in> I. S i)"
proof (rule Min_eqI [symmetric])
  show "finite (\<Union>i \<in> I. S i)" using assms by blast
  have "Min ((\<lambda>i. Min (S i)) ` I) \<in> (\<lambda>i. Min (S i)) ` I" using assms(1, 2) by (intro Min_in) auto
  then show "Min ((\<lambda>i. Min (S i)) ` I) \<in> (\<Union>i \<in> I. S i)" using assms(3) Min_in by fastforce
  show "Min ((\<lambda>i. Min (S i)) ` I) \<le> y" if "y \<in> (\<Union>i \<in> I. S i)" for y
  proof -
    from that obtain i where i: "i \<in> I" "y \<in> S i" by blast
    have "Min ((\<lambda>i. Min (S i)) ` I) \<le> Min (S i)" using assms(1) i(1) by simp
    also have "\<dots> \<le> y" using assms(3) i by simp
    finally show ?thesis .
  qed
qed

lemma Max_Union:
  assumes "finite I" "I \<noteq> {}" "\<forall>i \<in> I. finite (S i) \<and> S i \<noteq> {}"
  shows "Max ((\<lambda>i. Max (S i :: int set)) ` I) = Max (\<Union>i \<in> I. S i)"
proof (rule Max_eqI [symmetric])
  show "finite (\<Union>i \<in> I. S i)" using assms by blast
  have "Max ((\<lambda>i. Max (S i)) ` I) \<in> (\<lambda>i. Max (S i)) ` I" using assms(1, 2) by (intro Max_in) auto
  then show "Max ((\<lambda>i. Max (S i)) ` I) \<in> (\<Union>i \<in> I. S i)" using assms(3) Max_in by fastforce
  show "y \<le> Max ((\<lambda>i. Max (S i)) ` I)" if "y \<in> (\<Union>i \<in> I. S i)" for y
  proof -
    from that obtain i where i: "i \<in> I" "y \<in> S i" by blast
    have "y \<le> Max (S i)" using assms(3) i by simp
    also have "\<dots> \<le> Max ((\<lambda>i. Max (S i)) ` I)" using assms(1) i(1) by simp
    finally show ?thesis .
  qed
qed

text \<open>Times of the totals: for a request that is accepted, whose series all have samples and whose timestamps are 64-bit, the totals span from the earliest
  to the latest sample of the request.\<close>

theorem prw_time_bounds:
  assumes "wr_Timeseries req \<noteq> []" "\<forall>ts \<in> set (wr_Timeseries req). ts_Samples ts \<noteq> []" "times_ok req"
  shows "getWriteRequestTimestampBounds req = (Min (req_times req), Max (req_times req))"
proof -
  let ?S = "\<lambda>ts. sa_Timestamp ` set (ts_Samples ts)" and ?I = "set (wr_Timeseries req)"
  have ok: "\<forall>t \<in> ?S ts. - (2 ^ 63) \<le> t \<and> t < 2 ^ 63" if "ts \<in> ?I" for ts using assms(3) that by (auto simp: times_ok_def req_times_def)
  have b: "getSampleTimestampBounds (ts_Samples ts) = (Min (?S ts), Max (?S ts))" if "ts \<in> ?I" for ts
    using that assms(2) ok by (intro sample_bounds) auto
  have "getWriteRequestTimestampBounds req =
      foldl (\<lambda>(mn, mx) ts. (if mn > Min (?S ts) then Min (?S ts) else mn, if mx < Max (?S ts) then Max (?S ts) else mx)) (2 ^ 63 - 1, - (2 ^ 63)) (wr_Timeseries req)"
    unfolding getWriteRequestTimestampBounds_def by (rule foldl_cong) (auto simp: b)
  also have "\<dots> = (Min (insert (2 ^ 63 - 1) ((\<lambda>ts. Min (?S ts)) ` ?I)), Max (insert (- (2 ^ 63)) ((\<lambda>ts. Max (?S ts)) ` ?I)))"
    by (rule bounds_fold)
  also have "Min (insert (2 ^ 63 - 1) ((\<lambda>ts. Min (?S ts)) ` ?I)) = Min ((\<lambda>ts. Min (?S ts)) ` ?I)"
    using assms ok by (intro Min_absorb) (fastforce simp: Min_le_iff neq_Nil_conv)+
  also have "Max (insert (- (2 ^ 63)) ((\<lambda>ts. Max (?S ts)) ` ?I)) = Max ((\<lambda>ts. Max (?S ts)) ` ?I)"
    using assms ok by (intro Max_absorb) (fastforce simp: Max_ge_iff neq_Nil_conv)+
  also have "Min ((\<lambda>ts. Min (?S ts)) ` ?I) = Min (req_times req)"
    using assms(1, 2) unfolding req_times_def by (intro Min_Union) auto
  also have "Max ((\<lambda>ts. Max (?S ts)) ` ?I) = Max (req_times req)"
    using assms(1, 2) unfolding req_times_def by (intro Max_Union) auto
  finally show ?thesis .
qed

text \<open>A request with metadata only is accepted as well; the totals it produces start in the year 2554 and end at the epoch.\<close>

lemma prw_metadata_only_times:
  assumes "wr_Timeseries req = []"
  shows "(case getWriteRequestTimestampBounds req of (s, e) \<Rightarrow>
    uint (millis_timestamp s) = 2 ^ 64 - 1000000 \<and> uint (millis_timestamp e) = 0)"
  by (simp add: getWriteRequestTimestampBounds_def assms millis_timestamp_def uint_word_of_int)

subsection \<open>An example\<close>

definition demo_write :: write_request where
  "demo_write = \<lparr>wr_Timeseries = [\<lparr>ts_Labels = [(''__name__'', ''x_total''), (''a'', ''b'')],
     ts_Samples = [\<lparr>sa_Value = Fin 3, sa_Timestamp = 7\<rparr>, \<lparr>sa_Value = NaN, sa_Timestamp = 5\<rparr>]\<rparr>], wr_Metadata = 0\<rparr>"

lemma demo_parser: "parser_ok newPrometheusRemoteOtelParser" "range_ok id"
  by (simp_all add: parser_ok_def newPrometheusRemoteOtelParser_def i64_def range_ok_def)

theorem prw_series_translated_witness:
  "\<exists>md errs p'. fromPrometheusWriteRequestMetrics cvttsd2sq id demo_write newPrometheusRemoteOtelParser = (md :: unit metrics, errs, p') \<and>
     errs = [] \<and> totalNans p' = 1 \<and> length (all_metrics md) = 4"
proof -
  obtain md errs p' where r: "fromPrometheusWriteRequestMetrics cvttsd2sq id demo_write newPrometheusRemoteOtelParser = (md :: unit metrics, errs, p')"
    by (metis prod_cases3)
  from prw_series_translated [OF demo_parser r] obtain ms where
    ms: "all_metrics md = ms @ totals p' (getWriteRequestTimestampBounds demo_write)"
      "mset ms = mset (map (series_metric cvttsd2sq) (filter named (wr_Timeseries demo_write)))"
    and e: "errs = []" and p': "p' = counted (req_nans demo_write) 0 0 newPrometheusRemoteOtelParser"
    by (auto simp: demo_write_def named_def)
  have n: "filter named (wr_Timeseries demo_write) = wr_Timeseries demo_write" by (simp add: demo_write_def named_def)
  have "length ms = 1" using arg_cong [OF ms(2), of size] by (simp only: n) (simp add: demo_write_def)
  moreover have "req_nans demo_write = 1" by (simp only: req_nans_def n) (simp add: demo_write_def)
  ultimately have "totalNans p' = 1 \<and> length (all_metrics md) = 4"
    by (simp add: ms(1) p' totals_def counted_def newPrometheusRemoteOtelParser_def i64_def)
  with r e show ?thesis by blast
qed

theorem prw_output_typed_witness:
  "\<exists>m q. m \<in> set (all_metrics (fst (fromPrometheusWriteRequestMetrics cvttsd2sq id demo_write newPrometheusRemoteOtelParser) :: unit metrics)) \<and>
     pm_Name m = ''x_total'' \<and> number_points (pm_Data m) = [q] \<and> np_Value q \<noteq> DoubleValue NaN \<and> map_load (np_Attributes q) ''__name__'' = None"
proof -
  let ?m = "series_metric cvttsd2sq (hd (wr_Timeseries demo_write)) :: unit pmetric"
  have "filter named (wr_Timeseries demo_write) = [hd (wr_Timeseries demo_write)]" by (simp add: demo_write_def named_def)
  with translation [OF demo_parser, of cvttsd2sq demo_write, where ?'a = unit] obtain md errs p' where
    r: "fromPrometheusWriteRequestMetrics cvttsd2sq id demo_write newPrometheusRemoteOtelParser = (md :: unit metrics, errs, p')" "?m \<in> set (all_metrics md)"
    by (auto simp: all_metrics_def)
  have "pm_Name ?m = ''x_total''" "length (number_points (pm_Data ?m)) = 1"
    by (simp_all add: demo_write_def series_metric_def md_metric_def md_points_def series_data_def scaffoldNewMetric_def family_kind_def ExtractMetricNameLabel_def)
  moreover from this(2) obtain q where "number_points (pm_Data ?m) = [q]" by (auto simp: length_Suc_conv)
  ultimately show ?thesis using prw_output_typed [OF demo_parser r] r by (intro exI [of _ ?m] exI [of _ q]) simp
qed

theorem prw_values_exact_witness:
  "np_Value (setFloatOrInt cvttsd2sq (Fin 3) empty_point) = IntValue 3"
  using prw_values_exact [of "Fin 3" empty_point] by simp

theorem prw_time_bounds_witness: "getWriteRequestTimestampBounds demo_write = (5, 7)"
  using prw_time_bounds [of demo_write] by (simp add: demo_write_def times_ok_def req_times_def)

end
