(* ===== verification/PromServer.thy ===== *)
theory PromServer
  imports PromWrite
begin

section \<open>Prometheus remote write: server and receiver\<close>

text \<open>
  \<open>receiver/prometheusremotewritereceiver\<close>: configuration, HTTP handler (\<open>server.go\<close>), start, shutdown and the loop that passes metrics on
  (\<open>receiver.go\<close>).

  Handlers and the loop are goroutines joined by a Go channel. The handler is a function up to the point where it sends; the channel, the
  senders that wait on it and the loop form a transition system (\<open>prw_step\<close>), one rule per action of a goroutine. Decoding (snappy, protobuf),
  sockets and the next consumer are arguments.
\<close>

subsection \<open>Configuration\<close>

record prw_config =
  pc_ListenPath :: string
  pc_Endpoint :: string
  pc_BufferSize :: int

datatype prw_config_error = EmptyEndpoint | NegativeBufferSize

definition prw_Validate :: "prw_config \<Rightarrow> prw_config_error list" where
  "prw_Validate c =
     (if pc_Endpoint c = [] then [EmptyEndpoint] else []) @ (if pc_BufferSize c < 0 then [NegativeBufferSize] else [])"

definition prw_createDefaultConfig :: prw_config where
  "prw_createDefaultConfig = \<lparr>pc_ListenPath = ''/metrics'', pc_Endpoint = ''localhost:19291'', pc_BufferSize = 100\<rparr>"

subsection \<open>The handler\<close>

text \<open>\<open>body\<close> is what \<open>io.ReadAll\<close> gives; \<open>snappy\<close> and \<open>unmarshal\<close> stand for the two libraries.\<close>

definition DecodeWriteRequest :: "(string \<Rightarrow> string + string) \<Rightarrow> (string \<Rightarrow> string + write_request) \<Rightarrow> string + string \<Rightarrow> string + write_request" where
  "DecodeWriteRequest snappy unmarshal body =
     (case body of
        Inl err \<Rightarrow> Inl err
      | Inr compressed \<Rightarrow> (case snappy compressed of Inl err \<Rightarrow> Inl err | Inr reqBuf \<Rightarrow> unmarshal reqBuf))"

datatype 'h handler_result = Respond nat | SendThenAccept "'h metrics"

definition prw_handler ::
  "(float_value \<Rightarrow> int) \<Rightarrow> (partitions \<Rightarrow> partitions) \<Rightarrow> string + write_request \<Rightarrow> prw_parser \<Rightarrow> 'h handler_result \<times> prw_parser" where
  "prw_handler conv range_order decoded parser =
     (case decoded of
        Inl err \<Rightarrow> (Respond 400, parser)
      | Inr req \<Rightarrow>
          if wr_Timeseries req = [] \<and> wr_Metadata req = 0 then (Respond 204, parser)
          else
            (let (results, err, parser1) = fromPrometheusWriteRequestMetrics conv range_order req parser in
             if err \<noteq> [] then (Respond 400, parser1) else (SendThenAccept results, parser1)))"

subsection \<open>Starting and stopping\<close>

text \<open>A server, its channel (by number) and whether that is closed; \<open>rc_next\<close> is the number of the next channel.\<close>

record prw_server =
  ps_channel :: nat
  ps_closed :: bool

record prw_receiver =
  pr_server :: "prw_server option"
  pr_cancel :: bool
  pr_config :: prw_config
  rc_next :: nat

definition prw_newReceiver :: "'e option \<Rightarrow> prw_config \<Rightarrow> 'e + prw_receiver" where
  "prw_newReceiver obs cfg =
     (case obs of Some err \<Rightarrow> Inl err | None \<Rightarrow> Inr \<lparr>pr_server = None, pr_cancel = False, pr_config = cfg, rc_next = 0\<rparr>)"

text \<open>\<open>make\<close> panics for a negative buffer, which \<open>Validate\<close> rejects. \<open>ToServer\<close> returns no server with an error, and the address is set before the error is looked at: \<open>None\<close> is that panic.\<close>

definition newPrometheusRemoteWriteServer :: "'e option \<Rightarrow> nat \<Rightarrow> prw_server option" where
  "newPrometheusRemoteWriteServer to_server channel =
     (case to_server of Some err \<Rightarrow> None | None \<Rightarrow> Some \<lparr>ps_channel = channel, ps_closed = False\<rparr>)"

definition prw_close :: "'e option \<Rightarrow> prw_server \<Rightarrow> prw_server \<times> 'e option" where
  "prw_close close_err prw = (prw\<lparr>ps_closed := True\<rparr>, close_err)"

definition prw_Start :: "'e option \<Rightarrow> 'e option \<Rightarrow> prw_receiver \<Rightarrow> (prw_receiver \<times> 'e option) option" where
  "prw_Start to_server close_err r =
     (if pc_BufferSize (pr_config r) < 0 then None else
      let metricsChannel = rc_next r;
          r0 = r\<lparr>rc_next := Suc (rc_next r)\<rparr>;
          (r1, err) = (case pr_server r0 of
             Some s \<Rightarrow> (let (s1, e) = prw_close close_err s in (r0\<lparr>pr_server := Some s1\<rparr>, e))
           | None \<Rightarrow> (r0, None))
      in if err \<noteq> None then Some (r1, err)
         else do {
           server \<leftarrow> newPrometheusRemoteWriteServer to_server metricsChannel;
           Some (r1\<lparr>pr_cancel := True, pr_server := Some server\<rparr>, None)
         })"

definition prw_Shutdown :: "'e option \<Rightarrow> prw_receiver \<Rightarrow> prw_receiver \<times> 'e option" where
  "prw_Shutdown close_err r =
     (if \<not> pr_cancel r then (r, None)
      else case pr_server r of
             Some s \<Rightarrow> (let (s1, e) = prw_close close_err s in (r\<lparr>pr_server := Some s1\<rparr>, e))
           | None \<Rightarrow> (r, None))"

text \<open>
  The goroutine that serves. \<open>n\<close> counts the wait group \<open>listening\<close>, which is 1 while the server does not listen; \<open>ServeEnds\<close> is what \<open>Serve\<close> returns.
  \<open>startServer\<close> gives the errors that are reported as fatal for the whole collector.
\<close>

datatype 'e serve_end = ErrServerClosed | ServeError 'e

definition listenAndServe :: "'e option \<Rightarrow> 'e serve_end \<Rightarrow> int \<Rightarrow> int \<times> 'e option" where
  "listenAndServe to_listener serve n =
     (case to_listener of
        Some err \<Rightarrow> (n, Some err)
      | None \<Rightarrow>
          (let n1 = n - 1; n2 = n1 + 1 in
           case serve of ErrServerClosed \<Rightarrow> (n2, None) | ServeError err \<Rightarrow> (n2, Some err)))"

datatype 'e fatal_event = NullServer | FatalError 'e

definition startServer :: "'e option \<Rightarrow> 'e serve_end \<Rightarrow> int \<Rightarrow> prw_receiver \<Rightarrow> int \<times> 'e fatal_event list" where
  "startServer to_listener serve n r =
     (case pr_server r of
        None \<Rightarrow> (n, [NullServer])
      | Some s \<Rightarrow> (case listenAndServe to_listener serve n of (n1, err) \<Rightarrow> (n1, case err of Some e \<Rightarrow> [FatalError e] | None \<Rightarrow> [])))"

text \<open>A receiver that was started and is shut down does not bring the collector down; a port that is taken does.\<close>

lemma shutdown_is_not_fatal:
  assumes "prw_Start None close_err r = Some (r', None)"
  shows "startServer None ErrServerClosed n r' = (n, [])" "startServer (Some e) serve n r' = (n, [FatalError e])"
  using assms
  by (auto simp: prw_Start_def newPrometheusRemoteWriteServer_def startServer_def listenAndServe_def Let_def split: option.splits if_splits prod.splits)

subsection \<open>The channel and the loop\<close>

datatype loop_state = LoopRunning | LoopReturned

text \<open>
  \<open>cw_accepted\<close> are the batches whose send succeeded, in order, \<open>cw_passed\<close> those the next consumer got; \<open>cw_waiting\<close> the batches of
  handlers that have reached their send, \<open>cw_arrived\<close> all that ever did. A send on a closed channel panics; the HTTP server recovers from it and
  drops the connection: \<open>cw_panicked\<close> are the batches lost that way.
\<close>

record 'm chan_world =
  cw_cap :: nat
  cw_buffer :: "'m list"
  cw_closed :: bool
  cw_cancelled :: bool
  cw_loop :: loop_state
  cw_waiting :: "'m list"
  cw_arrived :: "'m list"
  cw_panicked :: "'m list"
  cw_accepted :: "'m list"
  cw_passed :: "'m list"

datatype chan_event = Arrive | Send | SendPanics | TakeOk | TakeErr | HandOverOk | HandOverErr | CloseChannel | Cancel | LoopEnds

text \<open>The send of a handler, \<open>mc <- results\<close>, into the buffer and into the hands of the loop; the closing of the channel. Handlers wait in
  no particular order.\<close>

definition chan_send :: "'m list \<Rightarrow> 'm \<Rightarrow> 'm list \<Rightarrow> 'm chan_world \<Rightarrow> 'm chan_world" where
  [simp]: "chan_send us m vs w = w\<lparr>cw_waiting := us @ vs, cw_buffer := cw_buffer w @ [m], cw_accepted := cw_accepted w @ [m]\<rparr>"

definition chan_hand_over :: "'m list \<Rightarrow> 'm \<Rightarrow> 'm list \<Rightarrow> 'm chan_world \<Rightarrow> 'm chan_world" where
  [simp]: "chan_hand_over us m vs w = w\<lparr>cw_waiting := us @ vs, cw_accepted := cw_accepted w @ [m]\<rparr>"

definition chan_close :: "'m chan_world \<Rightarrow> 'm chan_world" where
  [simp]: "chan_close w = w\<lparr>cw_closed := True\<rparr>"

text \<open>The loop of \<open>manageServerLifecycle\<close> together with what the others do to its channel: \<open>arrive\<close>, \<open>send\<close>, \<open>send_panics\<close> and the sending half of
  \<open>hand_over\<close> are the handlers, \<open>close_channel\<close> and \<open>cancel\<close> the shutdown. \<open>flush_err\<close> is the answer of the next consumer. Without a
  buffer a send succeeds only together with a receive.\<close>

inductive prw_step :: "('m \<Rightarrow> bool) \<Rightarrow> 'm chan_world \<Rightarrow> chan_event \<Rightarrow> 'm chan_world \<Rightarrow> bool" for flush_err where
  arrive: "prw_step flush_err w Arrive (w\<lparr>cw_waiting := cw_waiting w @ [m], cw_arrived := cw_arrived w @ [m]\<rparr>)"
| send: "\<lbrakk>cw_waiting w = us @ m # vs; \<not> cw_closed w; length (cw_buffer w) < cw_cap w\<rbrakk> \<Longrightarrow>
    prw_step flush_err w Send (chan_send us m vs w)"
| send_panics: "\<lbrakk>cw_waiting w = us @ m # vs; cw_closed w\<rbrakk> \<Longrightarrow>
    prw_step flush_err w SendPanics (w\<lparr>cw_waiting := us @ vs, cw_panicked := cw_panicked w @ [m]\<rparr>)"
| take_ok: "\<lbrakk>cw_loop w = LoopRunning; cw_buffer w = m # ms; \<not> flush_err m\<rbrakk> \<Longrightarrow>
    prw_step flush_err w TakeOk (w\<lparr>cw_buffer := ms, cw_passed := cw_passed w @ [m]\<rparr>)"
| take_err: "\<lbrakk>cw_loop w = LoopRunning; cw_buffer w = m # ms; flush_err m\<rbrakk> \<Longrightarrow>
    prw_step flush_err w TakeErr (w\<lparr>cw_buffer := ms, cw_passed := cw_passed w @ [m], cw_loop := LoopReturned\<rparr>)"
| hand_over_ok: "\<lbrakk>cw_loop w = LoopRunning; cw_buffer w = []; cw_cap w = 0; \<not> cw_closed w; cw_waiting w = us @ m # vs; \<not> flush_err m\<rbrakk> \<Longrightarrow>
    prw_step flush_err w HandOverOk ((chan_hand_over us m vs w)\<lparr>cw_passed := cw_passed w @ [m]\<rparr>)"
| hand_over_err: "\<lbrakk>cw_loop w = LoopRunning; cw_buffer w = []; cw_cap w = 0; \<not> cw_closed w; cw_waiting w = us @ m # vs; flush_err m\<rbrakk> \<Longrightarrow>
    prw_step flush_err w HandOverErr
      ((chan_hand_over us m vs w)\<lparr>cw_passed := cw_passed w @ [m], cw_loop := LoopReturned\<rparr>)"
| close_channel: "prw_step flush_err w CloseChannel (chan_close w)"
| cancel: "prw_step flush_err w Cancel (w\<lparr>cw_cancelled := True\<rparr>)"
| loop_ends: "\<lbrakk>cw_loop w = LoopRunning; cw_cancelled w \<or> (cw_closed w \<and> cw_buffer w = [])\<rbrakk> \<Longrightarrow>
    prw_step flush_err w LoopEnds (w\<lparr>cw_loop := LoopReturned\<rparr>)"

inductive prw_steps :: "('m \<Rightarrow> bool) \<Rightarrow> 'm chan_world \<Rightarrow> chan_event list \<Rightarrow> 'm chan_world \<Rightarrow> bool" for flush_err where
  nil: "prw_steps flush_err w [] w"
| step: "\<lbrakk>prw_step flush_err w e w1; prw_steps flush_err w1 es w2\<rbrakk> \<Longrightarrow> prw_steps flush_err w (e # es) w2"

definition new_world :: "nat \<Rightarrow> 'm chan_world" where
  "new_world cap = \<lparr>cw_cap = cap, cw_buffer = [], cw_closed = False, cw_cancelled = False, cw_loop = LoopRunning, cw_waiting = [],
     cw_arrived = [], cw_panicked = [], cw_accepted = [], cw_passed = []\<rparr>"

inductive_cases prw_stepsE: "prw_steps flush_err w es w'"

lemma prw_steps_simps [simp]: "prw_steps flush_err w [] w' \<longleftrightarrow> w' = w"
  by (auto intro: prw_steps.intros elim: prw_stepsE)

subsection \<open>Properties\<close>

definition chan_inv :: "'m chan_world \<Rightarrow> bool" where
  "chan_inv w \<longleftrightarrow> cw_accepted w = cw_passed w @ cw_buffer w \<and> length (cw_buffer w) \<le> cw_cap w \<and>
     mset (cw_arrived w) = mset (cw_accepted w) + mset (cw_waiting w) + mset (cw_panicked w)"

lemma prw_step_inv: "prw_step flush_err w e w' \<Longrightarrow> chan_inv w \<Longrightarrow> chan_inv w' \<and> cw_cap w' = cw_cap w"
  by (induction rule: prw_step.induct) (auto simp: chan_inv_def)

lemma prw_steps_inv: "prw_steps flush_err w es w' \<Longrightarrow> chan_inv w \<Longrightarrow> chan_inv w' \<and> cw_cap w' = cw_cap w"
  by (induction rule: prw_steps.induct) (auto dest: prw_step_inv)

lemma new_world_inv: "chan_inv (new_world cap)"
  by (simp add: chan_inv_def new_world_def)

text \<open>A loop that has returned stays so, and the next consumer gets nothing more.\<close>

lemma prw_step_returned:
  "prw_step flush_err w e w' \<Longrightarrow> cw_loop w = LoopReturned \<Longrightarrow> cw_loop w' = LoopReturned \<and> cw_passed w' = cw_passed w"
  by (induction rule: prw_step.induct) auto

lemma prw_steps_returned:
  "prw_steps flush_err w es w' \<Longrightarrow> cw_loop w = LoopReturned \<Longrightarrow> cw_loop w' = LoopReturned \<and> cw_passed w' = cw_passed w"
  by (induction rule: prw_steps.induct) (auto dest: prw_step_returned)

lemma flush_error_returns: "prw_step flush_err w e w' \<Longrightarrow> e \<in> {TakeErr, HandOverErr} \<Longrightarrow> cw_loop w' = LoopReturned"
  by (induction rule: prw_step.induct) auto

lemma after_flush_error:
  "prw_steps flush_err w es w' \<Longrightarrow> set es \<inter> {TakeErr, HandOverErr} \<noteq> {} \<Longrightarrow> cw_loop w' = LoopReturned"
proof (induction rule: prw_steps.induct)
  case (step w e w1 es w2)
  show ?case
  proof (cases "e \<in> {TakeErr, HandOverErr}")
    case True
    from flush_error_returns [OF step.hyps(1) this] prw_steps_returned [OF step.hyps(2)] show ?thesis by blast
  next
    case False
    with step show ?thesis by auto
  qed
qed simp

lemma prw_step_open: "prw_step flush_err w e w' \<Longrightarrow> e \<noteq> CloseChannel \<Longrightarrow> \<not> cw_closed w \<Longrightarrow> \<not> cw_closed w' \<and> cw_panicked w' = cw_panicked w"
  by (induction rule: prw_step.induct) auto

lemma panics_need_close: "prw_steps flush_err w es w' \<Longrightarrow> CloseChannel \<notin> set es \<Longrightarrow> \<not> cw_closed w \<Longrightarrow> \<not> cw_closed w' \<and> cw_panicked w' = cw_panicked w"
  by (induction rule: prw_steps.induct) (auto dest: prw_step_open)

text \<open>Once the channel is closed nothing more is accepted.\<close>

lemma prw_step_closed: "prw_step flush_err w e w' \<Longrightarrow> cw_closed w \<Longrightarrow> cw_closed w' \<and> cw_accepted w' = cw_accepted w"
  by (induction rule: prw_step.induct) auto

lemma prw_steps_closed: "prw_steps flush_err w es w' \<Longrightarrow> cw_closed w \<Longrightarrow> cw_closed w' \<and> cw_accepted w' = cw_accepted w"
  by (induction rule: prw_steps.induct) (auto dest: prw_step_closed)

text \<open>\<open>Shutdown\<close> closes the channel while handlers may still wait to send: each of their batches can only end in a panic.\<close>

lemma prw_shutdown_panics:
  assumes "chan_inv w" "cw_closed w" "prw_steps flush_err w es w'"
  shows "mset (cw_waiting w') + mset (cw_panicked w') = mset (cw_arrived w') - mset (cw_accepted w)"
    "cw_waiting w \<noteq> [] \<Longrightarrow> \<exists>w1. prw_step flush_err w SendPanics w1"
proof -
  have "chan_inv w'" "cw_accepted w' = cw_accepted w" using prw_steps_inv [OF assms(3,1)] prw_steps_closed [OF assms(3,2)] by auto
  then show "mset (cw_waiting w') + mset (cw_panicked w') = mset (cw_arrived w') - mset (cw_accepted w)" by (simp add: chan_inv_def)
  assume "cw_waiting w \<noteq> []"
  then obtain m ms where "cw_waiting w = [] @ m # ms" by (cases "cw_waiting w") auto
  from send_panics [OF this assms(2)] show "\<exists>w1. prw_step flush_err w SendPanics w1" by blast
qed

text \<open>C39: Batches are passed on in order and at most once: in every reachable state, what the next consumer got followed by what is buffered is exactly what was
  accepted, and the buffer holds no more than configured. Every batch that reached the channel is accepted, still waits, or was lost in the panic
  of a send after the shutdown, exactly one of them.\<close>

theorem prw_batches_in_order:
  assumes "prw_steps flush_err (new_world cap) es w"
  shows "cw_accepted w = cw_passed w @ cw_buffer w \<and> length (cw_buffer w) \<le> cap \<and>
    mset (cw_arrived w) = mset (cw_accepted w) + mset (cw_waiting w) + mset (cw_panicked w) \<and>
    (CloseChannel \<notin> set es \<longrightarrow> cw_panicked w = [])"
  using prw_steps_inv [OF assms new_world_inv] panics_need_close [OF assms] by (simp add: chan_inv_def new_world_def)

text \<open>C40: One failure stops the receiver for good: once the next consumer has answered a batch with an error, no later batch ever reaches it, although the
  server keeps running; at most as many batches as the buffer holds are still accepted, with success, and when the buffer is full every further
  handler waits, at best until the shutdown makes it panic.\<close>

theorem prw_stalls_after_flush_error:
  assumes "prw_steps flush_err (new_world cap) es w" "set es \<inter> {TakeErr, HandOverErr} \<noteq> {}" "prw_steps flush_err w fs w'"
  shows "cw_passed w' = cw_passed w \<and> length (cw_accepted w') \<le> length (cw_passed w) + cap \<and>
    (length (cw_buffer w') = cap \<longrightarrow> (\<forall>e w''. prw_step flush_err w' e w'' \<longrightarrow> e \<notin> {Send, HandOverOk, HandOverErr}))"
proof -
  note inv = prw_steps_inv [OF assms(1) new_world_inv]
  note inv' = prw_steps_inv [OF assms(3)]
  have ret: "cw_loop w' = LoopReturned \<and> cw_passed w' = cw_passed w"
    using prw_steps_returned [OF assms(3) after_flush_error [OF assms(1, 2)]] .
  have cap: "chan_inv w'" "cw_cap w' = cap" using inv inv' by (simp_all add: new_world_def)
  have "e \<notin> {Send, HandOverOk, HandOverErr}" if "length (cw_buffer w') = cap" "prw_step flush_err w' e w''" for e w''
    using that(2, 1) ret cap(2) by (cases rule: prw_step.cases) auto
  with ret cap show ?thesis by (auto simp: chan_inv_def)
qed

text \<open>The answer to a request: 400 if it cannot be decoded, or if one of its series has no name label or no sample, in which case nothing of it is passed
  on; 204 if it is empty; otherwise the translation of the whole request is sent to the channel.\<close>

theorem prw_request_answered:
  fixes result :: "'h handler_result"
  assumes "parser_ok p" "range_ok range_order" "prw_handler conv range_order decoded p = (result, p')"
  shows "case decoded of
      Inl err \<Rightarrow> result = Respond 400 \<and> p' = p
    | Inr req \<Rightarrow>
        (if wr_Timeseries req = [] \<and> wr_Metadata req = 0 then result = Respond 204 \<and> p' = p
         else if \<exists>ts \<in> set (wr_Timeseries req). getLabelValue (ts_Labels ts) ''__name__'' = None \<or> ts_Samples ts = [] then result = Respond 400
         else \<exists>md. result = SendThenAccept md \<and> fst (fromPrometheusWriteRequestMetrics conv range_order req p) = md)"
proof (cases decoded)
  case (Inl err)
  with assms(3) show ?thesis by (simp add: prw_handler_def)
next
  case (Inr req)
  obtain md errs p1 where r: "fromPrometheusWriteRequestMetrics conv range_order req p = (md :: 'h metrics, errs, p1)" by (metis prod_cases3)
  have "series_errors ts = [] \<longleftrightarrow> getLabelValue (ts_Labels ts) ''__name__'' \<noteq> None \<and> ts_Samples ts \<noteq> []" for ts
    by (auto simp: series_errors_def ExtractMetricNameLabel_def split: option.splits)
  moreover have "errs = concat (map series_errors (wr_Timeseries req))"
    using translation [OF assms(1, 2), of conv req, where ?'a = 'h] r by auto
  ultimately have "errs \<noteq> [] \<longleftrightarrow> (\<exists>ts \<in> set (wr_Timeseries req). getLabelValue (ts_Labels ts) ''__name__'' = None \<or> ts_Samples ts = [])"
    by auto
  with Inr assms(3) r show ?thesis by (auto simp: prw_handler_def split: if_splits)
qed

text \<open>A server that cannot be set up makes the start panic instead of returning the error.\<close>

lemma prw_start_panics: "to_server \<noteq> None \<Longrightarrow> close_err = None \<Longrightarrow> prw_Start to_server close_err r = None"
  by (auto simp: prw_Start_def newPrometheusRemoteWriteServer_def prw_close_def Let_def split: option.splits)

theorem prw_batches_in_order_witness:
  "\<exists>w. prw_steps (\<lambda>_. False) (new_world 1) [Arrive, Send, TakeOk] w \<and> cw_accepted w = cw_passed w @ cw_buffer w \<and> cw_accepted w = [5 :: nat]"
proof -
  let ?w = "(new_world 1)\<lparr>cw_accepted := [5], cw_passed := [5 :: nat], cw_arrived := [5]\<rparr>"
  have s: "prw_steps (\<lambda>_. False) (new_world 1) [Arrive, Send, TakeOk] ?w"
    by (rule prw_steps.step, rule arrive [where m = 5], rule prw_steps.step, rule send [where us = "[]" and m = 5 and vs = "[]"], simp_all add: new_world_def,
        rule prw_steps.step, rule take_ok [where m = 5 and ms = "[]"], simp_all)
  from prw_batches_in_order [OF s] s show ?thesis by (intro exI [of _ ?w]) simp
qed

theorem prw_stalls_after_flush_error_witness:
  "\<exists>w w' :: nat chan_world. prw_steps (\<lambda>m. m = 5) (new_world 0) [Arrive, HandOverErr] w \<and> prw_steps (\<lambda>m. m = 5) w [Arrive] w' \<and> cw_waiting w' = [6] \<and>
     {e. \<exists>w''. prw_step (\<lambda>m. m = 5) w' e w''} \<inter> {Send, HandOverOk, HandOverErr} = {}"
proof -
  let ?w = "(new_world 0)\<lparr>cw_accepted := [5], cw_passed := [5 :: nat], cw_loop := LoopReturned, cw_arrived := [5]\<rparr>" and ?f = "\<lambda>m. m = (5 :: nat)"
  have s: "prw_steps ?f (new_world 0) [Arrive, HandOverErr] ?w"
    by (rule prw_steps.step, rule arrive [where m = 5], rule prw_steps.step, rule hand_over_err [where us = "[]" and m = 5 and vs = "[]"], simp_all add: new_world_def)
  have t: "prw_steps ?f ?w [Arrive] (?w\<lparr>cw_waiting := [6], cw_arrived := [5, 6]\<rparr>)"
    using prw_steps.step [OF arrive [of ?f ?w 6] prw_steps.nil] by (simp add: new_world_def)
  from prw_stalls_after_flush_error [OF s _ t] have "{e. \<exists>w''. prw_step ?f (?w\<lparr>cw_waiting := [6], cw_arrived := [5, 6]\<rparr>) e w''} \<inter> {Send, HandOverOk, HandOverErr} = {}"
    by (auto simp: new_world_def)
  with s t show ?thesis by (intro exI [of _ ?w] exI [of _ "?w\<lparr>cw_waiting := [6], cw_arrived := [5, 6]\<rparr>"]) simp
qed

theorem prw_request_answered_witness:
  "fst (prw_handler cvttsd2sq id (Inr (demo_write\<lparr>wr_Timeseries := [\<lparr>ts_Labels = [], ts_Samples = []\<rparr>]\<rparr>)) newPrometheusRemoteOtelParser) =
     (Respond 400 :: unit handler_result)"
  using prw_request_answered [OF demo_parser prod.collapse [symmetric],
      of cvttsd2sq "Inr (demo_write\<lparr>wr_Timeseries := [\<lparr>ts_Labels = [], ts_Samples = []\<rparr>]\<rparr>)", where ?'h = unit]
  by (simp add: demo_write_def)

end
