(* ===== verification/MetadataProc.thy ===== *)
theory MetadataProc
  imports Pmetric
begin

section \<open>The metadata processor\<close>

text \<open>
  \<open>processor/metadataprocessor\<close>: data points that name a container get the names of its pod, namespace, node and workloads. The
  metadata library is third-party: \<open>querier\<close> is its answer for a container identifier, and the errors of the metadata source
  are arguments.
\<close>

record meta_config =
  mc_MetricPrefix :: string
  mc_MetricPrefixs :: "string list"

record k8s_pod =
  pod_Name :: string
  pod_NS :: string
  pod_NodeName :: string
  pod_Owners :: "(string \<times> string) list"

record metadata_processor =
  mp_cfg :: meta_config
  mp_metaSource :: bool

definition meta_createDefaultConfig :: meta_config where
  "meta_createDefaultConfig = \<lparr>mc_MetricPrefix = ''kindling_'', mc_MetricPrefixs = []\<rparr>"

definition newMetadataProcessor :: "meta_config \<Rightarrow> metadata_processor" where
  "newMetadataProcessor cfg =
     \<lparr>mp_cfg = (if length (mc_MetricPrefix cfg) > 0 then cfg\<lparr>mc_MetricPrefixs := mc_MetricPrefixs cfg @ [mc_MetricPrefix cfg]\<rparr> else cfg),
      mp_metaSource = False\<rparr>"

definition attrs_PutStr :: "string \<Rightarrow> string \<Rightarrow> attrs \<Rightarrow> attrs" where
  "attrs_PutStr k v a = map_store k (ValueStr v) a"

fun put_owners :: "nat \<Rightarrow> (string \<times> string) list \<Rightarrow> attrs \<Rightarrow> attrs" where
  "put_owners index [] a = a"
| "put_owners index (owner # owners) a =
     put_owners (Suc index) owners
       (if index = 0 then attrs_PutStr ''workload_name'' (snd owner) (attrs_PutStr ''workload_kind'' (fst owner) a)
        else
          (let indexStr = dec index in
           attrs_PutStr (''workload_name'' @ indexStr) (snd owner) (attrs_PutStr (''workload_kind'' @ indexStr) (fst owner) a)))"

definition fillPodInfo :: "(string \<Rightarrow> k8s_pod option) \<Rightarrow> attrs \<Rightarrow> attrs" where
  "fillPodInfo querier a =
     (case map_load a ''container_id'' of
        None \<Rightarrow> a
      | Some containerId \<Rightarrow>
          if value_Str containerId = [] then a
          else case querier (value_Str containerId) of
                 None \<Rightarrow> a
               | Some pod \<Rightarrow>
                   put_owners 0 (pod_Owners pod)
                     (attrs_PutStr ''node'' (pod_NodeName pod) (attrs_PutStr ''namespace'' (pod_NS pod) (attrs_PutStr ''pod'' (pod_Name pod) a))))"

definition fill_numbers :: "(attrs \<Rightarrow> attrs) \<Rightarrow> number_point list \<Rightarrow> number_point list" where
  "fill_numbers f dps = map (\<lambda>dp. dp\<lparr>np_Attributes := f (np_Attributes dp)\<rparr>) dps"

definition fill_others :: "(attrs \<Rightarrow> attrs) \<Rightarrow> 'h other_point list \<Rightarrow> 'h other_point list" where
  "fill_others f dps = map (\<lambda>dp. dp\<lparr>op_Attributes := f (op_Attributes dp)\<rparr>) dps"

fun FillWithK8sMetadata :: "(string \<Rightarrow> k8s_pod option) \<Rightarrow> 'h metric_data \<Rightarrow> 'h metric_data" where
  "FillWithK8sMetadata querier (MetricGauge dps) = MetricGauge (fill_numbers (fillPodInfo querier) dps)"
| "FillWithK8sMetadata querier (MetricSum c m dps) = MetricSum c m (fill_numbers (fillPodInfo querier) dps)"
| "FillWithK8sMetadata querier (MetricHistogram dps) = MetricHistogram (fill_others (fillPodInfo querier) dps)"
| "FillWithK8sMetadata querier (MetricExponentialHistogram dps) = MetricExponentialHistogram (fill_others (fillPodInfo querier) dps)"
| "FillWithK8sMetadata querier (MetricSummary dps) = MetricSummary (fill_others (fillPodInfo querier) dps)"
| "FillWithK8sMetadata querier MetricEmpty = MetricEmpty"

fun need_fill :: "string list \<Rightarrow> string \<Rightarrow> bool" where
  "need_fill [] name = False"
| "need_fill (metricPrefix # ps) name = (if has_prefix name metricPrefix then True else need_fill ps name)"

definition consume_metric :: "metadata_processor \<Rightarrow> (string \<Rightarrow> k8s_pod option) \<Rightarrow> 'h pmetric \<Rightarrow> 'h pmetric" where
  "consume_metric m querier metric =
     (if need_fill (mc_MetricPrefixs (mp_cfg m)) (pm_Name metric) then metric\<lparr>pm_Data := FillWithK8sMetadata querier (pm_Data metric)\<rparr> else metric)"

text \<open>The result is what the next consumer gets and what it answers.\<close>

definition meta_ConsumeMetrics ::
  "metadata_processor \<Rightarrow> (string \<Rightarrow> k8s_pod option) \<Rightarrow> ('h metrics \<Rightarrow> 'e option) \<Rightarrow> 'h metrics \<Rightarrow> 'h metrics \<times> 'e option" where
  "meta_ConsumeMetrics m querier nextConsumer md =
     (let md1 = map (\<lambda>rm. rm\<lparr>rm_ScopeMetrics := map (\<lambda>sm. sm\<lparr>sm_Metrics := map (consume_metric m querier) (sm_Metrics sm)\<rparr>) (rm_ScopeMetrics rm)\<rparr>) md
      in (md1, nextConsumer md1))"

definition meta_Start :: "'e option \<Rightarrow> metadata_processor \<Rightarrow> metadata_processor \<times> 'e option" where
  "meta_Start run_err m = (m\<lparr>mp_metaSource := True\<rparr>, run_err)"

definition meta_Shutdown :: "'e option \<Rightarrow> metadata_processor \<Rightarrow> 'e option" where
  "meta_Shutdown stop_err m = (if mp_metaSource m then stop_err else None)"

subsection \<open>The attributes of a pod\<close>

fun owner_attrs :: "nat \<Rightarrow> (string \<times> string) list \<Rightarrow> (string \<times> string) list" where
  "owner_attrs index [] = []"
| "owner_attrs index (owner # owners) =
     (''workload_kind'' @ (if index = 0 then [] else dec index), fst owner) #
     (''workload_name'' @ (if index = 0 then [] else dec index), snd owner) # owner_attrs (Suc index) owners"

definition pod_attrs :: "k8s_pod \<Rightarrow> (string \<times> string) list" where
  "pod_attrs pod = [(''pod'', pod_Name pod), (''namespace'', pod_NS pod), (''node'', pod_NodeName pod)] @ owner_attrs 0 (pod_Owners pod)"

text \<open>The pod of a point: its container is named by a non-empty string and known.\<close>

definition pod_of :: "(string \<Rightarrow> k8s_pod option) \<Rightarrow> attrs \<Rightarrow> k8s_pod option" where
  "pod_of querier a =
     (case map_load a ''container_id'' of
        Some v \<Rightarrow> if value_Str v = [] then None else querier (value_Str v)
      | None \<Rightarrow> None)"

lemma put_owners_fold: "put_owners i os a = fold (\<lambda>(k, v). attrs_PutStr k v) (owner_attrs i os) a"
  by (induction i os a rule: put_owners.induct) (auto simp: Let_def)

lemma fillPodInfo_fold:
  "fillPodInfo querier a = (case pod_of querier a of Some pod \<Rightarrow> fold (\<lambda>(k, v). attrs_PutStr k v) (pod_attrs pod) a | None \<Rightarrow> a)"
  by (auto simp: fillPodInfo_def pod_of_def pod_attrs_def put_owners_fold split: option.splits)

definition index_text :: "nat \<Rightarrow> string" where
  "index_text i = (if i = 0 then [] else dec i)"

lemma index_text_inj: "index_text i = index_text j \<longleftrightarrow> i = j"
  using dec_inj [of i j] dec_nonempty [of i, symmetric] dec_nonempty [of j, symmetric] by (auto simp: index_text_def simp del: dec_nonempty)

lemma owner_attrs_text:
  "owner_attrs i (owner # owners) =
     (''workload_kind'' @ index_text i, fst owner) # (''workload_name'' @ index_text i, snd owner) # owner_attrs (Suc i) owners"
  by (simp add: index_text_def)

lemma owner_keys:
  "k \<in> fst ` set (owner_attrs i os) \<Longrightarrow> \<exists>j \<ge> i. k = ''workload_kind'' @ index_text j \<or> k = ''workload_name'' @ index_text j"
proof (induction os arbitrary: i)
  case (Cons owner owners)
  then consider "k = ''workload_kind'' @ index_text i" | "k = ''workload_name'' @ index_text i" | "k \<in> fst ` set (owner_attrs (Suc i) owners)"
    by (auto simp only: owner_attrs_text list.set image_insert fst_conv insert_iff)
  then show ?case
  proof cases
    case 3
    from Cons.IH [OF this] show ?thesis using Suc_leD by blast
  qed blast+
qed simp

lemma owner_keys_distinct: "distinct (map fst (owner_attrs i os))"
proof (induction os arbitrary: i)
  case (Cons owner owners)
  have "k \<notin> fst ` set (owner_attrs (Suc i) owners)"
    if k: "k = ''workload_kind'' @ index_text i \<or> k = ''workload_name'' @ index_text i" for k
  proof
    assume "k \<in> fst ` set (owner_attrs (Suc i) owners)"
    from owner_keys [OF this] obtain j where "Suc i \<le> j" "k = ''workload_kind'' @ index_text j \<or> k = ''workload_name'' @ index_text j" by blast
    with k show False by (auto simp: index_text_inj)
  qed
  with Cons show ?case by (simp add: owner_attrs_text del: owner_attrs.simps)
qed simp

lemma pod_keys_distinct: "distinct (map fst (pod_attrs pod))"
  using owner_keys_distinct [of 0 "pod_Owners pod"] owner_keys [of _ 0 "pod_Owners pod"] by (fastforce simp: pod_attrs_def)

lemma container_id_kept: "''container_id'' \<notin> fst ` set (pod_attrs pod)"
  using owner_keys [of "''container_id''" 0 "pod_Owners pod"] by (auto simp: pod_attrs_def)

lemma load_fold_PutStr:
  "distinct (map fst kvs) \<Longrightarrow>
   map_load (fold (\<lambda>(k, v). attrs_PutStr k v) kvs a) k = (case map_of kvs k of Some v \<Rightarrow> Some (ValueStr v) | None \<Rightarrow> map_load a k)"
proof (induction kvs arbitrary: a)
  case (Cons kv kvs)
  show ?case
  proof (cases "fst kv = k")
    case True
    with Cons.prems have "map_of kvs k = None" by (auto simp: map_of_eq_None_iff)
    with Cons True show ?thesis by (cases kv) (auto simp: attrs_PutStr_def)
  next
    case False
    with Cons show ?thesis by (cases kv) (auto simp: attrs_PutStr_def split: option.splits)
  qed
qed simp

lemma fill_load:
  "map_load (fillPodInfo querier a) k =
     (case pod_of querier a of
        Some pod \<Rightarrow> (case map_of (pod_attrs pod) k of Some v \<Rightarrow> Some (ValueStr v) | None \<Rightarrow> map_load a k)
      | None \<Rightarrow> map_load a k)"
  by (auto simp: fillPodInfo_fold load_fold_PutStr pod_keys_distinct split: option.splits)

lemma fill_pod_of: "pod_of querier (fillPodInfo querier a) = pod_of querier a"
proof -
  have "map_load (fillPodInfo querier a) ''container_id'' = map_load a ''container_id''"
    using container_id_kept by (auto simp: fill_load map_of_eq_None_iff split: option.splits dest!: map_of_SomeD)
      (metis container_id_kept fst_conv image_eqI)
  then show ?thesis by (simp only: pod_of_def)
qed

lemma fold_PutStr_wf: "gomap_wf a \<Longrightarrow> gomap_wf (fold (\<lambda>(k, v). attrs_PutStr k v) kvs a)"
  by (induction kvs arbitrary: a) (auto simp: attrs_PutStr_def wf_store)

lemma fill_wf: "gomap_wf a \<Longrightarrow> gomap_wf (fillPodInfo querier a)"
  by (auto simp: fillPodInfo_fold fold_PutStr_wf split: option.splits)

text \<open>Storing what is there already changes nothing.\<close>

lemma store_same: "map_load m k = Some v \<Longrightarrow> gomap_wf m \<Longrightarrow> map_store k v m = m"
  by (induction m) (auto simp: map_store_def gomap_wf_def split: if_splits)

lemma fold_PutStr_same:
  "gomap_wf a \<Longrightarrow> (\<forall>(k, v) \<in> set kvs. map_load a k = Some (ValueStr v)) \<Longrightarrow> fold (\<lambda>(k, v). attrs_PutStr k v) kvs a = a"
  by (induction kvs) (auto simp: attrs_PutStr_def store_same)

lemma fill_idempotent:
  assumes "gomap_wf a"
  shows "fillPodInfo querier (fillPodInfo querier a) = fillPodInfo querier a"
proof (cases "pod_of querier a")
  case None
  then show ?thesis by (simp add: fillPodInfo_fold)
next
  case (Some pod)
  have "\<forall>(k, v) \<in> set (pod_attrs pod). map_load (fillPodInfo querier a) k = Some (ValueStr v)"
    using pod_keys_distinct [of pod] by (auto simp: fill_load Some)
  from fold_PutStr_same [OF fill_wf [OF assms] this] show ?thesis
    by (simp add: fillPodInfo_fold [of querier "fillPodInfo querier a"] fill_pod_of Some)
qed

subsection \<open>Properties\<close>

text \<open>Everything but the attributes of the points.\<close>

definition bare :: "'h metric_data \<Rightarrow> 'h metric_data" where
  "bare d = (case d of
     MetricGauge ps \<Rightarrow> MetricGauge (fill_numbers (\<lambda>_. []) ps)
   | MetricSum c m ps \<Rightarrow> MetricSum c m (fill_numbers (\<lambda>_. []) ps)
   | MetricHistogram ps \<Rightarrow> MetricHistogram (fill_others (\<lambda>_. []) ps)
   | MetricExponentialHistogram ps \<Rightarrow> MetricExponentialHistogram (fill_others (\<lambda>_. []) ps)
   | MetricSummary ps \<Rightarrow> MetricSummary (fill_others (\<lambda>_. []) ps)
   | MetricEmpty \<Rightarrow> MetricEmpty)"

lemma FillWithK8sMetadata_attrs: "point_attrs (FillWithK8sMetadata querier d) = map (fillPodInfo querier) (point_attrs d)"
  by (cases d) (simp_all add: fill_numbers_def fill_others_def comp_def)

lemma FillWithK8sMetadata_bare: "bare (FillWithK8sMetadata querier d) = bare d"
  by (cases d) (simp_all add: bare_def fill_numbers_def fill_others_def comp_def)

lemma need_fill_iff: "need_fill ps name \<longleftrightarrow> (\<exists>p \<in> set ps. has_prefix name p)"
  by (induction ps) auto

lemma ConsumeMetrics_all: "all_metrics (fst (meta_ConsumeMetrics m querier nxt md)) = map (consume_metric m querier) (all_metrics md)"
  by (simp add: meta_ConsumeMetrics_def all_metrics_def map_concat comp_def Let_def)

text \<open>C34: What a data point becomes: with a known container it carries the name, namespace and node of the pod and, for every owner, its kind and
  name under keys numbered from the second owner on, none of which hides another; every other attribute keeps its value. Any other point
  stays as it is. Filling a second time changes nothing.\<close>

theorem pod_metadata_filled:
  assumes "gomap_wf a"
  shows "(\<forall>k. map_load (fillPodInfo querier a) k =
     (case pod_of querier a of
        Some pod \<Rightarrow> (case map_of (pod_attrs pod) k of Some v \<Rightarrow> Some (ValueStr v) | None \<Rightarrow> map_load a k)
      | None \<Rightarrow> map_load a k)) \<and>
    (\<forall>pod. distinct (map fst (pod_attrs pod))) \<and> fillPodInfo querier (fillPodInfo querier a) = fillPodInfo querier a"
  using assms by (simp add: fill_load pod_keys_distinct fill_idempotent)

text \<open>C33: The processor touches only what it should: the batch that goes on has the same metrics in the same order with the same names, units, types,
  values and times, and attribute keys stay unique; exactly the metrics whose name starts with one of the configured prefixes have their points
  filled, and the answer is that of the next consumer.\<close>

theorem metadata_only_adds_attributes:
  assumes "metrics_wf md" "meta_ConsumeMetrics m querier nxt md = (md', err)"
  shows "metrics_wf md' \<and> err = nxt md' \<and>
    list_all2 (\<lambda>x y. pm_Name y = pm_Name x \<and> pm_Unit y = pm_Unit x \<and> bare (pm_Data y) = bare (pm_Data x) \<and>
      point_attrs (pm_Data y) =
        map (if \<exists>p \<in> set (mc_MetricPrefixs (mp_cfg m)). has_prefix (pm_Name x) p then fillPodInfo querier else id) (point_attrs (pm_Data x)))
      (all_metrics md) (all_metrics md')"
proof -
  have all: "all_metrics md' = map (consume_metric m querier) (all_metrics md)" and "err = nxt md'"
    using ConsumeMetrics_all [of m querier nxt md] assms(2) by (auto simp: meta_ConsumeMetrics_def Let_def)
  moreover have "metrics_wf md'"
    using assms(1) by (auto simp: metrics_wf_def all consume_metric_def FillWithK8sMetadata_attrs fill_wf)
  moreover have "list_all2 (\<lambda>x y. pm_Name y = pm_Name x \<and> pm_Unit y = pm_Unit x \<and> bare (pm_Data y) = bare (pm_Data x) \<and>
      point_attrs (pm_Data y) =
        map (if \<exists>p \<in> set (mc_MetricPrefixs (mp_cfg m)). has_prefix (pm_Name x) p then fillPodInfo querier else id) (point_attrs (pm_Data x)))
      (all_metrics md) (all_metrics md')"
    by (simp add: all list.rel_map list_all2_same consume_metric_def need_fill_iff FillWithK8sMetadata_attrs FillWithK8sMetadata_bare)
  ultimately show ?thesis by simp
qed

definition demo_pod :: "string \<Rightarrow> k8s_pod option" where
  "demo_pod cid = (if cid = ''c1'' then Some \<lparr>pod_Name = ''p'', pod_NS = ''n'', pod_NodeName = ''w'', pod_Owners = [(''RS'', ''r''), (''Deploy'', ''d'')]\<rparr> else None)"

theorem pod_metadata_filled_witness:
  "map_load (fillPodInfo demo_pod [(''container_id'', ValueStr ''c1'')]) ''workload_kind1'' = Some (ValueStr ''Deploy'')"
proof -
  have "dec 1 = ''1''" by code_simp
  then show ?thesis
    using pod_metadata_filled [of "[(''container_id'', ValueStr ''c1'')]" demo_pod]
    by (simp add: pod_of_def demo_pod_def pod_attrs_def gomap_wf_def)
qed

definition demo_metrics :: "unit metrics" where
  "demo_metrics = [\<lparr>rm_Resource = [], rm_ScopeMetrics = [\<lparr>sm_ScopeName = [], sm_ScopeVersion = [],
     sm_Metrics = [\<lparr>pm_Name = ''kindling_x'', pm_Unit = [], pm_Data = MetricGauge [empty_point\<lparr>np_Attributes := [(''container_id'', ValueStr ''c1'')]\<rparr>]\<rparr>,
                   \<lparr>pm_Name = ''other'', pm_Unit = [], pm_Data = MetricEmpty\<rparr>]\<rparr>]\<rparr>]"

theorem metadata_only_adds_attributes_witness:
  "let (md', err) = meta_ConsumeMetrics (newMetadataProcessor meta_createDefaultConfig) demo_pod (\<lambda>_. None :: string option) demo_metrics in
   metrics_wf md' \<and> map pm_Name (all_metrics md') = [''kindling_x'', ''other''] \<and>
   point_attrs (pm_Data (hd (all_metrics md'))) = [fillPodInfo demo_pod [(''container_id'', ValueStr ''c1'')]]"
proof -
  have wf: "metrics_wf demo_metrics" by (simp add: metrics_wf_def all_metrics_def demo_metrics_def empty_point_def gomap_wf_def)
  obtain md' err where r: "meta_ConsumeMetrics (newMetadataProcessor meta_createDefaultConfig) demo_pod (\<lambda>_. None :: string option) demo_metrics = (md', err)"
    by fastforce
  have demo: "all_metrics demo_metrics = [\<lparr>pm_Name = ''kindling_x'', pm_Unit = [],
      pm_Data = MetricGauge [empty_point\<lparr>np_Attributes := [(''container_id'', ValueStr ''c1'')]\<rparr>]\<rparr>, \<lparr>pm_Name = ''other'', pm_Unit = [], pm_Data = MetricEmpty\<rparr>]"
    by (simp add: all_metrics_def demo_metrics_def)
  have "metrics_wf md' \<and> map pm_Name (all_metrics md') = [''kindling_x'', ''other''] \<and>
      point_attrs (pm_Data (hd (all_metrics md'))) = [fillPodInfo demo_pod [(''container_id'', ValueStr ''c1'')]]"
    using metadata_only_adds_attributes [OF wf r]
    by (auto simp: demo list_all2_Cons1 newMetadataProcessor_def meta_createDefaultConfig_def has_prefix_def)
  then show ?thesis by (simp only: r Let_def prod.case)
qed

end
