(* ===== verification/Pipeline.thy ===== *)
theory Pipeline
  imports RedConnector TraceBlock OtlpReceiver Skywalking Endpoint PromServer MetadataProc
begin

section \<open>Pipelines\<close>

text \<open>
  Lemmas on components that are connected: receivers that name the process behind a peer, the trace-block processor, and the RED
  connector that aggregates under the name of the process; remote write followed by the metadata processor. The properties themselves are in
  \<open>Spec2Isabelle\<close>.
\<close>

subsection \<open>Skywalking segments in the RED metrics\<close>

text \<open>The connector ignores spans that do not end after they start.\<close>

definition span_lasts :: "span \<Rightarrow> bool" where
  "span_lasts sp \<longleftrightarrow> sp_StartTimestamp sp < sp_EndTimestamp sp"

text \<open>The entry span of a Skywalking segment, when it lasts: the one that the server metrics are meant to count.\<close>

definition entry_of_segment :: "sw_span \<Rightarrow> bool" where
  "entry_of_segment s \<longleftrightarrow> sw_SpanType s = SpanType_Entry \<and> sw_SpanId s = 0 \<and>
     microsecondsToTimestamp (sw_StartTime s) < microsecondsToTimestamp (sw_EndTime s)"

text \<open>The caller whose calls are aggregated: a process, the first twelve characters of its container, a service.\<close>

definition process_caller :: "int \<Rightarrow> string \<Rightarrow> string \<Rightarrow> caller" where
  "process_caller pid containerId service =
     \<lparr>ca_pid = dec_int pid, ca_containerId = take 12 containerId, ca_serviceName = service, ca_entryUrl = []\<rparr>"

text \<open>Any sequence of calls adds one to the server family for each lasting span that counts there.\<close>

lemma calls_counted:
  assumes "lru_laws (rt_lru rt) look"
  shows "conn_inv look p \<Longrightarrow> \<exists>p'. aggregate_calls rt cs p = Some p' \<and> conn_inv look p' \<and> co_config p' = co_config p \<and>
    fam_total (rt_float rt) (co_server p') = fam_total (rt_float rt) (co_server p) +
      of_nat (length (filter (\<lambda>c. span_lasts (snd c) \<and> server_counts (co_config p) (snd c)) cs))"
proof (induction cs arbitrary: p)
  case Nil
  then show ?case by (simp add: aggregate_calls_def)
next
  case (Cons c cs)
  obtain ca sp where c: "c = (ca, sp)" by (cases c)
  obtain p1 where p1: "aggregateMetricsForSpan rt ca sp p = Some p1" "conn_inv look p1" "co_config p1 = co_config p"
    "fam_total (rt_float rt) (co_server p1) =
       fam_total (rt_float rt) (co_server p) + (if span_lasts sp \<and> server_counts (co_config p) sp then 1 else 0)"
  proof (cases "span_lasts sp")
    case True
    then show ?thesis
      using aggregate_step [OF assms Cons.prems, of sp ca] that by (auto simp: span_lasts_def same_setup_def)
  next
    case False
    then show ?thesis using aggregate_early [of sp rt ca p] that Cons.prems by (auto simp: span_lasts_def)
  qed
  from Cons.IH [OF p1(2)] p1 show ?case by (auto simp: c aggregate_calls_def)
qed

lemma load_PutInt [simp]: "map_load (PutInt k v m) j = (if j = k then Some (ValueInt v) else map_load m j)"
  by (simp add: PutInt_def)

lemma load_PutStr [simp]: "map_load (PutStr k v m) j = (if j = k then Some (ValueStr v) else map_load m j)"
  by (simp add: PutStr_def)

lemma take12: "(if length xs > 12 then take 12 xs else xs) = take 12 xs"
  by simp

lemma dec_int_nonempty: "dec_int i \<noteq> []"
  by (simp add: dec_int_def)

lemma segment_calls:
  assumes "ProtoToTraces lib seg pid cid = Some td" "pid > 0" "cid \<noteq> []" "sg_Service seg \<noteq> []"
  shows "plain_calls td = map (Pair (process_caller pid cid (sg_Service seg))) (traces_spans td)"
  using assms
  by (auto simp: ProtoToTraces_def plain_calls_def process_caller_def GetResourceAttribute_def GetPid_def GetContainerId_def traces_spans_def
      rs_spans_def dec_int_nonempty Let_def bind_eq_Some_conv split: option.splits)

lemma converted_entry:
  assumes "swSpanToSpan lib t g s = Some sp"
  shows "span_lasts sp \<and> server_counts cfg sp \<longleftrightarrow> rc_ServerEnabled cfg \<and> entry_of_segment s"
  using assms
  by (auto simp: swSpanToSpan_def bind_eq_Some_conv span_lasts_def server_counts_def entry_of_segment_def setSwSpanIDToAttributes_def sw_kind_def
      Let_def split: if_splits)

lemma converted_entries:
  assumes "ProtoToTraces lib seg pid cid = Some td"
  shows "length (filter (\<lambda>sp. span_lasts sp \<and> server_counts cfg sp) (traces_spans td)) =
    (if rc_ServerEnabled cfg then length (filter entry_of_segment (sw_spans seg)) else 0)"
proof -
  have "length (filter (\<lambda>sp. span_lasts sp \<and> server_counts cfg sp) ys) = (if rc_ServerEnabled cfg then length (filter entry_of_segment xs) else 0)"
    if "list_all2 (\<lambda>s sp. swSpanToSpan lib t g s = Some sp) xs ys" for t g xs ys
    using that by (induction rule: list_all2_induct) (auto simp: converted_entry)
  with ProtoToTraces_spans [OF assms] show ?thesis by blast
qed

subsection \<open>Peers of the OTLP receiver in the RED metrics\<close>

text \<open>What a resource says of itself, and whether the receiver takes the process of the peer for it: it carries no number of its own from Beyla and names
  no other container.\<close>

definition own_service :: "resource_spans \<Rightarrow> string" where
  "own_service rs = (case map_load (rs_Resource rs) AttributeServiceName of Some v \<Rightarrow> value_Str v | None \<Rightarrow> [])"

definition own_container :: "string \<Rightarrow> resource_spans \<Rightarrow> string" where
  "own_container cid rs = (if cid \<noteq> [] then cid else GetContainerId (rs_Resource rs))"

definition takes_peer :: "string \<Rightarrow> resource_spans \<Rightarrow> bool" where
  "takes_peer cid rs \<longleftrightarrow> getBeylaPid (rs_Resource rs) \<le> 0 \<and> getContainerId (rs_Resource rs) \<in> {[], cid} \<and> own_service rs \<noteq> []"

lemma filled_caller:
  assumes "takes_peer cid rs" "pid > 0" "fillPidAndContainerId ops ext pid cid (rs_Resource rs) = Some a"
  shows "GetResourceAttribute (rs\<lparr>rs_Resource := a\<rparr>) = (dec_int pid, own_service rs, take 12 (own_container cid rs))"
proof -
  have "map_load a AttributeServiceName = map_load (rs_Resource rs) AttributeServiceName" "GetPid a = pid" "GetContainerId a = own_container cid rs"
    using assms by (auto simp: takes_peer_def fillPidAndContainerId_def put_proc_def GetPid_def GetContainerId_def own_container_def Let_def
        cong: option.case_cong split: if_splits)
  with assms(1,2) show ?thesis by (auto simp: GetResourceAttribute_def takes_peer_def own_service_def Let_def split: option.splits)
qed

lemma filled_calls:
  assumes "fill_resources ops ext pid cid td = Some td'" "pid > 0" "\<forall>rs \<in> set td. takes_peer cid rs"
  shows "plain_calls td' = concat (map (\<lambda>rs. map (Pair (process_caller pid (own_container cid rs) (own_service rs))) (rs_spans rs)) td)"
  using assms
proof (induction td arbitrary: td')
  case (Cons rs td)
  then obtain a td1 where a: "fillPidAndContainerId ops ext pid cid (rs_Resource rs) = Some a" "fill_resources ops ext pid cid td = Some td1"
      "td' = rs\<lparr>rs_Resource := a\<rparr> # td1" by (auto simp: bind_eq_Some_conv)
  have "plain_calls [rs\<lparr>rs_Resource := a\<rparr>] = map (Pair (process_caller pid (own_container cid rs) (own_service rs))) (rs_spans rs)"
    using filled_caller [OF _ Cons.prems(2) a(1)] Cons.prems(3)
    by (simp add: plain_calls_def process_caller_def dec_int_nonempty takes_peer_def rs_spans_def)
  moreover have "plain_calls td' = plain_calls [rs\<lparr>rs_Resource := a\<rparr>] @ plain_calls td1" by (simp add: a(3) plain_calls_def)
  ultimately show ?case using Cons.IH [OF a(2) Cons.prems(2)] Cons.prems(3) by simp
qed (simp add: plain_calls_def)

lemma labelled_reported:
  assumes "fill_resources ops ext pid cid td = Some td'" "pid > 0" "\<forall>rs \<in> set td. takes_peer cid rs"
  shows "\<forall>rs \<in> set td'. reported_resource rs"
  using assms
proof (induction td arbitrary: td')
  case (Cons rs td)
  then obtain a td1 where a: "fillPidAndContainerId ops ext pid cid (rs_Resource rs) = Some a" "fill_resources ops ext pid cid td = Some td1"
      "td' = rs\<lparr>rs_Resource := a\<rparr> # td1" by (auto simp: bind_eq_Some_conv)
  with Cons.IH [OF a(2) Cons.prems(2)] filled_caller [OF _ Cons.prems(2) a(1)] Cons.prems(3) show ?case
    by (simp add: reported_resource_def dec_int_nonempty takes_peer_def)
qed simp

subsection \<open>The trace-block processor in front of the connector\<close>

text \<open>The connector after a processor that forwards a batch or nothing.\<close>

definition red_after :: "'l red_rt \<Rightarrow> int \<Rightarrow> traces option \<Rightarrow> 'l connector_imp \<Rightarrow> 'l connector_imp option" where
  "red_after rt now out p = (case out of None \<Rightarrow> Some p | Some td \<Rightarrow> red_ConsumeTraces rt now td p)"

lemma filter_spans_subset: "set (snd (filter_spans api clock sps st)) \<subseteq> set sps"
proof -
  obtain n p where st: "st = (n, p)" by (cases st)
  let ?ds = "snd (decisions api clock n sps p)"
  have "snd (filter_spans api clock sps st) = kept_spans ?ds" by (simp add: st filter_spans_eq split_def Let_def)
  moreover have "set (kept_spans ?ds) \<subseteq> set (map fst ?ds)" by auto
  ultimately show ?thesis by (simp only: decisions_spans)
qed

lemma filter_scopes_subset: "set (concat (map ss_Spans (snd (filter_scopes api clock sss st)))) \<subseteq> set (concat (map ss_Spans sss))"
proof (induction sss arbitrary: st)
  case (Cons ss sss)
  show ?case
    using Cons.IH [of "fst (filter_spans api clock (ss_Spans ss) st)"] filter_spans_subset [of api clock "ss_Spans ss" st]
    by (auto simp: Let_def split_def)
qed simp

lemma filter_resources_subset:
  "r \<in> set (snd (filter_resources api clock td st)) \<Longrightarrow> \<exists>r0 \<in> set td. rs_Resource r = rs_Resource r0 \<and> set (rs_spans r) \<subseteq> set (rs_spans r0)"
proof (induction td arbitrary: st)
  case (Cons r0 td)
  let ?sc = "filter_scopes api clock (rs_ScopeSpans r0) st"
  have "set (rs_spans (r0\<lparr>rs_ScopeSpans := snd ?sc\<rparr>)) \<subseteq> set (rs_spans r0)"
    unfolding rs_spans_def using filter_scopes_subset [of api clock "rs_ScopeSpans r0" st] by simp
  moreover have "r = r0\<lparr>rs_ScopeSpans := snd ?sc\<rparr> \<or> r \<in> set (snd (filter_resources api clock td (fst ?sc)))"
    using Cons.prems by (auto simp: Let_def split_def split: if_splits)
  ultimately show ?case using Cons.IH [of "fst ?sc"] by auto
qed simp

lemma GetResourceAttribute_cong:
  assumes "rs_Resource r = rs_Resource r0"
  shows "GetResourceAttribute r = GetResourceAttribute r0"
  unfolding GetResourceAttribute_def assms ..

lemma set_plain_calls: "set (plain_calls td) = (\<Union>r \<in> set td. set (plain_calls [r]))"
  by (simp add: plain_calls_def)

lemma plain_calls_mono:
  "GetResourceAttribute r = GetResourceAttribute r0 \<Longrightarrow> set (rs_spans r) \<subseteq> set (rs_spans r0) \<Longrightarrow> set (plain_calls [r]) \<subseteq> set (plain_calls [r0])"
  by (cases "GetResourceAttribute r0" rule: prod_cases3) (auto simp: plain_calls_def)

lemma filtered_calls: "set (plain_calls (snd (filter_resources api clock td st))) \<subseteq> set (plain_calls td)"
proof
  fix c assume "c \<in> set (plain_calls (snd (filter_resources api clock td st)))"
  then obtain r where r: "r \<in> set (snd (filter_resources api clock td st))" "c \<in> set (plain_calls [r])"
    unfolding set_plain_calls [of "snd (filter_resources api clock td st)"] by blast
  from filter_resources_subset [OF r(1)] obtain r0 where "r0 \<in> set td" "GetResourceAttribute r = GetResourceAttribute r0"
    "set (rs_spans r) \<subseteq> set (rs_spans r0)" using GetResourceAttribute_cong by blast
  with r(2) plain_calls_mono show "c \<in> set (plain_calls td)" unfolding set_plain_calls [of td] by blast
qed

lemma reported_calls: "\<forall>rs \<in> set td. reported_resource rs \<Longrightarrow> map snd (plain_calls td) = traces_spans td"
  by (induction td) (auto simp: plain_calls_def traces_spans_def reported_resource_def comp_def split: prod.splits)

lemma length_filter_snd: "map snd cs = xs \<Longrightarrow> length (filter (\<lambda>c. P (snd c)) cs) = length (filter P xs)"
  by (auto simp: filter_map comp_def)

text \<open>Trace-block processor and connector together: exactly the spans that are not dropped are counted, and only under callers of the batch.\<close>

lemma block_then_red:
  assumes con: "lru_laws (rt_lru rt) look" "conn_inv look p" "co_entryUrlCache p = None" and td: "\<forall>rs \<in> set td. reported_resource rs"
    and block: "tbp_ConsumeTraces api next_err clock td b = (b', out, e)"
  shows "\<exists>p'. red_after rt now out p = Some p' \<and> conn_inv look p' \<and>
    fam_total (rt_float rt) (co_server p') = fam_total (rt_float rt) (co_server p) +
      of_nat (length (filter (\<lambda>sp. span_lasts sp \<and> server_counts (co_config p) sp) (kept_spans (snd (decisions api clock 0 (traces_spans td) b)))))"
    "set (plain_calls (case out of None \<Rightarrow> [] | Some td1 \<Rightarrow> td1)) \<subseteq> set (plain_calls td)"
proof -
  let ?td1 = "snd (filter_resources api clock td (0, b))"
  let ?P = "\<lambda>sp. span_lasts sp \<and> server_counts (co_config p) sp"
  have out: "out = (if ?td1 = [] then None else Some ?td1)"
    using block by (auto simp: tbp_ConsumeTraces_def Let_def split_def split: if_splits)
  have kept: "traces_spans ?td1 = kept_spans (snd (decisions api clock 0 (traces_spans td) b))" using filter_resources_eq by blast
  have "\<forall>rs \<in> set ?td1. reported_resource rs"
    using filter_resources_subset [of _ api clock td "(0, b)"] td GetResourceAttribute_cong unfolding reported_resource_def by metis
  from length_filter_snd [OF reported_calls [OF this], of ?P] kept
  have count: "length (filter (\<lambda>c. ?P (snd c)) (plain_calls ?td1)) = length (filter ?P (kept_spans (snd (decisions api clock 0 (traces_spans td) b))))"
    by simp
  from calls_counted [OF con(1,2), of "plain_calls ?td1"] obtain p' where
    p': "red_ConsumeTraces rt now ?td1 p = Some p'" "conn_inv look p'"
      "fam_total (rt_float rt) (co_server p') = fam_total (rt_float rt) (co_server p) + of_nat (length (filter (\<lambda>c. ?P (snd c)) (plain_calls ?td1)))"
    unfolding consume_without_cache [OF con(3)] by blast
  have "red_after rt now out p = Some p'"
    using p'(1) consume_without_cache [OF con(3), of rt now "[]"] by (auto simp: out red_after_def plain_calls_def aggregate_calls_def)
  with p'(2,3) show "\<exists>p'. red_after rt now out p = Some p' \<and> conn_inv look p' \<and>
    fam_total (rt_float rt) (co_server p') = fam_total (rt_float rt) (co_server p) +
      of_nat (length (filter ?P (kept_spans (snd (decisions api clock 0 (traces_spans td) b)))))"
    unfolding count by blast
  show "set (plain_calls (case out of None \<Rightarrow> [] | Some td1 \<Rightarrow> td1)) \<subseteq> set (plain_calls td)"
    using filtered_calls [of api clock td "(0, b)"] by (simp add: out plain_calls_def)
qed

text \<open>Reports of the back-sampling processor and metrics of the connector name the same process, service and container, for process numbers
  of 32 bits.\<close>

lemma process_identity_agrees:
  assumes "GetPid (rs_Resource rs) < 2 ^ 32" "getAppInfo (rs_Resource rs) = (pid, service, container)" "pid \<noteq> 0"
  shows "GetResourceAttribute rs = (dec_int (uint pid), service, container)"
  using assms
  by (auto simp: getAppInfo_def GetResourceAttribute_def Let_def uint_word_of_int take_bit_eq_mod split: if_splits option.splits)

subsection \<open>Remote write in front of the metadata processor\<close>

text \<open>Of repeated labels the last one is kept.\<close>

definition container_label :: "time_series \<Rightarrow> string option" where
  "container_label ts = map_of (rev (ts_Labels ts)) ''container_id''"

lemma filter_label: "k \<noteq> ''__name__'' \<Longrightarrow> map_of (rev (filter (\<lambda>l. fst l \<noteq> ''__name__'') labels)) k = map_of (rev labels) k"
  by (induction labels) (auto simp: map_add_def split: option.splits)

lemma sample_point_labels:
  "map_load (np_Attributes (sample_point conv labels s)) k = (if k = ''__name__'' then None else map_option ValueStr (map_of (rev labels) k))"
proof (cases "k = ''__name__''")
  case True
  have "map_of (rev (filter (\<lambda>l. fst l \<noteq> ''__name__'') labels)) ''__name__'' = None" by (auto simp: map_of_eq_None_iff)
  with True show ?thesis by (simp add: sample_point_attrs)
qed (simp add: sample_point_attrs filter_label)

subsection \<open>Examples\<close>

lemma demo_entry_free: "\<exists>p. newConnector demo_rt 0 demo_red_config = Inr p \<and> co_entryUrlCache p = None"
  by (simp add: newConnector_def NewCache_def demo_rt_def demo_lru_def demo_red_config_def red_createDefaultConfig_def Let_def)

definition demo_tomcat :: sw_segment where
  "demo_tomcat = demo_io\<lparr>sg_Spans := Some [Some (demo_sw_span\<lparr>sw_ComponentId := 1\<rparr>)]\<rparr>"

lemma demo_fd_link: "fs_Readlink demo_fs l = Some (socket_link i) \<Longrightarrow> l = ''/proc/7/fd/3''"
  by (auto simp: demo_fs_def socket_link_def split: if_splits)

lemma demo_owner: "owns demo_fs q peer port \<Longrightarrow> pi_ProcessID q = 7"
proof -
  assume "owns demo_fs q peer port"
  then obtain fd where "Path (pi_ProcessID q) [''fd'', fd] = ''/proc/7/fd/3''" by (auto simp: owns_def dest: demo_fd_link)
  then have "dec_int (pi_ProcessID q) @ CHR ''/'' # ''fd/'' @ fd = ''7'' @ CHR ''/'' # ''fd/3''" by (simp add: Path_def)
  moreover have "CHR ''/'' \<notin> set (dec_int (pi_ProcessID q))" using dec_no_char [of "CHR ''/''"] by (auto simp: dec_int_def)
  ultimately have "dec_int (pi_ProcessID q) = ''7''" using append_sep_inj by fastforce
  moreover have "dec_int 7 = ''7''" by code_simp
  ultimately show ?thesis using dec_inj [of "nat (pi_ProcessID q)" 7] by (auto simp: dec_int_def split: if_splits)
qed

definition demo_shop :: traces where
  "demo_shop = [\<lparr>rs_Resource = [(AttributeServiceName, ValueStr ''shop'')],
     rs_ScopeSpans = [\<lparr>ss_Scope = [], ss_Spans = [zero_span\<lparr>sp_Kind := SpanKindServer, sp_EndTimestamp := 5\<rparr>]\<rparr>]\<rparr>]"

definition demo_series :: time_series where
  "demo_series = \<lparr>ts_Labels = [(''__name__'', ''kindling_total''), (''container_id'', ''c1'')], ts_Samples = [\<lparr>sa_Value = Fin 3, sa_Timestamp = 7\<rparr>]\<rparr>"

end
