(* ===== verification/Spec2Isabelle.thy ===== *)
theory Spec2Isabelle
  imports BackSampling OtlpServer SkyReceiver SkyMetrics Pipeline
begin

text \<open>
  \<^bold>\<open>Verification of the APO OpenTelemetry collector components\<close>

  The repository is a distribution of the OpenTelemetry collector: a pipeline of receivers, processors and a
  connector. OTLP, Skywalking and Prometheus remote-write receivers bring data in; the \<open>fillproc\<close> extension tells them which
  process sits behind a peer address. The back-sampling processor decides which traces are kept and tells the
  controller about them, the trace-block processor cuts off traces that never end, the metadata processor adds pod
  names to metrics, and the RED connector turns spans into latency histograms. This development models these
  components function by function, in Go's order, and proves what they promise.

  \<^bold>\<open>Theories and the code they model\<close> (paths below \<open>src/pkg\<close>)

  \<^item> \<open>Prelude\<close>: Go maps, slices, strings, decimal rendering, integer widths, \<open>float64\<close> conversions. \<open>GoStrings\<close>: hexadecimal
    decoding, \<open>strconv\<close>, scanning and addresses of Go's standard library.
  \<^item> \<open>Pdata\<close>: spans, resources, attributes, labels; \<open>fillproc/resource_attr.go\<close>, the grouping of spans by trace. \<open>Pmetric\<close>:
    metrics data.
  \<^item> \<open>Ticker\<close>: \<open>common/timeutils\<close> and its copy in the back-sampling processor. \<open>Shared\<close>: \<open>common/sharedcomponent\<close> and the copy
    in the OTLP receiver. \<open>Endpoint\<close>: \<open>common/localhostgate\<close> and the endpoint handling of the Skywalking receiver.
  \<^item> \<open>extension/fillprocextension\<close>: \<open>ProcFs\<close> (\<open>internal/proc\<close>: socket tables, processes, container identifiers), \<open>FillProc\<close>
    (\<open>socket_cache.go\<close>, \<open>socket_proc.go\<close>).
  \<^item> \<open>receiver/otlpreceiver\<close>: \<open>OtlpReceiver\<close> (services, errors, HTTP handlers, configuration), \<open>OtlpServer\<close> (\<open>otlp.go\<close>,
    \<open>factory.go\<close>).
  \<^item> \<open>receiver/skywalkingreceiver\<close>: \<open>SkyIds\<close>, \<open>SkyComponents\<close> and \<open>Skywalking\<close> (\<open>internal/trace\<close>: identifiers, the component
    table, segments to traces, Undertow pairing), \<open>SkyMetrics\<close> (\<open>internal/metrics\<close>), \<open>SkyReceiver\<close> (configuration, factory,
    start and shutdown, the management service).
  \<^item> \<open>receiver/prometheusremotewritereceiver\<close>: \<open>PromWrite\<close> (translation), \<open>PromServer\<close> (handler, channel, loop).
  \<^item> \<open>processor/backsamplingprocessor\<close>: \<open>Outbox\<close> (\<open>sampler/sample_api.go\<close>, \<open>profile\<close>, \<open>notify\<close>: what is
    sent out), \<open>TraceCache\<close> (\<open>internal/cache\<close>: ring of delayed data and the OTel trace sampler), \<open>Silent\<close> and
    \<open>NormalSampler\<close> (\<open>sampler/silent.go\<close>, \<open>normal_sampler.go\<close>), \<open>Tailbase\<close> (\<open>tailbase_sampler.go\<close>: held
    identifiers and retries), \<open>SampleCache\<close> (\<open>sample_cache.go\<close>, \<open>sampler.go\<close>, \<open>single_sampler.go\<close>: the
    decision), \<open>Adaptive\<close> (\<open>internal/adaptive\<close>), \<open>BackSampling\<close> (\<open>processor.go\<close>: state, \<open>ConsumeTraces\<close>, all
    ticker handlers).
  \<^item> \<open>TraceBlock\<close>: \<open>processor/traceblockprocessor\<close>. \<open>MetadataProc\<close>: \<open>processor/metadataprocessor\<close>.
  \<^item> \<open>connector/redmetricsconnector\<close>: \<open>Histogram\<close>, \<open>RedCache\<close> and \<open>EntryUrl\<close> (\<open>internal/cache\<close>), \<open>KeyParser\<close>
    (\<open>internal/parser\<close>), \<open>RedConnector\<close> (\<open>connector.go\<close>). \<open>SqlPrune\<close> is \<open>sqlprune/sqlparser.go\<close>, which the
    database parser and the Skywalking receiver call.
  \<^item> \<open>Pipeline\<close>: lemmas on components in a row; this theory states the properties of three pipelines.

  \<^bold>\<open>How the model is built\<close>

  A struct is a record with the fields of the source, an operation a function from state to state that keeps
  the source's name (prefixed where two types share it). Go maps are association lists with distinct keys
  (\<open>gomap_wf\<close>), whose order stands for the iteration order. A run-time panic, and a call that does not return,
  is \<open>None\<close>; an error is the left summand of a result. Clock readings, the file system, answers of remote services, marshalling,
  sockets, the LRU library, the SQL library, floating-point rounding and the text of identifiers are arguments
  (\<open>pdata_api\<close>, \<open>float_ops\<close>, \<open>lru_ops\<close>, \<open>sql_lib\<close>, \<open>red_rt\<close>, \<open>proc_fs\<close>, \<open>uds_os\<close>, \<open>sw_lib\<close>, \<open>wire_format\<close>, \<open>host_env\<close> and single functions), with the
  documented laws the theorems need as named predicates (\<open>lru_laws\<close>). Where the code reads a shared length outside its lock,
  reading and cutting are two definitions, so that other calls can be placed between them; where pointers are shared (\<open>Shared\<close>) they
  are positions of an explicit heap; where goroutines meet on a channel (\<open>PromServer\<close>) the actions are the rules of the
  transition system \<open>prw_step\<close>.

  \<^bold>\<open>Interfaces\<close>

  Contracts between components are locales, interpreted on the model: \<open>outbox\<close> (a buffer that is read and cut in two steps;
  sampled traces, profile signals, sampled identifiers), \<open>histogram\<close> (every accepted update is counted once; the
  Prometheus and the VictoriaMetrics histogram), \<open>metric_parser\<close> (the Go interface \<open>Parser\<close>; database, HTTP, RPC, message
  and external keys), \<open>normal_sampler\<close> (the three samplers of normal traces), \<open>fill_proc\<close> (the Go interface \<open>FillProc\<close>; the extension),
  \<open>shared_map\<close> (one component per key; both packages of shared components). The component properties rest on the
  interpretations' facts.

  \<^bold>\<open>What is shown\<close>

  \<^item> Pipelines: from the socket of a peer to the server metrics, OTLP receiver, trace-block processor and RED connector lose and add nothing but what the
    trace-block processor drops, and name the process that owns the socket; the entry span of a Skywalking segment is measured once; samples of
    accepted remote-write requests get the names of their pod. The first two hold without the matching of entry URLs.
  \<^item> Receivers: every trace of a request is forwarded once with the process attributes of its peer; a peer is given the process that
    owns its socket and the container of that process; HTTP answers tell the client whether to retry; one receiver serves all signals of a
    configuration and is started and stopped once, and a failed start leaves no server behind. Skywalking segments keep their
    spans, their tree and their identifiers' format, in either order of an Undertow pair; the garbage-collector, memory-pool, thread and CPU sections of JVM
    metrics arrive completely, the others are dropped. Remote-write series are
    translated with exact values, types and time bounds, and handed on in the order in which they were accepted.
  \<^item> Metadata processor: attributes are only added, and a known container gets the names of its pod.
  \<^item> Back-sampling: no panic on any run, sampled traces are reunited with their cached spans, accounting of spans, the
    delay line that the ring implements, exactly-once delivery under every interleaving, rate limits and quotas,
    nested and exactly proportioned adaptive samples.
  \<^item> Trace block: exact filtering, only long-lived traces are dropped, blocked traces stay blocked.
  \<^item> RED connector: keys identify calls, every span is counted once per family, exports are complete and never fail on
    NUL-free data, exact buckets, bounded tracking; exit spans are matched without loss, entry names are kept for
    the configured number of ticks; the recursive search terminates exactly when the parents do not form a cycle.

  Several theorems document behaviour that the code does not intend: repeated signals, silences that never end, a panic with
  four retries, forgotten rare traces, external histograms that restart, an endless recursion, a race in the clean-up
  of waiting spans, parsed SQL that is always a \<open>SELECT\<close>; cached processes that never expire, IPv6 peers that are never identified, a panic
  of a disabled extension; a remote-write loop that ends at the first error of the next consumer, a shutdown that makes waiting handlers panic, time bounds of a request with
  metadata only; nil sections of JVM metrics, a metrics-only Skywalking receiver with an extension, a gRPC host that is ignored, equal
  URL paths, and crossed status reports that never return. They are stated beside the component they concern.

  \<^bold>\<open>Bounds\<close>

  No definition uses fuel. \<open>GetEntrySpanName\<close> and \<open>report\<close> are partial functions, whose not returning is a value; every other
  loop is structural recursion, or recursion with a measure (\<open>sort_Search\<close>). The counters of histograms and of remote write are 64-bit words that wrap;
  statements about counts are modulo \<open>2 ^ 64\<close> where they say so. The statistics of the back-sampling and of the trace-block processor
  (received, dropped, single, sampled spans), \<open>int64\<close> in the source, are unbounded integers. Conversions of floating-point values that do not fit
  an integer are those of amd64. The HTTP multiplexer is that of Go 1.21.

  \<^bold>\<open>Not modelled\<close>

  Logging and the observability reports; the services that only answer with an empty message; the generated gRPC messages
  (\<open>internal/model\<close>) and metadata; test helpers; sockets, HTTP and gRPC transports, which are arguments; the collector's start-up
  in \<open>cmd\<close>. Requests that are open while a server shuts down: stopping a server is one step. A gRPC peer without a local address, which the
  server transports do not produce.
\<close>

subsection \<open>Pipelines\<close>

text \<open>C6: OTLP receiver with the \<open>fillproc\<close> extension, trace-block processor and RED connector in a row. The extension is in any state it can reach and has
  identified the process of the peer, with a positive number; the addresses of the peer and of the server are not empty. The connector is in a state that satisfies its
  invariant and does not match entry URLs (\<open>client_entry_url_enabled\<close> is off, so it has no entry-URL cache); the LRU library keeps its documented laws. Then a batch that has a span and whose
  resources (\<open>takes_peer\<close>) carry no process number from Beyla, name no other container and name a service that is not empty, passes all three without a panic,
  over gRPC and over HTTP. What the connector aggregates is named after that process, its container (or the container of the resource, if that of the process is unknown)
  and the service of the resource. The server metrics grow by exactly the spans of the batch that the trace-block processor keeps, that end after they start and that count
  as server spans: with server metrics enabled, of kind server or consumer, and those from Skywalking only with number 0.\<close>

theorem otlp_pipeline_measured:
  assumes ext: "fp_run evs (newSocketProcExtension cfg access) = Some s" "\<forall>ev \<in> set evs. ev_ok ev"
    and peer: "ext_cached s (peer_key a) = Some q" "pi_ProcessID q > 0" "a \<noteq> []" "b \<noteq> []"
    and td: "traces_spans td \<noteq> []" "\<forall>rs \<in> set td. takes_peer (pi_ContainerId q) rs"
    and con: "lru_laws (rt_lru rt) look" "conn_inv look p" "co_entryUrlCache p = None"
  shows "\<exists>td' err blk' out e p'. trace_Export socket_proc_ops nc (Some (a, b)) (Some s) td = Some (Some s, Some td', err) \<and>
    trace_ExportHttp socket_proc_ops nc a b (Some s) td = Some (Some s, Some td', err) \<and>
    tbp_ConsumeTraces api next_err clock td' blk = (blk', out, e) \<and>
    (\<forall>(ca, sp) \<in> set (plain_calls (case out of None \<Rightarrow> [] | Some td1 \<Rightarrow> td1)). \<exists>rs \<in> set td. sp \<in> set (rs_spans rs) \<and>
       ca = process_caller (pi_ProcessID q) (own_container (pi_ContainerId q) rs) (own_service rs)) \<and>
    red_after rt now out p = Some p' \<and> conn_inv look p' \<and>
    fam_total (rt_float rt) (co_server p') = fam_total (rt_float rt) (co_server p) +
      of_nat (length (filter (\<lambda>sp. span_lasts sp \<and> server_counts (co_config p) sp)
        (kept_spans (snd (decisions api clock 0 (traces_spans td) blk)))))"
proof -
  let ?pid = "pi_ProcessID q" and ?cid = "pi_ContainerId q"
  have inv: "ext_inv s" by (rule reachable_inv [OF ext])
  have en: "ex_enable s" using inv peer(1) by (auto simp: ext_inv_def ext_cached_def split: option.splits)
  have match: "getMatchPidAndContainerId a b s = Some (s, ?pid, ?cid)" using getMatch_ok [OF inv en, of a b] peer(1) by auto
  then have ask: "fp_Match socket_proc_ops (Some (a, b)) s = Some (s, ?pid, ?cid)" "fp_MatchHttp socket_proc_ops a b s = Some (s, ?pid, ?cid)"
    using en peer(3,4) by (simp_all add: socket_proc_ops_def GetMatchPidAndContainerId_def GetMatchPidAndContainerIdForHttp_def)
  obtain td' where td': "fill_resources socket_proc_ops (Some s) ?pid ?cid td = Some td'" "map rs_ScopeSpans td' = map rs_ScopeSpans td"
    using socket_proc.fill_resources_total [of "Some s" ?pid ?cid td] inv en by auto
  have spans: "traces_spans td' = traces_spans td"
    using arg_cong [OF td'(2), of "\<lambda>xs. concat (map (\<lambda>sss. concat (map ss_Spans sss)) xs)"] by (simp add: traces_spans_def rs_spans_def [abs_def] comp_def)
  have exported: "trace_Export socket_proc_ops nc (Some (a, b)) (Some s) td =
      Some (Some s, Some td', case nc td' of Some err \<Rightarrow> GetStatusFromError err | None \<Rightarrow> None)"
    "trace_ExportHttp socket_proc_ops nc a b (Some s) td =
      Some (Some s, Some td', case nc td' of Some err \<Rightarrow> GetStatusFromError err | None \<Rightarrow> None)"
    using ask td'(1) td(1) by (simp_all add: trace_Export_def trace_ExportHttp_def export_with_def)
  obtain blk' out e where block: "tbp_ConsumeTraces api next_err clock td' blk = (blk', out, e)" by (rule prod_cases3)
  note red = block_then_red [OF con labelled_reported [OF td'(1) peer(2) td(2)] block]
  have "set (plain_calls td') = {(process_caller ?pid (own_container ?cid rs) (own_service rs), sp) | rs sp. rs \<in> set td \<and> sp \<in> set (rs_spans rs)}"
    unfolding filled_calls [OF td'(1) peer(2) td(2)] by auto
  with red(2) have labels: "\<forall>(ca, sp) \<in> set (plain_calls (case out of None \<Rightarrow> [] | Some td1 \<Rightarrow> td1)). \<exists>rs \<in> set td. sp \<in> set (rs_spans rs) \<and>
       ca = process_caller ?pid (own_container ?cid rs) (own_service rs)" by blast
  from red(1) exported block labels show ?thesis unfolding spans by blast
qed

theorem otlp_pipeline_measured_witness:
  "\<exists>p td' blk' out e p'. newConnector demo_rt 0 demo_red_config = Inr p \<and>
     trace_Export socket_proc_ops (\<lambda>td. None) (Some (''127.0.0.1:40000'', ''127.0.0.1:4317'')) (Some demo_matched) demo_shop =
       Some (Some demo_matched, Some td', None) \<and>
     tbp_ConsumeTraces tb_demo_api (\<lambda>td. None) (\<lambda>n. 0) td' tb_demo_proc = (blk', out, e) \<and> red_after demo_rt 0 out p = Some p' \<and>
     fam_total demo_float (co_server p') = fam_total demo_float (co_server p) + 1"
proof -
  obtain p where p: "newConnector demo_rt 0 demo_red_config = Inr p" "co_entryUrlCache p = None" using demo_entry_free by blast
  note inv = new_connector_inv [OF demo_laws p(1)]
  obtain q where q: "fp_step (FP_Tick demo_fs) demo_asked = Some demo_matched" "ext_cached demo_matched ''127.0.0.1:40000'' = Some q"
    "owns demo_fs q ''127.0.0.1:40000'' 4317" by (rule demo_matched)
  have run: "fp_run [demo_question, FP_Tick demo_fs] demo_ext = Some demo_matched" "\<forall>ev \<in> set [demo_question, FP_Tick demo_fs]. ev_ok ev"
    using demo_run q(1) demo_ok by (simp_all add: bind_eq_Some_conv)
  have peer: "ext_cached demo_matched (peer_key ''127.0.0.1:40000'') = Some q" "0 < pi_ProcessID q"
    using q(2) demo_owner [OF q(3)] by (simp_all add: peer_key_def has_prefix_def)
  let ?kept = "kept_spans (snd (decisions tb_demo_api (\<lambda>n. 0) 0 (traces_spans demo_shop) tb_demo_proc))"
  have td: "traces_spans demo_shop \<noteq> []" "\<forall>rs \<in> set demo_shop. takes_peer (pi_ContainerId q) rs"
    by (simp_all add: demo_shop_def traces_spans_def rs_spans_def takes_peer_def getBeylaPid_def getContainerId_def own_service_def)
  have "filter (\<lambda>sp. span_lasts sp \<and> server_counts demo_red_config sp) ?kept = traces_spans demo_shop" "length (traces_spans demo_shop) = 1"
    by (simp_all add: demo_shop_def traces_spans_def rs_spans_def span_lasts_def server_counts_def zero_span_def demo_red_config_def drop_span_def
        shouldDrop_def tb_demo_api_def tb_demo_proc_def)
  then have count: "length (filter (\<lambda>sp. span_lasts sp \<and> server_counts (co_config p) sp) ?kept) = 1" by (simp add: inv(3))
  from otlp_pipeline_measured [OF run peer _ _ td demo_laws inv(1) p(2), of "''127.0.0.1:4317''" "\<lambda>td. None" tb_demo_api "\<lambda>td. None" "\<lambda>n. 0" tb_demo_proc 0]
  obtain td' err blk' out e p' where
    r: "trace_Export socket_proc_ops (\<lambda>td. None) (Some (''127.0.0.1:40000'', ''127.0.0.1:4317'')) (Some demo_matched) demo_shop =
       Some (Some demo_matched, Some td', err)"
    "tbp_ConsumeTraces tb_demo_api (\<lambda>td. None) (\<lambda>n. 0) td' tb_demo_proc = (blk', out, e)" "red_after demo_rt 0 out p = Some p'"
    "fam_total demo_float (co_server p') = fam_total demo_float (co_server p) + 1"
    unfolding count by (auto simp: demo_rt_def)
  moreover have "err = None" using r(1) td(1) by (auto simp: trace_Export_def export_with_def bind_eq_Some_conv)
  ultimately show ?thesis using p(1) by (intro exI [of _ p] exI [of _ td'] exI [of _ blk'] exI [of _ out] exI [of _ e] exI [of _ p']) simp
qed

text \<open>C7: Skywalking receiver and RED connector. Take a segment that can be converted (\<open>sw_convertible\<close>: no identifier panics, no nil reference, tag or log pair), in
  which \<open>CheckUndertow\<close> does not panic and finds no Undertow, with a service that is not empty, of a peer whose process number is positive and whose container is known; and a
  connector in a state that satisfies its invariant and does not match entry URLs (\<open>client_entry_url_enabled\<close> is off), on an LRU library that keeps its documented laws. The segment is converted and forwarded at once
  and all its spans are aggregated under the process of the peer, its container and the service of the segment. With server metrics enabled, the server metrics grow by one for
  each entry span of the segment: a span of type \<open>Entry\<close>, of any layer, with number 0 whose start lies before its end in nanoseconds of 64 bits. An entry span
  with equal times or another number and all other spans add nothing; with server metrics disabled nothing is added.\<close>

theorem skywalking_entries_measured:
  assumes "sw_convertible seg" "undertow_scan_of seg = Some u" "\<not> us_isUndertow u"
    and proc: "pid > 0" "cid \<noteq> []" "sg_Service seg \<noteq> []"
    and con: "lru_laws (rt_lru rt) look" "conn_inv look p" "co_entryUrlCache p = None"
  shows "\<exists>td p'. sw_consumeTraces lib (Some (pid, cid)) (Some seg) c = Some (c, Some td) \<and>
    plain_calls td = map (Pair (process_caller pid cid (sg_Service seg))) (traces_spans td) \<and>
    red_ConsumeTraces rt now td p = Some p' \<and> conn_inv look p' \<and>
    fam_total (rt_float rt) (co_server p') = fam_total (rt_float rt) (co_server p) +
      (if rc_ServerEnabled (co_config p) then of_nat (length (filter entry_of_segment (sw_spans seg))) else 0)"
proof -
  obtain td where td: "ProtoToTraces lib seg pid cid = Some td" using ProtoToTraces_total [OF assms(1)] by blast
  note calls = segment_calls [OF td proc]
  obtain p' where "aggregate_calls rt (plain_calls td) p = Some p'" "conn_inv look p'"
    "fam_total (rt_float rt) (co_server p') = fam_total (rt_float rt) (co_server p) +
       of_nat (length (filter (\<lambda>c. span_lasts (snd c) \<and> server_counts (co_config p) (snd c)) (plain_calls td)))"
    using calls_counted [OF con(1,2)] by blast
  moreover have "sw_consumeTraces lib (Some (pid, cid)) (Some seg) c = Some (c, Some td)"
    using assms(2,3) by (simp add: sw_consumeTraces_def td CheckUndertow_def)
  ultimately show ?thesis
    using calls converted_entries [OF td, of "co_config p"] consume_without_cache [OF con(3)]
    by (auto simp: filter_map comp_def)
qed

theorem skywalking_entries_measured_witness:
  "\<exists>p td p'. newConnector demo_rt 0 demo_red_config = Inr p \<and>
     sw_consumeTraces demo_sw_lib (Some (7, ''c1'')) (Some demo_tomcat) new_undertow_cache = Some (new_undertow_cache, Some td) \<and>
     red_ConsumeTraces demo_rt 0 td p = Some p' \<and> fam_total demo_float (co_server p') = fam_total demo_float (co_server p) + 1"
proof -
  obtain p where p: "newConnector demo_rt 0 demo_red_config = Inr p" "co_entryUrlCache p = None" using demo_entry_free by blast
  note inv = new_connector_inv [OF demo_laws p(1)]
  have seg: "sw_convertible demo_tomcat" "undertow_scan_of demo_tomcat = Some \<lparr>us_isUndertow = False, us_routeUrl = [], us_parentSegmentId = []\<rparr>"
    "filter entry_of_segment (sw_spans demo_tomcat) = [demo_sw_span\<lparr>sw_ComponentId := 1\<rparr>]" "sg_Service demo_tomcat = ''svc''"
    by (simp_all add: demo_tomcat_def demo_sw_defs sw_convertible_def sw_span_ok_def sw_id_panics_def sw_spans_def List.map_filter_simps undertow_span_def
        entry_of_segment_def microsecondsToTimestamp_def)
  have "rc_ServerEnabled demo_red_config" "rt_float demo_rt = demo_float" by (simp_all add: demo_red_config_def demo_rt_def)
  with skywalking_entries_measured [OF seg(1,2) _ _ _ _ demo_laws inv(1) p(2), of 7 "''c1''" demo_sw_lib new_undertow_cache 0] p(1) inv(3) seg(3,4)
  show ?thesis by auto
qed

text \<open>C8: Remote write and metadata processor. When the handler of the receiver accepts a request and sends a batch (it answers 400 and sends nothing as soon as one series of
  the request has no name label or no sample), then each sample that is a number, of a series whose name is not empty, that is labelled with a known container and whose name starts
  with a configured prefix, leaves the processor as a point of the metric of that name with its time, its value, every label but the name, and all
  attributes of the pod, which win over labels of the same key.\<close>

theorem remote_write_enriched:
  fixes md :: "'h metrics"
  assumes "parser_ok p" "range_ok range_order" "prw_handler conv range_order (Inr req) p = (SendThenAccept md, p')"
    and ts: "ts \<in> set (wr_Timeseries req)" "getLabelValue (ts_Labels ts) ''__name__'' = Some name" "name \<noteq> []"
      "s \<in> set (ts_Samples ts)" "sa_Value s \<noteq> NaN"
    and pod: "container_label ts = Some cid" "cid \<noteq> []" "querier cid = Some pod"
    and prefix: "pre \<in> set (mc_MetricPrefixs (mp_cfg m))" "has_prefix name pre"
  shows "\<exists>met \<in> set (all_metrics (fst (meta_ConsumeMetrics m querier nxt md))). pm_Name met = name \<and>
    (\<exists>q \<in> set (number_points (pm_Data met)). np_Timestamp q = millis_timestamp (sa_Timestamp s) \<and>
       np_Value q = np_Value (setFloatOrInt conv (sa_Value s) empty_point) \<and>
       (\<forall>k. map_load (np_Attributes q) k =
          (case map_of (pod_attrs pod) k of
             Some v \<Rightarrow> Some (ValueStr v)
           | None \<Rightarrow> if k = ''__name__'' then None else map_option ValueStr (map_of (rev (ts_Labels ts)) k))))"
proof -
  let ?m = "series_metric conv ts :: 'h pmetric" and ?q = "sample_point conv (ts_Labels ts) s"
  have "named ts" using ts(2,3) by (simp add: named_def)
  have sent: "fromPrometheusWriteRequestMetrics conv range_order req p = (md, [], p')"
    using assms(3) by (auto simp: prw_handler_def Let_def split: prod.splits if_splits)
  from translation [OF assms(1,2), of conv req, where ?'a = 'h] sent obtain ms where
    ms: "mset ms = mset (map (series_metric conv :: time_series \<Rightarrow> 'h pmetric) (filter named (wr_Timeseries req)))" "set ms \<subseteq> set (all_metrics md)"
    by (elim exE conjE) (rule that, assumption, auto simp: all_metrics_def)
  have "?m \<in> set ms" using \<open>named ts\<close> ts(1) mset_eq_setD [OF ms(1)] by auto
  then have "consume_metric m querier ?m \<in> set (all_metrics (fst (meta_ConsumeMetrics m querier nxt md)))"
    using ms(2) by (auto simp: ConsumeMetrics_all)
  moreover have name: "pm_Name ?m = name"
    using ts(2) by (simp add: series_metric_def md_metric_def scaffoldNewMetric_def series_data_def ExtractMetricNameLabel_def)
  moreover have "need_fill (mc_MetricPrefixs (mp_cfg m)) name" using prefix by (auto simp: need_fill_iff)
  moreover have "?q \<in> set (number_points (pm_Data ?m))"
    using ts(4,5) by (simp add: series_metric_def md_metric_def scaffoldNewMetric_def family_kind_def md_points_def series_data_def)
  then have "?q\<lparr>np_Attributes := fillPodInfo querier (np_Attributes ?q)\<rparr> \<in> set (number_points (FillWithK8sMetadata querier (pm_Data ?m)))"
    by (cases "pm_Data ?m") (auto simp: fill_numbers_def)
  moreover have "pod_of querier (np_Attributes ?q) = Some pod"
    using pod by (simp add: pod_of_def sample_point_attrs filter_label container_label_def)
  ultimately show ?thesis
    by (intro bexI [of _ "consume_metric m querier ?m"] conjI bexI [of _ "?q\<lparr>np_Attributes := fillPodInfo querier (np_Attributes ?q)\<rparr>"])
      (simp_all add: consume_metric_def fill_load sample_point_times sample_point_labels cong: option.case_cong)
qed

theorem remote_write_enriched_witness:
  "\<exists>(md :: unit metrics) p'. prw_handler cvttsd2sq id (Inr \<lparr>wr_Timeseries = [demo_series], wr_Metadata = 0\<rparr>) newPrometheusRemoteOtelParser = (SendThenAccept md, p') \<and>
     (\<exists>met \<in> set (all_metrics (fst (meta_ConsumeMetrics (newMetadataProcessor meta_createDefaultConfig) demo_pod (\<lambda>_. None :: string option) md))).
       pm_Name met = ''kindling_total'' \<and> (\<exists>q \<in> set (number_points (pm_Data met)). map_load (np_Attributes q) ''pod'' = Some (ValueStr ''p'')))"
proof -
  let ?req = "\<lparr>wr_Timeseries = [demo_series], wr_Metadata = 0\<rparr>"
  have "concat (map series_errors (wr_Timeseries ?req)) = []" by (simp add: series_errors_def ExtractMetricNameLabel_def demo_series_def)
  with translation [OF demo_parser, of cvttsd2sq ?req, where ?'a = unit] obtain md p' where
    "fromPrometheusWriteRequestMetrics cvttsd2sq id ?req newPrometheusRemoteOtelParser = (md :: unit metrics, [], p')" by auto
  then have r: "prw_handler cvttsd2sq id (Inr ?req) newPrometheusRemoteOtelParser = (SendThenAccept md, p')" by (simp add: prw_handler_def)
  have ts: "demo_series \<in> set (wr_Timeseries ?req)" "getLabelValue (ts_Labels demo_series) ''__name__'' = Some ''kindling_total''"
    "''kindling_total'' \<noteq> []" "\<lparr>sa_Value = Fin 3, sa_Timestamp = 7\<rparr> \<in> set (ts_Samples demo_series)" "sa_Value \<lparr>sa_Value = Fin 3, sa_Timestamp = 7\<rparr> \<noteq> NaN"
    "container_label demo_series = Some ''c1''" "''c1'' \<noteq> []"
    by (simp_all add: demo_series_def container_label_def)
  have pod: "demo_pod ''c1'' = Some \<lparr>pod_Name = ''p'', pod_NS = ''n'', pod_NodeName = ''w'', pod_Owners = [(''RS'', ''r''), (''Deploy'', ''d'')]\<rparr>"
    by (simp add: demo_pod_def)
  have pre: "''kindling_'' \<in> set (mc_MetricPrefixs (mp_cfg (newMetadataProcessor meta_createDefaultConfig)))" "has_prefix ''kindling_total'' ''kindling_''"
    by (simp_all add: newMetadataProcessor_def meta_createDefaultConfig_def has_prefix_def)
  have key: "map_of (pod_attrs \<lparr>pod_Name = ''p'', pod_NS = ''n'', pod_NodeName = ''w'', pod_Owners = [(''RS'', ''r''), (''Deploy'', ''d'')]\<rparr>) ''pod'' = Some ''p''"
    by (simp add: pod_attrs_def)
  from remote_write_enriched [where querier = demo_pod and nxt = "\<lambda>_. None :: string option", OF demo_parser r ts pod pre]
  obtain met q where "met \<in> set (all_metrics (fst (meta_ConsumeMetrics (newMetadataProcessor meta_createDefaultConfig) demo_pod (\<lambda>_. None :: string option) md)))"
    "pm_Name met = ''kindling_total''" "q \<in> set (number_points (pm_Data met))" "map_load (np_Attributes q) ''pod'' = Some (ValueStr ''p'')"
    using key by force
  with r show ?thesis by blast
qed

end
